(* ===== verification/Prelude.thy ===== *)
theory Prelude
  imports Main "HOL-Library.Monad_Syntax" "HOL-Library.Multiset" "HOL-Library.Word"
begin

text \<open>
  Shared vocabulary of the development: the type of memory results (the value \<open>None\<close> stands for
  an access to memory that is not allocated, or for a loop that does not return), C addresses,
  the collections of facts the component theories extend, and generic lemmas on lists and
  options that several components use.
\<close>

subsection \<open>Types\<close>

text \<open>An address of a heap object. A C pointer is an \<open>addr option\<close>, with \<open>None\<close> for NULL.\<close>

type_synonym addr = nat

text \<open>The result of code that dereferences pointers: \<open>None\<close> is undefined behaviour.\<close>

type_synonym 'a mem = "'a option"

subsection \<open>Collections\<close>

named_theorems mem_simps \<open>unfolding rules of the pointer-level operations\<close>
named_theorems inv_intros \<open>introduction rules for the components' invariants\<close>
named_theorems step_simps \<open>unfolding rules of the components' step functions\<close>

subsection \<open>Options and lists\<close>

lemma butlast_snoc_iff: "xs \<noteq> [] \<Longrightarrow> \<exists>ys y. xs = ys @ [y]"
  by (metis append_butlast_last_id)

lemma find_append:
  "List.find P (xs @ ys) = (case List.find P xs of None \<Rightarrow> List.find P ys | Some x \<Rightarrow> Some x)"
  by (induction xs) auto

lemma find_filter_None: "List.find P xs = None \<longleftrightarrow> filter P xs = []"
  by (induction xs) auto

lemma find_Some_split:
  "List.find P xs = Some x \<Longrightarrow> \<exists>ys zs. xs = ys @ x # zs \<and> P x \<and> (\<forall>y\<in>set ys. \<not> P y)"
proof (induction xs)
  case (Cons a xs)
  show ?case
  proof (cases "P a")
    case True
    with Cons.prems have "a # xs = [] @ x # xs \<and> P x \<and> (\<forall>y\<in>set []. \<not> P y)" by simp
    then show ?thesis by blast
  next
    case False
    with Cons.prems Cons.IH obtain ys zs where "xs = ys @ x # zs" "P x" "\<forall>y\<in>set ys. \<not> P y" by auto
    with False have "a # xs = (a # ys) @ x # zs \<and> P x \<and> (\<forall>y\<in>set (a # ys). \<not> P y)" by simp
    then show ?thesis by blast
  qed
qed simp

lemma find_Some_in: "List.find P xs = Some x \<Longrightarrow> x \<in> set xs \<and> P x"
  using find_Some_split [of P xs x] by auto

lemma filter_none: "\<forall>y\<in>set ys. \<not> P y \<Longrightarrow> filter P ys = [] \<and> filter (\<lambda>y. \<not> P y) ys = ys"
  by (induction ys) auto

subsection \<open>Systems of actions\<close>

text \<open>
  A component whose callers may invoke its operations in any order is a step function on its state;
  a run is any sequence of actions. Every such component proves that its invariant makes each action
  succeed and that the action keeps it; what holds of all runs then follows.
\<close>

fun run_steps :: "('a \<Rightarrow> 's \<Rightarrow> 's mem) \<Rightarrow> 'a list \<Rightarrow> 's \<Rightarrow> 's mem" where
  "run_steps step [] s = Some s"
| "run_steps step (a # as) s = Option.bind (step a s) (run_steps step as)"

lemma run_steps_append:
  "run_steps step (as @ bs) s = Option.bind (run_steps step as s) (run_steps step bs)"
  by (induction as arbitrary: s) (auto split: bind_split)

locale safe_system =
  fixes step :: "'a \<Rightarrow> 's \<Rightarrow> 's mem" and inv :: "'s \<Rightarrow> bool"
  assumes step_safe: "inv s \<Longrightarrow> \<exists>s'. step a s = Some s' \<and> inv s'"
begin

lemma run_safe: "inv s \<Longrightarrow> \<exists>s'. run_steps step as s = Some s' \<and> inv s'"
proof (induction as arbitrary: s)
  case (Cons a as)
  obtain s1 where "step a s = Some s1" "inv s1" using step_safe [OF Cons.prems] by blast
  with Cons.IH [of s1] show ?case by simp
qed simp

lemma run_inv: "inv s \<Longrightarrow> run_steps step as s = Some s' \<Longrightarrow> inv s'"
  using run_safe [of s as] by auto

lemma step_inv: "inv s \<Longrightarrow> step a s = Some s' \<Longrightarrow> inv s'"
  using step_safe [of s a] by auto

end

text \<open>The same for components with threads, whose steps are a relation.\<close>

locale step_relation =
  fixes steps :: "'s \<Rightarrow> 's \<Rightarrow> bool" and kept :: "'s \<Rightarrow> bool"
  assumes step_keeps: "steps s s' \<Longrightarrow> kept s \<Longrightarrow> kept s'"
begin

lemma reachable_keeps: "steps\<^sup>*\<^sup>* s s' \<Longrightarrow> kept s \<Longrightarrow> kept s'"
  by (induction rule: rtranclp_induct) (auto intro: step_keeps)

end

end
