(* ===== verification/Linked_List.thy ===== *)
theory Linked_List
  imports Prelude
begin

text \<open>
  The doubly linked list of \<open>gps/utils/linked_list.c\<close>, at the level of its pointers. The state is
  the \<open>list_state\<close> of the source together with the elements it has allocated; every access through
  a pointer that is not allocated yields \<open>None\<close>, and so does a loop that never returns. The
  abstraction \<open>represents\<close> relates a state to the list of its (data, dealloc) pairs, from head to
  tail, and the refinement lemmas show that each operation succeeds on a represented state and
  acts on the abstract list as the operations \<open>ls_add\<close>, \<open>ls_remove\<close>, \<open>ls_search\<close> do.
\<close>

subsection \<open>Data\<close>

datatype linked_list_err_type =
    eLINKED_LIST_SUCCESS
  | eLINKED_LIST_FAILURE_GENERAL
  | eLINKED_LIST_INVALID_PARAMETER
  | eLINKED_LIST_INVALID_HANDLE
  | eLINKED_LIST_UNAVAILABLE_RESOURCE
  | eLINKED_LIST_INSUFFICIENT_BUFFER

text \<open>
  \<open>dealloc_func\<close> records whether the element has a deallocation callback; the calls of these
  callbacks are logged in \<open>dealloced\<close>, the latest last.
\<close>

record 'd list_element =
  next_p :: "addr option"
  prev_p :: "addr option"
  data_ptr :: 'd
  dealloc_func :: bool

record 'd list_state =
  p_head :: "addr option"
  p_tail :: "addr option"
  cells :: "addr \<Rightarrow> 'd list_element option"
  dealloced :: "'d list"

text \<open>Reading and writing an element through a pointer.\<close>

definition load :: "'d list_state \<Rightarrow> addr \<Rightarrow> 'd list_element mem" where
  "load s a = cells s a"

definition store ::
  "('d list_element \<Rightarrow> 'd list_element) \<Rightarrow> addr \<Rightarrow> 'd list_state \<Rightarrow> 'd list_state mem" where
  "store f a s = (case cells s a of
      None \<Rightarrow> None
    | Some e \<Rightarrow> Some (s\<lparr>cells := (cells s)(a \<mapsto> f e)\<rparr>))"

definition free_cell :: "addr \<Rightarrow> 'd list_state \<Rightarrow> 'd list_state mem" where
  "free_cell a s = (case cells s a of
      None \<Rightarrow> None
    | Some _ \<Rightarrow> Some (s\<lparr>cells := (cells s)(a := None)\<rparr>))"

definition call_dealloc :: "'d list_element \<Rightarrow> 'd list_state \<Rightarrow> 'd list_state" where
  "call_dealloc e s = (if dealloc_func e then s\<lparr>dealloced := dealloced s @ [data_ptr e]\<rparr> else s)"

definition empty_list_state :: "'d list_state" where
  "empty_list_state = \<lparr>p_head = None, p_tail = None, cells = (\<lambda>_. None), dealloced = []\<rparr>"

subsection \<open>Operations\<close>

text \<open>
  A handle \<open>void *list_data\<close> is a \<open>list_state option\<close> (\<open>None\<close> for NULL); a \<open>void **list_data\<close>
  is one more \<open>option\<close>. The first argument of the allocating operations is the result of
  \<open>calloc\<close> or \<open>malloc\<close>.
\<close>

definition linked_list_init ::
  "bool \<Rightarrow> 'd list_state option option \<Rightarrow>
   linked_list_err_type \<times> 'd list_state option option" where
  "linked_list_init calloc_ok list_data =
    (case list_data of
       None \<Rightarrow> (eLINKED_LIST_INVALID_PARAMETER, None)
     | Some old \<Rightarrow>
         if \<not> calloc_ok then (eLINKED_LIST_FAILURE_GENERAL, Some old)
         else (eLINKED_LIST_SUCCESS, Some (Some empty_list_state)))"

definition linked_list_add ::
  "addr option \<Rightarrow> 'd list_state option \<Rightarrow> 'd option \<Rightarrow> bool \<Rightarrow>
   (linked_list_err_type \<times> 'd list_state option) mem" where
  "linked_list_add malloc_res list_data data_obj dealloc =
    (case list_data of
       None \<Rightarrow> Some (eLINKED_LIST_INVALID_HANDLE, None)
     | Some p_list \<Rightarrow>
    (case data_obj of
       None \<Rightarrow> Some (eLINKED_LIST_INVALID_PARAMETER, Some p_list)
     | Some d \<Rightarrow>
    (case malloc_res of
       None \<Rightarrow> Some (eLINKED_LIST_FAILURE_GENERAL, Some p_list)
     | Some elem \<Rightarrow> do {
         let e = \<lparr>next_p = None, prev_p = None, data_ptr = d, dealloc_func = dealloc\<rparr>;
         let s0 = p_list\<lparr>cells := (cells p_list)(elem \<mapsto> e)\<rparr>;
         let tmp = p_head s0;
         let s1 = s0\<lparr>p_head := Some elem\<rparr>;
         s2 \<leftarrow> store (next_p_update (\<lambda>_. tmp)) elem s1;
         s3 \<leftarrow> (case tmp of
                  Some t \<Rightarrow> store (prev_p_update (\<lambda>_. p_head s2)) t s2
                | None \<Rightarrow> Some (s2\<lparr>p_tail := p_head s2\<rparr>));
         Some (eLINKED_LIST_SUCCESS, Some s3)
       })))"

text \<open>
  \<open>data_obj\<close> is the out parameter: \<open>None\<close> for NULL, otherwise the current content of the slot.
\<close>

definition linked_list_remove ::
  "'d list_state option \<Rightarrow> 'd option option \<Rightarrow>
   (linked_list_err_type \<times> 'd list_state option \<times> 'd option option) mem" where
  "linked_list_remove list_data data_obj =
    (case list_data of
       None \<Rightarrow> Some (eLINKED_LIST_INVALID_HANDLE, None, data_obj)
     | Some p_list \<Rightarrow>
    (case data_obj of
       None \<Rightarrow> Some (eLINKED_LIST_INVALID_PARAMETER, Some p_list, None)
     | Some old \<Rightarrow>
    (case p_tail p_list of
       None \<Rightarrow> Some (eLINKED_LIST_UNAVAILABLE_RESOURCE, Some p_list, Some old)
     | Some tmp \<Rightarrow> do {
         e \<leftarrow> load p_list tmp;
         let s1 = p_list\<lparr>p_tail := prev_p e\<rparr>;
         s2 \<leftarrow> (case p_tail s1 of
                  Some t \<Rightarrow> store (next_p_update (\<lambda>_. None)) t s1
                | None \<Rightarrow> Some (s1\<lparr>p_head := p_tail s1\<rparr>));
         e' \<leftarrow> load s2 tmp;
         s3 \<leftarrow> free_cell tmp s2;
         Some (eLINKED_LIST_SUCCESS, Some s3, Some (Some (data_ptr e')))
       })))"

text \<open>The source returns an \<open>int\<close>: the error code \<open>-3\<close> for a NULL handle, else 1 or 0.\<close>

definition linked_list_empty :: "'d list_state option \<Rightarrow> int" where
  "linked_list_empty list_data =
    (case list_data of
       None \<Rightarrow> -3
     | Some p_list \<Rightarrow> (if p_head p_list = None then 1 else 0))"

partial_function (option) flush_loop :: "'d list_state \<Rightarrow> 'd list_state mem" where
  "flush_loop s =
    (case p_head s of
       None \<Rightarrow> Some s
     | Some h \<Rightarrow> do {
         e \<leftarrow> load s h;
         let tmp = next_p e;
         s2 \<leftarrow> free_cell h (call_dealloc e s);
         flush_loop (s2\<lparr>p_head := tmp\<rparr>)
       })"

definition linked_list_flush ::
  "'d list_state option \<Rightarrow> (linked_list_err_type \<times> 'd list_state option) mem" where
  "linked_list_flush list_data =
    (case list_data of
       None \<Rightarrow> Some (eLINKED_LIST_INVALID_HANDLE, None)
     | Some p_list \<Rightarrow> do {
         s \<leftarrow> flush_loop p_list;
         Some (eLINKED_LIST_SUCCESS, Some (s\<lparr>p_tail := None\<rparr>))
       })"

text \<open>\<open>linked_list_destroy\<close> also returns the final content of the list, for its dealloc log.\<close>

definition linked_list_destroy ::
  "'d list_state option option \<Rightarrow>
   (linked_list_err_type \<times> 'd list_state option option \<times> 'd list_state option) mem" where
  "linked_list_destroy list_data =
    (case list_data of
       None \<Rightarrow> Some (eLINKED_LIST_INVALID_HANDLE, None, None)
     | Some p_list \<Rightarrow> do {
         (_, flushed) \<leftarrow> linked_list_flush p_list;
         Some (eLINKED_LIST_SUCCESS, Some None, flushed)
       })"

text \<open>
  The search walks from the head and calls \<open>equal\<close> on every element until it answers true. The
  callback may have effects, which is why it threads a world \<open>'w\<close>. \<open>data_p\<close> is the out
  parameter as above; a removed element is deallocated only when it is not copied out.
\<close>

definition unlink :: "addr \<Rightarrow> 'd list_state \<Rightarrow> 'd list_state mem" where
  "unlink tmp s0 = do {
     e \<leftarrow> load s0 tmp;
     s1 \<leftarrow> (case prev_p e of
              None \<Rightarrow> Some (s0\<lparr>p_head := next_p e\<rparr>)
            | Some p \<Rightarrow> store (next_p_update (\<lambda>_. next_p e)) p s0);
     e1 \<leftarrow> load s1 tmp;
     s2 \<leftarrow> (case next_p e1 of
              None \<Rightarrow> Some (s1\<lparr>p_tail := prev_p e1\<rparr>)
            | Some n \<Rightarrow> store (prev_p_update (\<lambda>_. prev_p e1)) n s1);
     store (\<lambda>c. c\<lparr>prev_p := None, next_p := None\<rparr>) tmp s2
   }"

partial_function (option) search_loop ::
  "('d \<Rightarrow> 'w \<Rightarrow> bool \<times> 'w) \<Rightarrow> bool \<Rightarrow> addr option \<Rightarrow>
   'd option option \<Rightarrow> 'd list_state \<Rightarrow> 'w \<Rightarrow>
   ('d option option \<times> 'd list_state \<times> 'w) mem" where
  "search_loop equal rm_if_found tmp data_p s w =
    (case tmp of
       None \<Rightarrow> Some (data_p, s, w)
     | Some a \<Rightarrow> do {
         e \<leftarrow> load s a;
         let (found, w') = equal (data_ptr e) w;
         if found then do {
           let out = (if data_p \<noteq> None then Some (Some (data_ptr e)) else None);
           if rm_if_found then do {
             s1 \<leftarrow> unlink a s;
             e1 \<leftarrow> load s1 a;
             s2 \<leftarrow> free_cell a (if data_p = None then call_dealloc e1 s1 else s1);
             Some (out, s2, w')
           } else Some (out, s, w')
         } else search_loop equal rm_if_found (next_p e) data_p s w'
       })"

definition linked_list_search ::
  "'d list_state option \<Rightarrow> 'd option option \<Rightarrow> ('d \<Rightarrow> 'w \<Rightarrow> bool \<times> 'w) option \<Rightarrow> bool \<Rightarrow> 'w \<Rightarrow>
   (linked_list_err_type \<times> 'd list_state option \<times> 'd option option \<times> 'w) mem" where
  "linked_list_search list_data data_p equal rm_if_found w =
    (case list_data of
       None \<Rightarrow> Some (eLINKED_LIST_INVALID_HANDLE, None, data_p, w)
     | Some p_list \<Rightarrow>
    (case equal of
       None \<Rightarrow> Some (eLINKED_LIST_INVALID_HANDLE, Some p_list, data_p, w)
     | Some eq \<Rightarrow>
         if p_tail p_list = None
         then Some (eLINKED_LIST_UNAVAILABLE_RESOURCE, Some p_list, data_p, w)
         else do {
           (out, s, w') \<leftarrow> search_loop eq rm_if_found (p_head p_list)
                             (map_option (\<lambda>_. None) data_p) p_list w;
           Some (eLINKED_LIST_SUCCESS, Some s, out, w')
         }))"

lemmas list_mem_simps [mem_simps] =
  load_def store_def free_cell_def call_dealloc_def Let_def

subsection \<open>Abstraction: doubly linked segments\<close>

text \<open>
  \<open>dlseg h pr p as pr' q\<close>: starting at pointer \<open>p\<close>, whose predecessor is \<open>pr\<close>, the elements at
  \<open>as\<close> are linked in both directions and lead to the pointer \<open>q\<close> with predecessor \<open>pr'\<close>.
\<close>

fun dlseg ::
  "(addr \<Rightarrow> 'd list_element option) \<Rightarrow> addr option \<Rightarrow> addr option \<Rightarrow> addr list \<Rightarrow>
   addr option \<Rightarrow> addr option \<Rightarrow> bool" where
  "dlseg h pr p [] pr' q \<longleftrightarrow> p = q \<and> pr = pr'"
| "dlseg h pr p (a # as) pr' q \<longleftrightarrow> p = Some a \<and>
     (case h a of None \<Rightarrow> False
      | Some e \<Rightarrow> prev_p e = pr \<and> dlseg h (Some a) (next_p e) as pr' q)"

definition wf_list :: "'d list_state \<Rightarrow> addr list \<Rightarrow> bool" where
  "wf_list s as \<longleftrightarrow> dlseg (cells s) None (p_head s) as (p_tail s) None \<and>
     distinct as \<and> dom (cells s) = set as"

definition content :: "(addr \<Rightarrow> 'd list_element option) \<Rightarrow> addr list \<Rightarrow> ('d \<times> bool) list" where
  "content h as = map (\<lambda>a. (data_ptr (the (h a)), dealloc_func (the (h a)))) as"

definition represents :: "'d list_state \<Rightarrow> ('d \<times> bool) list \<Rightarrow> bool" where
  "represents s xs \<longleftrightarrow> (\<exists>as. wf_list s as \<and> xs = content (cells s) as)"

lemma content_simps [simp]:
  "content h [] = []"
  "content h (a # as) = (data_ptr (the (h a)), dealloc_func (the (h a))) # content h as"
  "content h (as @ bs) = content h as @ content h bs"
  by (simp_all add: content_def)

lemma content_cong:
  "(\<And>a. a \<in> set as \<Longrightarrow> data_ptr (the (h a)) = data_ptr (the (h' a)) \<and>
      dealloc_func (the (h a)) = dealloc_func (the (h' a))) \<Longrightarrow>
   content h as = content h' as"
  by (simp add: content_def)

lemma content_upd [simp]: "a \<notin> set as \<Longrightarrow> content (h(a := v)) as = content h as"
  by (rule content_cong) auto

lemma dlseg_append:
  "dlseg h pr p (as @ bs) pr' q \<longleftrightarrow>
     (\<exists>m mp. dlseg h pr p as mp m \<and> dlseg h mp m bs pr' q)"
  by (induction as arbitrary: pr p) (auto split: option.splits)

lemma dlseg_upd [simp]: "a \<notin> set as \<Longrightarrow> dlseg (h(a := v)) pr p as pr' q = dlseg h pr p as pr' q"
  by (induction as arbitrary: pr p) (auto split: option.splits)

lemma dlseg_dom: "dlseg h pr p as pr' q \<Longrightarrow> a \<in> set as \<Longrightarrow> \<exists>e. h a = Some e"
  by (induction as arbitrary: pr p) (auto split: option.splits)

lemma dlseg_head: "dlseg h pr p as pr' None \<Longrightarrow> (p = None) = (as = [])"
  by (cases as) auto

lemma dlseg_tail: "dlseg h None p as pr' q \<Longrightarrow> (pr' = None) = (as = [])"
proof (cases as rule: rev_cases)
  case (snoc ys y)
  moreover assume "dlseg h None p as pr' q"
  ultimately show ?thesis by (auto simp: dlseg_append split: option.splits)
qed auto

lemma wf_list_empty [intro]: "wf_list empty_list_state []"
  by (simp add: wf_list_def empty_list_state_def)

lemma represents_empty [simp]: "represents empty_list_state []"
  unfolding represents_def using wf_list_empty by fastforce

lemma represents_head: "represents s xs \<Longrightarrow> (p_head s = None) = (xs = [])"
  by (auto simp: represents_def wf_list_def content_def dest: dlseg_head)

lemma represents_tail: "represents s xs \<Longrightarrow> (p_tail s = None) = (xs = [])"
  by (auto simp: represents_def wf_list_def content_def dest: dlseg_tail)

lemma represents_unique: "represents s xs \<Longrightarrow> represents s ys \<Longrightarrow> xs = ys"
proof -
  have "dlseg h pr p as pr1 None \<Longrightarrow> dlseg h pr p bs pr2 None \<Longrightarrow> as = bs"
    for h :: "addr \<Rightarrow> 'a list_element option" and pr p as bs pr1 pr2
  proof (induction as arbitrary: pr p bs)
    case Nil
    then show ?case by (cases bs) auto
  next
    case (Cons a as)
    then show ?case by (cases bs) (auto split: option.splits)
  qed
  then show "represents s xs \<Longrightarrow> represents s ys \<Longrightarrow> xs = ys"
    by (fastforce simp: represents_def wf_list_def)
qed

subsection \<open>Refinement: adding and removing\<close>

lemma add_represents:
  assumes "represents s xs" and "cells s a = None"
  shows "\<exists>s'. linked_list_add (Some a) (Some s) (Some d) f = Some (eLINKED_LIST_SUCCESS, Some s') \<and>
    represents s' ((d, f) # xs) \<and> dealloced s' = dealloced s \<and>
    dom (cells s') = insert a (dom (cells s))"
proof -
  from assms obtain as where wf: "wf_list s as" and xs: "xs = content (cells s) as"
    by (auto simp: represents_def)
  from wf assms have a: "a \<notin> set as" by (auto simp: wf_list_def)
  show ?thesis
  proof (cases as)
    case Nil
    with wf xs a show ?thesis
      by (auto simp: linked_list_add_def mem_simps represents_def wf_list_def
          intro!: exI [of _ "[a]"])
  next
    case (Cons b bs)
    with wf obtain e where e: "cells s b = Some e" "prev_p e = None"
        "dlseg (cells s) (Some b) (next_p e) bs (p_tail s) None" "p_head s = Some b"
      by (auto simp: wf_list_def split: option.splits)
    from a Cons wf have d: "a \<noteq> b" "a \<notin> set bs" "b \<notin> set bs" by (auto simp: wf_list_def)
    from Cons wf xs e d show ?thesis
      by (auto simp: linked_list_add_def mem_simps represents_def wf_list_def
          intro!: exI [of _ "a # b # bs"] split: option.splits)
  qed
qed

lemma remove_represents:
  assumes "represents s xs" and "xs \<noteq> []"
  shows "\<exists>s'. linked_list_remove (Some s) (Some old) =
      Some (eLINKED_LIST_SUCCESS, Some s', Some (Some (fst (last xs)))) \<and>
    represents s' (butlast xs) \<and> dealloced s' = dealloced s"
proof -
  from assms obtain as where wf: "wf_list s as" and xs: "xs = content (cells s) as"
    by (auto simp: represents_def)
  with assms(2) have "as \<noteq> []" by auto
  then obtain bs t where as: "as = bs @ [t]" using butlast_snoc_iff by blast
  show ?thesis
  proof (cases bs rule: rev_cases)
    case Nil
    with wf as obtain e where e: "cells s t = Some e" "prev_p e = None"
        "p_tail s = Some t" "dom (cells s) = {t}"
      by (auto simp: wf_list_def split: option.splits)
    let ?s' = "s\<lparr>p_tail := None, p_head := None, cells := (cells s)(t := None)\<rparr>"
    have "linked_list_remove (Some s) (Some old) =
        Some (eLINKED_LIST_SUCCESS, Some ?s', Some (Some (data_ptr e)))"
      using e by (simp add: linked_list_remove_def mem_simps)
    moreover have "wf_list ?s' []" using e by (simp add: wf_list_def dom_fun_upd)
    moreover have "butlast xs = []" "fst (last xs) = data_ptr e" using xs as Nil e by simp_all
    moreover have "represents ?s' []"
      unfolding represents_def using \<open>wf_list ?s' []\<close> by (intro exI [of _ "[]"]) simp
    ultimately show ?thesis by (intro exI [of _ ?s']) simp
  next
    case (snoc cs c)
    have d: "c \<noteq> t" "c \<notin> set cs" "t \<notin> set cs" "distinct cs"
      using wf as snoc by (auto simp: wf_list_def)
    have dom: "dom (cells s) = insert t (insert c (set cs))"
      using wf as snoc by (auto simp only: wf_list_def set_append set_simps)
    have "dlseg (cells s) None (p_head s) (cs @ [c, t]) (p_tail s) None"
      using wf as snoc by (simp add: wf_list_def)
    then obtain mc m where 1: "dlseg (cells s) None (p_head s) cs mc m"
      and 2: "dlseg (cells s) mc m [c, t] (p_tail s) None"
      unfolding dlseg_append by blast
    from 2 obtain ec et where 3: "m = Some c" "cells s c = Some ec" "prev_p ec = mc"
        "cells s t = Some et" "prev_p et = Some c" "Some t = p_tail s"
      by (simp split: option.splits)
    note c = 1 [unfolded 3(1)] 3(2-5) 3(6) [symmetric]
    let ?h = "(cells s)(c \<mapsto> ec\<lparr>next_p := None\<rparr>, t := None)"
    let ?s' = "s\<lparr>p_tail := Some c, cells := ?h\<rparr>"
    have "linked_list_remove (Some s) (Some old) =
        Some (eLINKED_LIST_SUCCESS, Some ?s', Some (Some (data_ptr et)))"
      using c d by (simp add: linked_list_remove_def mem_simps)
    moreover have "dlseg ?h None (p_head s) (cs @ [c]) (Some c) None"
      using c d by (simp add: dlseg_append)
    moreover have "dom ?h = set (cs @ [c])"
      using dom d by (simp add: dom_fun_upd insert_absorb)
    ultimately have "wf_list ?s' (cs @ [c])" and eval: "linked_list_remove (Some s) (Some old) =
        Some (eLINKED_LIST_SUCCESS, Some ?s', Some (Some (data_ptr et)))"
      using d by (simp_all add: wf_list_def)
    moreover have "butlast xs = content ?h (cs @ [c])" "fst (last xs) = data_ptr et"
      using c d xs as snoc by (simp_all add: butlast_append)
    moreover have "represents ?s' (content ?h (cs @ [c]))"
      unfolding represents_def using \<open>wf_list ?s' (cs @ [c])\<close>
      by (intro exI [of _ "cs @ [c]"]) simp
    ultimately show ?thesis using eval by (intro exI [of _ ?s']) simp
  qed
qed

lemma remove_empty:
  "represents s [] \<Longrightarrow> linked_list_remove (Some s) (Some old) =
     Some (eLINKED_LIST_UNAVAILABLE_RESOURCE, Some s, Some old)"
  using represents_tail by (fastforce simp: linked_list_remove_def)

lemma empty_represents: "represents s xs \<Longrightarrow> linked_list_empty (Some s) = (if xs = [] then 1 else 0)"
  by (simp add: linked_list_empty_def represents_head)

subsection \<open>Refinement: flushing\<close>

definition dealloc_data :: "('d \<times> bool) list \<Rightarrow> 'd list" where
  "dealloc_data xs = map fst (filter snd xs)"

lemma dealloc_data_simps [simp]:
  "dealloc_data [] = []"
  "dealloc_data (x # xs) = (if snd x then fst x # dealloc_data xs else dealloc_data xs)"
  "dealloc_data (xs @ ys) = dealloc_data xs @ dealloc_data ys"
  by (simp_all add: dealloc_data_def)

lemma flush_loop_seg:
  assumes "dlseg (cells s) pr (p_head s) as pr' None" and "distinct as" and "dom (cells s) = set as"
  shows "\<exists>s'. flush_loop s = Some s' \<and> p_head s' = None \<and> cells s' = (\<lambda>_. None) \<and>
    dealloced s' = dealloced s @ dealloc_data (content (cells s) as)"
  using assms
proof (induction as arbitrary: s pr)
  case Nil
  then show ?case by (simp add: flush_loop.simps)
next
  case (Cons a as)
  then obtain e where e: "cells s a = Some e" "p_head s = Some a"
      "dlseg (cells s) (Some a) (next_p e) as pr' None" "a \<notin> set as" "distinct as"
    by (auto split: option.splits)
  let ?s = "(call_dealloc e s)\<lparr>cells := (cells s)(a := None), p_head := next_p e\<rparr>"
  have step: "flush_loop s = flush_loop ?s"
    by (subst flush_loop.simps) (use e in \<open>simp add: mem_simps\<close>)
  have "\<exists>s'. flush_loop ?s = Some s' \<and> p_head s' = None \<and> cells s' = (\<lambda>_. None) \<and>
    dealloced s' = dealloced ?s @ dealloc_data (content (cells ?s) as)"
  proof (rule Cons.IH [of ?s "Some a"])
    show "dlseg (cells ?s) (Some a) (p_head ?s) as pr' None" using e by simp
    show "distinct as" using e by simp
    show "dom (cells ?s) = set as" using e Cons.prems(3) by (simp add: dom_fun_upd)
  qed
  with step e show ?case by (cases "dealloc_func e") (simp_all add: call_dealloc_def)
qed

lemma flush_represents:
  assumes "represents s xs"
  shows "\<exists>s'. linked_list_flush (Some s) = Some (eLINKED_LIST_SUCCESS, Some s') \<and>
    represents s' [] \<and> dealloced s' = dealloced s @ dealloc_data xs \<and> cells s' = (\<lambda>_. None)"
proof -
  from assms obtain as where wf: "wf_list s as" and xs: "xs = content (cells s) as"
    by (auto simp: represents_def)
  with flush_loop_seg [of s None as "p_tail s"] obtain s' where
    s': "flush_loop s = Some s'" "p_head s' = None" "cells s' = (\<lambda>_. None)"
      "dealloced s' = dealloced s @ dealloc_data xs"
    by (auto simp: wf_list_def)
  then have "represents (s'\<lparr>p_tail := None\<rparr>) []"
    by (auto simp: represents_def wf_list_def intro!: exI [of _ "[]"])
  with s' show ?thesis by (simp add: linked_list_flush_def)
qed

subsection \<open>Refinement: searching\<close>

text \<open>
  The search on the abstract list: the element found, if any, the remaining list, and the world
  after the callbacks.
\<close>

fun ls_search ::
  "('d \<Rightarrow> 'w \<Rightarrow> bool \<times> 'w) \<Rightarrow> bool \<Rightarrow> ('d \<times> bool) list \<Rightarrow> 'w \<Rightarrow>
   ('d \<times> bool) option \<times> ('d \<times> bool) list \<times> 'w" where
  "ls_search equal rm [] w = (None, [], w)"
| "ls_search equal rm (x # xs) w =
    (let (found, w') = equal (fst x) w
     in if found then (Some x, (if rm then xs else x # xs), w')
        else (let (y, ys, w'') = ls_search equal rm xs w' in (y, x # ys, w'')))"

lemma unlink_segment:
  assumes wf: "wf_list s (ys @ a # zs)"
  shows "\<exists>s1. unlink a s = Some s1 \<and> dealloced s1 = dealloced s \<and>
    dom (cells s1) = dom (cells s) \<and>
    content (cells s1) (ys @ a # zs) = content (cells s) (ys @ a # zs) \<and>
    dlseg ((cells s1)(a := None)) None (p_head s1) (ys @ zs) (p_tail s1) None"
proof -
  from wf obtain mp ea where
      ys: "dlseg (cells s) None (p_head s) ys mp (Some a)"
    and ea: "cells s a = Some ea" "prev_p ea = mp"
    and zs: "dlseg (cells s) (Some a) (next_p ea) zs (p_tail s) None"
    and d: "a \<notin> set ys" "a \<notin> set zs" "distinct ys" "distinct zs" "set ys \<inter> set zs = {}"
    by (auto simp: wf_list_def dlseg_append split: option.splits)
  define s1 where "s1 = (case mp of
      None \<Rightarrow> s\<lparr>p_head := next_p ea\<rparr>
    | Some p \<Rightarrow> s\<lparr>cells := (cells s)(p \<mapsto> (the (cells s p))\<lparr>next_p := next_p ea\<rparr>)\<rparr>)"
  have left: "dlseg (cells s1) None (p_head s1) ys mp (next_p ea) \<and> cells s1 a = Some ea \<and>
      dlseg (cells s1) (Some a) (next_p ea) zs (p_tail s1) None \<and>
      p_tail s1 = p_tail s \<and> dealloced s1 = dealloced s \<and> dom (cells s1) = dom (cells s) \<and>
      content (cells s1) (ys @ a # zs) = content (cells s) (ys @ a # zs)"
    and load1: "(case mp of None \<Rightarrow> Some (s\<lparr>p_head := next_p ea\<rparr>)
       | Some p \<Rightarrow> store (next_p_update (\<lambda>_. next_p ea)) p s) = Some s1"
  proof -
    show "dlseg (cells s1) None (p_head s1) ys mp (next_p ea) \<and> cells s1 a = Some ea \<and>
      dlseg (cells s1) (Some a) (next_p ea) zs (p_tail s1) None \<and>
      p_tail s1 = p_tail s \<and> dealloced s1 = dealloced s \<and> dom (cells s1) = dom (cells s) \<and>
      content (cells s1) (ys @ a # zs) = content (cells s) (ys @ a # zs)"
    proof (cases ys rule: rev_cases)
      case Nil
      with ys ea zs show ?thesis by (simp add: s1_def)
    next
      case (snoc cs c)
      with ys obtain mc ec where c: "mp = Some c" "cells s c = Some ec" "prev_p ec = mc"
          "dlseg (cells s) None (p_head s) cs mc (Some c)"
        by (auto simp: dlseg_append split: option.splits)
      from snoc d have "c \<noteq> a" "c \<notin> set zs" "c \<notin> set cs" "a \<notin> set cs" by auto
      then show ?thesis using c snoc ea zs d
        by (simp add: s1_def dlseg_append insert_absorb domI)
    qed
    show "(case mp of None \<Rightarrow> Some (s\<lparr>p_head := next_p ea\<rparr>)
       | Some p \<Rightarrow> store (next_p_update (\<lambda>_. next_p ea)) p s) = Some s1"
      using ys by (cases ys rule: rev_cases)
        (auto simp: s1_def store_def dlseg_append split: option.splits)
  qed
  define s2 where "s2 = (case next_p ea of
      None \<Rightarrow> s1\<lparr>p_tail := mp\<rparr>
    | Some n \<Rightarrow> s1\<lparr>cells := (cells s1)(n \<mapsto> (the (cells s1 n))\<lparr>prev_p := mp\<rparr>)\<rparr>)"
  have right: "dlseg (cells s2) None (p_head s2) (ys @ zs) (p_tail s2) None \<and>
      cells s2 a = Some ea \<and> dealloced s2 = dealloced s \<and> dom (cells s2) = dom (cells s) \<and>
      content (cells s2) (ys @ a # zs) = content (cells s) (ys @ a # zs)"
    and load2: "(case next_p ea of None \<Rightarrow> Some (s1\<lparr>p_tail := prev_p ea\<rparr>)
       | Some n \<Rightarrow> store (prev_p_update (\<lambda>_. prev_p ea)) n s1) = Some s2"
  proof -
    show "dlseg (cells s2) None (p_head s2) (ys @ zs) (p_tail s2) None \<and>
      cells s2 a = Some ea \<and> dealloced s2 = dealloced s \<and> dom (cells s2) = dom (cells s) \<and>
      content (cells s2) (ys @ a # zs) = content (cells s) (ys @ a # zs)"
    proof (cases zs)
      case Nil
      with left have "next_p ea = None" by simp
      then have "s2 = s1\<lparr>p_tail := mp\<rparr>" by (simp add: s2_def)
      with left Nil show ?thesis by auto
    next
      case (Cons c cs)
      with left obtain ec where c: "next_p ea = Some c" "cells s1 c = Some ec"
          "dlseg (cells s1) (Some c) (next_p ec) cs (p_tail s1) None"
        by (auto split: option.splits)
      from Cons d have n: "c \<noteq> a" "c \<notin> set ys" "c \<notin> set cs" by auto
      have s2: "s2 = s1\<lparr>cells := (cells s1)(c \<mapsto> ec\<lparr>prev_p := mp\<rparr>)\<rparr>"
        using c by (simp add: s2_def)
      have "dlseg (cells s2) None (p_head s2) (ys @ zs) (p_tail s2) None"
        unfolding dlseg_append using left c n Cons
        by (intro exI [of _ "Some c"] exI [of _ mp]) (simp add: s2)
      moreover have "dom (cells s2) = dom (cells s1)" using c by (auto simp: s2)
      moreover have "content (cells s2) (ys @ a # zs) = content (cells s1) (ys @ a # zs)"
        using c n by (intro content_cong) (auto simp: s2)
      ultimately show ?thesis using left n by (simp add: s2 del: content_simps)
    qed
    show "(case next_p ea of None \<Rightarrow> Some (s1\<lparr>p_tail := prev_p ea\<rparr>)
       | Some n \<Rightarrow> store (prev_p_update (\<lambda>_. prev_p ea)) n s1) = Some s2"
      using left ea by (cases zs) (auto simp: s2_def store_def split: option.splits)
  qed
  let ?s3 = "s2\<lparr>cells := (cells s2)(a \<mapsto> ea\<lparr>prev_p := None, next_p := None\<rparr>)\<rparr>"
  have "unlink a s = Some ?s3"
    using ea left right load1 load2 by (simp add: unlink_def load_def) (simp add: store_def)
  moreover have "content (cells ?s3) (ys @ a # zs) = content (cells s) (ys @ a # zs)"
  proof -
    have "content (cells ?s3) (ys @ a # zs) = content (cells s2) (ys @ a # zs)"
      using right by (intro content_cong) auto
    also have "\<dots> = content (cells s) (ys @ a # zs)" using right by blast
    finally show ?thesis .
  qed
  moreover have "dom (cells ?s3) = dom (cells s)" using right ea by auto
  ultimately show ?thesis using right d by (intro exI [of _ ?s3]) simp
qed

lemma search_loop_refines:
  assumes "wf_list s (ys @ zs)" and "dlseg (cells s) mp m zs (p_tail s) None"
    and "ls_search eq rm (content (cells s) zs) w = (found, rest, w')"
  shows "\<exists>s'. search_loop eq rm m (map_option (\<lambda>_. None) data_p) s w =
      Some (map_option (\<lambda>_. map_option fst found) data_p, s', w') \<and>
    represents s' (content (cells s) ys @ rest) \<and>
    dealloced s' = dealloced s @
      (if rm \<and> data_p = None then dealloc_data (case found of None \<Rightarrow> [] | Some x \<Rightarrow> [x]) else [])"
  using assms
proof (induction zs arbitrary: ys mp m w found rest w')
  case Nil
  then show ?case
    by (auto simp: search_loop.simps represents_def intro!: exI [of _ s])
next
  case (Cons a zs)
  then obtain e where e: "m = Some a" "cells s a = Some e"
      "dlseg (cells s) (Some a) (next_p e) zs (p_tail s) None"
    by (auto split: option.splits)
  obtain b w1 where eq: "eq (data_ptr e) w = (b, w1)" by (cases "eq (data_ptr e) w")
  show ?case
  proof (cases b)
    case False
    from False Cons.prems(3) eq e obtain rest' where
      r: "ls_search eq rm (content (cells s) zs) w1 = (found, rest', w')"
        "rest = (data_ptr e, dealloc_func e) # rest'"
      by (auto simp: Let_def split: prod.splits)
    have "search_loop eq rm m (map_option (\<lambda>_. None) data_p) s w =
        search_loop eq rm (next_p e) (map_option (\<lambda>_. None) data_p) s w1"
      by (subst search_loop.simps) (use e eq False in \<open>simp add: load_def\<close>)
    with Cons.IH [of "ys @ [a]" "Some a" "next_p e" w1 found rest' w'] Cons.prems(1) e r
    show ?thesis by simp
  next
    case True
    with Cons.prems(3) eq e have f: "found = Some (data_ptr e, dealloc_func e)" "w' = w1"
      "rest = (if rm then content (cells s) zs else content (cells s) (a # zs))"
      by (auto simp: Let_def)
    show ?thesis
    proof (cases rm)
      case False
      have "search_loop eq rm m (map_option (\<lambda>_. None) data_p) s w =
          Some (map_option (\<lambda>_. map_option fst found) data_p, s, w')"
        by (subst search_loop.simps)
          (use e eq False True f in \<open>cases data_p; simp add: load_def Let_def\<close>)
      with False f Cons.prems(1) show ?thesis
        by (auto simp: represents_def intro!: exI [of _ "ys @ a # zs"])
    next
      case rm: True
      from unlink_segment [OF Cons.prems(1)] obtain s1 where s1: "unlink a s = Some s1"
        "dealloced s1 = dealloced s" "dom (cells s1) = dom (cells s)"
        "content (cells s1) (ys @ a # zs) = content (cells s) (ys @ a # zs)"
        "dlseg ((cells s1)(a := None)) None (p_head s1) (ys @ zs) (p_tail s1) None"
        by blast
      from s1(3) e obtain e1 where e1: "cells s1 a = Some e1" by blast
      have len: "length (content (cells s1) ys) = length (content (cells s) ys)"
        by (simp add: content_def)
      from s1(4) e e1 len have same: "data_ptr e1 = data_ptr e" "dealloc_func e1 = dealloc_func e"
          "content (cells s1) ys = content (cells s) ys" "content (cells s1) zs = content (cells s) zs"
        by simp_all
      let ?s1 = "if data_p = None then call_dealloc e1 s1 else s1"
      let ?s2 = "?s1\<lparr>cells := (cells s1)(a := None)\<rparr>"
      have "search_loop eq rm m (map_option (\<lambda>_. None) data_p) s w =
          Some (map_option (\<lambda>_. map_option fst found) data_p, ?s2, w')"
        by (subst search_loop.simps)
          (use e eq e1 rm True f s1 in \<open>cases data_p; simp add: mem_simps\<close>)
      moreover have "wf_list ?s2 (ys @ zs)"
        using Cons.prems(1) s1(3,5) by (auto simp: wf_list_def call_dealloc_def dom_fun_upd)
      moreover have "content (cells ?s2) (ys @ zs) = content (cells s) ys @ rest"
        using f rm same Cons.prems(1) by (simp add: wf_list_def)
      moreover have "dealloced ?s2 = dealloced s @ (if rm \<and> data_p = None
          then dealloc_data (case found of None \<Rightarrow> [] | Some x \<Rightarrow> [x]) else [])"
        using f rm s1(2) same by (simp add: call_dealloc_def)
      ultimately show ?thesis unfolding represents_def by (intro exI [of _ ?s2]) metis
    qed
  qed
qed

lemma search_represents:
  assumes "represents s xs" and "xs \<noteq> []" and "ls_search eq rm xs w = (found, rest, w')"
  shows "\<exists>s'. linked_list_search (Some s) data_p (Some eq) rm w =
      Some (eLINKED_LIST_SUCCESS, Some s', map_option (\<lambda>_. map_option fst found) data_p, w') \<and>
    represents s' rest \<and>
    dealloced s' = dealloced s @
      (if rm \<and> data_p = None then dealloc_data (case found of None \<Rightarrow> [] | Some x \<Rightarrow> [x]) else [])"
proof -
  from assms obtain as where as: "wf_list s as" "xs = content (cells s) as"
    by (auto simp: represents_def)
  then have "dlseg (cells s) None (p_head s) as (p_tail s) None" by (simp add: wf_list_def)
  with search_loop_refines [of s "[]" as None "p_head s" eq rm w found rest w' data_p] as assms(3)
  obtain s' where "search_loop eq rm (p_head s) (map_option (\<lambda>_. None) data_p) s w =
      Some (map_option (\<lambda>_. map_option fst found) data_p, s', w')"
    "represents s' rest"
    "dealloced s' = dealloced s @
      (if rm \<and> data_p = None then dealloc_data (case found of None \<Rightarrow> [] | Some x \<Rightarrow> [x]) else [])"
    by auto
  moreover have "p_tail s \<noteq> None" using assms(1,2) represents_tail by blast
  ultimately show ?thesis by (simp add: linked_list_search_def)
qed

subsection \<open>The interface of the list\<close>

text \<open>
  What the clients of the list rely on: the operations act on the list of (data, dealloc) pairs
  that the state stands for. \<open>fresh\<close> says that an address is not in use, which is what
  \<open>malloc\<close> promises of its result.
\<close>

locale list_container =
  fixes rep :: "'s \<Rightarrow> ('d \<times> bool) list \<Rightarrow> bool"
    and fresh :: "'s \<Rightarrow> addr \<Rightarrow> bool"
    and add :: "addr option \<Rightarrow> 's option \<Rightarrow> 'd option \<Rightarrow> bool \<Rightarrow>
      (linked_list_err_type \<times> 's option) mem"
    and rem :: "'s option \<Rightarrow> 'd option option \<Rightarrow>
      (linked_list_err_type \<times> 's option \<times> 'd option option) mem"
    and is_empty :: "'s option \<Rightarrow> int"
    and flush :: "'s option \<Rightarrow> (linked_list_err_type \<times> 's option) mem"
  assumes add_rep: "rep s xs \<Longrightarrow> fresh s a \<Longrightarrow>
      \<exists>s'. add (Some a) (Some s) (Some d) f = Some (eLINKED_LIST_SUCCESS, Some s') \<and>
        rep s' ((d, f) # xs)"
    and add_oom: "add None (Some s) (Some d) f = Some (eLINKED_LIST_FAILURE_GENERAL, Some s)"
    and rem_rep: "rep s xs \<Longrightarrow> xs \<noteq> [] \<Longrightarrow>
      \<exists>s'. rem (Some s) (Some v) =
          Some (eLINKED_LIST_SUCCESS, Some s', Some (Some (fst (last xs)))) \<and> rep s' (butlast xs)"
    and rem_none: "rep s [] \<Longrightarrow>
      rem (Some s) (Some v) = Some (eLINKED_LIST_UNAVAILABLE_RESOURCE, Some s, Some v)"
    and is_empty_rep: "rep s xs \<Longrightarrow> is_empty (Some s) = (if xs = [] then 1 else 0)"
    and flush_rep: "rep s xs \<Longrightarrow>
      \<exists>s'. flush (Some s) = Some (eLINKED_LIST_SUCCESS, Some s') \<and> rep s' []"
begin

text \<open>The list is a queue: what is added to it leaves it at the other end.\<close>

lemma add_then_rem:
  assumes "rep s xs" and "fresh s a"
  shows "\<exists>s1 s2. add (Some a) (Some s) (Some d) f = Some (eLINKED_LIST_SUCCESS, Some s1) \<and>
    rem (Some s1) (Some v) = Some (eLINKED_LIST_SUCCESS, Some s2,
      Some (Some (if xs = [] then d else fst (last xs)))) \<and>
    rep s2 (if xs = [] then [] else (d, f) # butlast xs)"
proof -
  from add_rep [OF assms] obtain s1 where
    s1: "add (Some a) (Some s) (Some d) f = Some (eLINKED_LIST_SUCCESS, Some s1)"
        "rep s1 ((d, f) # xs)" by blast
  from rem_rep [OF s1(2)] s1(1) show ?thesis by (cases "xs = []") auto
qed

lemma add_cases:
  assumes "rep s xs" and "\<And>a. m = Some a \<Longrightarrow> fresh s a"
  obtains (ok) a s' where "m = Some a"
      "add m (Some s) (Some d) f = Some (eLINKED_LIST_SUCCESS, Some s')" "rep s' ((d, f) # xs)"
    | (oom) "m = None" "add m (Some s) (Some d) f = Some (eLINKED_LIST_FAILURE_GENERAL, Some s)"
proof (cases m)
  case None
  then show ?thesis using oom add_oom by simp
next
  case (Some a)
  with add_rep [OF assms(1), of a d f] assms(2) ok show ?thesis by auto
qed

lemma rem_cases:
  assumes "rep s xs"
  obtains (some) s' where "xs \<noteq> []" "rem (Some s) (Some v) =
      Some (eLINKED_LIST_SUCCESS, Some s', Some (Some (fst (last xs))))" "rep s' (butlast xs)"
    | (none) "xs = []" "rem (Some s) (Some v) = Some (eLINKED_LIST_UNAVAILABLE_RESOURCE, Some s, Some v)"
proof (cases "xs = []")
  case True
  with assms have "rep s []" by simp
  then show ?thesis by (rule none [OF True rem_none])
next
  case False
  from rem_rep [OF assms False, of v] obtain s' where
    "rem (Some s) (Some v) = Some (eLINKED_LIST_SUCCESS, Some s', Some (Some (fst (last xs))))"
    "rep s' (butlast xs)" by blast
  then show ?thesis by (rule some [OF False])
qed

end

text \<open>The pointer-level operations satisfy the interface.\<close>

interpretation ll: list_container represents "\<lambda>s a. cells s a = None" linked_list_add
  linked_list_remove linked_list_empty linked_list_flush
proof unfold_locales
  show "\<exists>s'. linked_list_add (Some a) (Some s) (Some d) f =
      Some (eLINKED_LIST_SUCCESS, Some s') \<and> represents s' ((d, f) # xs)"
    if "represents s xs" "cells s a = None" for s :: "'a list_state" and xs a d f
    using add_represents [OF that, of d f] by auto
  show "linked_list_add None (Some s) (Some d) f = Some (eLINKED_LIST_FAILURE_GENERAL, Some s)"
    for s :: "'a list_state" and d f
    by (simp add: linked_list_add_def)
  show "\<exists>s'. linked_list_remove (Some s) (Some v) = Some (eLINKED_LIST_SUCCESS, Some s',
      Some (Some (fst (last xs)))) \<and> represents s' (butlast xs)"
    if "represents s xs" "xs \<noteq> []" for s :: "'a list_state" and xs v
    using remove_represents [OF that, of v] by auto
  show "\<exists>s'. linked_list_flush (Some s) = Some (eLINKED_LIST_SUCCESS, Some s') \<and> represents s' []"
    if "represents s xs" for s :: "'a list_state" and xs
    using flush_represents [OF that] by auto
qed (simp_all add: remove_empty empty_represents)

subsection \<open>Sequences of operations\<close>

text \<open>
  A client's script: the calls it makes through a valid handle, with what they return. The
  callbacks of \<open>Search\<close> are pure here. \<open>alloc\<close> is the allocator.
\<close>

datatype 'd ll_op = Add 'd bool | Remove | Search "'d \<Rightarrow> bool" bool bool | Empty | Flush

datatype 'd ll_res = Ret linked_list_err_type | RetData linked_list_err_type "'d option" | RetInt int

fun ll_step ::
  "('d list_state \<Rightarrow> addr option) \<Rightarrow> 'd ll_op \<Rightarrow> 'd list_state \<Rightarrow> ('d ll_res \<times> 'd list_state) mem" where
  "ll_step alloc (Add d f) s = do {
     (e, s') \<leftarrow> linked_list_add (alloc s) (Some s) (Some d) f; t \<leftarrow> s'; Some (Ret e, t) }"
| "ll_step alloc Remove s = do {
     (e, s', v) \<leftarrow> linked_list_remove (Some s) (Some None); t \<leftarrow> s'; o' \<leftarrow> v; Some (RetData e o', t) }"
| "ll_step alloc (Search P rm copy_out) s = do {
     (e, s', v, w) \<leftarrow> linked_list_search (Some s) (if copy_out then Some None else None)
                        (Some (\<lambda>d w. (P d, w))) rm ();
     t \<leftarrow> s'; Some (RetData e (case v of None \<Rightarrow> None | Some x \<Rightarrow> x), t) }"
| "ll_step alloc Empty s = Some (RetInt (linked_list_empty (Some s)), s)"
| "ll_step alloc Flush s = do {
     (e, s') \<leftarrow> linked_list_flush (Some s); t \<leftarrow> s'; Some (Ret e, t) }"

fun ll_run ::
  "('d list_state \<Rightarrow> addr option) \<Rightarrow> 'd ll_op list \<Rightarrow> 'd list_state \<Rightarrow>
   ('d ll_res list \<times> 'd list_state) mem" where
  "ll_run alloc [] s = Some ([], s)"
| "ll_run alloc (op # ops) s = do {
     (r, s') \<leftarrow> ll_step alloc op s;
     (rs, s'') \<leftarrow> ll_run alloc ops s';
     Some (r # rs, s'') }"

text \<open>The same script on the abstract list, with the log of deallocated data.\<close>

fun ls_step ::
  "'d ll_op \<Rightarrow> ('d \<times> bool) list \<times> 'd list \<Rightarrow> 'd ll_res \<times> ('d \<times> bool) list \<times> 'd list" where
  "ls_step (Add d f) (xs, log) = (Ret eLINKED_LIST_SUCCESS, (d, f) # xs, log)"
| "ls_step Remove (xs, log) =
     (if xs = [] then (RetData eLINKED_LIST_UNAVAILABLE_RESOURCE None, [], log)
      else (RetData eLINKED_LIST_SUCCESS (Some (fst (last xs))), butlast xs, log))"
| "ls_step (Search P rm copy_out) (xs, log) =
     (if xs = [] then (RetData eLINKED_LIST_UNAVAILABLE_RESOURCE None, [], log)
      else (let found = List.find (P \<circ> fst) xs in
        (RetData eLINKED_LIST_SUCCESS (if copy_out then map_option fst found else None),
         (case found of Some x \<Rightarrow> if rm then remove1 x xs else xs | None \<Rightarrow> xs),
         log @ (case found of Some x \<Rightarrow> if rm \<and> \<not> copy_out then dealloc_data [x] else []
                            | None \<Rightarrow> []))))"
| "ls_step Empty (xs, log) = (RetInt (if xs = [] then 1 else 0), xs, log)"
| "ls_step Flush (xs, log) = (Ret eLINKED_LIST_SUCCESS, [], log @ dealloc_data xs)"

fun ls_run ::
  "'d ll_op list \<Rightarrow> ('d \<times> bool) list \<times> 'd list \<Rightarrow> 'd ll_res list \<times> ('d \<times> bool) list \<times> 'd list" where
  "ls_run [] st = ([], st)"
| "ls_run (op # ops) st =
     (let (r, st') = ls_step op st; (rs, st'') = ls_run ops st' in (r # rs, st''))"

lemma ls_search_pure:
  "ls_search (\<lambda>d w. (P d, w)) rm xs w =
    (List.find (P \<circ> fst) xs,
     (case List.find (P \<circ> fst) xs of Some x \<Rightarrow> if rm then remove1 x xs else xs | None \<Rightarrow> xs), w)"
proof (induction xs)
  case (Cons x xs)
  have f: "List.find (\<lambda>a. P (fst a)) xs = Some y \<Longrightarrow> P (fst y)" for y
    by (auto simp: find_Some_iff)
  with Cons show ?case by (auto simp: comp_def split: option.splits dest!: f)
qed simp

lemma ll_step_refines:
  assumes "represents s xs" and "finite (dom (cells s))"
    and "\<And>t. finite (dom (cells t)) \<Longrightarrow> \<exists>a. alloc t = Some a \<and> cells t a = None"
  shows "\<exists>s'. ll_step alloc op s = Some (fst (ls_step op (xs, dealloced s)), s') \<and>
    represents s' (fst (snd (ls_step op (xs, dealloced s)))) \<and>
    dealloced s' = snd (snd (ls_step op (xs, dealloced s))) \<and> finite (dom (cells s'))"
proof -
  have fin: "represents t ys \<Longrightarrow> finite (dom (cells t))" for t :: "'a list_state" and ys
    by (auto simp: represents_def wf_list_def)
  show ?thesis
  proof (cases op)
    case (Add d f)
    from assms(2,3) obtain a where "alloc s = Some a" "cells s a = None" by blast
    with add_represents [OF assms(1), of a d f] Add fin show ?thesis by auto
  next
    case Remove
    show ?thesis
    proof (cases "xs = []")
      case True
      with Remove assms(1,2) remove_empty [of s None] show ?thesis by simp
    next
      case False
      with remove_represents [OF assms(1), of None] Remove fin show ?thesis by auto
    qed
  next
    case (Search P rm copy_out)
    show ?thesis
    proof (cases "xs = []")
      case True
      with assms(1) have "p_tail s = None" using represents_tail by blast
      with True Search assms show ?thesis by (auto simp: linked_list_search_def)
    next
      case False
      from search_represents [OF assms(1) False ls_search_pure [of P rm xs "()"],
          of "if copy_out then Some None else None"] Search False fin
      show ?thesis by (fastforce simp: Let_def split: option.splits)
    qed
  next
    case Empty
    with assms(1,2) empty_represents [OF assms(1)] show ?thesis by auto
  next
    case Flush
    with flush_represents [OF assms(1)] fin show ?thesis by fastforce
  qed
qed

lemma ll_run_refines:
  assumes "\<And>t. finite (dom (cells t)) \<Longrightarrow> \<exists>a. alloc t = Some a \<and> cells t a = None"
  shows "represents s xs \<Longrightarrow> finite (dom (cells s)) \<Longrightarrow>
   ls_run ops (xs, dealloced s) = (rs, ys, log) \<Longrightarrow>
   \<exists>s'. ll_run alloc ops s = Some (rs, s') \<and> represents s' ys \<and> dealloced s' = log"
proof (induction ops arbitrary: s xs rs ys log)
  case (Cons op ops)
  from ll_step_refines [OF Cons.prems(1,2) assms, of op] obtain s1 where
    s1: "ll_step alloc op s = Some (fst (ls_step op (xs, dealloced s)), s1)"
      "represents s1 (fst (snd (ls_step op (xs, dealloced s))))"
      "dealloced s1 = snd (snd (ls_step op (xs, dealloced s)))" "finite (dom (cells s1))"
    by blast
  obtain rs' where rs': "ls_run ops (fst (snd (ls_step op (xs, dealloced s))), dealloced s1) =
      (rs', ys, log)" "rs = fst (ls_step op (xs, dealloced s)) # rs'"
    using Cons.prems(3) s1(3) by (auto simp: Let_def split: prod.splits)
  from Cons.IH [OF s1(2,4) rs'(1)] s1(1) rs'(2) show ?case by auto
qed auto


definition first_free :: "'d list_state \<Rightarrow> addr option" where
  "first_free s = Some (LEAST a. cells s a = None)"

lemma first_free_ok: "finite (dom (cells t)) \<Longrightarrow> \<exists>a. first_free t = Some a \<and> cells t a = None"
proof -
  assume "finite (dom (cells t))"
  then have "\<exists>a. a \<notin> dom (cells t)" by (rule ex_new_if_finite [OF infinite_UNIV_nat])
  then have "\<exists>a. cells t a = None" by auto
  then have "cells t (LEAST a. cells t a = None) = None" by (rule LeastI_ex)
  then show ?thesis by (simp add: first_free_def)
qed


end
