(* ===== verification/Msg_Queue.thy ===== *)
theory Msg_Queue
  imports Linked_List
begin

text \<open>
  The blocking message queue of \<open>gps/utils/msg_q.c\<close> and the loop of \<open>gps/utils/MsgTask.cpp\<close> that
  drains it. A call holds the queue's mutex for its whole body, so each is one step; the receiver
  gives the mutex up only in \<open>pthread_cond_wait\<close>, where the model stops with \<open>Rcv_Wait\<close> and
  continues, when the thread is woken, at \<open>rcv_loop\<close>. Any thread may take its step at any time
  (\<open>mq_step\<close>).
\<close>

subsection \<open>Data and operations\<close>

datatype msq_q_err_type =
    eMSG_Q_SUCCESS
  | eMSG_Q_FAILURE_GENERAL
  | eMSG_Q_INVALID_PARAMETER
  | eMSG_Q_INVALID_HANDLE
  | eMSG_Q_UNAVAILABLE_RESOURCE
  | eMSG_Q_INSUFFICIENT_BUFFER

record 'd msg_q =
  msg_list :: "'d list_state option"
  unblocked :: bool

fun convert_linked_list_err_type :: "linked_list_err_type \<Rightarrow> msq_q_err_type" where
  "convert_linked_list_err_type eLINKED_LIST_SUCCESS = eMSG_Q_SUCCESS"
| "convert_linked_list_err_type eLINKED_LIST_INVALID_PARAMETER = eMSG_Q_INVALID_PARAMETER"
| "convert_linked_list_err_type eLINKED_LIST_INVALID_HANDLE = eMSG_Q_INVALID_HANDLE"
| "convert_linked_list_err_type eLINKED_LIST_UNAVAILABLE_RESOURCE = eMSG_Q_UNAVAILABLE_RESOURCE"
| "convert_linked_list_err_type eLINKED_LIST_INSUFFICIENT_BUFFER = eMSG_Q_INSUFFICIENT_BUFFER"
| "convert_linked_list_err_type eLINKED_LIST_FAILURE_GENERAL = eMSG_Q_FAILURE_GENERAL"

text \<open>
  The outcomes of the system calls \<open>msg_q_init\<close> makes, in order: both allocations and the two
  pthread initialisations.
\<close>

record init_env =
  calloc_q :: bool
  calloc_list :: bool
  mutex_ok :: bool
  cond_ok :: bool

definition msg_q_init ::
  "init_env \<Rightarrow> 'd msg_q option option \<Rightarrow> msq_q_err_type \<times> 'd msg_q option option" where
  "msg_q_init env msg_q_data =
    (case msg_q_data of
       None \<Rightarrow> (eMSG_Q_INVALID_PARAMETER, None)
     | Some old \<Rightarrow>
         if \<not> calloc_q env then (eMSG_Q_FAILURE_GENERAL, Some old)
         else (case linked_list_init (calloc_list env) (Some None) of
             (eLINKED_LIST_SUCCESS, Some l) \<Rightarrow>
               if \<not> mutex_ok env then (eMSG_Q_FAILURE_GENERAL, Some old)
               else if \<not> cond_ok env then (eMSG_Q_FAILURE_GENERAL, Some old)
               else (eMSG_Q_SUCCESS, Some (Some \<lparr>msg_list = l, unblocked = False\<rparr>))
           | _ \<Rightarrow> (eMSG_Q_FAILURE_GENERAL, Some old)))"

definition msg_q_init2 :: "init_env \<Rightarrow> 'd msg_q option" where
  "msg_q_init2 env =
    (case msg_q_init env (Some None) of (eMSG_Q_SUCCESS, Some q) \<Rightarrow> q | _ \<Rightarrow> None)"

text \<open>\<open>msg_q_destroy\<close> dereferences \<open>*msg_q_data\<close> without a check; the flushed list is returned.\<close>

definition msg_q_destroy ::
  "'d msg_q option option \<Rightarrow>
   (msq_q_err_type \<times> 'd msg_q option option \<times> 'd list_state option) mem" where
  "msg_q_destroy msg_q_data =
    (case msg_q_data of
       None \<Rightarrow> Some (eMSG_Q_INVALID_HANDLE, None, None)
     | Some None \<Rightarrow> None
     | Some (Some q) \<Rightarrow> do {
         (_, _, flushed) \<leftarrow> linked_list_destroy (Some (msg_list q));
         Some (eMSG_Q_SUCCESS, Some None, flushed) })"

definition msg_q_snd ::
  "addr option \<Rightarrow> 'd msg_q option \<Rightarrow> 'd option \<Rightarrow> bool \<Rightarrow>
   (msq_q_err_type \<times> 'd msg_q option) mem" where
  "msg_q_snd malloc_res msg_q_data msg_obj dealloc =
    (case msg_q_data of
       None \<Rightarrow> Some (eMSG_Q_INVALID_HANDLE, None)
     | Some q \<Rightarrow>
    (case msg_obj of
       None \<Rightarrow> Some (eMSG_Q_INVALID_PARAMETER, Some q)
     | Some d \<Rightarrow>
         if unblocked q then Some (eMSG_Q_UNAVAILABLE_RESOURCE, Some q)
         else do {
           (e, l) \<leftarrow> linked_list_add malloc_res (msg_list q) (Some d) dealloc;
           Some (convert_linked_list_err_type e, Some (q\<lparr>msg_list := l\<rparr>)) }))"

text \<open>
  The receiver: the checks, then the wait loop. \<open>rcv_loop\<close> is the code from the loop's test on,
  which is where a woken thread continues.
\<close>

datatype 'd rcv_result =
    Rcv_Done msq_q_err_type "'d msg_q option" "'d option option"
  | Rcv_Wait "'d msg_q"

definition rcv_loop :: "'d msg_q \<Rightarrow> 'd option \<Rightarrow> 'd rcv_result mem" where
  "rcv_loop q slot =
    (if linked_list_empty (msg_list q) \<noteq> 0 \<and> \<not> unblocked q then Some (Rcv_Wait q)
     else do {
       (e, l, v) \<leftarrow> linked_list_remove (msg_list q) (Some slot);
       Some (Rcv_Done (convert_linked_list_err_type e) (Some (q\<lparr>msg_list := l\<rparr>)) v) })"

definition msg_q_rcv :: "'d msg_q option \<Rightarrow> 'd option option \<Rightarrow> 'd rcv_result mem" where
  "msg_q_rcv msg_q_data msg_obj =
    (case msg_q_data of
       None \<Rightarrow> Some (Rcv_Done eMSG_Q_INVALID_HANDLE None msg_obj)
     | Some q \<Rightarrow>
    (case msg_obj of
       None \<Rightarrow> Some (Rcv_Done eMSG_Q_INVALID_PARAMETER (Some q) None)
     | Some slot \<Rightarrow>
         if unblocked q then Some (Rcv_Done eMSG_Q_UNAVAILABLE_RESOURCE (Some q) (Some slot))
         else rcv_loop q slot))"

definition msg_q_flush :: "'d msg_q option \<Rightarrow> (msq_q_err_type \<times> 'd msg_q option) mem" where
  "msg_q_flush msg_q_data =
    (case msg_q_data of
       None \<Rightarrow> Some (eMSG_Q_INVALID_HANDLE, None)
     | Some q \<Rightarrow> do {
         (e, l) \<leftarrow> linked_list_flush (msg_list q);
         Some (convert_linked_list_err_type e, Some (q\<lparr>msg_list := l\<rparr>)) })"

definition msg_q_unblock :: "'d msg_q option \<Rightarrow> msq_q_err_type \<times> 'd msg_q option" where
  "msg_q_unblock msg_q_data =
    (case msg_q_data of
       None \<Rightarrow> (eMSG_Q_INVALID_HANDLE, None)
     | Some q \<Rightarrow>
         if unblocked q then (eMSG_Q_UNAVAILABLE_RESOURCE, Some q)
         else (eMSG_Q_SUCCESS, Some (q\<lparr>unblocked := True\<rparr>)))"

subsection \<open>MsgTask\<close>

text \<open>
  One pass of \<open>MsgTask::run\<close> on the result of \<open>msg_q_rcv\<close>: the message it processes (and then
  deletes) and whether the thread wants to run again.
\<close>

definition MsgTask_run :: "'d rcv_result \<Rightarrow> ('d option \<times> bool) option" where
  "MsgTask_run r =
    (case r of
       Rcv_Wait _ \<Rightarrow> None
     | Rcv_Done e _ v \<Rightarrow>
         if e \<noteq> eMSG_Q_SUCCESS then Some (None, False)
         else Some (Option.bind v (\<lambda>x. x), True))"

definition MsgTask_sendMsg :: "addr option \<Rightarrow> 'd msg_q \<Rightarrow> 'd \<Rightarrow> 'd msg_q mem" where
  "MsgTask_sendMsg malloc_res q msg = do {
     (_, q') \<leftarrow> msg_q_snd malloc_res (Some q) (Some msg) True; q' }"

subsection \<open>Concurrent use\<close>

text \<open>
  \<open>sent\<close> is the history of messages accepted, \<open>left\<close> of the messages that left the queue, with
  true for those a receiver got and false for those a flush dropped; \<open>waiting\<close> are the threads
  inside \<open>pthread_cond_wait\<close>.
\<close>

record 'd mq_sys =
  mq :: "'d msg_q"
  waiting :: "nat set"
  sent :: "'d list"
  left :: "('d \<times> bool) list"

definition mq_init :: "'d mq_sys" where
  "mq_init = \<lparr>mq = \<lparr>msg_list = Some empty_list_state, unblocked = False\<rparr>, waiting = {},
     sent = [], left = []\<rparr>"

definition fresh_in :: "'d msg_q \<Rightarrow> addr option \<Rightarrow> bool" where
  "fresh_in q m = (\<forall>a l. m = Some a \<longrightarrow> msg_list q = Some l \<longrightarrow> cells l a = None)"

inductive mq_step :: "'d mq_sys \<Rightarrow> 'd mq_sys \<Rightarrow> bool" where
  snd_ok: "fresh_in (mq S) m \<Longrightarrow>
    msg_q_snd m (Some (mq S)) (Some d) f = Some (eMSG_Q_SUCCESS, Some q) \<Longrightarrow>
    mq_step S (S\<lparr>mq := q, sent := sent S @ [d]\<rparr>)"
| snd_fail: "fresh_in (mq S) m \<Longrightarrow> e \<noteq> eMSG_Q_SUCCESS \<Longrightarrow>
    msg_q_snd m (Some (mq S)) (Some d) f = Some (e, Some q) \<Longrightarrow>
    mq_step S (S\<lparr>mq := q\<rparr>)"
| rcv_ok: "t \<notin> waiting S \<Longrightarrow>
    msg_q_rcv (Some (mq S)) (Some None) = Some (Rcv_Done eMSG_Q_SUCCESS (Some q) (Some (Some d))) \<Longrightarrow>
    mq_step S (S\<lparr>mq := q, left := left S @ [(d, True)]\<rparr>)"
| rcv_fail: "t \<notin> waiting S \<Longrightarrow> e \<noteq> eMSG_Q_SUCCESS \<Longrightarrow>
    msg_q_rcv (Some (mq S)) (Some None) = Some (Rcv_Done e (Some q) v) \<Longrightarrow>
    mq_step S (S\<lparr>mq := q\<rparr>)"
| rcv_block: "t \<notin> waiting S \<Longrightarrow>
    msg_q_rcv (Some (mq S)) (Some None) = Some (Rcv_Wait q) \<Longrightarrow>
    mq_step S (S\<lparr>mq := q, waiting := insert t (waiting S)\<rparr>)"
| wake_ok: "t \<in> waiting S \<Longrightarrow>
    rcv_loop (mq S) None = Some (Rcv_Done eMSG_Q_SUCCESS (Some q) (Some (Some d))) \<Longrightarrow>
    mq_step S (S\<lparr>mq := q, waiting := waiting S - {t}, left := left S @ [(d, True)]\<rparr>)"
| wake_fail: "t \<in> waiting S \<Longrightarrow> e \<noteq> eMSG_Q_SUCCESS \<Longrightarrow>
    rcv_loop (mq S) None = Some (Rcv_Done e (Some q) v) \<Longrightarrow>
    mq_step S (S\<lparr>mq := q, waiting := waiting S - {t}\<rparr>)"
| flush: "msg_q_flush (Some (mq S)) = Some (e, Some q) \<Longrightarrow>
    mq_step S (S\<lparr>mq := q, left := left S @ map (\<lambda>d. (d, False)) (drop (length (left S)) (sent S))\<rparr>)"
| unblock: "msg_q_unblock (Some (mq S)) = (e, Some q) \<Longrightarrow> mq_step S (S\<lparr>mq := q\<rparr>)"

inductive mq_reachable :: "'d mq_sys \<Rightarrow> bool" where
  start: "mq_reachable mq_init"
| step: "mq_reachable S \<Longrightarrow> mq_step S T \<Longrightarrow> mq_reachable T"

subsection \<open>Each operation on a represented queue\<close>

definition mq_rep :: "'d msg_q \<Rightarrow> ('d \<times> bool) list \<Rightarrow> bool" where
  "mq_rep q xs \<longleftrightarrow> (\<exists>l. msg_list q = Some l \<and> represents l xs)"

lemma mq_repI [intro]: "represents l xs \<Longrightarrow> msg_list q = Some l \<Longrightarrow> mq_rep q xs"
  by (auto simp: mq_rep_def)

lemma mq_repE:
  assumes "mq_rep q xs"
  obtains l where "msg_list q = Some l" "represents l xs"
  using assms by (auto simp: mq_rep_def)

lemma mq_rep_upd [simp]: "mq_rep (q\<lparr>msg_list := Some l\<rparr>) xs = represents l xs"
  by (simp add: mq_rep_def)

lemma snd_rep:
  assumes "mq_rep q xs" and "fresh_in q m"
  shows "\<exists>q'. msg_q_snd m (Some q) (Some d) f =
      Some (if unblocked q then eMSG_Q_UNAVAILABLE_RESOURCE
            else if m = None then eMSG_Q_FAILURE_GENERAL else eMSG_Q_SUCCESS, Some q') \<and>
    mq_rep q' (if unblocked q \<or> m = None then xs else (d, f) # xs) \<and> unblocked q' = unblocked q"
proof (cases "unblocked q")
  case True
  with assms show ?thesis by (simp add: msg_q_snd_def)
next
  case False
  from assms(1) obtain l where l: "msg_list q = Some l" "represents l xs" by (rule mq_repE)
  from assms(2) l have fr: "\<And>a. m = Some a \<Longrightarrow> cells l a = None" by (simp add: fresh_in_def)
  show ?thesis
    by (rule ll.add_cases [OF l(2), of m d f]) (use fr False l in \<open>auto simp: msg_q_snd_def\<close>)
qed

lemma rcv_loop_rep:
  assumes "mq_rep q xs"
  shows "xs = [] \<Longrightarrow> \<not> unblocked q \<Longrightarrow> rcv_loop q slot = Some (Rcv_Wait q)"
    and "xs = [] \<Longrightarrow> unblocked q \<Longrightarrow>
      rcv_loop q slot = Some (Rcv_Done eMSG_Q_UNAVAILABLE_RESOURCE (Some q) (Some slot))"
    and "xs \<noteq> [] \<Longrightarrow> \<exists>q'. rcv_loop q slot =
        Some (Rcv_Done eMSG_Q_SUCCESS (Some q') (Some (Some (fst (last xs))))) \<and>
      mq_rep q' (butlast xs) \<and> unblocked q' = unblocked q"
proof -
  from assms obtain l where l: "msg_list q = Some l" "represents l xs" by (rule mq_repE)
  note e = ll.is_empty_rep [OF l(2)]
  have q: "q\<lparr>msg_list := Some l\<rparr> = q" using l(1) by simp
  show "xs = [] \<Longrightarrow> \<not> unblocked q \<Longrightarrow> rcv_loop q slot = Some (Rcv_Wait q)"
    using e l by (simp add: rcv_loop_def)
  show "xs = [] \<Longrightarrow> unblocked q \<Longrightarrow>
      rcv_loop q slot = Some (Rcv_Done eMSG_Q_UNAVAILABLE_RESOURCE (Some q) (Some slot))"
    using e l q ll.rem_none [of l slot] by (simp add: rcv_loop_def)
  show "\<exists>q'. rcv_loop q slot =
        Some (Rcv_Done eMSG_Q_SUCCESS (Some q') (Some (Some (fst (last xs))))) \<and>
      mq_rep q' (butlast xs) \<and> unblocked q' = unblocked q" if "xs \<noteq> []"
    using e l that ll.rem_rep [OF l(2) that, of slot] by (auto simp: rcv_loop_def)
qed

lemma flush_rep:
  assumes "mq_rep q xs"
  shows "\<exists>q'. msg_q_flush (Some q) = Some (eMSG_Q_SUCCESS, Some q') \<and> mq_rep q' [] \<and>
    unblocked q' = unblocked q"
proof -
  from assms obtain l where l: "msg_list q = Some l" "represents l xs" by (rule mq_repE)
  with ll.flush_rep [OF l(2)] show ?thesis by (auto simp: msg_q_flush_def)
qed

lemma mq_rep_unblocked [simp]: "mq_rep (q\<lparr>unblocked := b\<rparr>) xs = mq_rep q xs"
  by (simp add: mq_rep_def)

lemma unblock_rep: "mq_rep q xs \<Longrightarrow> msg_q_unblock (Some q) = (e, Some q') \<Longrightarrow> mq_rep q' xs \<and> unblocked q'"
  by (auto simp: msg_q_unblock_def split: if_splits)

lemma rcv_rep:
  "msg_q_rcv (Some q) (Some slot) =
    (if unblocked q then Some (Rcv_Done eMSG_Q_UNAVAILABLE_RESOURCE (Some q) (Some slot))
     else rcv_loop q slot)"
  by (simp add: msg_q_rcv_def)

text \<open>What the wait loop can return on a represented queue.\<close>

lemma rcv_loop_cases:
  assumes "mq_rep q xs" and "rcv_loop q slot = Some r"
  obtains (wait) "xs = []" "\<not> unblocked q" "r = Rcv_Wait q"
    | (closed) "xs = []" "unblocked q" "r = Rcv_Done eMSG_Q_UNAVAILABLE_RESOURCE (Some q) (Some slot)"
    | (got) q' where "xs \<noteq> []" "r = Rcv_Done eMSG_Q_SUCCESS (Some q') (Some (Some (fst (last xs))))"
        "mq_rep q' (butlast xs)" "unblocked q' = unblocked q"
proof (cases "xs = []")
  case True
  then show ?thesis using rcv_loop_rep(1,2) [OF assms(1), of slot] assms(2) wait closed
    by (cases "unblocked q") auto
next
  case False
  with rcv_loop_rep(3) [OF assms(1), of slot] assms(2) got show ?thesis by auto
qed

subsection \<open>The history invariant\<close>

definition mq_inv :: "'d mq_sys \<Rightarrow> bool" where
  "mq_inv S \<longleftrightarrow> (\<exists>xs. mq_rep (mq S) xs \<and> sent S = map fst (left S) @ rev (map fst xs))"

lemma mq_invI [intro]:
  "mq_rep (mq S) xs \<Longrightarrow> sent S = map fst (left S) @ rev (map fst xs) \<Longrightarrow> mq_inv S"
  by (auto simp: mq_inv_def)

lemma mq_inv_init: "mq_inv mq_init"
  by (rule mq_invI [where xs = "[]"]) (auto simp: mq_init_def mq_rep_def)

lemma pop_history:
  "xs \<noteq> [] \<Longrightarrow> rev (map fst xs) = fst (last xs) # rev (map fst (butlast xs))"
  by (cases xs rule: rev_cases) auto

lemma mq_inv_pop:
  assumes "mq_rep q (butlast xs)" and "xs \<noteq> []"
    and "sent S = map fst (left S) @ rev (map fst xs)"
  shows "mq_inv (S\<lparr>mq := q, waiting := W, left := left S @ [(fst (last xs), b)]\<rparr>)"
  using assms by (intro mq_invI [where xs = "butlast xs"]) (simp_all add: pop_history)

lemma mq_step_inv:
  assumes "mq_step S T" and "mq_inv S"
  shows "mq_inv T"
proof -
  from assms(2) obtain xs where xs: "mq_rep (mq S) xs" "sent S = map fst (left S) @ rev (map fst xs)"
    by (auto simp: mq_inv_def)
  from assms(1) show ?thesis
  proof cases
    case (snd_ok m d f q)
    with snd_rep [OF xs(1) snd_ok(2), of d f] xs show ?thesis
      by (intro mq_invI [where xs = "(d, f) # xs"]) (auto split: if_splits)
  next
    case (snd_fail m e d f q)
    with snd_rep [OF xs(1) snd_fail(2), of d f] xs show ?thesis
      by (intro mq_invI [where xs = xs]) (auto split: if_splits)
  next
    case (rcv_ok t q d)
    then have "rcv_loop (mq S) None = Some (Rcv_Done eMSG_Q_SUCCESS (Some q) (Some (Some d)))"
      by (simp add: rcv_rep split: if_splits)
    with rcv_ok(1) xs mq_inv_pop [of q xs S True "waiting S"] show ?thesis
      by (elim rcv_loop_cases [OF xs(1)]) auto
  next
    case (rcv_fail t e q v)
    then have "q = mq S" using rcv_loop_cases [OF xs(1)]
      by (auto simp: rcv_rep split: if_splits elim: rcv_loop_cases [OF xs(1)])
    with rcv_fail xs show ?thesis by auto
  next
    case (rcv_block t q)
    then have "q = mq S"
      by (auto simp: rcv_rep split: if_splits elim: rcv_loop_cases [OF xs(1)])
    with rcv_block xs show ?thesis by auto
  next
    case (wake_ok t q d)
    with xs mq_inv_pop [of q xs S True "waiting S - {t}"] show ?thesis
      by (elim rcv_loop_cases [OF xs(1)]) auto
  next
    case (wake_fail t e q v)
    then have "q = mq S" by (auto elim: rcv_loop_cases [OF xs(1)])
    with wake_fail xs show ?thesis by auto
  next
    case (flush e q)
    with flush_rep [OF xs(1)] xs show ?thesis
      by (intro mq_invI [where xs = "[]"]) (auto simp: comp_def)
  next
    case (unblock e q)
    with unblock_rep [OF xs(1)] xs show ?thesis by auto
  qed
qed

lemma mq_reachable_inv: "mq_reachable S \<Longrightarrow> mq_inv S"
  by (induction rule: mq_reachable.induct) (auto intro: mq_inv_init mq_step_inv)

lemma unblocked_stable: "mq_step S T \<Longrightarrow> mq_inv S \<Longrightarrow> unblocked (mq S) \<Longrightarrow> unblocked (mq T)"
proof -
  assume step: "mq_step S T" and inv: "mq_inv S" and u: "unblocked (mq S)"
  from inv obtain xs where xs: "mq_rep (mq S) xs" by (auto simp: mq_inv_def)
  from step u show ?thesis
    by cases (auto simp: msg_q_snd_def rcv_rep msg_q_unblock_def msg_q_flush_def
        elim: rcv_loop_cases [OF xs] split: if_splits option.splits bind_splits)
qed

lemma rcv_loop_unblocked:
  assumes "mq_rep q xs" and "unblocked q"
  shows "\<exists>e q' v. rcv_loop q slot = Some (Rcv_Done e (Some q') v)"
  using rcv_loop_rep(2,3) [OF assms(1), of slot] assms(2) by (cases "xs = []") auto

subsection \<open>Properties\<close>

text \<open>
  C14. First in, first out, nothing lost and nothing invented: in every state that any interleaving
  of senders, receivers, waiting threads, flushes and the unblocking call can reach, the messages
  accepted by \<open>msg_q_snd\<close> are, in order, those that left the queue (received or flushed) followed
  by those still in its list; and the list is well formed.
\<close>

theorem msg_q_fifo:
  assumes "mq_reachable S"
  shows "\<exists>pending. mq_rep (mq S) pending \<and> sent S = map fst (left S) @ rev (map fst pending)"
  using mq_reachable_inv [OF assms] by (simp add: mq_inv_def)

definition mq_one :: "int mq_sys" where
  "mq_one = mq_init\<lparr>mq := \<lparr>msg_list = Some \<lparr>p_head = Some 0, p_tail = Some 0,
      cells = [0 \<mapsto> \<lparr>next_p = None, prev_p = None, data_ptr = 5, dealloc_func = True\<rparr>],
      dealloced = []\<rparr>, unblocked = False\<rparr>, sent := [5]\<rparr>"

lemma mq_one_reachable: "mq_reachable mq_one"
proof (rule mq_reachable.step [OF mq_reachable.start])
  have "mq_step mq_init (mq_init\<lparr>mq := mq mq_one, sent := sent mq_init @ [5 :: int]\<rparr>)"
    by (rule mq_step.snd_ok [where m = "Some 0" and f = True])
      (simp_all add: mq_init_def mq_one_def fresh_in_def msg_q_snd_def linked_list_add_def
        empty_list_state_def mem_simps)
  then show "mq_step mq_init mq_one" by (simp add: mq_one_def mq_init_def)
qed

theorem msg_q_fifo_witness:
  "\<exists>pending. mq_rep (mq mq_one) pending \<and> [5] = map fst (left mq_one) @ rev (map fst pending)"
  using msg_q_fifo [OF mq_one_reachable] by (simp add: mq_one_def)

text \<open>
  Shutdown: in a reachable state whose queue has been unblocked, every later send and every new
  receive returns \<open>eMSG_Q_UNAVAILABLE_RESOURCE\<close> without touching the queue, a receiver that was
  waiting returns at its next wake-up instead of sleeping again, and no step undoes this.
\<close>

theorem msg_q_unblock_releases:
  assumes "mq_reachable S" and "unblocked (mq S)"
  shows "msg_q_snd m (Some (mq S)) (Some d) f = Some (eMSG_Q_UNAVAILABLE_RESOURCE, Some (mq S)) \<and>
    msg_q_rcv (Some (mq S)) (Some v) =
      Some (Rcv_Done eMSG_Q_UNAVAILABLE_RESOURCE (Some (mq S)) (Some v)) \<and>
    (\<exists>e q' v'. rcv_loop (mq S) v = Some (Rcv_Done e (Some q') v')) \<and>
    (\<forall>T. mq_step S T \<longrightarrow> unblocked (mq T))"
proof -
  from mq_reachable_inv [OF assms(1)] obtain xs where xs: "mq_rep (mq S) xs"
    by (auto simp: mq_inv_def)
  have "\<forall>T. mq_step S T \<longrightarrow> unblocked (mq T)"
    using unblocked_stable mq_reachable_inv [OF assms(1)] assms(2) by blast
  with rcv_loop_unblocked [OF xs assms(2), of v] assms(2) show ?thesis
    by (simp add: msg_q_snd_def rcv_rep)
qed

definition mq_closed :: "int mq_sys" where
  "mq_closed = mq_one\<lparr>mq := (mq mq_one)\<lparr>unblocked := True\<rparr>\<rparr>"

lemma mq_closed_reachable: "mq_reachable mq_closed"
proof (rule mq_reachable.step [OF mq_one_reachable])
  show "mq_step mq_one mq_closed" unfolding mq_closed_def
    by (rule mq_step.unblock [where e = eMSG_Q_SUCCESS]) (simp add: msg_q_unblock_def mq_one_def)
qed

theorem msg_q_unblock_releases_witness:
  "msg_q_snd None (Some (mq mq_closed)) (Some 7) True =
     Some (eMSG_Q_UNAVAILABLE_RESOURCE, Some (mq mq_closed)) \<and>
   (\<exists>e q' v'. rcv_loop (mq mq_closed) None = Some (Rcv_Done e (Some q') v'))"
proof -
  have "unblocked (mq mq_closed)" by (simp add: mq_closed_def)
  from msg_q_unblock_releases [OF mq_closed_reachable this, of None 7 True None]
  show ?thesis by blast
qed

end
