(* ===== verification/Loc_Heap.thy ===== *)
theory Loc_Heap
  imports Prelude
begin

text \<open>
  The heap of \<open>gps/utils/LocHeap.cpp\<close>: a binary tree of nodes that own their children, each with
  the size of its subtree and a pointer to a \<open>LocRankable\<close>. The nodes are a tree of values, since
  every node has one owner; the data are pointers, compared by address in \<open>remove\<close> and ranked by
  the virtual method \<open>ranks\<close>, which is a parameter of the operations. The locale \<open>rankable\<close> says
  what the heap needs of that method, and the heap's correctness is proved inside it.
\<close>

subsection \<open>Nodes and operations\<close>

datatype 'a heap_node =
  is_Null: Null
  | Node (mSize: int) (mLeft: "'a heap_node") (mRight: "'a heap_node") (mData: 'a)

text \<open>\<open>a.outRanks(b)\<close> is \<open>a.ranks(b) > 0\<close>.\<close>

definition outRanks :: "('a \<Rightarrow> 'a \<Rightarrow> int) \<Rightarrow> 'a \<Rightarrow> 'a \<Rightarrow> bool" where
  "outRanks ranks a b \<longleftrightarrow> ranks a b > 0"

definition new_node :: "'a \<Rightarrow> 'a heap_node" where
  "new_node d = Node 1 Null Null d"

text \<open>
  \<open>LocHeapNode::push\<close>. The node pushed is always a single new node, given by its datum. A NULL tree
  is handled by \<open>LocHeap::push\<close>; the first equation is that case.
\<close>

fun node_push :: "('a \<Rightarrow> 'a \<Rightarrow> int) \<Rightarrow> 'a heap_node \<Rightarrow> 'a \<Rightarrow> 'a heap_node" where
  "node_push ranks Null x = new_node x"
| "node_push ranks (Node n l r d) x =
    (let (top, node) = (if outRanks ranks x d then (x, d) else (d, x))
     in if is_Null l then Node (n + 1) (new_node node) r top
        else if is_Null r then Node (n + 1) l (new_node node) top
        else if mSize l \<le> mSize r then Node (n + 1) (node_push ranks l node) r top
        else Node (n + 1) l (node_push ranks r node) top)"

fun set_data :: "'a heap_node \<Rightarrow> 'a \<Rightarrow> 'a heap_node" where
  "set_data Null x = Null"
| "set_data (Node n l r d) x = Node n l r x"

lemma size_set_data [simp]: "size (set_data t x) = size t"
  by (cases t) auto

lemma set_data_sel [simp]:
  "is_Null (set_data t x) = is_Null t"
  "\<not> is_Null t \<Longrightarrow> mData (set_data t x) = x"
  by (cases t; simp)+

text \<open>
  \<open>LocHeapNode::pop\<close>: the datum of the top sinks to a leaf along the higher ranking children, and
  the leaf is detached. It is never called on NULL.
\<close>

function node_pop :: "('a \<Rightarrow> 'a \<Rightarrow> int) \<Rightarrow> 'a heap_node \<Rightarrow> 'a option \<times> 'a heap_node" where
  "node_pop ranks Null = (None, Null)"
| "node_pop ranks (Node n l r d) =
    (if is_Null l \<and> is_Null r then (Some d, Null)
     else if is_Null l \<or> (\<not> is_Null r \<and> \<not> outRanks ranks (mData l) (mData r))
     then (let (x, r') = node_pop ranks (set_data r d) in (x, Node (n - 1) l r' (mData r)))
     else (let (x, l') = node_pop ranks (set_data l d) in (x, Node (n - 1) l' r (mData l))))"
  by pat_completeness auto
termination by (relation "measure (\<lambda>(_, t). size t)") auto

text \<open>\<open>LocHeapNode::remove\<close>: the search skips every subtree whose top the datum outranks.\<close>

fun node_remove :: "('a \<Rightarrow> 'a \<Rightarrow> int) \<Rightarrow> 'a heap_node \<Rightarrow> 'a \<Rightarrow> 'a option \<times> 'a heap_node" where
  "node_remove ranks Null x = (None, Null)"
| "node_remove ranks (Node n l r d) x =
    (if x = d then node_pop ranks (Node n l r d)
     else if \<not> outRanks ranks x d then
       (let (f, l') = (if \<not> is_Null l then node_remove ranks l x else (None, l));
            (f', r') = (if f = None \<and> \<not> is_Null r then node_remove ranks r x else (f, r))
        in (f', Node (if f' \<noteq> None then n - 1 else n) l' r' d))
     else (None, Node n l r d))"

fun checkNodes :: "('a \<Rightarrow> 'a \<Rightarrow> int) \<Rightarrow> 'a heap_node \<Rightarrow> bool" where
  "checkNodes ranks Null = True"
| "checkNodes ranks (Node n l r d) =
    (if \<not> is_Null l \<and> (outRanks ranks (mData l) d \<or> \<not> checkNodes ranks l) then False
     else (let totalSize = (if is_Null l then n else n - mSize l)
       in if \<not> is_Null r \<and> (outRanks ranks (mData r) d \<or> \<not> checkNodes ranks r) then False
          else (if is_Null r then totalSize else totalSize - mSize r) = 1))"

subsection \<open>The class LocHeap\<close>

text \<open>The object is its only field \<open>mTree\<close>.\<close>

definition LocHeap_push :: "('a \<Rightarrow> 'a \<Rightarrow> int) \<Rightarrow> 'a heap_node \<Rightarrow> 'a \<Rightarrow> 'a heap_node" where
  "LocHeap_push ranks mTree x = (if is_Null mTree then new_node x else node_push ranks mTree x)"

definition LocHeap_peek :: "'a heap_node \<Rightarrow> 'a option" where
  "LocHeap_peek mTree = (if is_Null mTree then None else Some (mData mTree))"

definition LocHeap_pop :: "('a \<Rightarrow> 'a \<Rightarrow> int) \<Rightarrow> 'a heap_node \<Rightarrow> 'a option \<times> 'a heap_node" where
  "LocHeap_pop ranks mTree = (if is_Null mTree then (None, mTree) else node_pop ranks mTree)"

definition LocHeap_remove :: "('a \<Rightarrow> 'a \<Rightarrow> int) \<Rightarrow> 'a heap_node \<Rightarrow> 'a \<Rightarrow> 'a option \<times> 'a heap_node" where
  "LocHeap_remove ranks mTree x = (if is_Null mTree then (None, mTree) else node_remove ranks mTree x)"

definition checkTree :: "('a \<Rightarrow> 'a \<Rightarrow> int) \<Rightarrow> 'a heap_node \<Rightarrow> bool" where
  "checkTree ranks mTree \<longleftrightarrow> is_Null mTree \<or> checkNodes ranks mTree"

definition getTreeSize :: "'a heap_node \<Rightarrow> int" where
  "getTreeSize mTree = (if is_Null mTree then 0 else mSize mTree)"

subsection \<open>The multiset of a heap\<close>

fun heap_mset :: "'a heap_node \<Rightarrow> 'a multiset" where
  "heap_mset Null = {#}"
| "heap_mset (Node n l r d) = {#d#} + heap_mset l + heap_mset r"

lemma heap_mset_empty [simp]: "heap_mset t = {#} \<longleftrightarrow> is_Null t"
  by (cases t) auto

lemma mset_set_data: "\<not> is_Null t \<Longrightarrow> heap_mset (set_data t x) + {#mData t#} = heap_mset t + {#x#}"
  by (cases t) auto

lemma node_push_nonnull [simp]: "\<not> is_Null (node_push ranks t x)"
  by (cases t) (auto simp: new_node_def Let_def)

lemma heap_mset_push: "heap_mset (node_push ranks t x) = heap_mset t + {#x#}"
  by (induction ranks t x rule: node_push.induct) (auto simp: new_node_def Let_def is_Null_def)

lemma node_pop_mset:
  "\<not> is_Null t \<Longrightarrow> node_pop ranks t = (y, t') \<Longrightarrow>
    y = Some (mData t) \<and> heap_mset t = heap_mset t' + {#mData t#}"
proof (induction ranks t arbitrary: y t' rule: node_pop.induct)
  case (2 ranks n l r d)
  show ?case
  proof (cases "is_Null l \<and> is_Null r")
    case True
    with "2.prems" show ?thesis by (auto simp: is_Null_def)
  next
    case nn: False
    show ?thesis
    proof (cases "is_Null l \<or> (\<not> is_Null r \<and> \<not> outRanks ranks (mData l) (mData r))")
      case True
      with nn have r: "\<not> is_Null r" by auto
      obtain r' where "node_pop ranks (set_data r d) = (y, r')" "t' = Node (n - 1) l r' (mData r)"
        using "2.prems" nn True by (auto simp: Let_def split: prod.splits)
      with "2.IH"(1) [OF nn True, of y r'] r mset_set_data [OF r, of d] show ?thesis by auto
    next
      case False
      with nn have l: "\<not> is_Null l" by auto
      obtain l' where "node_pop ranks (set_data l d) = (y, l')" "t' = Node (n - 1) l' r (mData l)"
        using "2.prems" nn False by (auto simp: Let_def split: prod.splits)
      with "2.IH"(2) [OF nn False, of y l'] l mset_set_data [OF l, of d] show ?thesis by auto
    qed
  qed
qed simp

lemma node_remove_mset:
  "node_remove ranks t x = (y, t') \<Longrightarrow>
    (case y of None \<Rightarrow> t' = t | Some z \<Rightarrow> z = x \<and> heap_mset t = heap_mset t' + {#x#})"
proof (induction t arbitrary: y t')
  case (Node n l r d)
  show ?case
  proof (cases "x = d")
    case True
    with Node.prems node_pop_mset [of "Node n l r d" ranks y t'] show ?thesis by auto
  next
    case False
    obtain y1 l' where l: "node_remove ranks l x = (y1, l')" by (cases "node_remove ranks l x")
    obtain y2 r' where r: "node_remove ranks r x = (y2, r')" by (cases "node_remove ranks r x")
    from Node.prems False Node.IH(1) [OF l] Node.IH(2) [OF r] l r show ?thesis
      by (auto simp: Let_def is_Null_def split: if_splits option.splits)
  qed
qed simp

lemma node_remove_None: "node_remove ranks t x = (None, t') \<Longrightarrow> t' = t"
  using node_remove_mset [of ranks t x None t'] by simp

lemma node_remove_Node:
  "node_remove ranks (Node n l r d) x =
    (if x = d then node_pop ranks (Node n l r d)
     else if outRanks ranks x d then (None, Node n l r d)
     else (case node_remove ranks l x of
         (Some y, l') \<Rightarrow> (Some y, Node (n - 1) l' r d)
       | (None, _) \<Rightarrow> (case node_remove ranks r x of
           (Some y, r') \<Rightarrow> (Some y, Node (n - 1) l r' d)
         | (None, _) \<Rightarrow> (None, Node n l r d))))"
  by (auto simp: Let_def is_Null_def split: prod.splits option.splits dest: node_remove_None)

declare node_remove.simps(2) [simp del]

lemma checkNodes_Node:
  "checkNodes ranks (Node n l r d) \<longleftrightarrow>
    (\<not> is_Null l \<longrightarrow> \<not> outRanks ranks (mData l) d) \<and> checkNodes ranks l \<and>
    (\<not> is_Null r \<longrightarrow> \<not> outRanks ranks (mData r) d) \<and> checkNodes ranks r \<and>
    n = 1 + getTreeSize l + getTreeSize r"
  by (auto simp: Let_def getTreeSize_def is_Null_def)

declare checkNodes.simps(2) [simp del]

lemma mData_push:
  "\<not> is_Null t \<Longrightarrow> mData (node_push ranks t x) = (if outRanks ranks x (mData t) then x else mData t)"
  by (cases t) (auto simp: Let_def)

lemma getTreeSize_push: "getTreeSize (node_push ranks t x) = getTreeSize t + 1"
  by (cases t) (auto simp: Let_def getTreeSize_def new_node_def)

lemma getTreeSize_set_data [simp]: "getTreeSize (set_data t x) = getTreeSize t"
  by (cases t) (auto simp: getTreeSize_def)

lemma getTreeSize_simps [simp]: "getTreeSize Null = 0" "getTreeSize (Node n l r d) = n"
  by (simp_all add: getTreeSize_def)

lemma mData_in: "\<not> is_Null t \<Longrightarrow> mData t \<in># heap_mset t"
  by (cases t) auto

lemma getTreeSize_size: "checkNodes ranks t \<Longrightarrow> getTreeSize t = int (size (heap_mset t))"
  by (induction t) (auto simp: checkNodes_Node)

text \<open>A tree whose order may be broken at its top, as in the middle of \<open>pop\<close>.\<close>

fun weak_check :: "('a \<Rightarrow> 'a \<Rightarrow> int) \<Rightarrow> 'a heap_node \<Rightarrow> bool" where
  "weak_check ranks Null = True"
| "weak_check ranks (Node n l r d) \<longleftrightarrow>
    checkNodes ranks l \<and> checkNodes ranks r \<and> n = 1 + getTreeSize l + getTreeSize r"

lemma weak_check_set_data: "checkNodes ranks t \<Longrightarrow> weak_check ranks (set_data t x)"
  by (cases t) (auto simp: checkNodes_Node)

subsection \<open>What the heap needs of \<open>ranks\<close>, and its correctness\<close>

text \<open>
  On the data in use (\<open>ok\<close>), "outranks" is a strict weak order: asymmetric, and its complement is
  transitive.
\<close>

locale rankable =
  fixes ranks :: "'a \<Rightarrow> 'a \<Rightarrow> int" and ok :: "'a \<Rightarrow> bool"
  assumes asym: "ok a \<Longrightarrow> ok b \<Longrightarrow> outRanks ranks a b \<Longrightarrow> \<not> outRanks ranks b a"
    and not_trans: "ok a \<Longrightarrow> ok b \<Longrightarrow> ok c \<Longrightarrow> \<not> outRanks ranks b a \<Longrightarrow> \<not> outRanks ranks c b \<Longrightarrow>
      \<not> outRanks ranks c a"
begin

lemma irrefl: "ok a \<Longrightarrow> \<not> outRanks ranks a a"
  using asym by blast

lemma top_max:
  "checkNodes ranks t \<Longrightarrow> \<forall>y\<in>#heap_mset t. ok y \<Longrightarrow> x \<in># heap_mset t \<Longrightarrow>
    \<not> outRanks ranks x (mData t)"
proof (induction t)
  case (Node n l r d)
  have sub: "\<not> outRanks ranks x d"
    if "\<not> is_Null c" "\<not> outRanks ranks (mData c) d" "\<not> outRanks ranks x (mData c)"
      "c = l \<or> c = r" "x \<in># heap_mset c" for c
  proof (rule not_trans [of d "mData c" x])
    from Node.prems(2) that show "ok d" "ok (mData c)" "ok x" by (auto dest: mData_in)
  qed (use that in auto)
  from Node.prems(3) consider "x = d" | "x \<in># heap_mset l" | "x \<in># heap_mset r" by auto
  then show ?case
  proof cases
    case 1
    with Node.prems irrefl show ?thesis by simp
  next
    case 2
    then have "\<not> is_Null l" by (cases l) auto
    with 2 Node.prems Node.IH(1) sub [of l] show ?thesis by (simp add: checkNodes_Node)
  next
    case 3
    then have "\<not> is_Null r" by (cases r) auto
    with 3 Node.prems Node.IH(2) sub [of r] show ?thesis by (simp add: checkNodes_Node)
  qed
qed simp

lemma push_check:
  "checkNodes ranks t \<Longrightarrow> \<forall>y\<in>#heap_mset t. ok y \<Longrightarrow> ok x \<Longrightarrow> checkNodes ranks (node_push ranks t x)"
proof (induction t arbitrary: x)
  case Null
  then show ?case by (simp add: new_node_def checkNodes_Node getTreeSize_def)
next
  case (Node n l r d)
  define top where "top = (if outRanks ranks x d then x else d)"
  define low where "low = (if outRanks ranks x d then d else x)"
  have okd: "ok d" "ok low" "ok top" using Node.prems by (auto simp: top_def low_def)
  have lt: "\<not> outRanks ranks low top"
    using asym [of x d] Node.prems okd by (auto simp: top_def low_def)
  have child: "\<not> outRanks ranks (mData c) top"
    if "\<not> is_Null c" "c = l \<or> c = r" for c
  proof (rule not_trans [of top d])
    show "ok top" "ok d" using okd by auto
    show "ok (mData c)" using that Node.prems(2) mData_in by auto
    show "\<not> outRanks ranks d top" using irrefl [of d] lt okd by (auto simp: top_def low_def)
    show "\<not> outRanks ranks (mData c) d" using that Node.prems(1) by (auto simp: checkNodes_Node)
  qed
  have eq: "node_push ranks (Node n l r d) x =
      (if is_Null l then Node (n + 1) (new_node low) r top
       else if is_Null r then Node (n + 1) l (new_node low) top
       else if mSize l \<le> mSize r then Node (n + 1) (node_push ranks l low) r top
       else Node (n + 1) l (node_push ranks r low) top)"
    by (simp add: Let_def top_def low_def)
  have new: "checkNodes ranks (new_node low)" "getTreeSize (new_node low) = 1"
      "mData (new_node low) = low" "\<not> is_Null (new_node low)"
    by (simp_all add: new_node_def checkNodes_Node getTreeSize_def)
  have pushed: "checkNodes ranks (node_push ranks c low)"
      "\<not> outRanks ranks (mData (node_push ranks c low)) top"
    if "\<not> is_Null c" "c = l \<or> c = r" for c
    using that Node.prems okd Node.IH(1) [of low] Node.IH(2) [of low] child [OF that] lt
    by (auto simp: checkNodes_Node mData_push)
  show ?case
    unfolding eq using Node.prems(1) new lt child [of l] child [of r] pushed [of l] pushed [of r]
    by (auto simp: checkNodes_Node getTreeSize_push is_Null_def)
qed

lemma pop_weak:
  "weak_check ranks t \<Longrightarrow> \<forall>y\<in>#heap_mset t. ok y \<Longrightarrow> \<not> is_Null t \<Longrightarrow> node_pop ranks t = (y, t') \<Longrightarrow>
    checkNodes ranks t' \<and> getTreeSize t' = getTreeSize t - 1 \<and>
    (\<not> is_Null t' \<longrightarrow> (\<exists>c. (c = mLeft t \<or> c = mRight t) \<and> \<not> is_Null c \<and> mData t' = mData c))"
proof (induction "size t" arbitrary: t y t' rule: less_induct)
  case less
  then obtain n l r d where t: "t = Node n l r d" by (cases t) auto
  note check = less.prems(1) [unfolded t, simplified]
  note pop = less.prems(4) [unfolded t]
  show ?case
  proof (cases "is_Null l \<and> is_Null r")
    case True
    with check pop show ?thesis by (auto simp: t is_Null_def)
  next
    case nn: False
    show ?thesis
    proof (cases "is_Null l \<or> (\<not> is_Null r \<and> \<not> outRanks ranks (mData l) (mData r))")
      case True
      with nn have r: "\<not> is_Null r" by auto
      obtain r' where r': "node_pop ranks (set_data r d) = (y, r')" "t' = Node (n - 1) l r' (mData r)"
        using pop nn True by (auto simp: Let_def split: prod.splits)
      have okr: "\<forall>y\<in>#heap_mset (set_data r d). ok y"
        using less.prems(2) t r by (cases r) auto
      have IH: "checkNodes ranks r' \<and> getTreeSize r' = getTreeSize r - 1 \<and>
          (\<not> is_Null r' \<longrightarrow> (\<exists>c. (c = mLeft r \<or> c = mRight r) \<and> \<not> is_Null c \<and> mData r' = mData c))"
        using less.hyps [OF _ weak_check_set_data okr _ r'(1)] check r by (cases r) (auto simp: t)
      moreover have "\<not> is_Null r' \<longrightarrow> \<not> outRanks ranks (mData r') (mData r)"
        using IH check r by (cases r) (auto simp: checkNodes_Node)
      ultimately show ?thesis
        using r' check r True by (auto simp: t checkNodes_Node)
    next
      case False
      with nn have l: "\<not> is_Null l" by auto
      obtain l' where l': "node_pop ranks (set_data l d) = (y, l')" "t' = Node (n - 1) l' r (mData l)"
        using pop nn False by (auto simp: Let_def split: prod.splits)
      have okl: "\<forall>y\<in>#heap_mset (set_data l d). ok y"
        using less.prems(2) t l by (cases l) auto
      have IH: "checkNodes ranks l' \<and> getTreeSize l' = getTreeSize l - 1 \<and>
          (\<not> is_Null l' \<longrightarrow> (\<exists>c. (c = mLeft l \<or> c = mRight l) \<and> \<not> is_Null c \<and> mData l' = mData c))"
        using less.hyps [OF _ weak_check_set_data okl _ l'(1)] check l by (cases l) (auto simp: t)
      moreover have "\<not> is_Null l' \<longrightarrow> \<not> outRanks ranks (mData l') (mData l)"
        using IH check l by (cases l) (auto simp: checkNodes_Node)
      moreover have "\<not> is_Null r \<longrightarrow> \<not> outRanks ranks (mData r) (mData l)"
        using False l asym [of "mData l" "mData r"] less.prems(2) t mData_in [of l] mData_in [of r]
        by auto
      ultimately show ?thesis
        using l' check l False by (auto simp: t checkNodes_Node)
    qed
  qed
qed

lemma pop_correct:
  assumes "checkNodes ranks t" and "\<forall>y\<in>#heap_mset t. ok y" and "\<not> is_Null t"
  obtains t' where "node_pop ranks t = (Some (mData t), t')" "checkNodes ranks t'"
    "heap_mset t = heap_mset t' + {#mData t#}" "getTreeSize t' = getTreeSize t - 1"
proof -
  obtain y t' where p: "node_pop ranks t = (y, t')" by (cases "node_pop ranks t")
  have "weak_check ranks t" using assms(1) by (cases t) (auto simp: checkNodes_Node)
  from pop_weak [OF this assms(2,3) p] node_pop_mset [OF assms(3) p] p that show ?thesis by auto
qed

lemma remove_check:
  "checkNodes ranks t \<Longrightarrow> \<forall>y\<in>#heap_mset t. ok y \<Longrightarrow> node_remove ranks t x = (y, t') \<Longrightarrow>
    checkNodes ranks t' \<and> getTreeSize t' = getTreeSize t - (if y = None then 0 else 1)"
proof (induction t arbitrary: y t')
  case (Node n l r d)
  show ?case
  proof (cases "x = d")
    case True
    have "\<not> is_Null (Node n l r d)" by simp
    then obtain s where "node_pop ranks (Node n l r d) = (Some d, s)" "checkNodes ranks s"
        "getTreeSize s = n - 1"
      by (rule pop_correct [OF Node.prems(1,2)]) auto
    with Node.prems(3) True show ?thesis by (auto simp: node_remove_Node simp del: node_pop.simps)
  next
    case False
    have below: "\<not> is_Null c' \<longrightarrow> \<not> outRanks ranks (mData c') d"
      if "heap_mset c' \<subseteq># heap_mset l \<or> heap_mset c' \<subseteq># heap_mset r" for c'
    proof
      assume "\<not> is_Null c'"
      then have "mData c' \<in># heap_mset (Node n l r d)"
        using that mData_in [of c'] by (auto dest: mset_subset_eqD)
      from top_max [OF Node.prems(1,2) this] show "\<not> outRanks ranks (mData c') d" by simp
    qed
    obtain y1 l' where l: "node_remove ranks l x = (y1, l')" by (cases "node_remove ranks l x")
    obtain y2 r' where r: "node_remove ranks r x = (y2, r')" by (cases "node_remove ranks r x")
    have ls: "heap_mset l' \<subseteq># heap_mset l" and rs: "heap_mset r' \<subseteq># heap_mset r"
      using node_remove_mset [OF l] node_remove_mset [OF r] by (auto split: option.splits)
    have IHl: "checkNodes ranks l' \<and> getTreeSize l' = getTreeSize l - (if y1 = None then 0 else 1)"
      using Node.IH(1) [OF _ _ l] Node.prems by (auto simp: checkNodes_Node)
    have IHr: "checkNodes ranks r' \<and> getTreeSize r' = getTreeSize r - (if y2 = None then 0 else 1)"
      using Node.IH(2) [OF _ _ r] Node.prems by (auto simp: checkNodes_Node)
    show ?thesis
      using Node.prems(1,3) False l r IHl IHr below [of l'] below [of r'] ls rs
      by (auto simp: node_remove_Node checkNodes_Node split: if_splits option.splits)
  qed
qed simp

lemma remove_found:
  "checkNodes ranks t \<Longrightarrow> \<forall>y\<in>#heap_mset t. ok y \<Longrightarrow> x \<in># heap_mset t \<Longrightarrow>
    fst (node_remove ranks t x) = Some x"
proof (induction t)
  case (Node n l r d)
  show ?case
  proof (cases "x = d")
    case True
    have "\<not> is_Null (Node n l r d)" by simp
    then obtain s where "node_pop ranks (Node n l r d) = (Some d, s)"
      by (rule pop_correct [OF Node.prems(1,2)]) auto
    with True show ?thesis by (auto simp: node_remove_Node simp del: node_pop.simps)
  next
    case False
    from top_max [OF Node.prems] have "\<not> outRanks ranks x d" by simp
    with False Node show ?thesis
      using node_remove_mset [of ranks l x]
      by (auto simp: node_remove_Node checkNodes_Node split: option.splits prod.splits)
  qed
qed simp

text \<open>The class level: the invariant of a heap object and what each method does to its multiset.\<close>

lemma LocHeap_push_correct:
  assumes "checkTree ranks t" and "\<forall>y\<in>#heap_mset t. ok y" and "ok x"
  shows "checkTree ranks (LocHeap_push ranks t x)"
    and "heap_mset (LocHeap_push ranks t x) = heap_mset t + {#x#}"
  using assms push_check [of t x] heap_mset_push [of ranks t x]
  by (auto simp: checkTree_def LocHeap_push_def new_node_def checkNodes_Node is_Null_def)

lemma LocHeap_peek_correct:
  assumes "checkTree ranks t" and "\<forall>y\<in>#heap_mset t. ok y" and "LocHeap_peek t = Some x"
  shows "x \<in># heap_mset t" and "\<forall>y\<in>#heap_mset t. \<not> outRanks ranks y x"
  using assms top_max [of t] mData_in [of t]
  by (auto simp: LocHeap_peek_def checkTree_def split: if_splits)

lemma LocHeap_pop_correct:
  assumes "checkTree ranks t" and "\<forall>y\<in>#heap_mset t. ok y" and "LocHeap_pop ranks t = (y, t')"
  shows "y = LocHeap_peek t" and "checkTree ranks t'"
    and "heap_mset t = heap_mset t' + (case y of None \<Rightarrow> {#} | Some x \<Rightarrow> {#x#})"
proof -
  have "y = LocHeap_peek t \<and> checkTree ranks t' \<and>
      heap_mset t = heap_mset t' + (case y of None \<Rightarrow> {#} | Some x \<Rightarrow> {#x#})"
  proof (cases "is_Null t")
    case True
    with assms show ?thesis by (auto simp: LocHeap_pop_def LocHeap_peek_def checkTree_def)
  next
    case False
    with assms(1) have "checkNodes ranks t" by (simp add: checkTree_def)
    then obtain s where "node_pop ranks t = (Some (mData t), s)" "checkNodes ranks s"
        "heap_mset t = heap_mset s + {#mData t#}"
      by (rule pop_correct [OF _ assms(2) False])
    with False assms(3) show ?thesis
      by (auto simp: LocHeap_pop_def LocHeap_peek_def checkTree_def)
  qed
  then show "y = LocHeap_peek t" and "checkTree ranks t'"
    and "heap_mset t = heap_mset t' + (case y of None \<Rightarrow> {#} | Some x \<Rightarrow> {#x#})" by auto
qed

lemma LocHeap_remove_correct:
  assumes "checkTree ranks t" and "\<forall>y\<in>#heap_mset t. ok y" and "LocHeap_remove ranks t x = (y, t')"
  shows "y = (if x \<in># heap_mset t then Some x else None)" and "checkTree ranks t'"
    and "heap_mset t' = heap_mset t - {#x#}"
proof -
  have "y = (if x \<in># heap_mset t then Some x else None) \<and> checkTree ranks t' \<and>
      heap_mset t' = heap_mset t - {#x#}"
  proof (cases "is_Null t")
    case True
    with assms show ?thesis by (auto simp: LocHeap_remove_def checkTree_def is_Null_def)
  next
    case False
    with assms(1,3) have c: "checkNodes ranks t" and r: "node_remove ranks t x = (y, t')"
      by (auto simp: checkTree_def LocHeap_remove_def)
    show ?thesis
    proof (cases "x \<in># heap_mset t")
      case True
      with remove_found [OF c assms(2) True] r node_remove_mset [OF r] remove_check [OF c assms(2) r]
      show ?thesis by (auto simp: checkTree_def)
    next
      case notin: False
      with node_remove_mset [OF r] c show ?thesis
        by (auto simp: checkTree_def diff_single_trivial split: option.splits)
    qed
  qed
  then show "y = (if x \<in># heap_mset t then Some x else None)" and "checkTree ranks t'"
    and "heap_mset t' = heap_mset t - {#x#}" by auto
qed

end

subsection \<open>Balance\<close>

fun heap_height :: "'a heap_node \<Rightarrow> nat" where
  "heap_height Null = 0"
| "heap_height (Node n l r d) = 1 + max (heap_height l) (heap_height r)"

fun balanced :: "'a heap_node \<Rightarrow> bool" where
  "balanced Null = True"
| "balanced (Node n l r d) \<longleftrightarrow> balanced l \<and> balanced r \<and> n = 1 + getTreeSize l + getTreeSize r \<and>
    0 \<le> getTreeSize r \<and> getTreeSize r \<le> getTreeSize l \<and> getTreeSize l \<le> getTreeSize r + 1"

lemma balanced_size: "balanced t \<Longrightarrow> 0 \<le> getTreeSize t \<and> (getTreeSize t = 0 \<longleftrightarrow> is_Null t)"
  by (cases t) auto

lemma balanced_push: "balanced t \<Longrightarrow> balanced (node_push ranks t x)"
proof (induction t arbitrary: x)
  case (Node n l r d)
  have sz: "\<not> is_Null c \<Longrightarrow> mSize c = getTreeSize c" for c :: "'a heap_node" by (cases c) auto
  from Node.prems balanced_size [of l] balanced_size [of r] Node.IH show ?case
    by (auto simp: Let_def sz getTreeSize_push new_node_def is_Null_def)
qed (simp add: new_node_def)

lemma balanced_height: "balanced t \<Longrightarrow> \<not> is_Null t \<Longrightarrow> 2 ^ heap_height t \<le> 2 * getTreeSize t"
proof (induction t)
  case (Node n l r d)
  have b: "balanced l" "balanced r" "getTreeSize r \<le> getTreeSize l"
      "getTreeSize l \<le> getTreeSize r + 1" "0 \<le> getTreeSize r"
    using Node.prems by auto
  show ?case
  proof (cases "is_Null l")
    case True
    with b balanced_size [of l] balanced_size [of r] have "is_Null r" by auto
    with True Node.prems show ?thesis by (auto simp: is_Null_def)
  next
    case False
    have hl: "2 ^ heap_height l \<le> 2 * getTreeSize l" using Node.IH(1) b False by simp
    have hr: "2 ^ heap_height r \<le> 2 * getTreeSize l"
      using Node.IH(2) b False balanced_size [of l] by (cases "is_Null r") (auto simp: is_Null_def)
    from hl hr have "2 ^ max (heap_height l) (heap_height r) \<le> 2 * getTreeSize l"
      by (simp add: max_def)
    with Node.prems b show ?thesis by simp
  qed
qed simp

lemma balanced_pushes:
  "balanced t \<Longrightarrow> balanced (fold (\<lambda>x t. LocHeap_push ranks t x) xs t) \<and>
    getTreeSize (fold (\<lambda>x t. LocHeap_push ranks t x) xs t) = getTreeSize t + int (length xs)"
proof (induction xs arbitrary: t)
  case (Cons x xs)
  have "LocHeap_push ranks t x = node_push ranks t x"
    by (auto simp: LocHeap_push_def is_Null_def)
  with Cons.IH [of "LocHeap_push ranks t x"] balanced_push [OF Cons.prems] show ?case
    by (simp add: getTreeSize_push)
qed simp

text \<open>
  The heap that results from pushing any data, in any order and whatever their ranks, onto an
  empty heap has logarithmic height: \<open>push\<close> does balance the tree by adding to the smaller subtree.
\<close>

theorem LocHeap_push_balances:
  "2 ^ heap_height (fold (\<lambda>x t. LocHeap_push ranks t x) xs Null) \<le> max 1 (2 * int (length xs))"
proof -
  let ?t = "fold (\<lambda>x t. LocHeap_push ranks t x) xs Null"
  from balanced_pushes [of Null ranks xs]
  have b: "balanced ?t" "getTreeSize ?t = int (length xs)" by auto
  with balanced_height [OF b(1)] show ?thesis by (cases "is_Null ?t") (auto simp: is_Null_def)
qed

end
