(* ===== verification/Loc_Timer.thy ===== *)
theory Loc_Timer
  imports Loc_Heap
begin

text \<open>
  The timer service of \<open>gps/utils/LocTimer.cpp\<close>: clients start and stop timers; each running timer
  is a \<open>LocTimerDelegate\<close>, ranked by expiry time in the heap of one of two containers (timers and
  alarms); every change of a heap is a message that the single MsgTask thread processes; the
  kernel's timerfd of a container is armed with its soonest expiry. The thread that polls the
  timerfds calls \<open>expire\<close>. The system state has the containers, the message queue, the delegates
  that are allocated and the log of client callbacks.
\<close>

subsection \<open>Times and ranks\<close>

record timespec =
  tv_sec :: int
  tv_nsec :: int

text \<open>The conversion of a C \<open>long\<close> to \<open>int\<close>: the low 32 bits, read as two's complement.\<close>

definition to_int32 :: "int \<Rightarrow> int" where
  "to_int32 x = (x + 2 ^ 31) mod 2 ^ 32 - 2 ^ 31"

lemma to_int32_id: "- (2 ^ 31) \<le> x \<Longrightarrow> x < 2 ^ 31 \<Longrightarrow> to_int32 x = x"
  by (simp add: to_int32_def)

definition time_ranks :: "timespec \<Rightarrow> timespec \<Rightarrow> int" where
  "time_ranks this timer =
    (let rank = to_int32 (tv_sec timer - tv_sec this)
     in if rank = 0 then to_int32 (tv_nsec timer - tv_nsec this) else rank)"

text \<open>
  A delegate as the heap sees it: its address, its expiry time, which never changes, and the
  container it was created for (\<open>wakeOnExpire\<close>: an alarm). Its handle on the client is mutable and
  kept in the system state.
\<close>

record delegate =
  d_addr :: addr
  mFutureTime :: timespec
  wake :: bool

definition delegate_ranks :: "delegate \<Rightarrow> delegate \<Rightarrow> int" where
  "delegate_ranks this timer = time_ranks (mFutureTime this) (mFutureTime timer)"

text \<open>The times the service sees: seconds since boot that fit 31 bits, normalised nanoseconds.\<close>

definition valid_time :: "timespec \<Rightarrow> bool" where
  "valid_time t \<longleftrightarrow> 0 \<le> tv_sec t \<and> tv_sec t < 2 ^ 31 \<and> 0 \<le> tv_nsec t \<and> tv_nsec t < 1000000000"

definition valid_delegate :: "delegate \<Rightarrow> bool" where
  "valid_delegate d \<longleftrightarrow> valid_time (mFutureTime d)"

definition time_before :: "timespec \<Rightarrow> timespec \<Rightarrow> bool" where
  "time_before a b \<longleftrightarrow> tv_sec a < tv_sec b \<or> (tv_sec a = tv_sec b \<and> tv_nsec a < tv_nsec b)"

lemma outRanks_time:
  assumes "valid_time a" and "valid_time b"
  shows "time_ranks a b > 0 \<longleftrightarrow> time_before a b"
proof -
  have "to_int32 (tv_sec b - tv_sec a) = tv_sec b - tv_sec a"
    "to_int32 (tv_nsec b - tv_nsec a) = tv_nsec b - tv_nsec a"
    using assms by (auto simp: valid_time_def intro!: to_int32_id)
  then show ?thesis by (auto simp: time_ranks_def Let_def time_before_def)
qed

lemma outRanks_delegate:
  "valid_delegate a \<Longrightarrow> valid_delegate b \<Longrightarrow>
    outRanks delegate_ranks a b \<longleftrightarrow> time_before (mFutureTime a) (mFutureTime b)"
  by (simp add: outRanks_def delegate_ranks_def valid_delegate_def outRanks_time)

text \<open>Expiry times rank the delegates as the heap needs: earlier ranks higher.\<close>

interpretation th: rankable delegate_ranks valid_delegate
  by unfold_locales (auto simp: outRanks_delegate time_before_def)

subsection \<open>State\<close>

datatype timer_msg = MsgTimerPush delegate | MsgTimerRemove delegate | MsgTimerExpire bool

record container =
  mTree :: "delegate heap_node"
  timerfd :: "timespec option"
  polled :: bool

type_synonym client = nat

text \<open>
  \<open>mTimer\<close> is the field of each \<open>LocTimer\<close>; \<open>mClient\<close> that of each allocated delegate (\<open>None\<close>: not
  allocated; \<open>Some None\<close>: NULL). \<open>fired\<close> logs the calls of \<open>timeOutCallback\<close>, with the time at
  which the expiry was processed.
\<close>

record timer_sys =
  conts :: "bool \<Rightarrow> container"
  msgs :: "timer_msg list"
  mTimer :: "client \<Rightarrow> delegate option"
  mClient :: "delegate \<Rightarrow> client option option"
  next_addr :: addr
  fired :: "(client \<times> timespec) list"
  clock :: timespec

definition timer_init :: timer_sys where
  "timer_init = \<lparr>conts = (\<lambda>_. \<lparr>mTree = Null, timerfd = None, polled = False\<rparr>), msgs = [],
     mTimer = (\<lambda>_. None), mClient = (\<lambda>_. None), next_addr = 0, fired = [],
     clock = \<lparr>tv_sec = 0, tv_nsec = 0\<rparr>\<rparr>"

abbreviation upd_cont :: "bool \<Rightarrow> (container \<Rightarrow> container) \<Rightarrow> timer_sys \<Rightarrow> timer_sys" where
  "upd_cont w f S \<equiv> S\<lparr>conts := (conts S)(w := f (conts S w))\<rparr>"

subsection \<open>LocTimerContainer\<close>

definition getSoonestTimer :: "container \<Rightarrow> delegate option" where
  "getSoonestTimer c = LocHeap_peek (mTree c)"

text \<open>
  Two pointers to delegates are equal when the delegates are: every delegate gets an address of
  its own (\<open>LocTimer_start\<close>).
\<close>

definition updateSoonestTime :: "delegate option \<Rightarrow> container \<Rightarrow> container" where
  "updateSoonestTime priorTop c =
    (let curTop = getSoonestTimer c in
     if curTop \<noteq> priorTop then
       (case curTop of
          None \<Rightarrow> c\<lparr>polled := False, timerfd := None\<rparr>
        | Some cur \<Rightarrow>
            if (case priorTop of None \<Rightarrow> True | Some p \<Rightarrow> outRanks delegate_ranks cur p)
            then c\<lparr>polled := True, timerfd := Some (mFutureTime cur)\<rparr>
            else c)
     else c)"

definition popIfOutRanks :: "timespec \<Rightarrow> container \<Rightarrow> delegate option \<times> container" where
  "popIfOutRanks now c =
    (case LocHeap_peek (mTree c) of
       None \<Rightarrow> (None, c)
     | Some soonest \<Rightarrow>
         if \<not> time_ranks now (mFutureTime soonest) > 0
         then (let (d, t) = LocHeap_pop delegate_ranks (mTree c) in (d, c\<lparr>mTree := t\<rparr>))
         else (None, c))"

subsection \<open>LocTimer\<close>

text \<open>
  \<open>start\<close> with the time it reads; \<open>timeOutInMs\<close> is an \<open>unsigned int\<close>. \<open>loc_timer_start\<close> takes 64 bits
  and passes them on, so it truncates.
\<close>

definition future_time :: "timespec \<Rightarrow> 32 word \<Rightarrow> timespec" where
  "future_time now timeOutInMs =
    (let sec = tv_sec now + uint (timeOutInMs div 1000);
         nsec = tv_nsec now + uint ((timeOutInMs mod 1000) * 1000000)
     in if nsec \<ge> 1000000000
        then \<lparr>tv_sec = sec + nsec div 1000000000, tv_nsec = nsec mod 1000000000\<rparr>
        else \<lparr>tv_sec = sec, tv_nsec = nsec\<rparr>)"

definition LocTimer_start ::
  "client \<Rightarrow> 32 word \<Rightarrow> bool \<Rightarrow> timespec \<Rightarrow> timer_sys \<Rightarrow> bool \<times> timer_sys" where
  "LocTimer_start c timeOutInMs wakeOnExpire now S =
    (if mTimer S c = None then
       (let d = \<lparr>d_addr = next_addr S, mFutureTime = future_time now timeOutInMs,
                 wake = wakeOnExpire\<rparr>
        in (True, S\<lparr>mTimer := (mTimer S)(c \<mapsto> d),
                    mClient := (mClient S)(d \<mapsto> Some c),
                    next_addr := Suc (next_addr S),
                    msgs := msgs S @ [MsgTimerPush d]\<rparr>))
     else (False, S))"

text \<open>\<open>stop\<close> with \<open>LocTimerDelegate::destroyLocked\<close> and \<open>LocTimerContainer::remove\<close>.\<close>

definition LocTimer_stop :: "client \<Rightarrow> timer_sys \<Rightarrow> bool \<times> timer_sys" where
  "LocTimer_stop c S =
    (case mTimer S c of
       None \<Rightarrow> (False, S)
     | Some d \<Rightarrow> (True, S\<lparr>mTimer := (mTimer S)(c := None),
                          mClient := (mClient S)(d \<mapsto> None),
                          msgs := msgs S @ [MsgTimerRemove d]\<rparr>))"

definition loc_timer_start_ms :: "64 word \<Rightarrow> 32 word" where
  "loc_timer_start_ms msec = ucast msec"

text \<open>\<open>LocTimerDelegate::expire\<close>; \<open>None\<close> when the delegate is not allocated.\<close>

definition delegate_expire :: "timespec \<Rightarrow> delegate \<Rightarrow> timer_sys \<Rightarrow> timer_sys mem" where
  "delegate_expire now d S =
    (case mClient S d of
       None \<Rightarrow> None
     | Some None \<Rightarrow> Some S
     | Some (Some c) \<Rightarrow>
         (let (ok, S') = LocTimer_stop c S
          in Some (if ok then S'\<lparr>fired := fired S' @ [(c, now)]\<rparr> else S')))"

subsection \<open>Message processing and the poll thread\<close>

definition proc_push :: "delegate \<Rightarrow> timer_sys \<Rightarrow> timer_sys" where
  "proc_push d S =
    (let w = wake d; priorTop = getSoonestTimer (conts S w)
     in upd_cont w (\<lambda>c. updateSoonestTime priorTop
          (c\<lparr>mTree := LocHeap_push delegate_ranks (mTree c) d\<rparr>)) S)"

definition proc_remove :: "delegate \<Rightarrow> timer_sys \<Rightarrow> timer_sys" where
  "proc_remove d S =
    (let w = wake d; c = conts S w; priorTop = getSoonestTimer c;
         (r, t) = LocHeap_remove delegate_ranks (mTree c) d;
         c1 = c\<lparr>mTree := t\<rparr>;
         c2 = (if priorTop = r then updateSoonestTime None c1 else c1)
     in S\<lparr>conts := (conts S)(w := c2), mClient := (mClient S)(d := None)\<rparr>)"

lemma pop_size:
  "LocHeap_pop ranks t = (y, t') \<Longrightarrow>
    size (heap_mset t') + (if y = None then 0 else 1) = size (heap_mset t)"
  using node_pop_mset [of t ranks y t'] by (auto simp: LocHeap_pop_def is_Null_def split: if_splits)

lemma popIfOutRanks_size:
  "popIfOutRanks now c = (y, c') \<Longrightarrow>
    size (heap_mset (mTree c')) + (if y = None then 0 else 1) = size (heap_mset (mTree c))"
  using pop_size [of delegate_ranks "mTree c"]
  by (fastforce simp: popIfOutRanks_def split: option.splits if_splits prod.splits)

lemma stop_conts [simp]: "LocTimer_stop c S = (ok, S') \<Longrightarrow> conts S' = conts S"
  by (auto simp: LocTimer_stop_def split: option.splits)

lemma delegate_expire_conts: "delegate_expire now d S = Some S' \<Longrightarrow> conts S' = conts S"
  by (auto simp: delegate_expire_def split: option.splits prod.splits if_splits)

text \<open>The loop of \<open>MsgTimerExpire::proc\<close>: \<open>timer\<close> is the timer popped last.\<close>

function (sequential) expire_loop ::
  "bool \<Rightarrow> timespec \<Rightarrow> delegate option \<Rightarrow> timer_sys \<Rightarrow> timer_sys mem" where
  "expire_loop w now None S = Some S"
| "expire_loop w now (Some d) S = do {
     S1 \<leftarrow> delegate_expire now d S;
     let (timer, c) = popIfOutRanks now (conts S1 w);
     expire_loop w now timer (S1\<lparr>conts := (conts S1)(w := c)\<rparr>) }"
  by pat_completeness auto
termination
proof (relation "measure (\<lambda>(w, now, timer, S).
    size (heap_mset (mTree (conts S w))) + (if timer = None then 0 else 1))", goal_cases)
  case (2 w now d S S1 p timer c)
  from 2(1) have "conts S1 = conts S" by (rule delegate_expire_conts)
  with 2(2,3) popIfOutRanks_size [of now "conts S1 w"] show ?case
    by auto
qed simp

definition proc_expire :: "bool \<Rightarrow> timespec \<Rightarrow> timer_sys \<Rightarrow> timer_sys mem" where
  "proc_expire w now S = do {
     let (timer, t) = LocHeap_pop delegate_ranks (mTree (conts S w));
     S1 \<leftarrow> expire_loop w now timer (upd_cont w (\<lambda>c. c\<lparr>mTree := t\<rparr>) S);
     Some (upd_cont w (updateSoonestTime None) S1) }"

text \<open>One message, taken from the front of the queue by the MsgTask thread.\<close>

definition proc_msg :: "timer_sys \<Rightarrow> timer_sys mem" where
  "proc_msg S =
    (case msgs S of
       [] \<Rightarrow> Some S
     | m # ms \<Rightarrow>
         (let S0 = S\<lparr>msgs := ms\<rparr> in
          case m of
            MsgTimerPush d \<Rightarrow> Some (proc_push d S0)
          | MsgTimerRemove d \<Rightarrow> Some (proc_remove d S0)
          | MsgTimerExpire w \<Rightarrow> proc_expire w (clock S) S0))"

text \<open>\<open>LocTimerContainer::expire\<close>, called by the poll thread when the timerfd fired.\<close>

definition container_expire :: "bool \<Rightarrow> timer_sys \<Rightarrow> timer_sys" where
  "container_expire w S =
    (upd_cont w (\<lambda>c. c\<lparr>timerfd := None, polled := False\<rparr>) S)\<lparr>msgs := msgs S @ [MsgTimerExpire w]\<rparr>"

subsection \<open>Runs\<close>

text \<open>
  What can happen: the clock advances (the uptime is bounded by $2^{30}$ seconds), a client starts
  or stops a timer, the MsgTask thread processes a message, and the poll thread wakes up when an
  armed and polled timerfd is due. A run is any sequence of these.
\<close>

datatype timer_action =
    Tick timespec
  | Start client "32 word" bool
  | Stop client
  | Proc
  | Poll bool

fun timer_act :: "timer_action \<Rightarrow> timer_sys \<Rightarrow> timer_sys mem" where
  "timer_act (Tick t) S =
     Some (if valid_time t \<and> tv_sec t < 2 ^ 30 \<and> \<not> time_before t (clock S)
           then S\<lparr>clock := t\<rparr> else S)"
| "timer_act (Start c ms w) S = Some (snd (LocTimer_start c ms w (clock S) S))"
| "timer_act (Stop c) S = Some (snd (LocTimer_stop c S))"
| "timer_act Proc S = proc_msg S"
| "timer_act (Poll w) S =
     Some (case timerfd (conts S w) of
             None \<Rightarrow> S
           | Some t \<Rightarrow> if polled (conts S w) \<and> \<not> time_before (clock S) t
                       then container_expire w S else S)"

definition timer_run :: "timer_action list \<Rightarrow> timer_sys \<Rightarrow> timer_sys mem" where
  "timer_run = run_steps timer_act"

subsection \<open>Invariants\<close>

fun pushes :: "timer_msg list \<Rightarrow> delegate list" where
  "pushes [] = []"
| "pushes (MsgTimerPush d # ms) = d # pushes ms"
| "pushes (_ # ms) = pushes ms"

fun removes :: "timer_msg list \<Rightarrow> delegate list" where
  "removes [] = []"
| "removes (MsgTimerRemove d # ms) = d # removes ms"
| "removes (_ # ms) = removes ms"

text \<open>No delegate is pushed after the message that removes and deletes it.\<close>

fun push_before_remove :: "timer_msg list \<Rightarrow> bool" where
  "push_before_remove [] = True"
| "push_before_remove (MsgTimerRemove d # ms) \<longleftrightarrow> d \<notin> set (pushes ms) \<and> push_before_remove ms"
| "push_before_remove (_ # ms) = push_before_remove ms"

lemma pushes_append [simp]: "pushes (xs @ ys) = pushes xs @ pushes ys"
  by (induction xs rule: pushes.induct) auto

lemma removes_append [simp]: "removes (xs @ ys) = removes xs @ removes ys"
  by (induction xs rule: removes.induct) auto

lemma pbr_append:
  "push_before_remove (xs @ ys) \<longleftrightarrow> push_before_remove xs \<and> push_before_remove ys \<and>
    set (removes xs) \<inter> set (pushes ys) = {}"
  by (induction xs rule: push_before_remove.induct) auto

definition heaps :: "timer_sys \<Rightarrow> delegate multiset" where
  "heaps S = heap_mset (mTree (conts S False)) + heap_mset (mTree (conts S True))"

text \<open>
  The bookkeeping of the delegates. \<open>H\<close> are the delegates in the heaps, and those the MsgTask thread
  has popped and not yet expired; \<open>q\<close> is the message queue, \<open>T\<close> and \<open>C\<close> are the fields \<open>mTimer\<close>
  and \<open>mClient\<close>. In words: a delegate is in at most one place; the delegates without a client are
  exactly those with one pending message that removes and deletes them; every delegate held is
  allocated; a client and its running delegate point to each other; a running delegate is held.
\<close>

definition book ::
  "delegate multiset \<Rightarrow> timer_msg list \<Rightarrow> (client \<Rightarrow> delegate option) \<Rightarrow>
   (delegate \<Rightarrow> client option option) \<Rightarrow> addr \<Rightarrow> bool" where
  "book H q T C n \<longleftrightarrow>
    (\<forall>d. count (H + mset (pushes q)) d \<le> 1) \<and>
    distinct (removes q) \<and>
    (\<forall>d. C d = Some None \<longleftrightarrow> d \<in> set (removes q)) \<and>
    (\<forall>d. d \<in># H + mset (pushes q) \<longrightarrow> C d \<noteq> None) \<and>
    (\<forall>c d. T c = Some d \<longleftrightarrow> C d = Some (Some c)) \<and>
    (\<forall>c d. C d = Some (Some c) \<longrightarrow> d \<in># H + mset (pushes q)) \<and>
    (\<forall>d. C d \<noteq> None \<longrightarrow> d_addr d < n) \<and>
    push_before_remove q"

lemma book_expire [simp]:
  "book H (MsgTimerExpire w # q) T C n = book H q T C n"
  "book H (q @ [MsgTimerExpire w]) T C n = book H q T C n"
  by (simp_all add: book_def pbr_append)

lemma bookD:
  assumes "book H q T C n"
  shows "count H d + count (mset (pushes q)) d \<le> 1"
    and "distinct (removes q)"
    and "C d = Some None \<longleftrightarrow> d \<in> set (removes q)"
    and "d \<in># H \<or> d \<in> set (pushes q) \<Longrightarrow> C d \<noteq> None"
    and "T c = Some d \<longleftrightarrow> C d = Some (Some c)"
    and "C d = Some (Some c) \<Longrightarrow> d \<in># H \<or> d \<in> set (pushes q)"
    and "C d \<noteq> None \<Longrightarrow> d_addr d < n"
    and "push_before_remove q"
  using assms by (auto simp: book_def)

lemma bookI:
  assumes "\<And>d. count H d + count (mset (pushes q)) d \<le> 1"
    and "distinct (removes q)"
    and "\<And>d. C d = Some None \<longleftrightarrow> d \<in> set (removes q)"
    and "\<And>d. d \<in># H \<or> d \<in> set (pushes q) \<Longrightarrow> C d \<noteq> None"
    and "\<And>c d. T c = Some d \<longleftrightarrow> C d = Some (Some c)"
    and "\<And>c d. C d = Some (Some c) \<Longrightarrow> d \<in># H \<or> d \<in> set (pushes q)"
    and "\<And>d. C d \<noteq> None \<Longrightarrow> d_addr d < n"
    and "push_before_remove q"
  shows "book H q T C n"
  unfolding book_def using assms by simp

lemma book_start:
  assumes B: "book H q T C n" and T: "T c = None" and d: "d_addr d = n"
  shows "book H (q @ [MsgTimerPush d]) (T(c \<mapsto> d)) (C(d \<mapsto> Some c)) (Suc n)"
proof -
  have C: "C d = None" using bookD(7) [OF B, of d] d by (metis less_irrefl)
  have H: "d \<notin># H" "d \<notin> set (pushes q)" using bookD(4) [OF B, of d] C by auto
  have r: "d \<notin> set (removes q)" using bookD(3) [OF B, of d] C by simp
  have ne: "C x \<noteq> Some (Some c)" for x using bookD(5) [OF B, of c x] T by simp
  have tne: "T y \<noteq> Some d" for y using bookD(5) [OF B, of y d] C by simp
  show ?thesis
  proof (rule bookI)
    show "count H x + count (mset (pushes (q @ [MsgTimerPush d]))) x \<le> 1" for x
      using bookD(1) [OF B, of x] H by (cases "x = d") (auto simp: not_in_iff count_mset_0_iff)
    show "distinct (removes (q @ [MsgTimerPush d]))" using bookD(2) [OF B] by simp
    show "(C(d \<mapsto> Some c)) x = Some None \<longleftrightarrow> x \<in> set (removes (q @ [MsgTimerPush d]))" for x
      using bookD(3) [OF B, of x] r by auto
    show "(C(d \<mapsto> Some c)) x \<noteq> None" if "x \<in># H \<or> x \<in> set (pushes (q @ [MsgTimerPush d]))" for x
      using bookD(4) [OF B, of x] that by auto
    show "(T(c \<mapsto> d)) y = Some x \<longleftrightarrow> (C(d \<mapsto> Some c)) x = Some (Some y)" for x y
      using bookD(5) [OF B, of y x] ne [of x] tne [of y] by auto
    show "x \<in># H \<or> x \<in> set (pushes (q @ [MsgTimerPush d]))"
      if "(C(d \<mapsto> Some c)) x = Some (Some y)" for x y
      using bookD(6) [OF B, of x y] that by (auto split: if_splits)
    show "d_addr x < Suc n" if "(C(d \<mapsto> Some c)) x \<noteq> None" for x
      using bookD(7) [OF B, of x] that d by (auto split: if_splits simp: less_SucI)
    show "push_before_remove (q @ [MsgTimerPush d])" using bookD(8) [OF B] r by (simp add: pbr_append)
  qed
qed

lemma book_stop:
  assumes B: "book H q T C n" and T: "T c = Some d"
  shows "book H (q @ [MsgTimerRemove d]) (T(c := None)) (C(d \<mapsto> None)) n"
proof -
  have C: "C d = Some (Some c)" using bookD(5) [OF B] T by simp
  have r: "d \<notin> set (removes q)" using bookD(3) [OF B, of d] C by simp
  have one: "C x = Some (Some c) \<longleftrightarrow> x = d" for x using bookD(5) [OF B, of c x] T by auto
  show ?thesis
  proof (rule bookI)
    show "count H x + count (mset (pushes (q @ [MsgTimerRemove d]))) x \<le> 1" for x
      using bookD(1) [OF B] by simp
    show "distinct (removes (q @ [MsgTimerRemove d]))" using bookD(2) [OF B] r by simp
    show "(C(d \<mapsto> None)) x = Some None \<longleftrightarrow> x \<in> set (removes (q @ [MsgTimerRemove d]))" for x
      using bookD(3) [OF B, of x] by auto
    show "(C(d \<mapsto> None)) x \<noteq> None" if "x \<in># H \<or> x \<in> set (pushes (q @ [MsgTimerRemove d]))" for x
      using bookD(4) [OF B, of x] that by auto
    show "(T(c := None)) y = Some x \<longleftrightarrow> (C(d \<mapsto> None)) x = Some (Some y)" for x y
      using bookD(5) [OF B, of y x] one [of x] by (cases "x = d"; cases "y = c") simp_all
    show "x \<in># H \<or> x \<in> set (pushes (q @ [MsgTimerRemove d]))"
      if "(C(d \<mapsto> None)) x = Some (Some y)" for x y
      using bookD(6) [OF B, of x y] that by (auto split: if_splits)
    show "d_addr x < n" if "(C(d \<mapsto> None)) x \<noteq> None" for x
      using bookD(7) [OF B, of x] that C by (cases "x = d") auto
    show "push_before_remove (q @ [MsgTimerRemove d])" using bookD(8) [OF B] by (simp add: pbr_append)
  qed
qed

lemma book_push: "book H (MsgTimerPush d # q) T C n \<Longrightarrow> book (add_mset d H) q T C n"
  unfolding book_def by simp

lemma book_remove:
  assumes B: "book H (MsgTimerRemove d # q) T C n"
  shows "book (H - {#d#}) q T (C(d := None)) n"
proof -
  have C: "C d = Some None" using bookD(3) [OF B, of d] by simp
  have p: "d \<notin> set (pushes q)" using bookD(8) [OF B] by simp
  have r: "d \<notin> set (removes q)" using bookD(2) [OF B] by simp
  have "count H d \<le> 1" using bookD(1) [OF B, of d] by simp
  then have H: "d \<notin># H - {#d#}" by (simp add: not_in_iff)
  have sub: "x \<in># H - {#d#} \<longleftrightarrow> x \<in># H \<and> x \<noteq> d" for x
    using H by (cases "x = d") (auto simp: in_diff_count)
  show ?thesis
  proof (rule bookI)
    have "count (H - {#d#}) x \<le> count H x" for x by simp
    then show "count (H - {#d#}) x + count (mset (pushes q)) x \<le> 1" for x
      using bookD(1) [OF B, of x] by (fastforce intro: le_trans [OF add_right_mono])
    show "distinct (removes q)" using bookD(2) [OF B] by simp
    show "(C(d := None)) x = Some None \<longleftrightarrow> x \<in> set (removes q)" for x
      using bookD(3) [OF B, of x] r by auto
    show "(C(d := None)) x \<noteq> None" if "x \<in># H - {#d#} \<or> x \<in> set (pushes q)" for x
      using bookD(4) [OF B, of x] that p sub [of x] by auto
    show "T y = Some x \<longleftrightarrow> (C(d := None)) x = Some (Some y)" for x y
      using bookD(5) [OF B, of y x] C by auto
    show "x \<in># H - {#d#} \<or> x \<in> set (pushes q)" if "(C(d := None)) x = Some (Some y)" for x y
      using bookD(6) [OF B, of x y] that sub [of x] by (auto split: if_splits)
    show "d_addr x < n" if "(C(d := None)) x \<noteq> None" for x
      using bookD(7) [OF B, of x] that by (auto split: if_splits)
    show "push_before_remove q" using bookD(8) [OF B] by simp
  qed
qed

lemma book_drop:
  assumes B: "book (add_mset d H) q T C n" and C: "C d = Some None"
  shows "book H q T C n"
proof (rule bookI)
  have "count H x \<le> count (add_mset d H) x" for x by simp
  then show "count H x + count (mset (pushes q)) x \<le> 1" for x
    using bookD(1) [OF B, of x] by (meson add_right_mono le_trans)
  show "x \<in># H \<or> x \<in> set (pushes q)" if "C x = Some (Some c)" for c x
    using bookD(6) [OF B, of x c] that C by auto
qed (use bookD [OF B] in auto)

definition heap_ok :: "bool \<Rightarrow> container \<Rightarrow> bool" where
  "heap_ok w c \<longleftrightarrow> checkTree delegate_ranks (mTree c) \<and>
    (\<forall>d\<in>#heap_mset (mTree c). valid_delegate d \<and> wake d = w)"

definition timer_inv :: "delegate multiset \<Rightarrow> timer_sys \<Rightarrow> bool" where
  "timer_inv X S \<longleftrightarrow>
    (\<forall>w. heap_ok w (conts S w)) \<and>
    (\<forall>d\<in>set (pushes (msgs S)). valid_delegate d) \<and>
    valid_time (clock S) \<and> tv_sec (clock S) < 2 ^ 30 \<and>
    book (heaps S + X) (msgs S) (mTimer S) (mClient S) (next_addr S)"

text \<open>The kernel timer agrees with the heap, unless an expiry is waiting to be processed.\<close>

definition armed_inv :: "timer_sys \<Rightarrow> bool" where
  "armed_inv S \<longleftrightarrow> (\<forall>w. MsgTimerExpire w \<notin> set (msgs S) \<longrightarrow>
    (\<forall>d. getSoonestTimer (conts S w) = Some d \<longrightarrow>
      timerfd (conts S w) = Some (mFutureTime d) \<and> polled (conts S w)))"

lemma timer_inv_init: "timer_inv {#} timer_init"
  by (simp add: timer_inv_def timer_init_def heap_ok_def checkTree_def book_def heaps_def
      valid_time_def)

lemma armed_inv_init: "armed_inv timer_init"
  by (simp add: armed_inv_def timer_init_def getSoonestTimer_def LocHeap_peek_def)

lemma heaps_upd:
  "heaps (S\<lparr>conts := (conts S)(w := c)\<rparr>) + heap_mset (mTree (conts S w)) = heaps S + heap_mset (mTree c)"
  by (cases w) (auto simp: heaps_def)

lemma mTree_update [simp]: "mTree (updateSoonestTime p c) = mTree c"
  by (auto simp: updateSoonestTime_def Let_def split: option.splits)

lemma heap_ok_update [simp]: "heap_ok w (updateSoonestTime p c) = heap_ok w c"
  by (simp add: heap_ok_def)

subsection \<open>Starting a timer\<close>

definition nanos :: "timespec \<Rightarrow> int" where
  "nanos t = tv_sec t * 1000000000 + tv_nsec t"

lemma ms_arith:
  "uint (ms div 1000 :: 32 word) = uint ms div 1000"
  "uint ((ms mod 1000) * 1000000 :: 32 word) = (uint ms mod 1000) * 1000000"
proof -
  show "uint (ms div 1000 :: 32 word) = uint ms div 1000" by (simp add: uint_div)
  have "uint (ms mod 1000) = uint ms mod 1000" by (simp add: uint_mod)
  moreover have "uint ms mod 1000 < 1000" "0 \<le> uint ms mod 1000" by simp_all
  ultimately show "uint ((ms mod 1000) * 1000000 :: 32 word) = (uint ms mod 1000) * 1000000"
    by (simp add: uint_word_ariths)
qed

lemma future_time_eq:
  assumes "x = tv_nsec now + uint ms mod 1000 * 1000000"
  shows "future_time now ms = (if x \<ge> 1000000000
      then \<lparr>tv_sec = tv_sec now + uint ms div 1000 + x div 1000000000, tv_nsec = x mod 1000000000\<rparr>
      else \<lparr>tv_sec = tv_sec now + uint ms div 1000, tv_nsec = x\<rparr>)"
  unfolding future_time_def Let_def ms_arith assms ..

lemma future_time_nanos: "nanos (future_time now ms) = nanos now + uint ms * 1000000"
proof -
  define q r x where "q = uint ms div 1000" and "r = uint ms mod 1000"
    and "x = tv_nsec now + uint ms mod 1000 * 1000000"
  have ms: "uint ms = 1000 * q + r" by (simp add: q_def r_def)
  have x: "x div 1000000000 * 1000000000 + x mod 1000000000 = x" by (rule div_mult_mod_eq)
  have "nanos (future_time now ms) = (tv_sec now + q) * 1000000000 + x"
    unfolding future_time_eq [OF x_def] nanos_def using x by (simp add: q_def algebra_simps)
  moreover have "x = tv_nsec now + r * 1000000" by (simp add: x_def r_def)
  ultimately show ?thesis by (simp add: ms nanos_def algebra_simps)
qed

lemma future_time_valid:
  assumes "valid_time now" and "tv_sec now < 2 ^ 30"
  shows "valid_time (future_time now ms)"
proof -
  define q r x where "q = uint ms div 1000" and "r = uint ms mod 1000"
    and "x = tv_nsec now + uint ms mod 1000 * 1000000"
  have "uint ms < 4294967296" using uint_lt2p [of ms] by simp
  then have q: "0 \<le> q" "q < 4294968" unfolding q_def
    by (simp_all add: pos_imp_zdiv_nonneg_iff)
  have r: "0 \<le> r" "r < 1000" by (simp_all add: r_def)
  have x: "0 \<le> x" "x < 2000000000"
    using assms(1) r by (simp_all add: x_def valid_time_def flip: r_def)
  then have "0 \<le> x div 1000000000" "x div 1000000000 < 2"
    by (simp_all add: pos_imp_zdiv_nonneg_iff)
  with q x assms show ?thesis
    unfolding future_time_eq [OF x_def] valid_time_def by (simp flip: q_def)
qed

subsection \<open>Every action preserves the invariants\<close>

lemma start_inv:
  assumes "timer_inv X S"
  shows "timer_inv X (snd (LocTimer_start c ms w (clock S) S))"
proof (cases "mTimer S c")
  case None
  have "valid_delegate \<lparr>d_addr = next_addr S, mFutureTime = future_time (clock S) ms, wake = w\<rparr>"
    using future_time_valid [of "clock S" ms] assms by (simp add: valid_delegate_def timer_inv_def)
  with assms None book_start [of "heaps S + X" "msgs S" "mTimer S" "mClient S" "next_addr S" c] show ?thesis
    by (simp add: timer_inv_def LocTimer_start_def Let_def heaps_def)
next
  case (Some d)
  with assms show ?thesis by (simp add: LocTimer_start_def)
qed

lemma stop_inv:
  assumes "timer_inv X S"
  shows "timer_inv X (snd (LocTimer_stop c S))"
proof (cases "mTimer S c")
  case None
  with assms show ?thesis by (simp add: LocTimer_stop_def)
next
  case (Some d)
  from assms have "book (heaps S + X) (msgs S) (mTimer S) (mClient S) (next_addr S)"
    by (simp add: timer_inv_def)
  from book_stop [OF this Some] assms Some show ?thesis
    by (simp add: timer_inv_def LocTimer_stop_def heaps_def)
qed

text \<open>Expiring a popped delegate stops its client, so the delegate need not be held any more.\<close>

lemma delegate_expire_inv:
  assumes "timer_inv (add_mset d X) S"
  shows "\<exists>S'. delegate_expire now d S = Some S' \<and> timer_inv X S' \<and> conts S' = conts S \<and>
    fired S' = fired S @ (case mClient S d of Some (Some c) \<Rightarrow> [(c, now)] | _ \<Rightarrow> []) \<and>
    mClient S' = (mClient S)(d \<mapsto> None) \<and> clock S' = clock S"
proof -
  from assms have live: "mClient S d \<noteq> None" by (simp add: timer_inv_def book_def)
  have drop: "timer_inv X T" if "timer_inv (add_mset d X) T" "mClient T d = Some None" for T
    using that book_drop [of d "heaps T + X"] by (simp add: timer_inv_def)
  show ?thesis
  proof (cases "mClient S d = Some None")
    case True
    with drop [OF assms] show ?thesis by (auto simp: delegate_expire_def fun_upd_idem)
  next
    case False
    with live obtain c where c: "mClient S d = Some (Some c)" by auto
    with assms have t: "mTimer S c = Some d" by (simp add: timer_inv_def book_def)
    let ?T = "snd (LocTimer_stop c S)"
    have "timer_inv X ?T"
      by (rule drop [OF stop_inv [OF assms]]) (simp add: LocTimer_stop_def t)
    then have "timer_inv X (?T\<lparr>fired := fired ?T @ [(c, now)]\<rparr>)"
      by (simp add: timer_inv_def heaps_def)
    with c t show ?thesis by (auto simp: delegate_expire_def LocTimer_stop_def)
  qed
qed

abbreviation held :: "timer_sys \<Rightarrow> bool \<Rightarrow> delegate multiset" where
  "held S w \<equiv> heap_mset (mTree (conts S w))"

abbreviation om :: "'a option \<Rightarrow> 'a multiset" where
  "om y \<equiv> (case y of None \<Rightarrow> {#} | Some x \<Rightarrow> {#x#})"

lemma heap_okD:
  assumes "heap_ok w c"
  shows "checkTree delegate_ranks (mTree c)" and "\<forall>d\<in>#heap_mset (mTree c). valid_delegate d"
    and "d \<in># heap_mset (mTree c) \<Longrightarrow> valid_delegate d" and "d \<in># heap_mset (mTree c) \<Longrightarrow> wake d = w"
  using assms by (auto simp: heap_ok_def)

text \<open>The soonest timer is one of the delegates of the heap, and none of them is due before it.\<close>

lemma getSoonestTimer_correct:
  assumes "heap_ok w c" and "getSoonestTimer c = Some d"
  shows "d \<in># heap_mset (mTree c)"
    and "e \<in># heap_mset (mTree c) \<Longrightarrow> \<not> time_before (mFutureTime e) (mFutureTime d)"
proof -
  have p: "LocHeap_peek (mTree c) = Some d" using assms(2) by (simp add: getSoonestTimer_def)
  note peek = th.LocHeap_peek_correct [OF heap_okD(1,2) [OF assms(1)] p]
  show d: "d \<in># heap_mset (mTree c)" by (rule peek(1))
  show "\<not> time_before (mFutureTime e) (mFutureTime d)" if "e \<in># heap_mset (mTree c)"
    using peek(2) that heap_okD(3) [OF assms(1)] d by (simp add: outRanks_delegate)
qed

lemma getSoonestTimer_None: "getSoonestTimer c = None \<longleftrightarrow> heap_mset (mTree c) = {#}"
  by (simp add: getSoonestTimer_def LocHeap_peek_def)

lemma pop_delegate:
  assumes H: "heap_ok w c" and P: "LocHeap_pop delegate_ranks (mTree c) = (y, t)"
  shows "y = getSoonestTimer c" and "heap_ok w (c\<lparr>mTree := t\<rparr>)"
    and "heap_mset (mTree c) = heap_mset t + om y"
    and "y = Some d \<Longrightarrow> valid_delegate d \<and> wake d = w \<and>
      (\<forall>e\<in>#heap_mset t. \<not> time_before (mFutureTime e) (mFutureTime d))"
proof -
  note pop = th.LocHeap_pop_correct [OF heap_okD(1,2) [OF H] P]
  show y: "y = getSoonestTimer c" using pop(1) by (simp add: getSoonestTimer_def)
  show m: "heap_mset (mTree c) = heap_mset t + om y" by (rule pop(3))
  show "heap_ok w (c\<lparr>mTree := t\<rparr>)"
    using H pop(2) m by (auto simp: heap_ok_def)
  show "valid_delegate d \<and> wake d = w \<and>
      (\<forall>e\<in>#heap_mset t. \<not> time_before (mFutureTime e) (mFutureTime d))" if "y = Some d"
    using that y getSoonestTimer_correct [OF H, of d] heap_okD(3,4) [OF H, of d] m by auto
qed

lemma popIfOutRanks_correct:
  assumes H: "heap_ok w c" and V: "valid_time now" and P: "popIfOutRanks now c = (y, c')"
  shows "heap_ok w c'" and "heap_mset (mTree c) = heap_mset (mTree c') + om y"
    and "timerfd c' = timerfd c" and "polled c' = polled c"
    and "y = None \<Longrightarrow> \<forall>e\<in>#heap_mset (mTree c'). time_before now (mFutureTime e)"
    and "y = Some d \<Longrightarrow> valid_delegate d \<and> wake d = w \<and> \<not> time_before now (mFutureTime d) \<and>
      (\<forall>e\<in>#heap_mset (mTree c'). \<not> time_before (mFutureTime e) (mFutureTime d))"
proof -
  let ?thesis' = "heap_ok w c' \<and> heap_mset (mTree c) = heap_mset (mTree c') + om y \<and>
    timerfd c' = timerfd c \<and> polled c' = polled c \<and>
    (y = None \<longrightarrow> (\<forall>e\<in>#heap_mset (mTree c'). time_before now (mFutureTime e))) \<and>
    (\<forall>d. y = Some d \<longrightarrow> valid_delegate d \<and> wake d = w \<and> \<not> time_before now (mFutureTime d) \<and>
      (\<forall>e\<in>#heap_mset (mTree c'). \<not> time_before (mFutureTime e) (mFutureTime d)))"
  have ?thesis'
  proof (cases "getSoonestTimer c")
    case None
    then have "heap_mset (mTree c) = {#}" by (simp only: getSoonestTimer_None)
    moreover from P None have "y = None" "c' = c"
      by (auto simp: popIfOutRanks_def getSoonestTimer_def)
    ultimately show ?thesis using H by (simp add: heap_mset_empty [THEN iffD2])
  next
    case (Some s)
    note top = getSoonestTimer_correct [OF H Some]
    have rank: "time_ranks now (mFutureTime s) > 0 \<longleftrightarrow> time_before now (mFutureTime s)"
      using outRanks_time [OF V] heap_okD(3) [OF H top(1)] by (simp add: valid_delegate_def)
    obtain z t where pop: "LocHeap_pop delegate_ranks (mTree c) = (z, t)" by fastforce
    show ?thesis
    proof (cases "time_before now (mFutureTime s)")
      case True
      with P Some rank have "y = None" "c' = c"
        by (auto simp: popIfOutRanks_def getSoonestTimer_def)
      with H top(2) True show ?thesis by (fastforce simp: time_before_def)
    next
      case False
      with P Some rank pop have "y = z" "c' = c\<lparr>mTree := t\<rparr>"
        by (auto simp: popIfOutRanks_def getSoonestTimer_def)
      with pop_delegate [OF H pop] Some False show ?thesis by auto
    qed
  qed
  then show "heap_ok w c'" and "heap_mset (mTree c) = heap_mset (mTree c') + om y"
    and "timerfd c' = timerfd c" and "polled c' = polled c"
    and "y = None \<Longrightarrow> \<forall>e\<in>#heap_mset (mTree c'). time_before now (mFutureTime e)"
    and "y = Some d \<Longrightarrow> valid_delegate d \<and> wake d = w \<and> \<not> time_before now (mFutureTime d) \<and>
      (\<forall>e\<in>#heap_mset (mTree c'). \<not> time_before (mFutureTime e) (mFutureTime d))" by auto
qed

text \<open>Moving delegates between a heap and the hands of the MsgTask thread.\<close>

lemma timer_inv_cont:
  assumes I: "timer_inv X S" and H: "heap_ok w c"
    and M: "heap_mset (mTree c) + Y = held S w + X"
  shows "timer_inv Y (S\<lparr>conts := (conts S)(w := c)\<rparr>)"
proof -
  have "heaps (S\<lparr>conts := (conts S)(w := c)\<rparr>) + Y = heaps S + X"
    using M by (cases w) (auto simp: heaps_def ac_simps)
  with I H show ?thesis by (simp add: timer_inv_def)
qed

definition fires ::
  "(delegate \<Rightarrow> client option option) \<Rightarrow> timespec \<Rightarrow> delegate list \<Rightarrow> (client \<times> timespec) list" where
  "fires C now ds = concat (map (\<lambda>d. case C d of Some (Some c) \<Rightarrow> [(c, now)] | _ \<Rightarrow> []) ds)"

abbreviation by_time :: "delegate list \<Rightarrow> bool" where
  "by_time \<equiv> sorted_wrt (\<lambda>a b. \<not> time_before (mFutureTime b) (mFutureTime a))"

lemma fires_Cons:
  "fires C now (d # ds) = (case C d of Some (Some c) \<Rightarrow> [(c, now)] | _ \<Rightarrow> []) @ fires C now ds"
  by (simp add: fires_def)

lemma fires_cong: "d \<notin> set ds \<Longrightarrow> fires (C(d := x)) now ds = fires C now ds"
  unfolding fires_def by (rule arg_cong [where f = concat], rule map_cong) auto

lemma stop_msgs: "set (msgs S) \<subseteq> set (msgs (snd (LocTimer_stop c S)))"
  by (cases "mTimer S c") (auto simp: LocTimer_stop_def)

lemma expire_msgs: "delegate_expire now d S = Some S' \<Longrightarrow> set (msgs S) \<subseteq> set (msgs S')"
proof (cases "mClient S d")
  case (Some k)
  assume E: "delegate_expire now d S = Some S'"
  show ?thesis
  proof (cases k)
    case None
    with E Some show ?thesis by (simp add: delegate_expire_def)
  next
    case (Some c)
    with E \<open>mClient S d = Some k\<close> have "msgs S' = msgs (snd (LocTimer_stop c S))"
      by (auto simp: delegate_expire_def split_beta)
    with stop_msgs show ?thesis by simp
  qed
qed (simp add: delegate_expire_def)

text \<open>
  What the loop of an expiry does: the delegates \<open>ds\<close> leave the heap in the order of their times; all
  but the one popped first are due; those that stay are not; the clients of \<open>ds\<close> that have not been
  stopped meanwhile are called back, and the other container is untouched.
\<close>

definition expire_spec ::
  "bool \<Rightarrow> timespec \<Rightarrow> delegate option \<Rightarrow> timer_sys \<Rightarrow> delegate list \<Rightarrow> timer_sys \<Rightarrow> bool" where
  "expire_spec w now timer S ds S' \<longleftrightarrow>
    held S w + om timer = mset ds + held S' w \<and>
    by_time ds \<and>
    (\<forall>d\<in>set ds. timer = Some d \<or> \<not> time_before now (mFutureTime d)) \<and>
    (\<forall>d. timer = Some d \<longrightarrow> d \<in> set ds) \<and>
    (\<forall>e\<in>#held S' w. time_before now (mFutureTime e)) \<and>
    fired S' = fired S @ fires (mClient S) now ds \<and>
    conts S' (\<not> w) = conts S (\<not> w) \<and>
    set (msgs S) \<subseteq> set (msgs S') \<and> clock S' = clock S"

lemma expire_spec_Cons:
  assumes E: "expire_spec w now timer S2 ds S'"
    and h: "held S w = held S2 w + om timer"
    and d: "\<forall>e\<in>#held S w. \<not> time_before (mFutureTime e) (mFutureTime d)" "d \<notin># held S w"
    and t: "\<And>e. timer = Some e \<Longrightarrow> \<not> time_before now (mFutureTime e)"
    and f: "fired S2 = fired S @ (case mClient S d of Some (Some c) \<Rightarrow> [(c, now)] | _ \<Rightarrow> [])"
    and m: "mClient S2 = (mClient S)(d \<mapsto> None)"
    and c: "conts S2 (\<not> w) = conts S (\<not> w)" and q: "set (msgs S) \<subseteq> set (msgs S2)"
    and k: "clock S2 = clock S"
  shows "expire_spec w now (Some d) S (d # ds) S'"
proof -
  have ds: "held S w = mset ds + held S' w" using E h by (simp add: expire_spec_def)
  then have sub: "\<forall>e\<in>set ds. e \<in># held S w" by simp
  with d have "d \<notin> set ds" and "\<forall>e\<in>set ds. \<not> time_before (mFutureTime e) (mFutureTime d)" by auto
  with E ds t f m c q k show ?thesis
    by (auto simp: expire_spec_def fires_Cons fires_cong)
qed

lemma expire_loop_correct:
  assumes "timer_inv (om timer) S" and "valid_time now"
    and "\<And>d. timer = Some d \<Longrightarrow> \<forall>e\<in>#held S w. \<not> time_before (mFutureTime e) (mFutureTime d)"
    and "timer = None \<Longrightarrow> \<forall>e\<in>#held S w. time_before now (mFutureTime e)"
  shows "\<exists>ds S'. expire_loop w now timer S = Some S' \<and> timer_inv {#} S' \<and> expire_spec w now timer S ds S'"
  using assms
proof (induction w now timer S rule: expire_loop.induct)
  case (1 w now S)
  then show ?case
    by (intro exI [of _ "[]"] exI [of _ S]) (simp add: expire_spec_def fires_def)
next
  case (2 w now d S)
  have I: "timer_inv (add_mset d {#}) S" using "2.prems"(1) by simp
  obtain S1 where S1: "delegate_expire now d S = Some S1" and I1: "timer_inv {#} S1"
    and c1: "conts S1 = conts S"
    and f1: "fired S1 = fired S @ (case mClient S d of Some (Some c) \<Rightarrow> [(c, now)] | _ \<Rightarrow> [])"
    and m1: "mClient S1 = (mClient S)(d \<mapsto> None)" and k1: "clock S1 = clock S"
    using delegate_expire_inv [OF I, of now] by blast
  obtain timer c where pop: "popIfOutRanks now (conts S1 w) = (timer, c)" by fastforce
  define S2 where "S2 = S1\<lparr>conts := (conts S1)(w := c)\<rparr>"
  have H: "heap_ok w (conts S1 w)" using I1 by (simp add: timer_inv_def)
  note p = popIfOutRanks_correct [OF H "2.prems"(2) pop]
  have I2: "timer_inv (om timer) S2"
    unfolding S2_def by (rule timer_inv_cont [OF I1 p(1)]) (simp add: p(2))
  have held2: "held S2 w = heap_mset (mTree c)" by (simp add: S2_def)
  obtain ds S' where L: "expire_loop w now timer S2 = Some S'" "timer_inv {#} S'"
    and E: "expire_spec w now timer S2 ds S'"
    using "2.IH" [OF S1 refl pop [symmetric], folded S2_def, OF I2 "2.prems"(2)] p(5,6) held2 by auto
  have "book (heaps S + add_mset d {#}) (msgs S) (mTimer S) (mClient S) (next_addr S)"
    using I by (simp add: timer_inv_def)
  from bookD(1) [OF this, of d] have "count (heaps S) d = 0" by simp
  then have fresh: "d \<notin># held S w" by (cases w) (simp_all add: heaps_def not_in_iff)
  have "expire_spec w now (Some d) S (d # ds) S'"
  proof (rule expire_spec_Cons [OF E])
    show "held S w = held S2 w + om timer" unfolding held2 using p(2) by (simp add: c1)
    show "\<forall>e\<in>#held S w. \<not> time_before (mFutureTime e) (mFutureTime d)"
      using "2.prems"(3) by blast
    show "\<not> time_before now (mFutureTime e)" if "timer = Some e" for e using p(6) [OF that] by blast
    show "fired S2 = fired S @ (case mClient S d of Some (Some c) \<Rightarrow> [(c, now)] | _ \<Rightarrow> [])"
      by (simp add: S2_def f1)
    show "mClient S2 = (mClient S)(d \<mapsto> None)" by (simp add: S2_def m1)
    show "conts S2 (\<not> w) = conts S (\<not> w)" by (simp add: S2_def c1)
    show "set (msgs S) \<subseteq> set (msgs S2)" using expire_msgs [OF S1] by (simp add: S2_def)
    show "clock S2 = clock S" by (simp add: S2_def k1)
  qed fact
  moreover have "expire_loop w now (Some d) S = Some S'"
    using S1 pop L by (simp add: S2_def)
  ultimately show ?case using L by blast
qed

subsection \<open>The three messages\<close>

text \<open>A container is armed when the kernel timer and the poll agree with its soonest timer.\<close>

definition armed :: "container \<Rightarrow> bool" where
  "armed c \<longleftrightarrow> (\<forall>d. getSoonestTimer c = Some d \<longrightarrow>
     timerfd c = Some (mFutureTime d) \<and> polled c)"

lemma armed_inv_armed: "armed_inv S \<longleftrightarrow> (\<forall>w. MsgTimerExpire w \<notin> set (msgs S) \<longrightarrow> armed (conts S w))"
  by (simp add: armed_inv_def armed_def)

lemma getSoonest_update [simp]: "getSoonestTimer (updateSoonestTime p c) = getSoonestTimer c"
  by (simp add: getSoonestTimer_def)

lemma armed_update:
  "(\<And>d q. getSoonestTimer c = Some d \<Longrightarrow> p = Some q \<Longrightarrow> d \<noteq> q \<and> outRanks delegate_ranks d q) \<Longrightarrow>
    armed (updateSoonestTime p c)"
  by (cases p; cases "getSoonestTimer c")
    (auto simp: armed_def updateSoonestTime_def getSoonestTimer_def)

lemma armed_update_None: "armed (updateSoonestTime None c)"
  by (rule armed_update) simp

lemma armed_keep:
  "armed c \<Longrightarrow> getSoonestTimer c' = getSoonestTimer c \<Longrightarrow> timerfd c' = timerfd c \<Longrightarrow>
    polled c' = polled c \<Longrightarrow> armed c'"
  by (simp add: armed_def)

lemma armed_push:
  assumes "armed c"
  shows "armed (updateSoonestTime (getSoonestTimer c)
    (c\<lparr>mTree := LocHeap_push delegate_ranks (mTree c) d\<rparr>))" (is "armed (updateSoonestTime ?p ?c)")
proof (cases "getSoonestTimer ?c = ?p")
  case True
  then have "updateSoonestTime ?p ?c = ?c" by (simp add: updateSoonestTime_def)
  with assms True show ?thesis by (simp add: armed_keep)
next
  case False
  have *: "getSoonestTimer ?c = (if is_Null (mTree c) \<or> outRanks delegate_ranks d (mData (mTree c))
      then Some d else ?p)"
    by (auto simp: getSoonestTimer_def LocHeap_peek_def LocHeap_push_def mData_push new_node_def)
  show ?thesis
    by (rule armed_update) (use False * in \<open>auto simp: getSoonestTimer_def LocHeap_peek_def split: if_splits\<close>)
qed

lemma remove_top:
  assumes R: "LocHeap_remove ranks t x = (y, t')" and N: "y \<noteq> LocHeap_peek t"
  shows "LocHeap_peek t' = LocHeap_peek t"
proof (cases t)
  case Null
  with R show ?thesis by (simp add: LocHeap_remove_def LocHeap_peek_def)
next
  case (Node n l r d)
  have nr: "node_remove ranks (Node n l r d) x = (y, t')"
    using R Node by (simp add: LocHeap_remove_def)
  have "x \<noteq> d"
  proof
    assume "x = d"
    with nr have "node_pop ranks (Node n l r d) = (y, t')" by (simp add: node_remove_Node)
    with node_pop_mset [of "Node n l r d" ranks y t'] N Node show False
      by (simp add: LocHeap_peek_def)
  qed
  with nr Node show ?thesis
    by (auto simp: node_remove_Node LocHeap_peek_def split: if_splits prod.splits option.splits)
qed

lemma proc_push_inv:
  assumes I: "timer_inv {#} S" and m: "msgs S = MsgTimerPush d # ms"
  shows "timer_inv {#} (proc_push d (S\<lparr>msgs := ms\<rparr>))"
proof -
  let ?S = "S\<lparr>msgs := ms\<rparr>" and ?c = "conts S (wake d)"
  have d: "valid_delegate d" using I m by (simp add: timer_inv_def)
  have H: "heap_ok (wake d) ?c" using I by (simp add: timer_inv_def)
  note push = th.LocHeap_push_correct [OF heap_okD(1,2) [OF H] d]
  have "timer_inv {#d#} ?S"
    using I m book_push [of "heaps S" d ms] by (simp add: timer_inv_def heaps_def)
  moreover have "heap_ok (wake d) (updateSoonestTime (getSoonestTimer ?c)
      (?c\<lparr>mTree := LocHeap_push delegate_ranks (mTree ?c) d\<rparr>))" (is "heap_ok _ ?c'")
    using push H d by (simp add: heap_ok_def)
  ultimately have "timer_inv {#} (?S\<lparr>conts := (conts ?S)(wake d := ?c')\<rparr>)"
    by (rule timer_inv_cont) (simp add: push)
  then show ?thesis by (simp add: proc_push_def Let_def)
qed

lemma diff_other: "d \<notin># B \<Longrightarrow> (A + B) - {#d#} = (A - {#d#}) + B" "d \<notin># B \<Longrightarrow> (B + A) - {#d#} = B + (A - {#d#})"
  by (auto intro!: multiset_eqI simp: not_in_iff)

lemma proc_remove_inv:
  assumes I: "timer_inv {#} S" and m: "msgs S = MsgTimerRemove d # ms"
  shows "timer_inv {#} (proc_remove d (S\<lparr>msgs := ms\<rparr>))"
proof -
  let ?w = "wake d" and ?c = "conts S (wake d)"
  have H: "heap_ok ?w ?c" using I by (simp add: timer_inv_def)
  obtain r t where R: "LocHeap_remove delegate_ranks (mTree ?c) d = (r, t)" by fastforce
  note rem = th.LocHeap_remove_correct [OF heap_okD(1,2) [OF H] R]
  define c2 where "c2 = (if getSoonestTimer ?c = r then updateSoonestTime None (?c\<lparr>mTree := t\<rparr>)
    else ?c\<lparr>mTree := t\<rparr>)"
  have S': "proc_remove d (S\<lparr>msgs := ms\<rparr>) =
      S\<lparr>msgs := ms, conts := (conts S)(?w := c2), mClient := (mClient S)(d := None)\<rparr>"
    by (simp add: proc_remove_def Let_def R c2_def)
  have tree: "mTree c2 = t" by (simp add: c2_def)
  have H': "heap_ok ?w c2"
    using H rem(2,3) by (auto simp: heap_ok_def tree dest: in_diffD)
  have other: "d \<notin># held S (\<not> ?w)"
    using I heap_okD(4) [of "\<not> ?w" "conts S (\<not> ?w)" d] by (auto simp: timer_inv_def)
  have heaps: "heaps S - {#d#} = heaps (S\<lparr>conts := (conts S)(?w := c2)\<rparr>)"
    using other rem(3) by (cases ?w) (simp_all add: heaps_def tree diff_other)
  have "book (heaps S) (MsgTimerRemove d # ms) (mTimer S) (mClient S) (next_addr S)"
    using I m by (simp add: timer_inv_def)
  from book_remove [OF this] I H' m show ?thesis
    unfolding S' heaps by (simp add: timer_inv_def heaps_def)
qed

lemma armed_remove:
  assumes "armed (conts S v)"
  shows "armed (conts (proc_remove d (S\<lparr>msgs := ms\<rparr>)) v)"
proof (cases "v = wake d")
  case True
  obtain r t where R: "LocHeap_remove delegate_ranks (mTree (conts S v)) d = (r, t)" by fastforce
  show ?thesis
  proof (cases "r = getSoonestTimer (conts S v)")
    case r: True
    then show ?thesis using True R by (simp add: proc_remove_def Let_def armed_update_None)
  next
    case False
    with remove_top [OF R] have "getSoonestTimer ((conts S v)\<lparr>mTree := t\<rparr>) = getSoonestTimer (conts S v)"
      by (simp add: getSoonestTimer_def)
    with armed_keep [OF assms] have "armed ((conts S v)\<lparr>mTree := t\<rparr>)" by simp
    with True R False show ?thesis by (simp add: proc_remove_def Let_def)
  qed
qed (use assms in \<open>simp add: proc_remove_def Let_def split: prod.split\<close>)

lemma msgs_remove [simp]: "msgs (proc_remove d S) = msgs S"
  by (simp add: proc_remove_def Let_def split: prod.split)

text \<open>An expiry: the top is popped whatever the time, then every delegate that is due.\<close>

definition expired :: "bool \<Rightarrow> timer_sys \<Rightarrow> delegate list \<Rightarrow> timer_sys \<Rightarrow> bool" where
  "expired w S ds S' \<longleftrightarrow>
    held S w = mset ds + held S' w \<and>
    by_time ds \<and>
    (\<forall>d\<in>set ds. getSoonestTimer (conts S w) = Some d \<or> \<not> time_before (clock S) (mFutureTime d)) \<and>
    (\<forall>d. getSoonestTimer (conts S w) = Some d \<longrightarrow> d \<in> set ds) \<and>
    (\<forall>e\<in>#held S' w. time_before (clock S) (mFutureTime e)) \<and>
    fired S' = fired S @ fires (mClient S) (clock S) ds \<and>
    conts S' (\<not> w) = conts S (\<not> w)"

lemma proc_expire_correct:
  assumes I: "timer_inv {#} S" and m: "msgs S = MsgTimerExpire w # ms"
  shows "\<exists>ds S'. proc_expire w (clock S) (S\<lparr>msgs := ms\<rparr>) = Some S' \<and> timer_inv {#} S' \<and>
    armed (conts S' w) \<and> clock S' = clock S \<and> set ms \<subseteq> set (msgs S') \<and> expired w S ds S'"
proof -
  let ?c = "conts S w" and ?S = "S\<lparr>msgs := ms\<rparr>"
  have H: "heap_ok w ?c" and V: "valid_time (clock S)" using I by (simp_all add: timer_inv_def)
  obtain y t where P: "LocHeap_pop delegate_ranks (mTree ?c) = (y, t)" by fastforce
  note pop = pop_delegate [OF H P]
  define S0 where "S0 = ?S\<lparr>conts := (conts ?S)(w := ?c\<lparr>mTree := t\<rparr>)\<rparr>"
  have "timer_inv {#} ?S" using I m by (simp add: timer_inv_def heaps_def)
  then have I0: "timer_inv (om y) S0"
    unfolding S0_def by (rule timer_inv_cont) (simp_all add: pop)
  have h0: "held S0 w = heap_mset t" by (simp add: S0_def)
  have none: "\<forall>e\<in>#held S0 w. time_before (clock S) (mFutureTime e)" if "y = None"
    using that pop(3) heap_mset_empty [of t] getSoonestTimer_None [of ?c] pop(1) h0
    by (simp add: heap_mset_empty [THEN iffD2])
  obtain ds S1 where L: "expire_loop w (clock S) y S0 = Some S1" and I1: "timer_inv {#} S1"
    and E: "expire_spec w (clock S) y S0 ds S1"
    using expire_loop_correct [OF I0 V, of w] pop(4) none h0 by auto
  define S' where "S' = S1\<lparr>conts := (conts S1)(w := updateSoonestTime None (conts S1 w))\<rparr>"
  have "timer_inv {#} S'"
    unfolding S'_def using I1 by (intro timer_inv_cont [OF I1]) (simp_all add: timer_inv_def)
  moreover have "proc_expire w (clock S) ?S = Some S'"
    using L by (simp add: proc_expire_def P S'_def S0_def)
  moreover have "armed (conts S' w)" by (simp add: S'_def armed_update_None)
  moreover have "clock S' = clock S" "set ms \<subseteq> set (msgs S')" "expired w S ds S'"
    using E pop(1,3) by (auto simp: expire_spec_def expired_def S'_def S0_def)
  ultimately show ?thesis by blast
qed

subsection \<open>Every run is safe\<close>

lemma armed_inv_step:
  assumes "armed_inv S" and "set (msgs S) \<subseteq> set (msgs S')" and "conts S' = conts S"
  shows "armed_inv S'"
  using assms unfolding armed_inv_armed by auto

lemma timer_act_inv:
  assumes I: "timer_inv {#} S" and A: "armed_inv S"
  shows "\<exists>S'. timer_act a S = Some S' \<and> timer_inv {#} S' \<and> armed_inv S'"
proof (cases a)
  case (Tick t)
  then show ?thesis using I A by (auto simp: timer_inv_def heaps_def armed_inv_def)
next
  case (Start c ms w)
  have "armed_inv (snd (LocTimer_start c ms w (clock S) S))"
    by (rule armed_inv_step [OF A]) (auto simp: LocTimer_start_def Let_def)
  with Start start_inv [OF I] show ?thesis by simp
next
  case (Stop c)
  have "armed_inv (snd (LocTimer_stop c S))"
    by (rule armed_inv_step [OF A stop_msgs]) (cases "mTimer S c", simp_all add: LocTimer_stop_def)
  with Stop stop_inv [OF I] show ?thesis by simp
next
  case (Poll w)
  have "timer_inv {#} (container_expire w S) \<and> armed_inv (container_expire w S)"
  proof
    have "timer_inv {#} (S\<lparr>conts := (conts S)(w := (conts S w)\<lparr>timerfd := None, polled := False\<rparr>)\<rparr>)"
      using I by (intro timer_inv_cont [OF I]) (simp_all add: timer_inv_def heap_ok_def)
    then show "timer_inv {#} (container_expire w S)"
      by (simp add: timer_inv_def container_expire_def heaps_def)
    show "armed_inv (container_expire w S)" using A by (simp add: armed_inv_def container_expire_def)
  qed
  with Poll I A show ?thesis by (simp split: option.split)
next
  case Proc
  show ?thesis
  proof (cases "msgs S")
    case Nil
    with Proc I A show ?thesis by (simp add: proc_msg_def)
  next
    case (Cons m ms)
    show ?thesis
    proof (cases m)
      case (MsgTimerPush d)
      have "armed_inv (proc_push d (S\<lparr>msgs := ms\<rparr>))"
        using A Cons MsgTimerPush armed_push by (auto simp: armed_inv_armed proc_push_def Let_def)
      with Cons MsgTimerPush Proc proc_push_inv [OF I] show ?thesis by (simp add: proc_msg_def)
    next
      case (MsgTimerRemove d)
      have "armed_inv (proc_remove d (S\<lparr>msgs := ms\<rparr>))"
        using A Cons MsgTimerRemove armed_remove by (simp add: armed_inv_armed)
      with Cons MsgTimerRemove Proc proc_remove_inv [OF I] show ?thesis by (simp add: proc_msg_def)
    next
      case (MsgTimerExpire w)
      obtain ds S' where E: "proc_expire w (clock S) (S\<lparr>msgs := ms\<rparr>) = Some S'" "timer_inv {#} S'"
        and x: "armed (conts S' w)" "set ms \<subseteq> set (msgs S')" "conts S' (\<not> w) = conts S (\<not> w)"
        using proc_expire_correct [OF I, of w ms] Cons MsgTimerExpire by (auto simp: expired_def)
      have "armed (conts S' v)" if "MsgTimerExpire v \<notin> set (msgs S')" for v
      proof (cases "v = w")
        case False
        then have "v = (\<not> w)" by auto
        moreover have "MsgTimerExpire v \<notin> set (msgs S)"
          using that x(2) Cons MsgTimerExpire False by auto
        ultimately show ?thesis using A x(3) by (simp add: armed_inv_armed)
      qed (use x in simp)
      with E Cons MsgTimerExpire Proc show ?thesis by (simp add: proc_msg_def armed_inv_armed)
    qed
  qed
qed

interpretation ts: safe_system timer_act "\<lambda>S. timer_inv {#} S \<and> armed_inv S"
  by unfold_locales (use timer_act_inv in blast)

lemmas timer_run_inv = ts.run_safe [OF conjI [OF timer_inv_init armed_inv_init], folded timer_run_def]

subsection \<open>Properties\<close>

lemma timer_invD:
  assumes "timer_inv {#} S" and "mTimer S c = Some d"
  shows "mClient S d = Some (Some c)"
    and "count (heaps S) d + count (mset (pushes (msgs S))) d = 1"
    and "d \<notin> set (removes (msgs S))"
proof -
  have B: "book (heaps S) (msgs S) (mTimer S) (mClient S) (next_addr S)"
    using assms(1) by (simp add: timer_inv_def)
  show C: "mClient S d = Some (Some c)" using bookD(5) [OF B] assms(2) by blast
  have "count (heaps S) d > 0 \<or> count (mset (pushes (msgs S))) d > 0"
    using bookD(6) [OF B C] by (auto simp: count_greater_zero_iff)
  with bookD(1) [OF B, of d] show "count (heaps S) d + count (mset (pushes (msgs S))) d = 1" by linarith
  show "d \<notin> set (removes (msgs S))" using bookD(3) [OF B, of d] C by simp
qed



text \<open>C18. In every reachable state in which no expiry is waiting to be processed, the kernel timer of a
  container that holds timers is armed with the time of its soonest timer and polled, so no timer is
  forgotten: the soonest timer is in the heap and no other timer of the container is due before it.\<close>

theorem timer_armed:
  assumes "timer_run as timer_init = Some S" and "MsgTimerExpire w \<notin> set (msgs S)"
    and "held S w \<noteq> {#}"
  shows "\<exists>d. getSoonestTimer (conts S w) = Some d \<and> d \<in># held S w \<and>
    timerfd (conts S w) = Some (mFutureTime d) \<and> polled (conts S w) \<and>
    (\<forall>e\<in>#held S w. \<not> time_before (mFutureTime e) (mFutureTime d))"
proof -
  have I: "timer_inv {#} S" "armed_inv S"
    using timer_run_inv [of as] assms(1) by auto
  obtain d where d: "getSoonestTimer (conts S w) = Some d"
    using assms(3) getSoonestTimer_None [of "conts S w"] by fastforce
  have H: "heap_ok w (conts S w)" using I(1) by (simp add: timer_inv_def)
  from I(2) assms(2) d getSoonestTimer_correct [OF H d] show ?thesis
    by (auto simp: armed_inv_armed armed_def)
qed

theorem timer_armed_witness:
  "\<exists>S d. timer_run [Start 1 5000 True, Start 2 20 True, Proc, Proc] timer_init = Some S \<and>
    timerfd (conts S True) = Some (mFutureTime d) \<and> d \<in># held S True \<and> polled (conts S True)"
proof -
  let ?as = "[Start 1 5000 True, Start 2 20 True, Proc, Proc]"
  have "map_option (\<lambda>S. (msgs S, getTreeSize (mTree (conts S True)))) (timer_run ?as timer_init) =
      Some ([], 2)" by code_simp
  then obtain S where S: "timer_run ?as timer_init = Some S" and m: "msgs S = []"
    and n: "getTreeSize (mTree (conts S True)) = 2" by auto
  have "held S True \<noteq> {#}" using n by (auto simp: getTreeSize_def)
  with timer_armed [OF S, of True] S m show ?thesis by fastforce
qed

text \<open>C13. Processing an expiry message in any reachable state always succeeds and calls back the clients of
  the delegates \<open>ds\<close> that leave the heap, in the order of their times: the soonest timer of the
  container, whatever its time, and then exactly the timers that are due; what stays in the heap is not
  due, and the other container is untouched. When the soonest timer is due, \<open>ds\<close> are exactly the timers
  that are due.\<close>

theorem expire_fires:
  assumes "timer_run as timer_init = Some S" and "msgs S = MsgTimerExpire w # ms"
  shows "\<exists>ds S'. timer_act Proc S = Some S' \<and> expired w S ds S' \<and>
    (\<forall>d. getSoonestTimer (conts S w) = Some d \<and> \<not> time_before (clock S) (mFutureTime d) \<longrightarrow>
      mset ds = filter_mset (\<lambda>e. \<not> time_before (clock S) (mFutureTime e)) (held S w))"
proof -
  have I: "timer_inv {#} S"
    using timer_run_inv [of as] assms(1) by auto
  obtain ds S' where P: "timer_act Proc S = Some S'" and E: "expired w S ds S'"
    using proc_expire_correct [OF I assms(2)] assms(2) by (auto simp: proc_msg_def)
  have "mset ds = filter_mset (\<lambda>e. \<not> time_before (clock S) (mFutureTime e)) (held S w)"
    if "getSoonestTimer (conts S w) = Some d" "\<not> time_before (clock S) (mFutureTime d)" for d
  proof -
    have "filter_mset (\<lambda>e. \<not> time_before (clock S) (mFutureTime e)) (mset ds) = mset ds"
      using E that by (intro filter_mset_eq_conv [THEN iffD2]) (auto simp: expired_def)
    moreover have "filter_mset (\<lambda>e. \<not> time_before (clock S) (mFutureTime e)) (held S' w) = {#}"
      using E by (intro filter_mset_eq_conv [THEN iffD2]) (auto simp: expired_def)
    ultimately show ?thesis using E by (simp add: expired_def)
  qed
  with P E show ?thesis by blast
qed

theorem expire_fires_witness:
  "\<exists>S ds S'. timer_run [Start 1 1000 True, Start 2 1500 True, Start 3 9000 True, Proc, Proc, Proc,
      Tick \<lparr>tv_sec = 2, tv_nsec = 0\<rparr>, Poll True] timer_init = Some S \<and>
    timer_act Proc S = Some S' \<and> expired True S ds S' \<and>
    fired S' = [(1, \<lparr>tv_sec = 2, tv_nsec = 0\<rparr>), (2, \<lparr>tv_sec = 2, tv_nsec = 0\<rparr>)]"
proof -
  let ?as = "[Start 1 1000 True, Start 2 1500 True, Start 3 9000 True, Proc, Proc, Proc,
      Tick \<lparr>tv_sec = 2, tv_nsec = 0\<rparr>, Poll True]"
  have "map_option msgs (timer_run ?as timer_init) = Some [MsgTimerExpire True]" by code_simp
  then obtain S where S: "timer_run ?as timer_init = Some S" and m: "msgs S = [MsgTimerExpire True]"
    by auto
  have "map_option fired (Option.bind (timer_run ?as timer_init) (timer_act Proc)) =
      Some [(1, \<lparr>tv_sec = 2, tv_nsec = 0\<rparr>), (2, \<lparr>tv_sec = 2, tv_nsec = 0\<rparr>)]" by code_simp
  with expire_fires [OF S m] S show ?thesis by auto
qed

text \<open>The time a timer is armed with is the time of the start plus the requested milliseconds, to the
  nanosecond, and is normalised; the C interface first reduces its 64-bit argument modulo $2^{32}$.\<close>

theorem future_time_exact:
  assumes "valid_time now" and "tv_sec now < 2 ^ 30"
  shows "valid_time (future_time now (loc_timer_start_ms msec)) \<and>
    nanos (future_time now (loc_timer_start_ms msec)) = nanos now + (uint msec mod 2 ^ 32) * 1000000"
  using future_time_valid [OF assms] future_time_nanos
  by (simp add: loc_timer_start_ms_def unsigned_ucast_eq take_bit_eq_mod)

theorem future_time_exact_witness:
  "nanos (future_time \<lparr>tv_sec = 7, tv_nsec = 999999999\<rparr> (loc_timer_start_ms 1001)) =
    7999999999 + 1001000000"
  using future_time_exact [of "\<lparr>tv_sec = 7, tv_nsec = 999999999\<rparr>" 1001]
  by (simp add: valid_time_def nanos_def)

text \<open>The soonest timer is popped before its time is looked at. When the timer that woke up the poll
  thread is stopped at that moment, the message that removes it comes first and the expiry calls back
  the next timer, here 99 seconds early.\<close>

theorem expire_fires_early:
  "map_option fired (timer_run [Start 1 1000 True, Start 2 100000 True, Proc, Proc,
      Tick \<lparr>tv_sec = 1, tv_nsec = 0\<rparr>, Stop 1, Poll True, Proc, Proc] timer_init) =
    Some [(2, \<lparr>tv_sec = 1, tv_nsec = 0\<rparr>)]"
  by code_simp

end
