(* ===== verification/Agps.thy ===== *)
theory Agps
  imports Linked_List
begin

text \<open>
  The AGPS resource state machines of \<open>loc_eng_agps.cpp\<close> and \<open>loc_eng_agps.h\<close>: the subscribers (the
  clients that want a network interface), the notifications that select and inform them, the four
  states with their event handlers, the base machine and the machine of the emergency data calls
  (\<open>DSStateMachine\<close>), whose overridden methods are chosen by \<open>is_ds\<close>. What a machine does to the
  outside is the list \<open>outs\<close>. \<open>mSubscribers\<close> is the list of the objects that the nodes of the
  linked list point to; the searches are those of the component \<open>Linked_List\<close>.
\<close>

subsection \<open>Types\<close>

datatype AgpsRsrcStatus =
    RSRC_SUBSCRIBE | RSRC_UNSUBSCRIBE | RSRC_GRANTED | RSRC_RELEASED | RSRC_DENIED | RSRC_STATUS_MAX

datatype servicerType = servicerTypeNoCbParam | servicerTypeAgps | servicerTypeExt

datatype AGpsStatusValue = GPS_REQUEST_AGPS_DATA_CONN | GPS_RELEASE_AGPS_DATA_CONN

datatype dmn_conn_status =
    GPSONE_LOC_API_IF_REQUEST_SUCCESS | GPSONE_LOC_API_IF_RELEASE_SUCCESS | GPSONE_LOC_API_IF_FAILURE

text \<open>
  The constructors stand for the virtual tables. The Boolean of an ATL subscriber is
  \<open>mBackwardCompatibleMode\<close>; a WIFI subscriber has its SSID and password (NULL or a string of at most
  32 characters) and \<open>senderId\<close>.
\<close>

datatype subscriber_class =
    BITSubscriber
  | ATLSubscriber bool
  | WIFISubscriber "string option" "string option" "32 word"
  | DSSubscriber

record subscriber =
  s_addr :: addr
  ID :: "32 word"
  s_class :: subscriber_class
  mIPv6Addr :: "8 word list"
  mIsInactive :: bool

record notification =
  rcver :: "subscriber option"
  groupID :: "32 word"
  rsrcStatus :: AgpsRsrcStatus
  postNotifyDelete :: bool

definition BROADCAST_ALL :: "32 word" where "BROADCAST_ALL = 0x80000000"
definition BROADCAST_ACTIVE :: "32 word" where "BROADCAST_ACTIVE = 0x80000001"
definition BROADCAST_INACTIVE :: "32 word" where "BROADCAST_INACTIVE = 0x80000002"

definition INADDR_NONE :: "32 word" where "INADDR_NONE = 0xFFFFFFFF"
definition SENDER_ID_GPSONE_DAEMON :: "32 word" where "SENDER_ID_GPSONE_DAEMON = 3"

definition AGPS_TYPE_INVALID :: int where "AGPS_TYPE_INVALID = -1"
definition AGPS_TYPE_SUPL :: int where "AGPS_TYPE_SUPL = 1"
definition AGPS_APN_BEARER_INVALID :: int where "AGPS_APN_BEARER_INVALID = -1"

definition MAX_START_DATA_CALL_RETRIES :: "8 word" where "MAX_START_DATA_CALL_RETRIES = 4"
definition DATA_CALL_RETRY_DELAY_MSEC :: int where "DATA_CALL_RETRY_DELAY_MSEC = 500"

definition LOC_API_ADAPTER_ERR_SUCCESS :: int where "LOC_API_ADAPTER_ERR_SUCCESS = 0"
definition LOC_API_ADAPTER_ERR_UNSUPPORTED :: int where "LOC_API_ADAPTER_ERR_UNSUPPORTED = 2"
definition LOC_API_ADAPTER_ERR_ENGINE_BUSY :: int where "LOC_API_ADAPTER_ERR_ENGINE_BUSY = 6"

text \<open>The four constructors of \<open>Notification\<close>.\<close>

definition Notification_group :: "32 word \<Rightarrow> AgpsRsrcStatus \<Rightarrow> bool \<Rightarrow> notification" where
  "Notification_group broadcast status deleteAfterwards =
    \<lparr>rcver = None, groupID = broadcast, rsrcStatus = status, postNotifyDelete = deleteAfterwards\<rparr>"

definition Notification_to :: "subscriber \<Rightarrow> AgpsRsrcStatus \<Rightarrow> bool \<Rightarrow> notification" where
  "Notification_to s status deleteAfterwards =
    \<lparr>rcver = Some s, groupID = -1, rsrcStatus = status, postNotifyDelete = deleteAfterwards\<rparr>"

abbreviation match_group :: "32 word \<Rightarrow> notification" where
  "match_group broadcast \<equiv> Notification_group broadcast RSRC_STATUS_MAX False"

abbreviation match_to :: "subscriber \<Rightarrow> notification" where
  "match_to s \<equiv> Notification_to s RSRC_STATUS_MAX False"

subsection \<open>Machines\<close>

datatype agps_state = AgpsReleasedState | AgpsPendingState | AgpsAcquiredState | AgpsReleasingState

text \<open>
  What the servicer is given: for the base machine the fields of an \<open>AGpsExtStatus\<close> (type, action,
  whether the address family is that of a subscriber, SSID, password), for the DS machine a
  \<open>dsCbData\<close>.
\<close>

datatype rsrc_request =
    NifRequest int AGpsStatusValue bool string string
  | DsCbData AGpsStatusValue

datatype agps_out =
    DmnConn "32 word" dmn_conn_status
  | AtlCloseStatus "32 word" int
  | AtlOpenStatus "32 word" int "string option" int int
  | RequestRsrc servicerType rsrc_request
  | RequestATL "32 word" int
  | RequestSuplES "32 word"
  | CloseDataCall
  | TimerStart int

record agps =
  mSubscribers :: "subscriber list"
  mServicer :: servicerType
  mStatePtr :: agps_state
  mType :: int
  mAPN :: "string option"
  mAPNLen :: nat
  mBearer :: int
  mEnforceSingleSubscriber :: bool
  is_ds :: bool
  mRetries :: "8 word"
  next_obj :: addr
  outs :: "agps_out list"

text \<open>
  The environment: what the freed memory of a deleted subscriber reads as, what the servicer's
  extended callback returns and whether a timer starts, after the outputs so far.
\<close>

record agps_env =
  freed_view :: "subscriber \<Rightarrow> subscriber"
  callbackExt :: "agps_out list \<Rightarrow> int"
  timer_starts :: "agps_out list \<Rightarrow> bool"

abbreviation emit :: "agps_out \<Rightarrow> agps \<Rightarrow> agps" where
  "emit x m \<equiv> m\<lparr>outs := outs m @ [x]\<rparr>"

definition AgpsStateMachine_new :: "servicerType \<Rightarrow> int \<Rightarrow> bool \<Rightarrow> agps" where
  "AgpsStateMachine_new servType type enforceSingleSubscriber =
    \<lparr>mSubscribers = [], mServicer = servType, mStatePtr = AgpsReleasedState, mType = type,
     mAPN = None, mAPNLen = 0, mBearer = AGPS_APN_BEARER_INVALID,
     mEnforceSingleSubscriber = enforceSingleSubscriber, is_ds = False, mRetries = 0,
     next_obj = 0, outs = []\<rparr>"

definition DSStateMachine_new :: "servicerType \<Rightarrow> agps" where
  "DSStateMachine_new type =
    (AgpsStateMachine_new type AGPS_TYPE_INVALID False)\<lparr>is_ds := True, mRetries := 0\<rparr>"

subsection \<open>Subscribers\<close>

text \<open>The constructors; the objects of the callers are on their stacks, at address 0 here.\<close>

definition BITSubscriber_new :: "32 word \<Rightarrow> 8 word list option \<Rightarrow> subscriber" where
  "BITSubscriber_new ipv4 ipv6 = \<lparr>s_addr = 0, ID = ipv4, s_class = BITSubscriber,
    mIPv6Addr = (case ipv6 of None \<Rightarrow> [0] | Some v6 \<Rightarrow> take 16 v6), mIsInactive = False\<rparr>"

definition ATLSubscriber_new :: "32 word \<Rightarrow> bool \<Rightarrow> subscriber" where
  "ATLSubscriber_new i compatibleMode = \<lparr>s_addr = 0, ID = i, s_class = ATLSubscriber compatibleMode,
    mIPv6Addr = [], mIsInactive = False\<rparr>"

definition strlcpy_ssid :: "string \<Rightarrow> string" where
  "strlcpy_ssid s = take 32 s"

definition WIFISubscriber_new :: "string option \<Rightarrow> string option \<Rightarrow> 32 word \<Rightarrow> subscriber" where
  "WIFISubscriber_new ssid password sender_id = \<lparr>s_addr = 0, ID = sender_id,
    s_class = WIFISubscriber (map_option strlcpy_ssid ssid) (map_option strlcpy_ssid password) sender_id,
    mIPv6Addr = [], mIsInactive = False\<rparr>"

definition DSSubscriber_new :: "32 word \<Rightarrow> subscriber" where
  "DSSubscriber_new i = \<lparr>s_addr = 0, ID = i, s_class = DSSubscriber, mIPv6Addr = [], mIsInactive = False\<rparr>"

definition isInactive :: "subscriber \<Rightarrow> bool" where
  "isInactive s = (case s_class s of WIFISubscriber _ _ _ \<Rightarrow> mIsInactive s | DSSubscriber \<Rightarrow> mIsInactive s
    | _ \<Rightarrow> False)"

definition waitForCloseComplete :: "subscriber \<Rightarrow> bool" where
  "waitForCloseComplete s = (case s_class s of WIFISubscriber _ _ _ \<Rightarrow> True | DSSubscriber \<Rightarrow> True
    | _ \<Rightarrow> False)"

text \<open>\<open>clone\<close> calls the constructor again, so the copy is active.\<close>

definition clone :: "addr \<Rightarrow> subscriber \<Rightarrow> subscriber" where
  "clone a s = s\<lparr>s_addr := a, mIsInactive := False,
    s_class := (case s_class s of
        WIFISubscriber ssid pw i \<Rightarrow> WIFISubscriber (map_option strlcpy_ssid ssid) (map_option strlcpy_ssid pw) i
      | c \<Rightarrow> c)\<rparr>"

definition setWifiInfo :: "subscriber \<Rightarrow> string \<times> string" where
  "setWifiInfo s = (case s_class s of
      WIFISubscriber ssid pw _ \<Rightarrow> (case ssid of None \<Rightarrow> [] | Some x \<Rightarrow> strlcpy_ssid x,
                                  case pw of None \<Rightarrow> [] | Some x \<Rightarrow> strlcpy_ssid x)
    | _ \<Rightarrow> ([], []))"

text \<open>\<open>strncmp\<close> of two buffers of 16 bytes looks at the bytes before the first zero.\<close>

definition strncmp16_eq :: "8 word list \<Rightarrow> 8 word list \<Rightarrow> bool" where
  "strncmp16_eq a b \<longleftrightarrow> takeWhile (\<lambda>x. x \<noteq> 0) (take 16 a) = takeWhile (\<lambda>x. x \<noteq> 0) (take 16 b)"

definition equals :: "subscriber \<Rightarrow> subscriber \<Rightarrow> bool" where
  "equals this s = (case s_class this of
      BITSubscriber \<Rightarrow> ID this = ID s \<and> (INADDR_NONE \<noteq> ID this \<or> strncmp16_eq (mIPv6Addr this) (mIPv6Addr s))
    | _ \<Rightarrow> ID this = ID s)"

definition forMe :: "subscriber \<Rightarrow> notification \<Rightarrow> bool" where
  "forMe this n = (case rcver n of
      Some r \<Rightarrow> equals this r
    | None \<Rightarrow> BROADCAST_ALL = groupID n \<or>
        (BROADCAST_ACTIVE = groupID n \<and> \<not> isInactive this) \<or>
        (BROADCAST_INACTIVE = groupID n \<and> isInactive this))"

definition informStatus :: "AgpsRsrcStatus \<Rightarrow> 32 word \<Rightarrow> agps \<Rightarrow> agps" where
  "informStatus status i m = (case status of
      RSRC_UNSUBSCRIBE \<Rightarrow> emit (AtlCloseStatus i 1) m
    | RSRC_RELEASED \<Rightarrow> emit CloseDataCall m
    | RSRC_DENIED \<Rightarrow> emit (RequestATL i AGPS_TYPE_SUPL) (m\<lparr>mRetries := 0\<rparr>)
    | RSRC_GRANTED \<Rightarrow> emit (AtlOpenStatus i 1 None AGPS_APN_BEARER_INVALID AGPS_TYPE_INVALID) m
    | _ \<Rightarrow> m)"

definition BIT_notifyRsrcStatus :: "subscriber \<Rightarrow> notification \<Rightarrow> agps \<Rightarrow> bool \<times> agps" where
  "BIT_notifyRsrcStatus this n m =
    (let notify = forMe this n in
     if notify then
       (case rsrcStatus n of
          RSRC_UNSUBSCRIBE \<Rightarrow> (notify, emit (DmnConn SENDER_ID_GPSONE_DAEMON GPSONE_LOC_API_IF_RELEASE_SUCCESS) m)
        | RSRC_RELEASED \<Rightarrow> (notify, emit (DmnConn SENDER_ID_GPSONE_DAEMON GPSONE_LOC_API_IF_RELEASE_SUCCESS) m)
        | RSRC_DENIED \<Rightarrow> (notify, emit (DmnConn SENDER_ID_GPSONE_DAEMON GPSONE_LOC_API_IF_FAILURE) m)
        | RSRC_GRANTED \<Rightarrow> (notify, emit (DmnConn SENDER_ID_GPSONE_DAEMON GPSONE_LOC_API_IF_REQUEST_SUCCESS) m)
        | _ \<Rightarrow> (False, m))
     else (notify, m))"

definition ATL_notifyRsrcStatus :: "bool \<Rightarrow> subscriber \<Rightarrow> notification \<Rightarrow> agps \<Rightarrow> bool \<times> agps" where
  "ATL_notifyRsrcStatus mBackwardCompatibleMode this n m =
    (let notify = forMe this n; type = (if mBackwardCompatibleMode then AGPS_TYPE_INVALID else mType m) in
     if notify then
       (case rsrcStatus n of
          RSRC_UNSUBSCRIBE \<Rightarrow> (notify, emit (AtlCloseStatus (ID this) 1) m)
        | RSRC_RELEASED \<Rightarrow> (notify, emit (AtlCloseStatus (ID this) 1) m)
        | RSRC_DENIED \<Rightarrow> (notify, emit (AtlOpenStatus (ID this) 0 (mAPN m) (mBearer m) type) m)
        | RSRC_GRANTED \<Rightarrow> (notify, emit (AtlOpenStatus (ID this) 1 (mAPN m) (mBearer m) type) m)
        | _ \<Rightarrow> (False, m))
     else (notify, m))"

definition WIFI_notifyRsrcStatus :: "32 word \<Rightarrow> subscriber \<Rightarrow> notification \<Rightarrow> agps \<Rightarrow> bool \<times> agps" where
  "WIFI_notifyRsrcStatus senderId this n m =
    (let notify = forMe this n in
     if notify then
       (case rsrcStatus n of
          RSRC_UNSUBSCRIBE \<Rightarrow> (notify, m)
        | RSRC_RELEASED \<Rightarrow> (notify, emit (DmnConn senderId GPSONE_LOC_API_IF_RELEASE_SUCCESS) m)
        | RSRC_DENIED \<Rightarrow> (notify, emit (DmnConn senderId GPSONE_LOC_API_IF_FAILURE) m)
        | RSRC_GRANTED \<Rightarrow> (notify, emit (DmnConn senderId GPSONE_LOC_API_IF_REQUEST_SUCCESS) m)
        | _ \<Rightarrow> (False, m))
     else (notify, m))"

definition DS_notifyRsrcStatus :: "subscriber \<Rightarrow> notification \<Rightarrow> agps \<Rightarrow> bool \<times> agps" where
  "DS_notifyRsrcStatus this n m =
    (let notify = forMe this n in
     if notify then
       (if rsrcStatus n \<in> {RSRC_UNSUBSCRIBE, RSRC_RELEASED, RSRC_DENIED, RSRC_GRANTED}
        then (notify, informStatus (rsrcStatus n) (ID this) m)
        else (False, m))
     else (notify, m))"

definition notifyRsrcStatus :: "subscriber \<Rightarrow> notification \<Rightarrow> agps \<Rightarrow> bool \<times> agps" where
  "notifyRsrcStatus this n m = (case s_class this of
      BITSubscriber \<Rightarrow> BIT_notifyRsrcStatus this n m
    | ATLSubscriber b \<Rightarrow> ATL_notifyRsrcStatus b this n m
    | WIFISubscriber _ _ senderId \<Rightarrow> WIFI_notifyRsrcStatus senderId this n m
    | DSSubscriber \<Rightarrow> DS_notifyRsrcStatus this n m)"

text \<open>\<open>setInactive\<close> of an object that is in the list.\<close>

definition setInactive :: "subscriber \<Rightarrow> agps \<Rightarrow> agps" where
  "setInactive s m =
    (let m' = m\<lparr>mSubscribers := map (\<lambda>x. if s_addr x = s_addr s then x\<lparr>mIsInactive := True\<rparr> else x) (mSubscribers m)\<rparr>
     in case s_class s of
          WIFISubscriber _ _ _ \<Rightarrow> m'
        | DSSubscriber \<Rightarrow> informStatus RSRC_UNSUBSCRIBE (ID s) m'
        | _ \<Rightarrow> m)"

subsection \<open>Searching the list of subscribers\<close>

text \<open>\<open>linked_list_search\<close> on the list of subscribers, with the subscriber it copies out.\<close>

definition search_subscribers ::
  "(subscriber \<Rightarrow> agps \<Rightarrow> bool \<times> agps) \<Rightarrow> bool \<Rightarrow> agps \<Rightarrow> subscriber option \<times> agps" where
  "search_subscribers equal rm_if_found m =
    (let (found, rest, m') = ls_search equal rm_if_found (map (\<lambda>s. (s, True)) (mSubscribers m)) m
     in (map_option fst found, m'\<lparr>mSubscribers := map fst rest\<rparr>))"

definition hasSubscriber :: "notification \<Rightarrow> subscriber \<Rightarrow> agps \<Rightarrow> bool \<times> agps" where
  "hasSubscriber n s1 m = (forMe s1 n, m)"

definition notifySubscriber :: "notification \<Rightarrow> subscriber \<Rightarrow> agps \<Rightarrow> bool \<times> agps" where
  "notifySubscriber n s1 m =
    (let (b, m') = notifyRsrcStatus s1 n m in (b \<and> postNotifyDelete n, m'))"

definition hasSubscribers :: "agps \<Rightarrow> bool" where
  "hasSubscribers m \<longleftrightarrow> mSubscribers m \<noteq> []"

definition hasActiveSubscribers :: "agps \<Rightarrow> bool" where
  "hasActiveSubscribers m \<longleftrightarrow>
    fst (search_subscribers (hasSubscriber (match_group BROADCAST_ACTIVE)) False m) \<noteq> None"

definition addSubscriber :: "subscriber \<Rightarrow> agps \<Rightarrow> agps" where
  "addSubscriber subscriber m =
    (if fst (search_subscribers (hasSubscriber (match_to subscriber)) False m) = None
     then m\<lparr>mSubscribers := clone (next_obj m) subscriber # mSubscribers m, next_obj := Suc (next_obj m)\<rparr>
     else m)"

lemma ls_search_length:
  "ls_search eq rm xs w = (found, rest, w') \<Longrightarrow>
    length rest = (if found \<noteq> None \<and> rm then length xs - 1 else length xs) \<and> (found \<noteq> None \<longrightarrow> xs \<noteq> [])"
proof (induction xs arbitrary: w found rest w')
  case (Cons x xs)
  obtain b w1 where b: "eq (fst x) w = (b, w1)" by fastforce
  obtain y ys w2 where r: "ls_search eq rm xs w1 = (y, ys, w2)" by (cases "ls_search eq rm xs w1") auto
  from Cons.IH [OF r] have "length ys = (if y \<noteq> None \<and> rm then length xs - 1 else length xs)"
    and "y \<noteq> None \<longrightarrow> 0 < length xs" by auto
  with Cons.prems b r show ?case by (cases x; cases b) (auto simp: Let_def)
qed simp

lemma search_shorter:
  "search_subscribers eq True m = (Some s, m') \<Longrightarrow> length (mSubscribers m') < length (mSubscribers m)"
  using ls_search_length [of eq True "map (\<lambda>s. (s, True)) (mSubscribers m)" m]
  by (fastforce simp: search_subscribers_def split: prod.splits)

text \<open>
  The deleting branch of \<open>notifySubscribers\<close>. When the receiver that the notification points to is
  deleted, the next round of the loop reads freed memory.
\<close>

definition after_delete :: "agps_env \<Rightarrow> subscriber \<Rightarrow> notification \<Rightarrow> notification" where
  "after_delete E s n = (case rcver n of
      Some r \<Rightarrow> if s_addr r = s_addr s then n\<lparr>rcver := Some (freed_view E r)\<rparr> else n
    | None \<Rightarrow> n)"

function notify_loop :: "agps_env \<Rightarrow> notification \<Rightarrow> agps \<Rightarrow> agps" where
  "notify_loop E n m =
    (case search_subscribers (notifySubscriber n) True m of
       (None, m') \<Rightarrow> m'
     | (Some s, m') \<Rightarrow> notify_loop E (after_delete E s n) m')"
  by pat_completeness auto
termination
  by (relation "measure (\<lambda>(E, n, m). length (mSubscribers m))") (auto dest: search_shorter [OF sym])

declare notify_loop.simps [simp del]

definition notifySubscribers :: "agps_env \<Rightarrow> notification \<Rightarrow> agps \<Rightarrow> agps" where
  "notifySubscribers E n m =
    (if postNotifyDelete n then notify_loop E n m
     else snd (search_subscribers (notifySubscriber n) False m))"

subsection \<open>Requests for the resource\<close>

definition requestRsrc :: "agps_env \<Rightarrow> rsrc_request \<Rightarrow> agps \<Rightarrow> int \<times> agps" where
  "requestRsrc E req m =
    (let m' = emit (RequestRsrc (mServicer m) req) m in
     case mServicer m of
       servicerTypeNoCbParam \<Rightarrow> (0, m')
     | servicerTypeExt \<Rightarrow> (callbackExt E (outs m'), m')
     | servicerTypeAgps \<Rightarrow> (0, m'))"

definition Agps_sendRsrcRequest :: "agps_env \<Rightarrow> AGpsStatusValue \<Rightarrow> agps \<Rightarrow> int \<times> agps" where
  "Agps_sendRsrcRequest E action m =
    (let s = fst (search_subscribers (hasSubscriber (match_group BROADCAST_ACTIVE)) False m) in
     if (s = None) = (GPS_RELEASE_AGPS_DATA_CONN = action)
     then (let nifRequest = (case s of
                 None \<Rightarrow> NifRequest (mType m) action False [] []
               | Some x \<Rightarrow> NifRequest (mType m) action True (fst (setWifiInfo x)) (snd (setWifiInfo x)))
           in (0, snd (requestRsrc E nifRequest m)))
     else (0, m))"

definition DS_sendRsrcRequest :: "agps_env \<Rightarrow> AGpsStatusValue \<Rightarrow> agps \<Rightarrow> int \<times> agps" where
  "DS_sendRsrcRequest E action m =
    (let s = fst (search_subscribers (hasSubscriber (match_group BROADCAST_ACTIVE)) False m);
         connHandle = (case s of None \<Rightarrow> -1 | Some x \<Rightarrow> ID x);
         (ret, m1) = requestRsrc E (DsCbData action) m
     in if ret = LOC_API_ADAPTER_ERR_ENGINE_BUSY then
          (let m2 = m1\<lparr>mRetries := mRetries m1 + 1\<rparr> in
           if mRetries m2 > MAX_START_DATA_CALL_RETRIES
           then (ret, informStatus RSRC_DENIED connHandle m2)
           else (let m3 = emit (TimerStart DATA_CALL_RETRY_DELAY_MSEC) m2 in
                 if timer_starts E (outs m3) then (-1, m3) else (ret, m3)))
        else if ret = LOC_API_ADAPTER_ERR_UNSUPPORTED then (ret, informStatus RSRC_DENIED connHandle m1)
        else if ret = LOC_API_ADAPTER_ERR_SUCCESS then (ret, m1)
        else if ret = -1 then (ret, informStatus RSRC_DENIED connHandle m1)
        else (ret, m1))"

text \<open>The virtual call.\<close>

definition sendRsrcRequest :: "agps_env \<Rightarrow> AGpsStatusValue \<Rightarrow> agps \<Rightarrow> int \<times> agps" where
  "sendRsrcRequest E action m =
    (if is_ds m then DS_sendRsrcRequest E action m else Agps_sendRsrcRequest E action m)"

subsection \<open>The four states\<close>

text \<open>
  Each handler gets the event and the subscriber \<open>data\<close> (NULL for the events of the resource), and
  returns the next state; it fails where the code dereferences NULL.
\<close>

definition Released_onRsrcEvent ::
  "agps_env \<Rightarrow> AgpsRsrcStatus \<Rightarrow> subscriber option \<Rightarrow> agps \<Rightarrow> (agps_state \<times> agps) mem" where
  "Released_onRsrcEvent E event data m =
    (case event of
       RSRC_SUBSCRIBE \<Rightarrow> do {
         s \<leftarrow> data;
         let (ret, m') = sendRsrcRequest E GPS_REQUEST_AGPS_DATA_CONN (addSubscriber s m);
         Some (if ret = 0 then AgpsPendingState else AgpsReleasedState, m') }
     | RSRC_UNSUBSCRIBE \<Rightarrow> do {
         s \<leftarrow> data;
         let (b, m') = notifyRsrcStatus s (Notification_to s event False) m;
         Some (AgpsReleasedState, m') }
     | _ \<Rightarrow> Some (AgpsReleasedState, m))"

text \<open>The reaction to an unsubscription before the subscribers are counted, the same in three states.\<close>

definition close_subscriber :: "agps_env \<Rightarrow> subscriber \<Rightarrow> agps \<Rightarrow> agps" where
  "close_subscriber E s m =
    (if waitForCloseComplete s then setInactive s m
     else notifySubscribers E (Notification_to s RSRC_UNSUBSCRIBE True) m)"

definition Pending_onRsrcEvent ::
  "agps_env \<Rightarrow> AgpsRsrcStatus \<Rightarrow> subscriber option \<Rightarrow> agps \<Rightarrow> (agps_state \<times> agps) mem" where
  "Pending_onRsrcEvent E event data m =
    (case event of
       RSRC_SUBSCRIBE \<Rightarrow> do { s \<leftarrow> data; Some (AgpsPendingState, addSubscriber s m) }
     | RSRC_UNSUBSCRIBE \<Rightarrow> do {
         s \<leftarrow> data;
         let m1 = close_subscriber E s m;
         Some (if \<not> hasSubscribers m1
               then (AgpsReleasedState, snd (sendRsrcRequest E GPS_RELEASE_AGPS_DATA_CONN m1))
               else if \<not> hasActiveSubscribers m1
               then (AgpsReleasingState, snd (sendRsrcRequest E GPS_RELEASE_AGPS_DATA_CONN m1))
               else (AgpsPendingState, m1)) }
     | RSRC_GRANTED \<Rightarrow>
         Some (AgpsAcquiredState, notifySubscribers E (Notification_group BROADCAST_ACTIVE event False) m)
     | RSRC_RELEASED \<Rightarrow> Some (AgpsPendingState, m)
     | RSRC_DENIED \<Rightarrow>
         Some (AgpsReleasedState, notifySubscribers E (Notification_group BROADCAST_ALL event True) m)
     | _ \<Rightarrow> Some (AgpsPendingState, m))"

definition Acquired_onRsrcEvent ::
  "agps_env \<Rightarrow> AgpsRsrcStatus \<Rightarrow> subscriber option \<Rightarrow> agps \<Rightarrow> (agps_state \<times> agps) mem" where
  "Acquired_onRsrcEvent E event data m =
    (case event of
       RSRC_SUBSCRIBE \<Rightarrow> do {
         s \<leftarrow> data;
         let (b, m1) = notifyRsrcStatus s (Notification_to s RSRC_GRANTED False) m;
         Some (AgpsAcquiredState, addSubscriber s m1) }
     | RSRC_UNSUBSCRIBE \<Rightarrow> do {
         s \<leftarrow> data;
         let m1 = close_subscriber E s m;
         Some (if \<not> hasSubscribers m1
               then (AgpsReleasedState, snd (sendRsrcRequest E GPS_RELEASE_AGPS_DATA_CONN m1))
               else if \<not> hasActiveSubscribers m1
               then (AgpsReleasingState, snd (sendRsrcRequest E GPS_RELEASE_AGPS_DATA_CONN m1))
               else (AgpsAcquiredState, m1)) }
     | RSRC_GRANTED \<Rightarrow> Some (AgpsAcquiredState, m)
     | RSRC_RELEASED \<Rightarrow>
         Some (AgpsReleasedState, notifySubscribers E (Notification_group BROADCAST_ALL event True) m)
     | RSRC_DENIED \<Rightarrow> Some (AgpsAcquiredState, m)
     | _ \<Rightarrow> Some (AgpsAcquiredState, m))"

definition Releasing_onRsrcEvent ::
  "agps_env \<Rightarrow> AgpsRsrcStatus \<Rightarrow> subscriber option \<Rightarrow> agps \<Rightarrow> (agps_state \<times> agps) mem" where
  "Releasing_onRsrcEvent E event data m =
    (let release = (let m1 = notifySubscribers E (Notification_group BROADCAST_INACTIVE event True) m in
       if hasActiveSubscribers m1
       then (AgpsPendingState, snd (sendRsrcRequest E GPS_REQUEST_AGPS_DATA_CONN m1))
       else (AgpsReleasedState, m1))
     in case event of
       RSRC_SUBSCRIBE \<Rightarrow> do { s \<leftarrow> data; Some (AgpsReleasingState, addSubscriber s m) }
     | RSRC_UNSUBSCRIBE \<Rightarrow> do {
         s \<leftarrow> data;
         let m1 = close_subscriber E s m;
         Some (if \<not> hasSubscribers m1 then AgpsReleasedState else AgpsReleasingState, m1) }
     | RSRC_DENIED \<Rightarrow> Some release
     | RSRC_RELEASED \<Rightarrow> Some release
     | _ \<Rightarrow> Some (AgpsReleasingState, m))"

text \<open>\<open>mStatePtr = mStatePtr->onRsrcEvent(event, data)\<close>.\<close>

definition state_onRsrcEvent ::
  "agps_env \<Rightarrow> AgpsRsrcStatus \<Rightarrow> subscriber option \<Rightarrow> agps \<Rightarrow> agps mem" where
  "state_onRsrcEvent E event data m = do {
     (next, m') \<leftarrow> (case mStatePtr m of
         AgpsReleasedState \<Rightarrow> Released_onRsrcEvent E event data m
       | AgpsPendingState \<Rightarrow> Pending_onRsrcEvent E event data m
       | AgpsAcquiredState \<Rightarrow> Acquired_onRsrcEvent E event data m
       | AgpsReleasingState \<Rightarrow> Releasing_onRsrcEvent E event data m);
     Some (m'\<lparr>mStatePtr := next\<rparr>) }"

subsection \<open>The operations of the machines\<close>

definition setAPN :: "string option \<Rightarrow> nat \<Rightarrow> agps \<Rightarrow> agps" where
  "setAPN apn len m = (case apn of
      Some a \<Rightarrow> m\<lparr>mAPN := Some (take len a), mAPNLen := len\<rparr>
    | None \<Rightarrow> m\<lparr>mAPN := None, mAPNLen := 0\<rparr>)"

definition setBearer :: "int \<Rightarrow> agps \<Rightarrow> agps" where
  "setBearer bearer m = m\<lparr>mBearer := bearer\<rparr>"

definition Agps_onRsrcEvent :: "agps_env \<Rightarrow> AgpsRsrcStatus \<Rightarrow> agps \<Rightarrow> agps mem" where
  "Agps_onRsrcEvent E event m =
    (if event \<in> {RSRC_GRANTED, RSRC_RELEASED, RSRC_DENIED} then state_onRsrcEvent E event None m
     else Some m)"

definition DS_onRsrcEvent :: "agps_env \<Rightarrow> AgpsRsrcStatus \<Rightarrow> agps \<Rightarrow> agps mem" where
  "DS_onRsrcEvent E event m =
    (case event of
       RSRC_GRANTED \<Rightarrow> state_onRsrcEvent E event None m
     | RSRC_RELEASED \<Rightarrow> do {
         m1 \<leftarrow> state_onRsrcEvent E event None m;
         if mStatePtr m1 \<noteq> mStatePtr m then Some m1
         else state_onRsrcEvent E RSRC_DENIED None m1 }
     | RSRC_DENIED \<Rightarrow> state_onRsrcEvent E event None m
     | _ \<Rightarrow> Some m)"

definition onRsrcEvent :: "agps_env \<Rightarrow> AgpsRsrcStatus \<Rightarrow> agps \<Rightarrow> agps mem" where
  "onRsrcEvent E event m = (if is_ds m then DS_onRsrcEvent E event m else Agps_onRsrcEvent E event m)"

definition subscribeRsrc :: "agps_env \<Rightarrow> subscriber \<Rightarrow> agps \<Rightarrow> agps mem" where
  "subscribeRsrc E subscriber m =
    (if mEnforceSingleSubscriber m \<and> hasSubscribers m
     then Some (snd (notifySubscriber (Notification_group BROADCAST_ALL RSRC_DENIED True) subscriber m))
     else state_onRsrcEvent E RSRC_SUBSCRIBE (Some subscriber) m)"

definition unsubscribeRsrc :: "agps_env \<Rightarrow> subscriber \<Rightarrow> agps \<Rightarrow> (bool \<times> agps) mem" where
  "unsubscribeRsrc E subscriber m =
    (case fst (search_subscribers (hasSubscriber (match_to subscriber)) False m) of
       Some s \<Rightarrow> do { m' \<leftarrow> state_onRsrcEvent E RSRC_UNSUBSCRIBE (Some s) m; Some (True, m') }
     | None \<Rightarrow> Some (False, m))"

definition dropAllSubscribers :: "agps \<Rightarrow> agps" where
  "dropAllSubscribers m = m\<lparr>mSubscribers := []\<rparr>"

text \<open>\<open>delay_callback\<close> with \<open>retryCallback\<close>, when the timer of a retry fires.\<close>

definition retryCallback :: "agps \<Rightarrow> agps" where
  "retryCallback m =
    (case fst (search_subscribers (hasSubscriber (match_group BROADCAST_ACTIVE)) False m) of
       Some s \<Rightarrow> emit (RequestSuplES (ID s)) m
     | None \<Rightarrow> m)"

text \<open>What the callers of a machine can do.\<close>

datatype agps_action =
    Subscribe subscriber
  | Unsubscribe subscriber
  | RsrcEvent AgpsRsrcStatus
  | SetAPN "string option" nat
  | SetBearer int
  | RetryTimer

fun agps_act :: "agps_env \<Rightarrow> agps_action \<Rightarrow> agps \<Rightarrow> agps mem" where
  "agps_act E (Subscribe s) m = subscribeRsrc E s m"
| "agps_act E (Unsubscribe s) m = map_option snd (unsubscribeRsrc E s m)"
| "agps_act E (RsrcEvent e) m = onRsrcEvent E e m"
| "agps_act E (SetAPN apn len) m = Some (setAPN apn len m)"
| "agps_act E (SetBearer b) m = Some (setBearer b m)"
| "agps_act E RetryTimer m = Some (if is_ds m then retryCallback m else m)"

end
