(* ===== verification/Agps_Machine.thy ===== *)
theory Agps_Machine
  imports Agps "HOL-Library.Sublist"
begin

text \<open>
  Lemmas on the operations of \<open>Agps\<close>, the invariant of both machines, and the properties of the AGPS
  component.
\<close>

subsection \<open>Searches and notifications\<close>

lemma search_has [simp]:
  "search_subscribers (hasSubscriber n) False m = (List.find (\<lambda>s. forMe s n) (mSubscribers m), m)"
proof -
  have "List.find ((\<lambda>s. forMe s n) \<circ> fst) (map (\<lambda>s. (s, True)) xs) =
      map_option (\<lambda>s. (s, True)) (List.find (\<lambda>s. forMe s n) xs)" for xs :: "subscriber list"
    by (induction xs) auto
  then show ?thesis
    using ls_search_pure [of "\<lambda>s. forMe s n" False "map (\<lambda>s. (s, True)) (mSubscribers m)" m]
    by (simp add: search_subscribers_def hasSubscriber_def [abs_def] comp_def option.map_comp
        split: option.splits)
qed

lemma groups [simp]:
  "forMe s (Notification_group BROADCAST_ALL ev b)"
  "forMe s (Notification_group BROADCAST_ACTIVE ev b) \<longleftrightarrow> \<not> isInactive s"
  "forMe s (Notification_group BROADCAST_INACTIVE ev b) \<longleftrightarrow> isInactive s"
  "forMe s (Notification_to r ev b) \<longleftrightarrow> equals s r"
  "rsrcStatus (Notification_group g ev b) = ev" "rsrcStatus (Notification_to r ev b) = ev"
  "postNotifyDelete (Notification_group g ev b) = b" "postNotifyDelete (Notification_to r ev b) = b"
  "rcver (Notification_group g ev b) = None" "rcver (Notification_to r ev b) = Some r"
  by (simp_all add: forMe_def Notification_group_def Notification_to_def BROADCAST_ALL_def
      BROADCAST_ACTIVE_def BROADCAST_INACTIVE_def)

lemma active_iff: "hasActiveSubscribers m \<longleftrightarrow> (\<exists>s\<in>set (mSubscribers m). \<not> isInactive s)"
  by (auto simp: hasActiveSubscribers_def find_None_iff)

lemma equals_refl [simp]: "equals s s"
  by (simp add: equals_def strncmp16_eq_def split: subscriber_class.split)

text \<open>What a subscriber is told of an event of the resource.\<close>

definition notices :: "agps \<Rightarrow> AgpsRsrcStatus \<Rightarrow> subscriber \<Rightarrow> agps_out list" where
  "notices m ev s = (case s_class s of
      BITSubscriber \<Rightarrow> [DmnConn SENDER_ID_GPSONE_DAEMON
        (if ev = RSRC_GRANTED then GPSONE_LOC_API_IF_REQUEST_SUCCESS
         else if ev = RSRC_DENIED then GPSONE_LOC_API_IF_FAILURE else GPSONE_LOC_API_IF_RELEASE_SUCCESS)]
    | ATLSubscriber b \<Rightarrow>
        (if ev = RSRC_GRANTED \<or> ev = RSRC_DENIED
         then [AtlOpenStatus (ID s) (if ev = RSRC_GRANTED then 1 else 0) (mAPN m) (mBearer m)
                 (if b then AGPS_TYPE_INVALID else mType m)]
         else [AtlCloseStatus (ID s) 1])
    | WIFISubscriber _ _ i \<Rightarrow>
        (if ev = RSRC_UNSUBSCRIBE then []
         else [DmnConn i (if ev = RSRC_GRANTED then GPSONE_LOC_API_IF_REQUEST_SUCCESS
           else if ev = RSRC_DENIED then GPSONE_LOC_API_IF_FAILURE else GPSONE_LOC_API_IF_RELEASE_SUCCESS)])
    | DSSubscriber \<Rightarrow> [if ev = RSRC_UNSUBSCRIBE then AtlCloseStatus (ID s) 1
         else if ev = RSRC_RELEASED then CloseDataCall
         else if ev = RSRC_DENIED then RequestATL (ID s) AGPS_TYPE_SUPL
         else AtlOpenStatus (ID s) 1 None AGPS_APN_BEARER_INVALID AGPS_TYPE_INVALID])"

abbreviation real_event :: "AgpsRsrcStatus \<Rightarrow> bool" where
  "real_event ev \<equiv> ev \<in> {RSRC_UNSUBSCRIBE, RSRC_GRANTED, RSRC_RELEASED, RSRC_DENIED}"

definition notice :: "AgpsRsrcStatus \<Rightarrow> subscriber \<Rightarrow> agps \<Rightarrow> agps" where
  "notice ev s m = m\<lparr>outs := outs m @ notices m ev s,
    mRetries := (if s_class s = DSSubscriber \<and> ev = RSRC_DENIED then 0 else mRetries m)\<rparr>"

lemma notify_eq:
  "notifyRsrcStatus s n m =
    (if forMe s n \<and> real_event (rsrcStatus n) then (True, notice (rsrcStatus n) s m) else (False, m))"
  by (cases "s_class s"; cases "rsrcStatus n")
    (simp_all add: notifyRsrcStatus_def BIT_notifyRsrcStatus_def ATL_notifyRsrcStatus_def
      WIFI_notifyRsrcStatus_def DS_notifyRsrcStatus_def Let_def notice_def notices_def informStatus_def)

lemma notices_upd [simp]:
  "notices (m\<lparr>outs := o1\<rparr>) = notices m" "notices (m\<lparr>mRetries := k\<rparr>) = notices m"
  "notices (m\<lparr>mSubscribers := xs\<rparr>) = notices m" "notices (m\<lparr>mStatePtr := p\<rparr>) = notices m"
  by (auto simp: notices_def intro!: ext split: subscriber_class.split)

lemma notice_fields [simp]:
  "mSubscribers (notice ev s m) = mSubscribers m" "notices (notice ev s m) = notices m"
  by (simp_all add: notice_def)

lemma notice_subs [simp]: "notice ev s (m\<lparr>mSubscribers := xs\<rparr>) = (notice ev s m)\<lparr>mSubscribers := xs\<rparr>"
  by (simp add: notice_def)

lemma fold_notice_subs:
  "fold (notice ev) ss (m\<lparr>mSubscribers := xs\<rparr>) = (fold (notice ev) ss m)\<lparr>mSubscribers := xs\<rparr>"
  by (induction ss arbitrary: m) simp_all

lemma fold_notice:
  "fold (notice ev) ss m = m\<lparr>outs := outs m @ concat (map (notices m ev) ss),
     mRetries := (if ev = RSRC_DENIED \<and> (\<exists>s\<in>set ss. s_class s = DSSubscriber) then 0 else mRetries m)\<rparr>"
proof (induction ss arbitrary: m)
  case (Cons s ss)
  have "fold (notice ev) (s # ss) m = fold (notice ev) ss (notice ev s m)" by simp
  also have "\<dots> = m\<lparr>outs := outs m @ concat (map (notices m ev) (s # ss)),
      mRetries := (if ev = RSRC_DENIED \<and> (\<exists>x\<in>set ss. s_class x = DSSubscriber) then 0
        else mRetries (notice ev s m))\<rparr>"
    unfolding Cons.IH by (simp add: notice_def)
  also have "(if ev = RSRC_DENIED \<and> (\<exists>x\<in>set ss. s_class x = DSSubscriber) then 0
        else mRetries (notice ev s m)) = (if ev = RSRC_DENIED \<and> (\<exists>x\<in>set (s # ss). s_class x = DSSubscriber) then 0
        else mRetries m)"
    by (auto simp: notice_def)
  finally show ?case .
qed simp

text \<open>A search that notifies and does not delete visits the whole list.\<close>

lemma search_notify:
  assumes "\<not> postNotifyDelete n"
  shows "search_subscribers (notifySubscriber n) False m =
    (None, if real_event (rsrcStatus n)
           then fold (notice (rsrcStatus n)) (filter (\<lambda>s. forMe s n) (mSubscribers m)) m else m)"
proof -
  let ?f = "\<lambda>xs m. if real_event (rsrcStatus n) then fold (notice (rsrcStatus n)) (filter (\<lambda>s. forMe s n) xs) m else m"
  have "ls_search (notifySubscriber n) False (map (\<lambda>s. (s, True)) xs) m =
      (None, map (\<lambda>s. (s, True)) xs, ?f xs m)" for xs m
    by (induction xs arbitrary: m) (auto simp: notifySubscriber_def notify_eq assms Let_def)
  then show ?thesis
    by (simp add: search_subscribers_def comp_def fold_notice)
qed

text \<open>A search that deletes stops at the first subscriber it is for.\<close>

lemma search_delete:
  assumes "postNotifyDelete n" and "real_event (rsrcStatus n)"
  shows "search_subscribers (notifySubscriber n) True m =
    (case List.find (\<lambda>s. forMe s n) (mSubscribers m) of
       None \<Rightarrow> (None, m)
     | Some s \<Rightarrow> (Some s, (notice (rsrcStatus n) s m)\<lparr>mSubscribers := remove1 s (mSubscribers m)\<rparr>))"
proof -
  have "ls_search (notifySubscriber n) True (map (\<lambda>s. (s, True)) xs) m =
      (case List.find (\<lambda>s. forMe s n) xs of
         None \<Rightarrow> (None, map (\<lambda>s. (s, True)) xs, m)
       | Some s \<Rightarrow> (Some (s, True), map (\<lambda>s. (s, True)) (remove1 s xs), notice (rsrcStatus n) s m))" for xs m
  proof (induction xs arbitrary: m)
    case (Cons x xs)
    have "List.find (\<lambda>s. forMe s n) xs = Some s \<Longrightarrow> forMe s n" for s by (auto simp: find_Some_iff)
    with Cons.IH [of m] show ?case
      using assms by (auto simp: notifySubscriber_def notify_eq Let_def split: option.splits)
  qed simp
  then show ?thesis by (auto simp: search_subscribers_def comp_def split: option.splits)
qed

text \<open>Deleting every subscriber of a broadcast.\<close>

lemma loop_broadcast:
  assumes "postNotifyDelete n" and "real_event (rsrcStatus n)" and "rcver n = None"
  shows "notify_loop E n m =
    (fold (notice (rsrcStatus n)) (filter (\<lambda>s. forMe s n) (mSubscribers m)) m)
      \<lparr>mSubscribers := filter (\<lambda>s. \<not> forMe s n) (mSubscribers m)\<rparr>"
proof (induction "length (mSubscribers m)" arbitrary: m rule: less_induct)
  case less
  show ?case
  proof (cases "List.find (\<lambda>s. forMe s n) (mSubscribers m)")
    case None
    then have no: "\<forall>s\<in>set (mSubscribers m). \<not> forMe s n" by (simp add: find_None_iff)
    then have "filter (\<lambda>s. forMe s n) (mSubscribers m) = []"
      "filter (\<lambda>s. \<not> forMe s n) (mSubscribers m) = mSubscribers m" by (simp_all cong: filter_cong)
    with None show ?thesis
      by (subst notify_loop.simps) (simp add: search_delete [OF assms(1,2)])
  next
    case (Some s)
    obtain ys zs where l: "mSubscribers m = ys @ s # zs" and s: "forMe s n"
      and y: "\<forall>y\<in>set ys. \<not> forMe y n"
      using find_Some_split [OF Some] by auto
    have r: "remove1 s (mSubscribers m) = ys @ zs" using l y s by (auto simp: remove1_append)
    note ys = filter_none [OF y]
    have n': "after_delete E s n = n" by (simp add: after_delete_def assms(3))
    let ?m = "(notice (rsrcStatus n) s m)\<lparr>mSubscribers := ys @ zs\<rparr>"
    have "notify_loop E n m = notify_loop E n ?m"
      by (subst notify_loop.simps) (simp add: search_delete [OF assms(1,2)] Some r n')
    also have "\<dots> = (fold (notice (rsrcStatus n)) (filter (\<lambda>s. forMe s n) (ys @ zs)) ?m)
        \<lparr>mSubscribers := filter (\<lambda>s. \<not> forMe s n) (ys @ zs)\<rparr>"
      using less.hyps [of ?m] l by simp
    finally show ?thesis using l s ys by (simp add: fold_notice_subs)
  qed
qed

subsection \<open>The requests in the output\<close>

fun action_of :: "agps_out \<Rightarrow> AGpsStatusValue list" where
  "action_of (RequestRsrc _ (NifRequest _ a _ _ _)) = [a]"
| "action_of (RequestRsrc _ (DsCbData a)) = [a]"
| "action_of _ = []"

definition nif_actions :: "agps_out list \<Rightarrow> AGpsStatusValue list" where
  "nif_actions xs = concat (map action_of xs)"

text \<open>Every release follows a request; \<open>h\<close> tells whether a request is open at the start.\<close>

fun paired :: "bool \<Rightarrow> AGpsStatusValue list \<Rightarrow> bool" where
  "paired h [] = True"
| "paired h (GPS_REQUEST_AGPS_DATA_CONN # as) = paired True as"
| "paired h (GPS_RELEASE_AGPS_DATA_CONN # as) = (h \<and> paired False as)"

definition open_request :: "bool \<Rightarrow> AGpsStatusValue list \<Rightarrow> bool" where
  "open_request h as = (if as = [] then h else last as = GPS_REQUEST_AGPS_DATA_CONN)"

lemma paired_snoc:
  "paired h (as @ [a]) \<longleftrightarrow> paired h as \<and> (a = GPS_RELEASE_AGPS_DATA_CONN \<longrightarrow> open_request h as)"
  by (induction h as rule: paired.induct) (cases a; auto simp: open_request_def)+

lemma nif_actions_append [simp]: "nif_actions (xs @ ys) = nif_actions xs @ nif_actions ys"
  by (simp add: nif_actions_def)

lemma nif_actions_simps [simp]: "nif_actions [] = []" "nif_actions (x # xs) = action_of x @ nif_actions xs"
  by (simp_all add: nif_actions_def)

lemma nif_actions_notices [simp]: "nif_actions (notices m ev s) = []"
  by (simp add: notices_def split: subscriber_class.split)

definition holding :: "agps \<Rightarrow> bool" where
  "holding m \<longleftrightarrow> open_request False (nif_actions (outs m))"

subsection \<open>The invariant\<close>

text \<open>
  What holds in every state: no subscriber of the list equals one added later, the objects are
  distinct and allocated, a machine for a single subscriber has at most one, the retries are
  bounded, and releases follow requests.
\<close>

definition core :: "agps \<Rightarrow> bool" where
  "core m \<longleftrightarrow>
    sorted_wrt (\<lambda>new old. \<not> equals old new) (mSubscribers m) \<and>
    distinct (map s_addr (mSubscribers m)) \<and>
    (\<forall>s\<in>set (mSubscribers m). s_addr s < next_obj m) \<and>
    (mEnforceSingleSubscriber m \<longrightarrow> length (mSubscribers m) \<le> 1) \<and>
    mRetries m \<le> MAX_START_DATA_CALL_RETRIES \<and>
    paired False (nif_actions (outs m))"

abbreviation some_active :: "agps \<Rightarrow> bool" where
  "some_active m \<equiv> \<exists>s\<in>set (mSubscribers m). \<not> isInactive s"

text \<open>What the state promises. Only the machine for emergency calls keeps subscribers when released.\<close>

definition shape :: "agps_state \<Rightarrow> agps \<Rightarrow> bool" where
  "shape p m = (case p of
      AgpsReleasedState \<Rightarrow> (\<forall>s\<in>set (mSubscribers m). \<not> isInactive s) \<and> (\<not> is_ds m \<longrightarrow> mSubscribers m = [])
    | AgpsPendingState \<Rightarrow> some_active m \<and> holding m
    | AgpsAcquiredState \<Rightarrow> some_active m \<and> holding m
    | AgpsReleasingState \<Rightarrow> mSubscribers m \<noteq> [])"

definition agps_inv :: "agps \<Rightarrow> bool" where
  "agps_inv m \<longleftrightarrow> core m \<and> shape (mStatePtr m) m"

text \<open>Notifications only add notices, remove subscribers and reset the retries.\<close>

definition shrinks :: "agps \<Rightarrow> agps \<Rightarrow> bool" where
  "shrinks m m' \<longleftrightarrow>
    m' = m\<lparr>mSubscribers := mSubscribers m', outs := outs m', mRetries := mRetries m'\<rparr> \<and>
    subseq (mSubscribers m') (mSubscribers m) \<and>
    nif_actions (outs m') = nif_actions (outs m) \<and>
    (mRetries m' = mRetries m \<or> mRetries m' = 0)"

lemma shrinks_refl [simp]: "shrinks m m"
  by (simp add: shrinks_def)

lemma shrinksD:
  assumes "shrinks m m'"
  shows "is_ds m' = is_ds m" "mEnforceSingleSubscriber m' = mEnforceSingleSubscriber m"
    "next_obj m' = next_obj m" "mStatePtr m' = mStatePtr m" "mType m' = mType m"
    "holding m' = holding m" "subseq (mSubscribers m') (mSubscribers m)"
    "set (mSubscribers m') \<subseteq> set (mSubscribers m)" "length (mSubscribers m') \<le> length (mSubscribers m)"
    "nif_actions (outs m') = nif_actions (outs m)" "mRetries m' = mRetries m \<or> mRetries m' = 0"
proof -
  define xs o' k where "xs = mSubscribers m'" and "o' = outs m'" and "k = mRetries m'"
  from assms have m': "m' = m\<lparr>mSubscribers := xs, outs := o', mRetries := k\<rparr>"
    by (simp add: shrinks_def xs_def o'_def k_def)
  show "is_ds m' = is_ds m" "mEnforceSingleSubscriber m' = mEnforceSingleSubscriber m"
    "next_obj m' = next_obj m" "mStatePtr m' = mStatePtr m" "mType m' = mType m"
    by (simp_all add: m')
  show "holding m' = holding m" "subseq (mSubscribers m') (mSubscribers m)"
    "nif_actions (outs m') = nif_actions (outs m)" "mRetries m' = mRetries m \<or> mRetries m' = 0"
    using assms by (auto simp: shrinks_def holding_def)
  then show "set (mSubscribers m') \<subseteq> set (mSubscribers m)" "length (mSubscribers m') \<le> length (mSubscribers m)"
    by (auto dest: list_emb_set list_emb_length)
qed

lemma shrinksI:
  "m' = m\<lparr>mSubscribers := xs, outs := o', mRetries := k\<rparr> \<Longrightarrow> subseq xs (mSubscribers m) \<Longrightarrow>
    nif_actions o' = nif_actions (outs m) \<Longrightarrow> k = mRetries m \<or> k = 0 \<Longrightarrow> shrinks m m'"
  by (simp add: shrinks_def)

lemma shrinksE:
  assumes "shrinks m m'"
  obtains xs o' k where "m' = m\<lparr>mSubscribers := xs, outs := o', mRetries := k\<rparr>"
    "subseq xs (mSubscribers m)" "nif_actions o' = nif_actions (outs m)" "k = mRetries m \<or> k = 0"
  using assms by (auto simp: shrinks_def)

lemma shrinks_trans:
  assumes "shrinks m1 m2" and "shrinks m2 m3"
  shows "shrinks m1 m3"
proof -
  obtain xs o1 k where 2: "m2 = m1\<lparr>mSubscribers := xs, outs := o1, mRetries := k\<rparr>"
    "subseq xs (mSubscribers m1)" "nif_actions o1 = nif_actions (outs m1)" "k = mRetries m1 \<or> k = 0"
    using assms(1) by (rule shrinksE)
  obtain ys o2 j where 3: "m3 = m2\<lparr>mSubscribers := ys, outs := o2, mRetries := j\<rparr>"
    "subseq ys (mSubscribers m2)" "nif_actions o2 = nif_actions (outs m2)" "j = mRetries m2 \<or> j = 0"
    using assms(2) by (rule shrinksE)
  have "subseq ys (mSubscribers m1)"
    using 3(2) 2(1,2) subseq_order.trans [of ys xs "mSubscribers m1"] by simp
  with 2 3 show ?thesis by (intro shrinksI [where xs = ys and o' = o2 and k = j]) auto
qed

lemma subseq_sorted_wrt: "subseq ys xs \<Longrightarrow> sorted_wrt R xs \<Longrightarrow> sorted_wrt R ys"
  by (induction rule: list_emb.induct) (auto dest: list_emb_set)

lemma subseq_distinct_map: "subseq ys xs \<Longrightarrow> distinct (map f xs) \<Longrightarrow> distinct (map f ys)"
  by (induction rule: list_emb.induct) (auto dest: list_emb_set)

lemma core_shrinks:
  assumes "core m" and "shrinks m m'"
  shows "core m'"
proof -
  note d = shrinksD [OF assms(2)]
  have "mRetries m' \<le> MAX_START_DATA_CALL_RETRIES" using assms(1) d(11) by (auto simp: core_def)
  with assms(1) d subseq_sorted_wrt [OF d(7)] subseq_distinct_map [OF d(7)] show ?thesis
    by (auto simp: core_def)
qed

lemma shrinks_notice: "shrinks m (notice ev s m)"
  by (rule shrinksI [where xs = "mSubscribers m" and o' = "outs (notice ev s m)"
        and k = "mRetries (notice ev s m)"]) (auto simp: notice_def)

lemma shrinks_fold_notice: "shrinks m (fold (notice ev) ss m)"
  by (induction ss arbitrary: m) (auto intro: shrinks_trans shrinks_notice)

lemma shrinks_subs: "shrinks m m' \<Longrightarrow> subseq xs (mSubscribers m') \<Longrightarrow> shrinks m (m'\<lparr>mSubscribers := xs\<rparr>)"
  by (rule shrinks_trans [of m m'])
    (auto intro: shrinksI [where xs = xs and o' = "outs m'" and k = "mRetries m'"])

lemma subseq_remove1: "subseq (remove1 x xs) xs"
  by (induction xs) auto

lemma loop_shrinks:
  assumes "postNotifyDelete n" and "real_event (rsrcStatus n)"
  shows "shrinks m (notify_loop E n m)"
  using assms
proof (induction E n m rule: notify_loop.induct)
  case (1 E n m)
  show ?case
  proof (cases "List.find (\<lambda>s. forMe s n) (mSubscribers m)")
    case None
    then show ?thesis by (subst notify_loop.simps) (simp add: search_delete [OF 1(2,3)])
  next
    case (Some s)
    let ?m = "(notice (rsrcStatus n) s m)\<lparr>mSubscribers := remove1 s (mSubscribers m)\<rparr>"
    have S: "search_subscribers (notifySubscriber n) True m = (Some s, ?m)"
      by (simp add: search_delete [OF 1(2,3)] Some)
    have n: "postNotifyDelete (after_delete E s n)" "rsrcStatus (after_delete E s n) = rsrcStatus n"
      using 1(2) by (simp_all add: after_delete_def split: option.split)
    have "shrinks m ?m" by (intro shrinks_subs shrinks_notice) (simp add: subseq_remove1)
    moreover have "shrinks ?m (notify_loop E (after_delete E s n) ?m)"
      by (rule "1.IH" [OF S [symmetric] refl]) (use n 1(3) in simp_all)
    ultimately show ?thesis
      by (subst notify_loop.simps) (simp add: S shrinks_trans [of m ?m])
  qed
qed

lemma notifySubscribers_shrinks: "real_event (rsrcStatus n) \<Longrightarrow> shrinks m (notifySubscribers E n m)"
  by (cases "postNotifyDelete n")
    (simp_all add: notifySubscribers_def loop_shrinks search_notify shrinks_fold_notice)

lemma notify_shrinks: "shrinks m (snd (notifyRsrcStatus s n m))"
  by (simp add: notify_eq shrinks_notice)

text \<open>Adding a subscriber.\<close>

lemma clone_simps [simp]:
  "s_addr (clone a s) = a" "\<not> isInactive (clone a s)" "ID (clone a s) = ID s"
  "mIPv6Addr (clone a s) = mIPv6Addr s"
  by (simp_all add: clone_def isInactive_def split: subscriber_class.split)

lemma equals_clone [simp]: "equals x (clone a s) = equals x s"
  by (simp add: equals_def split: subscriber_class.split)

lemma addSubscriber_eq:
  "addSubscriber s m = (if \<exists>x\<in>set (mSubscribers m). equals x s then m
    else m\<lparr>mSubscribers := clone (next_obj m) s # mSubscribers m, next_obj := Suc (next_obj m)\<rparr>)"
  by (auto simp: addSubscriber_def find_None_iff)

lemma addSubscriber_fields [simp]:
  "is_ds (addSubscriber s m) = is_ds m" "mStatePtr (addSubscriber s m) = mStatePtr m"
  "outs (addSubscriber s m) = outs m" "holding (addSubscriber s m) = holding m"
  "mSubscribers (addSubscriber s m) \<noteq> []"
  by (auto simp: addSubscriber_eq holding_def)

lemma addSubscriber_set:
  "set (mSubscribers m) \<subseteq> set (mSubscribers (addSubscriber s m))"
  "x \<in> set (mSubscribers (addSubscriber s m)) \<Longrightarrow> x \<in> set (mSubscribers m) \<or> \<not> isInactive x"
  by (auto simp: addSubscriber_eq split: if_splits)

lemma core_add:
  assumes "core m" and "mEnforceSingleSubscriber m \<longrightarrow> mSubscribers m = []"
  shows "core (addSubscriber s m)"
  using assms by (auto simp: core_def addSubscriber_eq less_SucI)

text \<open>Marking a subscriber inactive.\<close>

lemma setInactive_shrinks:
  obtains m' where "setInactive s m = m'\<lparr>mSubscribers := mSubscribers (setInactive s m)\<rparr>" "shrinks m m'"
    "mSubscribers m' = mSubscribers m"
proof
  show "setInactive s m = (setInactive s m)\<lparr>mSubscribers := mSubscribers m\<rparr>
      \<lparr>mSubscribers := mSubscribers (setInactive s m)\<rparr>" by simp
  show "shrinks m ((setInactive s m)\<lparr>mSubscribers := mSubscribers m\<rparr>)"
    by (rule shrinksI [where xs = "mSubscribers m" and o' = "outs (setInactive s m)" and k = "mRetries m"])
      (auto simp: setInactive_def Let_def informStatus_def split: subscriber_class.split)
qed simp

lemma setInactive_subs:
  "mSubscribers (setInactive s m) =
    (if waitForCloseComplete s
     then map (\<lambda>x. if s_addr x = s_addr s then x\<lparr>mIsInactive := True\<rparr> else x) (mSubscribers m)
     else mSubscribers m)"
  by (simp add: setInactive_def waitForCloseComplete_def informStatus_def Let_def
      split: subscriber_class.split)

lemma equals_inactive [simp]:
  "equals (x\<lparr>mIsInactive := b\<rparr>) y = equals x y" "equals x (y\<lparr>mIsInactive := b\<rparr>) = equals x y"
  by (simp_all add: equals_def split: subscriber_class.split)

lemma core_inactive:
  assumes "core m"
  shows "core (m\<lparr>mSubscribers := map (\<lambda>x. if P x then x\<lparr>mIsInactive := True\<rparr> else x) (mSubscribers m)\<rparr>)"
proof -
  let ?f = "\<lambda>x. if P x then x\<lparr>mIsInactive := True\<rparr> else x"
  have e: "equals (?f x) (?f y) = equals x y" "s_addr (?f x) = s_addr x" for x y by simp_all
  have "sorted_wrt (\<lambda>new old. \<not> equals old new) (map ?f (mSubscribers m))"
    unfolding sorted_wrt_map e using assms by (simp add: core_def)
  moreover have "map s_addr (map ?f (mSubscribers m)) = map s_addr (mSubscribers m)"
    using e(2) by simp
  then have "distinct (map s_addr (map ?f (mSubscribers m)))"
    unfolding core_def using assms by (metis core_def)
  moreover have "\<forall>s\<in>set (map ?f (mSubscribers m)). s_addr s < next_obj m"
    using assms by (auto simp: core_def)
  ultimately show ?thesis using assms unfolding core_def by (simp del: map_map)
qed

lemma core_setInactive:
  assumes "core m"
  shows "core (setInactive s m)"
proof -
  obtain m' where m': "setInactive s m = m'\<lparr>mSubscribers := mSubscribers (setInactive s m)\<rparr>" "shrinks m m'"
    "mSubscribers m' = mSubscribers m" by (rule setInactive_shrinks)
  have C: "core m'" by (rule core_shrinks [OF assms m'(2)])
  have "core (m'\<lparr>mSubscribers := mSubscribers (setInactive s m)\<rparr>)"
    using core_inactive [OF C, of "\<lambda>x. s_addr x = s_addr s"] C m'(3)
    by (cases "waitForCloseComplete s") (simp_all add: setInactive_subs core_def)
  with m'(1) show ?thesis by simp
qed

text \<open>The subscribers after one of them unsubscribed.\<close>

lemma close_core:
  assumes "core m"
  shows "core (close_subscriber E s m)" "is_ds (close_subscriber E s m) = is_ds m"
    "holding (close_subscriber E s m) = holding m"
proof -
  have n: "shrinks m (notifySubscribers E (Notification_to s RSRC_UNSUBSCRIBE True) m)"
    by (rule notifySubscribers_shrinks) simp
  obtain m' where m': "setInactive s m = m'\<lparr>mSubscribers := mSubscribers (setInactive s m)\<rparr>" "shrinks m m'"
    "mSubscribers m' = mSubscribers m" by (rule setInactive_shrinks)
  have "is_ds (setInactive s m) = is_ds m'" "holding (setInactive s m) = holding m'"
    by (subst m'(1), simp add: holding_def)+
  then show "is_ds (close_subscriber E s m) = is_ds m" "holding (close_subscriber E s m) = holding m"
    using shrinksD [OF n] shrinksD [OF m'(2)] by (simp_all add: close_subscriber_def)
  show "core (close_subscriber E s m)"
    using core_setInactive [OF assms] core_shrinks [OF assms n] by (simp add: close_subscriber_def)
qed

text \<open>Requests.\<close>

definition requested :: "AGpsStatusValue \<Rightarrow> agps \<Rightarrow> agps \<Rightarrow> bool" where
  "requested a m m' \<longleftrightarrow> (\<exists>o' k. m' = m\<lparr>outs := outs m @ o', mRetries := k\<rparr> \<and> nif_actions o' = [a] \<and>
    (mRetries m \<le> MAX_START_DATA_CALL_RETRIES \<longrightarrow> k \<le> MAX_START_DATA_CALL_RETRIES))"

lemma requestedI:
  "m' = m\<lparr>outs := outs m @ o', mRetries := k\<rparr> \<Longrightarrow> nif_actions o' = [a] \<Longrightarrow>
    (mRetries m \<le> MAX_START_DATA_CALL_RETRIES \<Longrightarrow> k \<le> MAX_START_DATA_CALL_RETRIES) \<Longrightarrow> requested a m m'"
  unfolding requested_def by blast

lemma requestRsrc_eq: "snd (requestRsrc E req m) = emit (RequestRsrc (mServicer m) req) m"
  by (simp add: requestRsrc_def Let_def split: servicerType.split)

lemma Agps_send_requested:
  assumes "(\<not> some_active m) = (a = GPS_RELEASE_AGPS_DATA_CONN)"
  shows "requested a m (snd (Agps_sendRsrcRequest E a m)) \<and> fst (Agps_sendRsrcRequest E a m) = 0"
proof -
  have f: "(List.find (\<lambda>s. \<not> isInactive s) (mSubscribers m) = None) = (GPS_RELEASE_AGPS_DATA_CONN = a)"
    using assms by (auto simp: find_None_iff)
  then show ?thesis
    by (auto simp: Agps_sendRsrcRequest_def requestRsrc_eq Let_def split: option.split
        intro!: requestedI)
qed

lemma DS_send_requested: "requested a m (snd (DS_sendRsrcRequest E a m))"
proof -
  obtain ret m1 where r: "requestRsrc E (DsCbData a) m = (ret, m1)" by fastforce
  have m1: "m1 = emit (RequestRsrc (mServicer m) (DsCbData a)) m"
    using requestRsrc_eq [of E "DsCbData a" m] r by simp
  let ?c = "case List.find (\<lambda>s. \<not> isInactive s) (mSubscribers m) of None \<Rightarrow> - 1 | Some x \<Rightarrow> ID x"
  have "\<exists>o' k. snd (DS_sendRsrcRequest E a m) = m1\<lparr>outs := outs m1 @ o', mRetries := k\<rparr> \<and>
      nif_actions o' = [] \<and> (mRetries m \<le> MAX_START_DATA_CALL_RETRIES \<longrightarrow> k \<le> MAX_START_DATA_CALL_RETRIES)"
  proof (cases "ret = LOC_API_ADAPTER_ERR_ENGINE_BUSY")
    case busy: True
    show ?thesis
    proof (cases "mRetries m + 1 > MAX_START_DATA_CALL_RETRIES")
      case True
      with busy show ?thesis
        by (auto simp: DS_sendRsrcRequest_def r m1 informStatus_def Let_def
            intro!: exI [of _ "[RequestATL ?c AGPS_TYPE_SUPL]"] exI [of _ 0])
    next
      case False
      with busy show ?thesis
        by (auto simp: DS_sendRsrcRequest_def r m1 Let_def not_less
            intro!: exI [of _ "[TimerStart DATA_CALL_RETRY_DELAY_MSEC]"] exI [of _ "mRetries m + 1"])
    qed
  next
    case busy: False
    show ?thesis
    proof (cases "ret = LOC_API_ADAPTER_ERR_UNSUPPORTED \<or> ret = -1")
      case True
      with busy show ?thesis
        by (auto simp: DS_sendRsrcRequest_def r m1 informStatus_def Let_def LOC_API_ADAPTER_ERR_SUCCESS_def
            intro!: exI [of _ "[RequestATL ?c AGPS_TYPE_SUPL]"] exI [of _ 0])
    next
      case False
      with busy show ?thesis
        by (auto simp: DS_sendRsrcRequest_def r m1 Let_def intro!: exI [of _ "[]"] exI [of _ "mRetries m"])
    qed
  qed
  then obtain o' k where "snd (DS_sendRsrcRequest E a m) = m1\<lparr>outs := outs m1 @ o', mRetries := k\<rparr>"
    "nif_actions o' = []" "mRetries m \<le> MAX_START_DATA_CALL_RETRIES \<longrightarrow> k \<le> MAX_START_DATA_CALL_RETRIES" by blast
  then show ?thesis
    by (intro requestedI [where o' = "RequestRsrc (mServicer m) (DsCbData a) # o'" and k = k])
      (simp_all add: m1)
qed

lemma send_core:
  assumes C: "core m" and A: "(\<not> some_active m) = (a = GPS_RELEASE_AGPS_DATA_CONN)"
    and H: "a = GPS_RELEASE_AGPS_DATA_CONN \<Longrightarrow> holding m"
  shows "core (snd (sendRsrcRequest E a m))"
    and "mSubscribers (snd (sendRsrcRequest E a m)) = mSubscribers m"
    and "is_ds (snd (sendRsrcRequest E a m)) = is_ds m"
    and "holding (snd (sendRsrcRequest E a m)) \<longleftrightarrow> a = GPS_REQUEST_AGPS_DATA_CONN"
    and "\<not> is_ds m \<Longrightarrow> fst (sendRsrcRequest E a m) = 0"
proof -
  have "requested a m (snd (sendRsrcRequest E a m))"
    using Agps_send_requested [OF A] DS_send_requested by (simp add: sendRsrcRequest_def)
  then obtain o' k where m': "snd (sendRsrcRequest E a m) = m\<lparr>outs := outs m @ o', mRetries := k\<rparr>"
    "nif_actions o' = [a]" "mRetries m \<le> MAX_START_DATA_CALL_RETRIES \<longrightarrow> k \<le> MAX_START_DATA_CALL_RETRIES"
    unfolding requested_def by blast
  show "core (snd (sendRsrcRequest E a m))"
    using C H m' by (simp add: core_def paired_snoc holding_def)
  show "holding (snd (sendRsrcRequest E a m)) \<longleftrightarrow> a = GPS_REQUEST_AGPS_DATA_CONN"
    using m' by (simp add: holding_def open_request_def)
  show "mSubscribers (snd (sendRsrcRequest E a m)) = mSubscribers m"
    "is_ds (snd (sendRsrcRequest E a m)) = is_ds m" using m' by simp_all
  show "\<not> is_ds m \<Longrightarrow> fst (sendRsrcRequest E a m) = 0"
    using Agps_send_requested [OF A] by (simp add: sendRsrcRequest_def)
qed

subsection \<open>Every event keeps the invariant\<close>

lemma shape_simps [simp]:
  "shape AgpsReleasedState m \<longleftrightarrow> (\<forall>s\<in>set (mSubscribers m). \<not> isInactive s) \<and> (\<not> is_ds m \<longrightarrow> mSubscribers m = [])"
  "shape AgpsPendingState m \<longleftrightarrow> some_active m \<and> holding m"
  "shape AgpsAcquiredState m \<longleftrightarrow> some_active m \<and> holding m"
  "shape AgpsReleasingState m \<longleftrightarrow> mSubscribers m \<noteq> []"
  by (simp_all add: shape_def)

lemma agps_inv_state [simp]:
  "core (m\<lparr>mStatePtr := p\<rparr>) = core m" "shape q (m\<lparr>mStatePtr := p\<rparr>) = shape q m"
  by (simp_all add: core_def shape_def holding_def split: agps_state.split)

text \<open>After an unsubscription: release when no active subscriber is left.\<close>

definition after_close :: "agps_env \<Rightarrow> agps_state \<Rightarrow> agps \<Rightarrow> agps_state \<times> agps" where
  "after_close E p m =
    (if \<not> hasSubscribers m then (AgpsReleasedState, snd (sendRsrcRequest E GPS_RELEASE_AGPS_DATA_CONN m))
     else if \<not> hasActiveSubscribers m
     then (AgpsReleasingState, snd (sendRsrcRequest E GPS_RELEASE_AGPS_DATA_CONN m)) else (p, m))"

lemma after_close_inv:
  assumes "core m" and "holding m" and "p = AgpsPendingState \<or> p = AgpsAcquiredState"
    and "after_close E p m = (q, m')"
  shows "core m' \<and> shape q m'"
proof (cases "some_active m")
  case True
  then have "hasSubscribers m" "hasActiveSubscribers m" by (auto simp: hasSubscribers_def active_iff)
  with assms True show ?thesis by (auto simp: after_close_def)
next
  case False
  note send = send_core [OF assms(1), of GPS_RELEASE_AGPS_DATA_CONN E]
  from False have "\<not> hasActiveSubscribers m" by (simp add: active_iff)
  with False assms send show ?thesis
    by (auto simp: after_close_def hasSubscribers_def split: if_splits)
qed

lemma Released_inv:
  assumes C: "core m" "shape AgpsReleasedState m"
    and S: "event = RSRC_SUBSCRIBE \<Longrightarrow> mEnforceSingleSubscriber m \<longrightarrow> mSubscribers m = []"
    and D: "event \<in> {RSRC_SUBSCRIBE, RSRC_UNSUBSCRIBE} \<Longrightarrow> data \<noteq> None"
  shows "\<exists>q m'. Released_onRsrcEvent E event data m = Some (q, m') \<and> core m' \<and> shape q m'"
proof (cases event)
  case RSRC_SUBSCRIBE
  with D obtain s where s: "data = Some s" by auto
  let ?m = "addSubscriber s m"
  have c: "core ?m" using core_add [OF C(1)] S RSRC_SUBSCRIBE by simp
  have all: "\<forall>x\<in>set (mSubscribers ?m). \<not> isInactive x"
    using C(2) addSubscriber_set(2) [of _ s m] by auto
  moreover have "mSubscribers ?m \<noteq> []" by simp
  ultimately have a: "some_active ?m" by (metis list.set_sel(1))
  obtain ret m' where m': "sendRsrcRequest E GPS_REQUEST_AGPS_DATA_CONN ?m = (ret, m')" by fastforce
  show ?thesis
    using send_core [OF c, of GPS_REQUEST_AGPS_DATA_CONN E] a all m' RSRC_SUBSCRIBE s
    by (auto simp: Released_onRsrcEvent_def)
next
  case RSRC_UNSUBSCRIBE
  with D obtain s where s: "data = Some s" by auto
  let ?m = "snd (notifyRsrcStatus s (Notification_to s event False) m)"
  have "shrinks m ?m" by (rule notify_shrinks)
  with core_shrinks [OF C(1)] shrinksD [of m ?m] C(2) RSRC_UNSUBSCRIBE s show ?thesis
    by (auto simp: Released_onRsrcEvent_def split: prod.split)
qed (use C in \<open>simp_all add: Released_onRsrcEvent_def\<close>)

lemma notify_keep:
  assumes "real_event ev"
  shows "notifySubscribers E (Notification_group BROADCAST_ACTIVE ev False) m =
    fold (notice ev) (filter (\<lambda>s. \<not> isInactive s) (mSubscribers m)) m"
  using assms by (simp add: notifySubscribers_def search_notify)

lemma notify_delete_all:
  assumes "real_event ev"
  shows "notifySubscribers E (Notification_group BROADCAST_ALL ev True) m =
    (fold (notice ev) (mSubscribers m) m)\<lparr>mSubscribers := []\<rparr>"
  using assms by (simp add: notifySubscribers_def loop_broadcast)

lemma notify_delete_inactive:
  assumes "real_event ev"
  shows "notifySubscribers E (Notification_group BROADCAST_INACTIVE ev True) m =
    (fold (notice ev) (filter isInactive (mSubscribers m)) m)
      \<lparr>mSubscribers := filter (\<lambda>s. \<not> isInactive s) (mSubscribers m)\<rparr>"
  using assms by (simp add: notifySubscribers_def loop_broadcast)

lemma fold_notice_fields [simp]:
  "mSubscribers (fold (notice ev) ss m) = mSubscribers m" "is_ds (fold (notice ev) ss m) = is_ds m"
  "mStatePtr (fold (notice ev) ss m) = mStatePtr m"
  by (simp_all add: fold_notice)

lemma core_broadcast:
  assumes "core m" and "real_event ev"
  shows "core (notifySubscribers E (Notification_group g ev b) m)"
    "holding (notifySubscribers E (Notification_group g ev b) m) = holding m"
    "is_ds (notifySubscribers E (Notification_group g ev b) m) = is_ds m"
proof -
  have "shrinks m (notifySubscribers E (Notification_group g ev b) m)"
    by (rule notifySubscribers_shrinks) (use assms(2) in simp)
  with core_shrinks [OF assms(1)] shrinksD [of m] show
    "core (notifySubscribers E (Notification_group g ev b) m)"
    "holding (notifySubscribers E (Notification_group g ev b) m) = holding m"
    "is_ds (notifySubscribers E (Notification_group g ev b) m) = is_ds m" by blast+
qed

lemma Pending_inv:
  assumes C: "core m" "shape AgpsPendingState m"
    and S: "event = RSRC_SUBSCRIBE \<Longrightarrow> mEnforceSingleSubscriber m \<longrightarrow> mSubscribers m = []"
    and D: "event \<in> {RSRC_SUBSCRIBE, RSRC_UNSUBSCRIBE} \<Longrightarrow> data \<noteq> None"
  shows "\<exists>q m'. Pending_onRsrcEvent E event data m = Some (q, m') \<and> core m' \<and> shape q m'"
proof (cases event)
  case RSRC_SUBSCRIBE
  with D obtain s where s: "data = Some s" by auto
  with core_add [OF C(1)] S RSRC_SUBSCRIBE C(2) addSubscriber_set(1) [of m s] show ?thesis
    by (auto simp: Pending_onRsrcEvent_def)
next
  case RSRC_UNSUBSCRIBE
  with D obtain s where s: "data = Some s" by auto
  let ?m = "close_subscriber E s m"
  obtain q m' where r: "after_close E AgpsPendingState ?m = (q, m')" by fastforce
  from after_close_inv [OF close_core(1) [OF C(1)] _ _ r] close_core(3) [OF C(1)] C(2)
  have "core m' \<and> shape q m'" by simp
  with r RSRC_UNSUBSCRIBE s show ?thesis
    by (simp add: Pending_onRsrcEvent_def after_close_def)
next
  case RSRC_GRANTED
  let ?m = "notifySubscribers E (Notification_group BROADCAST_ACTIVE RSRC_GRANTED False) m"
  have "mSubscribers ?m = mSubscribers m" by (simp add: notify_keep)
  with core_broadcast [OF C(1), of RSRC_GRANTED E BROADCAST_ACTIVE False] C(2) RSRC_GRANTED show ?thesis
    by (simp add: Pending_onRsrcEvent_def)
next
  case RSRC_DENIED
  let ?m = "notifySubscribers E (Notification_group BROADCAST_ALL RSRC_DENIED True) m"
  have "mSubscribers ?m = []" by (simp add: notify_delete_all)
  with core_broadcast [OF C(1), of RSRC_DENIED E BROADCAST_ALL True] RSRC_DENIED show ?thesis
    by (simp add: Pending_onRsrcEvent_def)
qed (use C in \<open>simp_all add: Pending_onRsrcEvent_def\<close>)

lemma Acquired_inv:
  assumes C: "core m" "shape AgpsAcquiredState m"
    and S: "event = RSRC_SUBSCRIBE \<Longrightarrow> mEnforceSingleSubscriber m \<longrightarrow> mSubscribers m = []"
    and D: "event \<in> {RSRC_SUBSCRIBE, RSRC_UNSUBSCRIBE} \<Longrightarrow> data \<noteq> None"
  shows "\<exists>q m'. Acquired_onRsrcEvent E event data m = Some (q, m') \<and> core m' \<and> shape q m'"
proof (cases event)
  case RSRC_SUBSCRIBE
  with D obtain s where s: "data = Some s" by auto
  let ?m = "notice RSRC_GRANTED s m"
  have c: "core ?m" "holding ?m" "mEnforceSingleSubscriber ?m = mEnforceSingleSubscriber m"
    using core_shrinks [OF C(1) shrinks_notice] shrinksD [OF shrinks_notice] C(2) by simp_all
  with core_add [OF c(1)] S RSRC_SUBSCRIBE C(2) addSubscriber_set(1) [of ?m s] s show ?thesis
    by (auto simp: Acquired_onRsrcEvent_def notify_eq)
next
  case RSRC_UNSUBSCRIBE
  with D obtain s where s: "data = Some s" by auto
  let ?m = "close_subscriber E s m"
  obtain q m' where r: "after_close E AgpsAcquiredState ?m = (q, m')" by fastforce
  from after_close_inv [OF close_core(1) [OF C(1)] _ _ r] close_core(3) [OF C(1)] C(2)
  have "core m' \<and> shape q m'" by simp
  with r RSRC_UNSUBSCRIBE s show ?thesis
    by (simp add: Acquired_onRsrcEvent_def after_close_def)
next
  case RSRC_RELEASED
  let ?m = "notifySubscribers E (Notification_group BROADCAST_ALL RSRC_RELEASED True) m"
  have "mSubscribers ?m = []" by (simp add: notify_delete_all)
  with core_broadcast [OF C(1), of RSRC_RELEASED E BROADCAST_ALL True] RSRC_RELEASED show ?thesis
    by (simp add: Acquired_onRsrcEvent_def)
qed (use C in \<open>simp_all add: Acquired_onRsrcEvent_def\<close>)

lemma Releasing_inv:
  assumes C: "core m" "shape AgpsReleasingState m"
    and S: "event = RSRC_SUBSCRIBE \<Longrightarrow> mEnforceSingleSubscriber m \<longrightarrow> mSubscribers m = []"
    and D: "event \<in> {RSRC_SUBSCRIBE, RSRC_UNSUBSCRIBE} \<Longrightarrow> data \<noteq> None"
  shows "\<exists>q m'. Releasing_onRsrcEvent E event data m = Some (q, m') \<and> core m' \<and> shape q m'"
proof -
  have rel: "\<exists>q m'. Releasing_onRsrcEvent E ev data m = Some (q, m') \<and> core m' \<and> shape q m'"
    if ev: "ev = RSRC_DENIED \<or> ev = RSRC_RELEASED" for ev
  proof -
    let ?m = "notifySubscribers E (Notification_group BROADCAST_INACTIVE ev True) m"
    have real: "real_event ev" using ev by auto
    note c = core_broadcast [OF C(1) real, of E BROADCAST_INACTIVE True]
    have subs: "mSubscribers ?m = filter (\<lambda>s. \<not> isInactive s) (mSubscribers m)"
      by (simp add: notify_delete_inactive [OF real])
    note send = send_core [OF c(1), of GPS_REQUEST_AGPS_DATA_CONN E]
    show ?thesis
    proof (cases "some_active ?m")
      case True
      with send ev show ?thesis by (auto simp: Releasing_onRsrcEvent_def active_iff Let_def)
    next
      case False
      with subs have "mSubscribers ?m = []" by (auto simp: filter_empty_conv)
      with False c(1) ev show ?thesis by (auto simp: Releasing_onRsrcEvent_def active_iff Let_def)
    qed
  qed
  show ?thesis
  proof (cases event)
    case RSRC_SUBSCRIBE
    with D obtain s where s: "data = Some s" by auto
    with core_add [OF C(1)] S RSRC_SUBSCRIBE show ?thesis
      by (auto simp: Releasing_onRsrcEvent_def)
  next
    case RSRC_UNSUBSCRIBE
    with D obtain s where s: "data = Some s" by auto
    with close_core [OF C(1), of E s] RSRC_UNSUBSCRIBE show ?thesis
      by (auto simp: Releasing_onRsrcEvent_def Let_def hasSubscribers_def)
  next
    case RSRC_RELEASED
    show ?thesis unfolding RSRC_RELEASED by (rule rel) simp
  next
    case RSRC_DENIED
    show ?thesis unfolding RSRC_DENIED by (rule rel) simp
  qed (use C in \<open>simp_all add: Releasing_onRsrcEvent_def\<close>)
qed

lemma state_inv:
  assumes I: "agps_inv m"
    and S: "event = RSRC_SUBSCRIBE \<Longrightarrow> mEnforceSingleSubscriber m \<longrightarrow> mSubscribers m = []"
    and D: "event \<in> {RSRC_SUBSCRIBE, RSRC_UNSUBSCRIBE} \<Longrightarrow> data \<noteq> None"
  shows "\<exists>m'. state_onRsrcEvent E event data m = Some m' \<and> agps_inv m'"
proof -
  have C: "core m" "shape (mStatePtr m) m" using I by (simp_all add: agps_inv_def)
  have "\<exists>q m'. (case mStatePtr m of
         AgpsReleasedState \<Rightarrow> Released_onRsrcEvent E event data m
       | AgpsPendingState \<Rightarrow> Pending_onRsrcEvent E event data m
       | AgpsAcquiredState \<Rightarrow> Acquired_onRsrcEvent E event data m
       | AgpsReleasingState \<Rightarrow> Releasing_onRsrcEvent E event data m) = Some (q, m') \<and> core m' \<and> shape q m'"
    using Released_inv [OF C(1) _ S D] Pending_inv [OF C(1) _ S D] Acquired_inv [OF C(1) _ S D]
      Releasing_inv [OF C(1) _ S D] C(2) by (cases "mStatePtr m") simp_all
  then show ?thesis by (auto simp: state_onRsrcEvent_def agps_inv_def)
qed

lemma agps_act_inv:
  assumes I: "agps_inv m"
  shows "\<exists>m'. agps_act E a m = Some m' \<and> agps_inv m'"
proof (cases a)
  case (Subscribe s)
  let ?n = "Notification_group BROADCAST_ALL RSRC_DENIED True"
  have "snd (notifySubscriber ?n s m) = notice RSRC_DENIED s m"
    by (simp add: notifySubscriber_def notify_eq)
  moreover have "agps_inv (notice RSRC_DENIED s m)"
    using I core_shrinks [OF _ shrinks_notice] shrinksD [OF shrinks_notice [of m RSRC_DENIED s]]
    by (auto simp: agps_inv_def shape_def split: agps_state.splits)
  ultimately show ?thesis
    using Subscribe state_inv [OF I, of RSRC_SUBSCRIBE "Some s" E]
    by (auto simp: subscribeRsrc_def hasSubscribers_def)
next
  case (Unsubscribe s)
  have u: "\<exists>m'. state_onRsrcEvent E RSRC_UNSUBSCRIBE (Some x) m = Some m' \<and> agps_inv m'" for x
    by (rule state_inv [OF I]) simp_all
  show ?thesis
  proof (cases "List.find (\<lambda>x. equals x s) (mSubscribers m)")
    case None
    with Unsubscribe I show ?thesis by (simp add: unsubscribeRsrc_def)
  next
    case (Some x)
    with Unsubscribe u [of x] show ?thesis by (auto simp: unsubscribeRsrc_def)
  qed
next
  case (RsrcEvent e)
  have ev: "\<exists>m'. state_onRsrcEvent E e None m = Some m' \<and> agps_inv m'"
    if "agps_inv m" "e \<in> {RSRC_GRANTED, RSRC_RELEASED, RSRC_DENIED}" for e m
    using state_inv [of m e None E] that by auto
  have "\<exists>m'. DS_onRsrcEvent E e m = Some m' \<and> agps_inv m'"
  proof (cases e)
    case RSRC_RELEASED
    obtain m1 where m1: "state_onRsrcEvent E RSRC_RELEASED None m = Some m1" "agps_inv m1"
      using ev [OF I] by blast
    with ev [OF m1(2), of RSRC_DENIED] RSRC_RELEASED show ?thesis
      by (auto simp: DS_onRsrcEvent_def)
  qed (use ev [OF I] I in \<open>auto simp: DS_onRsrcEvent_def\<close>)
  with RsrcEvent ev [OF I, of e] I show ?thesis
    by (auto simp: onRsrcEvent_def Agps_onRsrcEvent_def)
next
  case (SetAPN apn len)
  with I show ?thesis
    by (cases apn) (auto simp: setAPN_def agps_inv_def core_def shape_def holding_def split: agps_state.splits)
next
  case (SetBearer b)
  with I show ?thesis
    by (auto simp: setBearer_def agps_inv_def core_def shape_def holding_def split: agps_state.splits)
next
  case RetryTimer
  with I show ?thesis
    by (auto simp: retryCallback_def agps_inv_def core_def shape_def holding_def
        split: agps_state.splits option.splits)
qed

interpretation agps: safe_system "agps_act E" agps_inv for E
  by unfold_locales (rule agps_act_inv)

end
