(* ===== verification/Agps_Props.thy ===== *)
theory Agps_Props
  imports Agps_Machine
begin

text \<open>
  The properties of the AGPS machines: what holds in every run, what each event of the resource does,
  what an unsubscription does, the retries of the emergency data call, and executions that show
  where the code departs from its comments.
\<close>

subsection \<open>Every run\<close>

lemma new_inv: "agps_inv (AgpsStateMachine_new t ty b)" "agps_inv (DSStateMachine_new t)"
  by (simp_all add: agps_inv_def core_def AgpsStateMachine_new_def DSStateMachine_new_def)

text \<open>The kind of a machine never changes.\<close>

definition kind :: "agps \<Rightarrow> bool \<times> bool" where
  "kind m = (is_ds m, mEnforceSingleSubscriber m)"

lemma kind_shrinks: "shrinks m m' \<Longrightarrow> kind m' = kind m"
  by (simp add: kind_def shrinksD)

lemma kind_upd [simp]:
  "kind (m\<lparr>mStatePtr := p\<rparr>) = kind m" "kind (m\<lparr>mSubscribers := xs\<rparr>) = kind m"
  "kind (m\<lparr>outs := o'\<rparr>) = kind m" "kind (m\<lparr>mRetries := k\<rparr>) = kind m"
  "kind (addSubscriber s m) = kind m" "kind (setBearer x m) = kind m" "kind (setAPN apn len m) = kind m"
  by (simp_all add: kind_def addSubscriber_eq setBearer_def setAPN_def split: option.split)

lemma kind_notify [simp]:
  "kind (snd (notifyRsrcStatus s n m)) = kind m"
  "real_event (rsrcStatus n) \<Longrightarrow> kind (notifySubscribers E n m) = kind m"
  by (rule kind_shrinks, simp add: notify_shrinks notifySubscribers_shrinks)+

lemma kind_inactive [simp]: "kind (setInactive s m) = kind m"
proof -
  obtain m' where "setInactive s m = m'\<lparr>mSubscribers := mSubscribers (setInactive s m)\<rparr>" "shrinks m m'"
    "mSubscribers m' = mSubscribers m" by (rule setInactive_shrinks)
  then show ?thesis by (metis kind_shrinks kind_upd(2))
qed

lemma kind_close [simp]: "kind (close_subscriber E s m) = kind m"
  by (simp add: close_subscriber_def)

lemma kind_send [simp]: "kind (snd (sendRsrcRequest E a m)) = kind m"
proof (cases "is_ds m")
  case True
  with DS_send_requested [of a m E] show ?thesis
    by (auto simp: sendRsrcRequest_def requested_def)
next
  case False
  then show ?thesis
    by (auto simp: sendRsrcRequest_def Agps_sendRsrcRequest_def requestRsrc_eq Let_def split: option.split)
qed

lemma kind_state: "state_onRsrcEvent E ev d m = Some m' \<Longrightarrow> kind m' = kind m"
  by (cases "mStatePtr m"; cases ev)
    (auto simp: state_onRsrcEvent_def Released_onRsrcEvent_def Pending_onRsrcEvent_def
      Acquired_onRsrcEvent_def Releasing_onRsrcEvent_def Let_def split_beta
      split: bind_splits if_splits)

lemma kind_act: "agps_act E a m = Some m' \<Longrightarrow> kind m' = kind m"
  by (cases a)
    (auto simp: subscribeRsrc_def unsubscribeRsrc_def onRsrcEvent_def Agps_onRsrcEvent_def
      DS_onRsrcEvent_def notifySubscriber_def split_beta retryCallback_def
      split: bind_splits if_splits option.splits AgpsRsrcStatus.splits dest!: kind_state)

interpretation agpsk: safe_system "agps_act E" "\<lambda>m. agps_inv m \<and> kind m = k" for E k
proof unfold_locales
  show "\<exists>m'. agps_act E a m = Some m' \<and> agps_inv m' \<and> kind m' = k" if "agps_inv m \<and> kind m = k" for m a
    using agps_act_inv [of m E a] kind_act [of E a m] that by auto
qed

subsection \<open>Invariants of every run\<close>


text \<open>An environment: freed memory keeps its content, calls succeed, timers start.\<close>

definition calm :: agps_env where
  "calm = \<lparr>freed_view = (\<lambda>s. s), callbackExt = (\<lambda>_. 0), timer_starts = (\<lambda>_. True)\<rparr>"


text \<open>C3. In every run of either machine, each release of the data connection that is sent to the
  connectivity service answers an earlier request that has not been released yet: a release is never
  sent first and never twice in a row; and while a machine is pending or has acquired the resource,
  its last message was a request. The retries of the emergency call never exceed four.\<close>

theorem agps_requests_paired:
  "\<exists>m. run_steps (agps_act E) as (if ds then DSStateMachine_new t else AgpsStateMachine_new t ty single) = Some m \<and>
    paired False (nif_actions (outs m)) \<and> mRetries m \<le> 4 \<and>
    (mStatePtr m = AgpsPendingState \<or> mStatePtr m = AgpsAcquiredState \<longrightarrow>
      nif_actions (outs m) \<noteq> [] \<and> last (nif_actions (outs m)) = GPS_REQUEST_AGPS_DATA_CONN)"
proof -
  have "agps_inv (if ds then DSStateMachine_new t else AgpsStateMachine_new t ty single)"
    by (simp add: new_inv)
  from agps.run_safe [OF this, where as = as and E = E] obtain m where
    m: "run_steps (agps_act E) as (if ds then DSStateMachine_new t else AgpsStateMachine_new t ty single) = Some m"
    "agps_inv m" by blast
  then show ?thesis
    by (auto simp: agps_inv_def core_def holding_def open_request_def MAX_START_DATA_CALL_RETRIES_def
        split: if_splits)
qed

theorem agps_requests_paired_witness:
  "\<exists>m. run_steps (agps_act calm) [Subscribe (ATLSubscriber_new 7 True), Unsubscribe (ATLSubscriber_new 7 True),
       Subscribe (ATLSubscriber_new 8 True)] (AgpsStateMachine_new servicerTypeAgps 1 False) = Some m \<and>
    mStatePtr m = AgpsPendingState \<and>
    nif_actions (outs m) = [GPS_REQUEST_AGPS_DATA_CONN, GPS_RELEASE_AGPS_DATA_CONN, GPS_REQUEST_AGPS_DATA_CONN] \<and>
    paired False (nif_actions (outs m)) \<and> last (nif_actions (outs m)) = GPS_REQUEST_AGPS_DATA_CONN"
proof -
  let ?as = "[Subscribe (ATLSubscriber_new 7 True), Unsubscribe (ATLSubscriber_new 7 True),
       Subscribe (ATLSubscriber_new 8 True)]"
  let ?m = "AgpsStateMachine_new servicerTypeAgps 1 False"
  have "map_option (\<lambda>m. (mStatePtr m, nif_actions (outs m))) (run_steps (agps_act calm) ?as ?m) =
    Some (AgpsPendingState, [GPS_REQUEST_AGPS_DATA_CONN, GPS_RELEASE_AGPS_DATA_CONN, GPS_REQUEST_AGPS_DATA_CONN])"
    by code_simp
  with agps_requests_paired [of calm ?as False servicerTypeAgps 1 False] show ?thesis by auto
qed

subsection \<open>The events of the resource\<close>

lemmas handler_defs = onRsrcEvent_def Agps_onRsrcEvent_def DS_onRsrcEvent_def state_onRsrcEvent_def
  Released_onRsrcEvent_def Pending_onRsrcEvent_def Acquired_onRsrcEvent_def Releasing_onRsrcEvent_def

text \<open>When the connectivity service grants the resource to a pending machine, every active subscriber
  and no other is told, once, in the order of the list; the machine has acquired the resource and
  keeps its subscribers.\<close>

theorem agps_granted:
  assumes "mStatePtr m = AgpsPendingState"
  shows "onRsrcEvent E RSRC_GRANTED m = Some (m\<lparr>mStatePtr := AgpsAcquiredState,
    outs := outs m @ concat (map (notices m RSRC_GRANTED) (filter (\<lambda>s. \<not> isInactive s) (mSubscribers m)))\<rparr>)"
  using assms by (simp add: handler_defs notify_keep fold_notice)

theorem agps_granted_witness:
  "onRsrcEvent calm RSRC_GRANTED ((AgpsStateMachine_new servicerTypeAgps 1 False)
      \<lparr>mStatePtr := AgpsPendingState, mSubscribers := [ATLSubscriber_new 7 True]\<rparr>) =
    Some ((AgpsStateMachine_new servicerTypeAgps 1 False)\<lparr>mStatePtr := AgpsAcquiredState,
      mSubscribers := [ATLSubscriber_new 7 True], outs := [AtlOpenStatus 7 1 None (-1) (-1)]\<rparr>)"
  using agps_granted [of "(AgpsStateMachine_new servicerTypeAgps 1 False)
      \<lparr>mStatePtr := AgpsPendingState, mSubscribers := [ATLSubscriber_new 7 True]\<rparr>" calm]
  by (simp add: AgpsStateMachine_new_def ATLSubscriber_new_def isInactive_def notices_def
      AGPS_APN_BEARER_INVALID_def AGPS_TYPE_INVALID_def)

text \<open>When the resource is denied to a pending machine, or taken from one that has acquired it, every
  subscriber, active or not, is told once, in the order of the list, and the machine is released
  with no subscribers left.\<close>

theorem agps_lost:
  assumes "(mStatePtr m = AgpsPendingState \<and> ev = RSRC_DENIED) \<or>
    (mStatePtr m = AgpsAcquiredState \<and> ev = RSRC_RELEASED)"
  shows "\<exists>m'. onRsrcEvent E ev m = Some m' \<and> mStatePtr m' = AgpsReleasedState \<and> mSubscribers m' = [] \<and>
    outs m' = outs m @ concat (map (notices m ev) (mSubscribers m))"
  using assms by (auto simp: handler_defs notify_delete_all fold_notice)

theorem agps_lost_witness:
  "\<exists>m'. onRsrcEvent calm RSRC_DENIED ((DSStateMachine_new servicerTypeExt)
      \<lparr>mStatePtr := AgpsPendingState, mSubscribers := [DSSubscriber_new 3, DSSubscriber_new 4]\<rparr>) = Some m' \<and>
    mSubscribers m' = [] \<and> outs m' = [RequestATL 3 1, RequestATL 4 1]"
  using agps_lost [of "(DSStateMachine_new servicerTypeExt)
      \<lparr>mStatePtr := AgpsPendingState, mSubscribers := [DSSubscriber_new 3, DSSubscriber_new 4]\<rparr>" RSRC_DENIED calm]
  by (auto simp: AgpsStateMachine_new_def DSStateMachine_new_def DSSubscriber_new_def notices_def AGPS_TYPE_SUPL_def)

text \<open>The data service only reports connected or disconnected, so the emergency machine takes a release
  that finds it pending for a denial; the base machine ignores a release while it is pending.\<close>

theorem ds_released_is_denied:
  assumes "mStatePtr m = AgpsPendingState"
  shows "onRsrcEvent E RSRC_RELEASED m = (if is_ds m then onRsrcEvent E RSRC_DENIED m else Some m)"
  using assms by (simp add: handler_defs notify_delete_all fold_notice)

theorem ds_released_is_denied_witness:
  "map_option mStatePtr (onRsrcEvent calm RSRC_RELEASED ((DSStateMachine_new servicerTypeExt)
     \<lparr>mStatePtr := AgpsPendingState, mSubscribers := [DSSubscriber_new 3]\<rparr>)) = Some AgpsReleasedState"
proof -
  let ?m = "(DSStateMachine_new servicerTypeExt)\<lparr>mStatePtr := AgpsPendingState, mSubscribers := [DSSubscriber_new 3]\<rparr>"
  have "map_option mStatePtr (onRsrcEvent calm RSRC_DENIED ?m) = Some AgpsReleasedState" by code_simp
  with ds_released_is_denied [of ?m calm] show ?thesis by (simp add: DSStateMachine_new_def)
qed



text \<open>A machine for a single subscriber that serves one denies the next at once: the caller gets one
  notice of denial and nothing else changes.\<close>

theorem agps_single_denied:
  assumes "mEnforceSingleSubscriber m" and "mSubscribers m \<noteq> []" and "s_class s \<noteq> DSSubscriber"
  shows "subscribeRsrc E s m = Some (m\<lparr>outs := outs m @ notices m RSRC_DENIED s\<rparr>)"
  using assms by (simp add: subscribeRsrc_def hasSubscribers_def notifySubscriber_def notify_eq notice_def)

theorem agps_single_denied_witness:
  "\<exists>m. subscribeRsrc calm (WIFISubscriber_new None None 2) ((AgpsStateMachine_new servicerTypeAgps 4 True)
      \<lparr>mSubscribers := [WIFISubscriber_new None None 1]\<rparr>) = Some m \<and>
    outs m = [DmnConn 2 GPSONE_LOC_API_IF_FAILURE] \<and> map ID (mSubscribers m) = [1]"
  using agps_single_denied [of "(AgpsStateMachine_new servicerTypeAgps 4 True)
      \<lparr>mSubscribers := [WIFISubscriber_new None None 1]\<rparr>" "WIFISubscriber_new None None 2" calm]
  by (simp add: AgpsStateMachine_new_def WIFISubscriber_new_def notices_def)

subsection \<open>Unsubscribing\<close>

text \<open>All subscribers of the list compare in the same way.\<close>

definition homogeneous :: "subscriber list \<Rightarrow> bool" where
  "homogeneous ss \<longleftrightarrow> (\<forall>s\<in>set ss. s_class s = BITSubscriber) \<or> (\<forall>s\<in>set ss. s_class s \<noteq> BITSubscriber)"

lemma equals_sym: "homogeneous [x, y] \<Longrightarrow> equals x y = equals y x"
  by (auto simp: homogeneous_def equals_def strncmp16_eq_def split: subscriber_class.splits)

lemma equals_unique:
  assumes "core m" and "homogeneous (mSubscribers m)" and "x \<in> set (mSubscribers m)"
    and "y \<in> set (mSubscribers m)" and "equals y x"
  shows "y = x"
proof (rule ccontr)
  assume "y \<noteq> x"
  obtain i j where i: "i < length (mSubscribers m)" "mSubscribers m ! i = x"
    and j: "j < length (mSubscribers m)" "mSubscribers m ! j = y"
    using assms(3,4) by (auto simp: in_set_conv_nth)
  with \<open>y \<noteq> x\<close> have "i < j \<or> j < i" by (metis linorder_neqE_nat)
  moreover have s: "equals x y" using assms equals_sym [of x y] by (auto simp: homogeneous_def)
  moreover have "\<not> equals (mSubscribers m ! b) (mSubscribers m ! a)" if "a < b" "b < length (mSubscribers m)" for a b
    using sorted_wrt_nth_less [of _ "mSubscribers m" a b] assms(1) that by (auto simp: core_def)
  ultimately show False using i j assms(5) by metis
qed

lemma notify_delete_one:
  assumes "core m" and "homogeneous (mSubscribers m)" and "x \<in> set (mSubscribers m)" and "freed_view E x = x"
  shows "notifySubscribers E (Notification_to x RSRC_UNSUBSCRIBE True) m =
    (notice RSRC_UNSUBSCRIBE x m)\<lparr>mSubscribers := remove1 x (mSubscribers m)\<rparr>"
proof -
  let ?n = "Notification_to x RSRC_UNSUBSCRIBE True"
  let ?m = "(notice RSRC_UNSUBSCRIBE x m)\<lparr>mSubscribers := remove1 x (mSubscribers m)\<rparr>"
  have u: "equals y x \<longleftrightarrow> y = x" if "y \<in> set (mSubscribers m)" for y
    using equals_unique [OF assms(1-3) that] by auto
  have f: "List.find (\<lambda>s. forMe s ?n) (mSubscribers m) = Some x"
  proof (cases "List.find (\<lambda>s. forMe s ?n) (mSubscribers m)")
    case None
    with assms(3) show ?thesis by (auto simp: find_None_iff)
  next
    case (Some y)
    with find_Some_in [OF Some] u [of y] show ?thesis by simp
  qed
  have d: "distinct (mSubscribers m)" using assms(1) by (auto simp: core_def distinct_map)
  have "after_delete E x ?n = ?n"
    using assms(4) by (simp add: after_delete_def Notification_to_def)
  then have "notify_loop E ?n m = notify_loop E ?n ?m"
    by (subst notify_loop.simps) (simp add: search_delete f [simplified])
  also have "\<dots> = ?m"
  proof -
    have "List.find (\<lambda>s. forMe s ?n) (mSubscribers ?m) = None"
      using u d by (auto simp: find_None_iff)
    then show ?thesis by (subst notify_loop.simps) (simp add: search_delete)
  qed
  finally show ?thesis by (simp add: notifySubscribers_def)
qed



text \<open>An environment in which the memory of a deleted subscriber reads as client 2.\<close>

definition recycled :: agps_env where
  "recycled = calm\<lparr>freed_view := (\<lambda>s. s\<lparr>ID := 2\<rparr>)\<rparr>"


text \<open>A client that subscribes again while its earlier subscription is being closed is not added to the
  list: when the close completes, the machine is released and the client never gets an answer.\<close>

theorem agps_resubscribe_lost:
  "map_option (\<lambda>m. (mStatePtr m, mSubscribers m, drop 3 (outs m)))
    (run_steps (agps_act calm) [Subscribe (DSSubscriber_new 1), RsrcEvent RSRC_GRANTED,
       Unsubscribe (DSSubscriber_new 1), Subscribe (DSSubscriber_new 1), RsrcEvent RSRC_RELEASED]
      (DSStateMachine_new servicerTypeExt)) =
    Some (AgpsReleasedState, [], [RequestRsrc servicerTypeExt (DsCbData GPS_RELEASE_AGPS_DATA_CONN), CloseDataCall])"
  by code_simp

subsection \<open>The emergency data call\<close>

lemma ds_subscribe:
  assumes "is_ds m" and "mStatePtr m = AgpsReleasedState" and "\<not> mEnforceSingleSubscriber m"
  shows "subscribeRsrc E s m = (let (ret, m') = DS_sendRsrcRequest E GPS_REQUEST_AGPS_DATA_CONN (addSubscriber s m)
    in Some (m'\<lparr>mStatePtr := if ret = 0 then AgpsPendingState else AgpsReleasedState\<rparr>))"
  using assms by (simp add: subscribeRsrc_def state_onRsrcEvent_def Released_onRsrcEvent_def
      sendRsrcRequest_def split_beta Let_def)

text \<open>The machine after \<open>k\<close> failed attempts of the client \<open>i\<close>.\<close>

definition busy_after :: "32 word \<Rightarrow> nat \<Rightarrow> agps" where
  "busy_after i k = (DSStateMachine_new servicerTypeExt)
    \<lparr>mSubscribers := [DSSubscriber_new i], next_obj := 1, mRetries := of_nat k,
     outs := concat (replicate k [RequestRsrc servicerTypeExt (DsCbData GPS_REQUEST_AGPS_DATA_CONN), TimerStart 500])\<rparr>"

lemma ds_first:
  assumes "callbackExt E = (\<lambda>_. LOC_API_ADAPTER_ERR_ENGINE_BUSY)"
  shows "subscribeRsrc E (DSSubscriber_new i) (DSStateMachine_new servicerTypeExt) = Some (busy_after i 1)"
  using assms by (simp add: ds_subscribe DSStateMachine_new_def AgpsStateMachine_new_def addSubscriber_eq clone_def
      DSSubscriber_new_def DS_sendRsrcRequest_def isInactive_def requestRsrc_def Let_def busy_after_def
      MAX_START_DATA_CALL_RETRIES_def DATA_CALL_RETRY_DELAY_MSEC_def LOC_API_ADAPTER_ERR_ENGINE_BUSY_def)

lemma ds_next:
  assumes "callbackExt E = (\<lambda>_. LOC_API_ADAPTER_ERR_ENGINE_BUSY)" and "k < 4"
  shows "subscribeRsrc E (DSSubscriber_new i) (busy_after i k) = Some (busy_after i (Suc k))"
proof -
  have "k = 0 \<or> k = 1 \<or> k = 2 \<or> k = 3" using assms(2) by linarith
  then have "\<not> MAX_START_DATA_CALL_RETRIES < of_nat k + (1 :: 8 word)"
    by (elim disjE) (simp_all add: MAX_START_DATA_CALL_RETRIES_def)
  moreover have "concat (replicate k xs) @ xs = concat (replicate (Suc k) xs)" for xs :: "agps_out list"
    by (induction k) auto
  ultimately show ?thesis
    using assms(1) by (simp add: ds_subscribe busy_after_def DSStateMachine_new_def AgpsStateMachine_new_def
      addSubscriber_eq equals_def DSSubscriber_new_def DS_sendRsrcRequest_def isInactive_def requestRsrc_def Let_def
      DATA_CALL_RETRY_DELAY_MSEC_def LOC_API_ADAPTER_ERR_ENGINE_BUSY_def del: replicate.simps)
qed

lemma ds_last:
  assumes "callbackExt E = (\<lambda>_. LOC_API_ADAPTER_ERR_ENGINE_BUSY)"
  shows "subscribeRsrc E (DSSubscriber_new i) (busy_after i 4) = Some ((busy_after i 4)\<lparr>mRetries := 0,
    outs := outs (busy_after i 4) @ [RequestRsrc servicerTypeExt (DsCbData GPS_REQUEST_AGPS_DATA_CONN),
      RequestATL i AGPS_TYPE_SUPL]\<rparr>)"
  using assms by (simp add: ds_subscribe busy_after_def DSStateMachine_new_def AgpsStateMachine_new_def
      addSubscriber_eq equals_def DSSubscriber_new_def DS_sendRsrcRequest_def isInactive_def requestRsrc_def Let_def
      informStatus_def MAX_START_DATA_CALL_RETRIES_def LOC_API_ADAPTER_ERR_ENGINE_BUSY_def)

text \<open>While the engine stays busy, each of the first four attempts of an emergency client starts the retry
  timer of 500 ms and leaves the machine released; the fifth gives up and asks for an ordinary ATL
  connection for the client, once, and the retries are counted from zero again.\<close>

theorem ds_fallback:
  assumes "callbackExt E = (\<lambda>_. LOC_API_ADAPTER_ERR_ENGINE_BUSY)"
  shows "\<exists>m. run_steps (agps_act E) (replicate 5 (Subscribe (DSSubscriber_new i))) (DSStateMachine_new servicerTypeExt) = Some m \<and>
    mStatePtr m = AgpsReleasedState \<and> mRetries m = 0 \<and> map ID (mSubscribers m) = [i] \<and>
    outs m = concat (replicate 4 [RequestRsrc servicerTypeExt (DsCbData GPS_REQUEST_AGPS_DATA_CONN), TimerStart 500]) @
      [RequestRsrc servicerTypeExt (DsCbData GPS_REQUEST_AGPS_DATA_CONN), RequestATL i AGPS_TYPE_SUPL]"
proof -
  have "replicate 5 x = [x, x, x, x, x]" for x :: agps_action by (simp add: eval_nat_numeral)
  moreover note ds_first [OF assms, of i] ds_next [OF assms, of 1 i] ds_next [OF assms, of 2 i]
    ds_next [OF assms, of 3 i] ds_last [OF assms, of i]
  ultimately show ?thesis
    by (simp add: eval_nat_numeral) (simp add: busy_after_def DSStateMachine_new_def
      AgpsStateMachine_new_def DSSubscriber_new_def eval_nat_numeral)
qed

theorem ds_fallback_witness:
  "\<exists>m. run_steps (agps_act (calm\<lparr>callbackExt := (\<lambda>_. LOC_API_ADAPTER_ERR_ENGINE_BUSY)\<rparr>))
      (replicate 5 (Subscribe (DSSubscriber_new 9))) (DSStateMachine_new servicerTypeExt) = Some m \<and>
    last (outs m) = RequestATL 9 AGPS_TYPE_SUPL"
  using ds_fallback [of "calm\<lparr>callbackExt := (\<lambda>_. LOC_API_ADAPTER_ERR_ENGINE_BUSY)\<rparr>" 9] by auto

text \<open>A success does not reset the count: after one busy answer and a completed call, the next emergency
  call starts with one retry already counted.\<close>

theorem ds_retries_kept:
  "map_option (\<lambda>m. (mStatePtr m, mRetries m))
    (run_steps (agps_act (calm\<lparr>callbackExt := (\<lambda>os. if length os = 1 then LOC_API_ADAPTER_ERR_ENGINE_BUSY else 0)\<rparr>))
      [Subscribe (DSSubscriber_new 1), RetryTimer, Subscribe (DSSubscriber_new 1), RsrcEvent RSRC_GRANTED,
       Unsubscribe (DSSubscriber_new 1), RsrcEvent RSRC_RELEASED] (DSStateMachine_new servicerTypeExt)) =
    Some (AgpsReleasedState, 1)"
  by code_simp

subsection \<open>The list of subscribers\<close>

lemma ls_search_subset: "ls_search eq rm xs w = (found, rest, w') \<Longrightarrow> set rest \<subseteq> set xs"
proof (induction xs arbitrary: w found rest w')
  case (Cons x xs)
  obtain b w1 where b: "eq (fst x) w = (b, w1)" by fastforce
  obtain y ys w2 where r: "ls_search eq rm xs w1 = (y, ys, w2)" by (cases "ls_search eq rm xs w1") auto
  from Cons.IH [OF r] Cons.prems b r show ?case by (cases b) (auto simp: Let_def split: if_splits)
qed simp



end
