(* ===== verification/Ril_Event.thy ===== *)
theory Ril_Event
  imports Prelude
begin

text \<open>
  The event loop of the radio interface layer, \<open>libril/ril_event.cpp\<close>: a table of at most eight watched
  file descriptors, a list of timers sorted by time, and a list of pending events whose callbacks are
  called in order. The two intrusive circular lists with their sentinels are the lists of the addresses
  of their events; linking an event that is already linked corrupts them and is undefined here.
\<close>

subsection \<open>State\<close>

record timeval =
  tv_s :: int
  tv_us :: int

definition timercmp_less :: "timeval \<Rightarrow> timeval \<Rightarrow> bool" where
  "timercmp_less a b = (if tv_s a = tv_s b then tv_us a < tv_us b else tv_s a < tv_s b)"

definition timeradd :: "timeval \<Rightarrow> timeval \<Rightarrow> timeval" where
  "timeradd t u =
    (let s = tv_s t + tv_s u; us = tv_us t + tv_us u
     in if us \<ge> 1000000 then \<lparr>tv_s = s + 1, tv_us = us - 1000000\<rparr> else \<lparr>tv_s = s, tv_us = us\<rparr>)"

definition timersub :: "timeval \<Rightarrow> timeval \<Rightarrow> timeval" where
  "timersub a b =
    (let s = tv_s a - tv_s b; us = tv_us a - tv_us b
     in if us < 0 then \<lparr>tv_s = s - 1, tv_us = us + 1000000\<rparr> else \<lparr>tv_s = s, tv_us = us\<rparr>)"

record ril_event =
  fd :: int
  ev_index :: int
  persist :: bool
  timeout :: timeval
  param :: nat

definition MAX_FD_EVENTS :: nat where "MAX_FD_EVENTS = 8"

text \<open>\<open>fired\<close> logs the calls of the callbacks: the file descriptor and the parameter they get.\<close>

record ril =
  readFds :: "int \<Rightarrow> bool"
  nfds :: int
  watch_table :: "addr option list"
  timer_list :: "addr list"
  pending_list :: "addr list"
  events :: "addr \<Rightarrow> ril_event"
  fired_calls :: "(int \<times> nat) list"

definition ril_event_init :: ril where
  "ril_event_init = \<lparr>readFds = (\<lambda>_. False), nfds = 0, watch_table = replicate MAX_FD_EVENTS None,
    timer_list = [], pending_list = [],
    events = (\<lambda>_. \<lparr>fd = -1, ev_index = -1, persist = False, timeout = \<lparr>tv_s = 0, tv_us = 0\<rparr>, param = 0\<rparr>),
    fired_calls = []\<rparr>"

definition linked :: "ril \<Rightarrow> addr \<Rightarrow> bool" where
  "linked S e \<longleftrightarrow> e \<in> set (timer_list S) \<or> e \<in> set (pending_list S)"

abbreviation upd_ev :: "addr \<Rightarrow> (ril_event \<Rightarrow> ril_event) \<Rightarrow> ril \<Rightarrow> ril" where
  "upd_ev e f S \<equiv> S\<lparr>events := (events S)(e := f (events S e))\<rparr>"

subsection \<open>The watch table\<close>

text \<open>\<open>removeWatch\<close>; \<open>nfds\<close> is recomputed when it was the bound of the descriptor removed.\<close>

fun max_fd :: "(addr \<Rightarrow> ril_event) \<Rightarrow> addr option list \<Rightarrow> int \<Rightarrow> int" where
  "max_fd evs [] n = n"
| "max_fd evs (None # ws) n = max_fd evs ws n"
| "max_fd evs (Some rv # ws) n = max_fd evs ws (if fd (evs rv) > n then fd (evs rv) else n)"

definition removeWatch :: "addr \<Rightarrow> nat \<Rightarrow> ril \<Rightarrow> ril" where
  "removeWatch ev i S =
    (let S1 = upd_ev ev (\<lambda>r. r\<lparr>ev_index := -1\<rparr>) (S\<lparr>watch_table := (watch_table S)[i := None]\<rparr>);
         S2 = S1\<lparr>readFds := (readFds S1)(fd (events S1 ev) := False)\<rparr>
     in if fd (events S2 ev) + 1 = nfds S2
        then S2\<lparr>nfds := max_fd (events S2) (watch_table S2) 0 + 1\<rparr> else S2)"

definition ril_event_set :: "addr \<Rightarrow> int \<Rightarrow> bool \<Rightarrow> nat \<Rightarrow> ril \<Rightarrow> ril mem" where
  "ril_event_set ev f p par S =
    (if linked S ev then None
     else Some (upd_ev ev (\<lambda>_. \<lparr>fd = f, ev_index = -1, persist = p,
       timeout = \<lparr>tv_s = 0, tv_us = 0\<rparr>, param = par\<rparr>) S))"

text \<open>The first free slot of the table.\<close>

fun free_slot :: "addr option list \<Rightarrow> nat option" where
  "free_slot [] = None"
| "free_slot (None # ws) = Some 0"
| "free_slot (Some _ # ws) = map_option Suc (free_slot ws)"

text \<open>\<open>FD_SET\<close> of a descriptor that does not fit the set is undefined.\<close>

definition ril_event_add :: "addr \<Rightarrow> ril \<Rightarrow> ril mem" where
  "ril_event_add ev S =
    (case free_slot (watch_table S) of
       None \<Rightarrow> Some S
     | Some i \<Rightarrow>
         (let S1 = upd_ev ev (\<lambda>r. r\<lparr>ev_index := int i\<rparr>) (S\<lparr>watch_table := (watch_table S)[i := Some ev]\<rparr>);
              f = fd (events S1 ev)
          in if 0 \<le> f \<and> f < 1024
             then Some (S1\<lparr>readFds := (readFds S1)(f := True), nfds := (if f \<ge> nfds S1 then f + 1 else nfds S1)\<rparr>)
             else None))"

definition ril_event_del :: "addr \<Rightarrow> ril \<Rightarrow> ril" where
  "ril_event_del ev S =
    (let i = ev_index (events S ev) in
     if i < 0 \<or> i \<ge> int MAX_FD_EVENTS then S else removeWatch ev (nat i) S)"

subsection \<open>Timers\<close>

text \<open>The search for the place of a timer, and \<open>addToList\<close> before the timer found.\<close>

fun insert_timer :: "(addr \<Rightarrow> ril_event) \<Rightarrow> addr \<Rightarrow> addr list \<Rightarrow> addr list" where
  "insert_timer evs ev [] = [ev]"
| "insert_timer evs ev (l # ls) =
    (if timercmp_less (timeout (evs l)) (timeout (evs ev)) then l # insert_timer evs ev ls else ev # l # ls)"

definition ril_timer_add :: "addr \<Rightarrow> timeval option \<Rightarrow> timeval \<Rightarrow> ril \<Rightarrow> ril mem" where
  "ril_timer_add ev tv now S =
    (case tv of
       None \<Rightarrow> Some S
     | Some t \<Rightarrow>
         if linked S ev then None
         else (let S1 = upd_ev ev (\<lambda>r. r\<lparr>fd := -1, timeout := timeradd now t\<rparr>) S
               in Some (S1\<lparr>timer_list := insert_timer (events S1) ev (timer_list S1)\<rparr>)))"

definition calcNextTimeout :: "timeval \<Rightarrow> ril \<Rightarrow> timeval option" where
  "calcNextTimeout now S =
    (case timer_list S of
       [] \<Rightarrow> None
     | tev # _ \<Rightarrow>
         if timercmp_less now (timeout (events S tev)) then Some (timersub (timeout (events S tev)) now)
         else Some \<lparr>tv_s = 0, tv_us = 0\<rparr>)"

subsection \<open>The loop\<close>

fun timeouts_loop :: "timeval \<Rightarrow> (addr \<Rightarrow> ril_event) \<Rightarrow> addr list \<Rightarrow> addr list \<Rightarrow> addr list \<times> addr list" where
  "timeouts_loop now evs [] pend = ([], pend)"
| "timeouts_loop now evs (tev # ts) pend =
    (if timercmp_less (timeout (evs tev)) now then timeouts_loop now evs ts (pend @ [tev]) else (tev # ts, pend))"

definition processTimeouts :: "timeval \<Rightarrow> ril \<Rightarrow> ril" where
  "processTimeouts now S =
    (let (ts, ps) = timeouts_loop now (events S) (timer_list S) (pending_list S)
     in S\<lparr>timer_list := ts, pending_list := ps\<rparr>)"

text \<open>The loop of \<open>processReadReadies\<close> over the slots of the table.\<close>

fun readies_loop :: "(int \<Rightarrow> bool) \<Rightarrow> nat list \<Rightarrow> int \<Rightarrow> ril \<Rightarrow> ril mem" where
  "readies_loop rfds [] n S = Some S"
| "readies_loop rfds (i # slots) n S =
    (if n > 0 then
       (case watch_table S ! i of
          None \<Rightarrow> readies_loop rfds slots n S
        | Some rv \<Rightarrow>
            if rfds (fd (events S rv)) then
              (if linked S rv then None
               else (let S1 = S\<lparr>pending_list := pending_list S @ [rv]\<rparr>;
                         S2 = (if persist (events S1 rv) then S1 else removeWatch rv i S1)
                     in readies_loop rfds slots (n - 1) S2))
            else readies_loop rfds slots n S)
     else Some S)"

definition processReadReadies :: "(int \<Rightarrow> bool) \<Rightarrow> int \<Rightarrow> ril \<Rightarrow> ril mem" where
  "processReadReadies rfds n S = readies_loop rfds [0..<MAX_FD_EVENTS] n S"

text \<open>What a client, or a callback, asks of the loop; a timer is added at the time \<open>now\<close>.\<close>

datatype ril_call =
    EvSet addr int bool nat
  | EvAdd addr
  | TimerAdd addr "timeval option" timeval
  | EvDel addr

definition watched :: "ril \<Rightarrow> addr \<Rightarrow> bool" where
  "watched S e \<longleftrightarrow> Some e \<in> set (watch_table S)"

text \<open>
  The discipline of the clients: an event is set up only while nothing refers to it, is watched at
  most once, alone on its descriptor, and is not a timer and watched at the same time.
\<close>

fun allowed :: "ril_call \<Rightarrow> ril \<Rightarrow> bool" where
  "allowed (EvSet e f p par) S \<longleftrightarrow> \<not> linked S e \<and> \<not> watched S e"
| "allowed (EvAdd e) S \<longleftrightarrow> \<not> watched S e \<and> e \<notin> set (timer_list S) \<and> 0 \<le> fd (events S e) \<and>
    fd (events S e) < 1024 \<and> \<not> readFds S (fd (events S e))"
| "allowed (TimerAdd e tv now) S \<longleftrightarrow> \<not> linked S e \<and> \<not> watched S e"
| "allowed (EvDel e) S \<longleftrightarrow> True"

fun ril_do :: "ril_call \<Rightarrow> ril \<Rightarrow> ril mem" where
  "ril_do (EvSet e f p par) S = ril_event_set e f p par S"
| "ril_do (EvAdd e) S = ril_event_add e S"
| "ril_do (TimerAdd e tv now) S = ril_timer_add e tv now S"
| "ril_do (EvDel e) S = Some (ril_event_del e S)"

text \<open>A client that keeps to the discipline.\<close>

definition client_do :: "ril_call \<Rightarrow> ril \<Rightarrow> ril mem" where
  "client_do c S = (if allowed c S then ril_do c S else Some S)"

lemma do_pending: "ril_do c S = Some S' \<Longrightarrow> pending_list S' = pending_list S \<and> fired_calls S' = fired_calls S"
  by (cases c) (auto simp: ril_event_set_def ril_event_add_def ril_timer_add_def ril_event_del_def
      removeWatch_def Let_def split: option.splits if_splits)

lemma client_pending:
  "run_steps client_do cs S = Some S' \<Longrightarrow> pending_list S' = pending_list S \<and> fired_calls S' = fired_calls S"
proof (induction cs arbitrary: S)
  case (Cons c cs)
  then obtain S1 where S1: "client_do c S = Some S1" "run_steps client_do cs S1 = Some S'"
    by (auto split: bind_splits)
  then have "pending_list S1 = pending_list S \<and> fired_calls S1 = fired_calls S"
    using do_pending [of c S S1] by (auto simp: client_do_def split: if_splits)
  with Cons.IH [OF S1(2)] show ?case by simp
qed simp

text \<open>
  \<open>firePending\<close>: the callback of an event is a list of calls on the loop. The event after the one
  that is called is read before the call; the calls never touch the pending list.
\<close>

function firePending :: "(addr \<Rightarrow> ril_call list) \<Rightarrow> ril \<Rightarrow> ril mem" where
  "firePending cb S =
    (case pending_list S of
       [] \<Rightarrow> Some S
     | ev # rest \<Rightarrow> do {
         let S1 = S\<lparr>pending_list := rest, fired_calls := fired_calls S @ [(fd (events S ev), param (events S ev))]\<rparr>;
         S2 \<leftarrow> run_steps client_do (cb ev) S1;
         firePending cb S2 })"
  by pat_completeness auto
termination
  by (relation "measure (\<lambda>(cb, S). length (pending_list S))") (auto dest!: client_pending)

declare firePending.simps [simp del]

text \<open>One round of \<open>ril_event_loop\<close> after \<open>select\<close> returned \<open>n\<close> ready descriptors.\<close>

definition loop_round :: "(addr \<Rightarrow> ril_call list) \<Rightarrow> timeval \<Rightarrow> (int \<Rightarrow> bool) \<Rightarrow> int \<Rightarrow> ril \<Rightarrow> ril mem" where
  "loop_round cb now rfds n S =
    (if n < 0 then Some S
     else do { S1 \<leftarrow> processReadReadies rfds n (processTimeouts now S); firePending cb S1 })"

subsection \<open>The invariant\<close>

definition in_slot :: "ril \<Rightarrow> nat \<Rightarrow> addr \<Rightarrow> bool" where
  "in_slot S i e \<longleftrightarrow> i < MAX_FD_EVENTS \<and> watch_table S ! i = Some e"

definition table_ok :: "ril \<Rightarrow> bool" where
  "table_ok S \<longleftrightarrow> length (watch_table S) = MAX_FD_EVENTS \<and>
    (\<forall>i e. in_slot S i e \<longrightarrow> ev_index (events S e) = int i \<and> 0 \<le> fd (events S e) \<and> fd (events S e) < 1024 \<and>
       readFds S (fd (events S e)) \<and> fd (events S e) < nfds S) \<and>
    (\<forall>e i. ev_index (events S e) = int i \<and> i < MAX_FD_EVENTS \<longrightarrow> in_slot S i e) \<and>
    (\<forall>i j e d. in_slot S i e \<and> in_slot S j d \<and> fd (events S e) = fd (events S d) \<longrightarrow> i = j) \<and>
    (\<forall>f. readFds S f \<longrightarrow> (\<exists>i e. in_slot S i e \<and> fd (events S e) = f))"

definition lists_ok :: "ril \<Rightarrow> bool" where
  "lists_ok S \<longleftrightarrow>
    sorted_wrt (\<lambda>a b. \<not> timercmp_less (timeout (events S b)) (timeout (events S a))) (timer_list S) \<and>
    distinct (timer_list S @ pending_list S) \<and> (\<forall>e\<in>set (timer_list S). \<not> watched S e)"

definition ril_inv :: "ril \<Rightarrow> bool" where
  "ril_inv S \<longleftrightarrow> table_ok S \<and> lists_ok S"

lemma table_okD:
  assumes "table_ok S"
  shows "length (watch_table S) = MAX_FD_EVENTS"
    and "in_slot S i e \<Longrightarrow> ev_index (events S e) = int i \<and> 0 \<le> fd (events S e) \<and> fd (events S e) < 1024 \<and>
       readFds S (fd (events S e)) \<and> fd (events S e) < nfds S"
    and "ev_index (events S e) = int i \<Longrightarrow> i < MAX_FD_EVENTS \<Longrightarrow> in_slot S i e"
    and "in_slot S i e \<Longrightarrow> in_slot S j d \<Longrightarrow> fd (events S e) = fd (events S d) \<Longrightarrow> i = j"
    and "readFds S f \<Longrightarrow> \<exists>i e. in_slot S i e \<and> fd (events S e) = f"
  using assms unfolding table_ok_def by blast+

lemma table_okI:
  assumes "length (watch_table S) = MAX_FD_EVENTS"
    and "\<And>i e. in_slot S i e \<Longrightarrow> ev_index (events S e) = int i \<and> 0 \<le> fd (events S e) \<and> fd (events S e) < 1024 \<and>
       readFds S (fd (events S e)) \<and> fd (events S e) < nfds S"
    and "\<And>e i. ev_index (events S e) = int i \<Longrightarrow> i < MAX_FD_EVENTS \<Longrightarrow> in_slot S i e"
    and "\<And>i j e d. in_slot S i e \<Longrightarrow> in_slot S j d \<Longrightarrow> fd (events S e) = fd (events S d) \<Longrightarrow> i = j"
    and "\<And>f. readFds S f \<Longrightarrow> \<exists>i e. in_slot S i e \<and> fd (events S e) = f"
  shows "table_ok S"
  unfolding table_ok_def using assms by blast

lemma watched_slot: "table_ok S \<Longrightarrow> watched S e \<longleftrightarrow> (\<exists>i. in_slot S i e)"
  using table_okD(1) [of S] by (auto simp: watched_def in_slot_def in_set_conv_nth)

lemma slot_inj: "table_ok S \<Longrightarrow> in_slot S i e \<Longrightarrow> in_slot S j e \<Longrightarrow> i = j"
  using table_okD(4) by blast

text \<open>The events of the table are all that a change of the table depends on.\<close>

lemma max_fd_start: "n \<le> max_fd evs ws n"
  by (induction evs ws n rule: max_fd.induct) auto

lemma max_fd_ge: "Some e \<in> set ws \<Longrightarrow> fd (evs e) \<le> max_fd evs ws n"
proof (induction evs ws n rule: max_fd.induct)
  case (3 evs rv ws n)
  have "fd (evs rv) \<le> max_fd evs ws (if fd (evs rv) > n then fd (evs rv) else n)"
    by (rule order_trans [OF _ max_fd_start]) simp
  with 3 show ?case by auto
qed auto

lemma removeWatch_fields [simp]:
  "timer_list (removeWatch e i S) = timer_list S" "pending_list (removeWatch e i S) = pending_list S"
  "fired_calls (removeWatch e i S) = fired_calls S" "watch_table (removeWatch e i S) = (watch_table S)[i := None]"
  "fd (events (removeWatch e i S) d) = fd (events S d)" "timeout (events (removeWatch e i S) d) = timeout (events S d)"
  "persist (events (removeWatch e i S) d) = persist (events S d)" "param (events (removeWatch e i S) d) = param (events S d)"
  "ev_index (events (removeWatch e i S) d) = (if d = e then -1 else ev_index (events S d))"
  "readFds (removeWatch e i S) = (readFds S)(fd (events S e) := False)"
  by (simp_all add: removeWatch_def Let_def)

lemma removeWatch_ok:
  assumes T: "table_ok S" and s: "in_slot S i e"
  shows "table_ok (removeWatch e i S)"
proof (rule table_okI)
  let ?S = "removeWatch e i S"
  have len: "length (watch_table S) = MAX_FD_EVENTS" by (rule table_okD(1) [OF T])
  have slot: "in_slot ?S j d \<longleftrightarrow> in_slot S j d \<and> j \<noteq> i" for j d
    using s len by (auto simp: in_slot_def nth_list_update split: if_splits)
  have other: "d \<noteq> e \<and> fd (events S d) \<noteq> fd (events S e)" if "in_slot ?S j d" for j d
    using that slot table_okD(4) [OF T _ s] by blast
  show "length (watch_table ?S) = MAX_FD_EVENTS" using len by simp
  have nf: "fd (events S d) < nfds ?S" if "in_slot ?S j d" for j d
  proof -
    have "in_slot S j d" using that slot by simp
    then have "fd (events S d) < nfds S" using table_okD(2) [OF T] by blast
    moreover have "Some d \<in> set ((watch_table S)[i := None])"
      using that unfolding in_slot_def by (metis len length_list_update nth_mem removeWatch_fields(4))
    then have "fd (events S d) \<le> max_fd evs ((watch_table S)[i := None]) 0"
      if "\<And>x. fd (evs x) = fd (events S x)" for evs
      using max_fd_ge [of d "(watch_table S)[i := None]" evs 0] that by simp
    then have "fd (events S d) \<le> max_fd ((events S)(e := (events S e)\<lparr>ev_index := -1\<rparr>)) ((watch_table S)[i := None]) 0"
      by simp
    ultimately show ?thesis by (auto simp: removeWatch_def Let_def)
  qed
  show "ev_index (events ?S d) = int j \<and> 0 \<le> fd (events ?S d) \<and> fd (events ?S d) < 1024 \<and>
      readFds ?S (fd (events ?S d)) \<and> fd (events ?S d) < nfds ?S" if "in_slot ?S j d" for j d
    using that nf [OF that] other [OF that] slot table_okD(2) [OF T, of j d] by simp
  show "in_slot ?S j d" if "ev_index (events ?S d) = int j" "j < MAX_FD_EVENTS" for d j
  proof -
    from that have "d \<noteq> e" "ev_index (events S d) = int j" by (auto split: if_splits)
    then have "in_slot S j d" using table_okD(3) [OF T] that(2) by blast
    moreover have "j \<noteq> i" using \<open>in_slot S j d\<close> s \<open>d \<noteq> e\<close> by (auto simp: in_slot_def)
    ultimately show ?thesis using slot by blast
  qed
  show "j = k" if "in_slot ?S j c" "in_slot ?S k d" "fd (events ?S c) = fd (events ?S d)" for j k c d
    using that slot table_okD(4) [OF T, of j c k d] by simp
  show "\<exists>j d. in_slot ?S j d \<and> fd (events ?S d) = f" if "readFds ?S f" for f
  proof -
    from that have "readFds S f" "f \<noteq> fd (events S e)" by (auto split: if_splits)
    then obtain j d where "in_slot S j d" "fd (events S d) = f" using table_okD(5) [OF T] by blast
    moreover from this have "j \<noteq> i" using \<open>f \<noteq> fd (events S e)\<close> s by (auto simp: in_slot_def)
    ultimately have "in_slot ?S j d \<and> fd (events ?S d) = f" using slot [of j d] by simp
    then show ?thesis by blast
  qed
qed

text \<open>Changing an event that is not watched keeps the table.\<close>

lemma table_ok_other:
  assumes T: "table_ok S" and e: "\<not> watched S e" and i: "\<And>i. i < MAX_FD_EVENTS \<Longrightarrow> ev_index r \<noteq> int i"
  shows "table_ok (S\<lparr>events := (events S)(e := r)\<rparr>)"
proof (rule table_okI)
  let ?S = "S\<lparr>events := (events S)(e := r)\<rparr>"
  have ne: "d \<noteq> e" if "in_slot S j d" for j d using that e watched_slot [OF T, of e] by blast
  have slot: "in_slot ?S j d = in_slot S j d" for j d by (simp add: in_slot_def)
  show "length (watch_table ?S) = MAX_FD_EVENTS" using table_okD(1) [OF T] by simp
  show "ev_index (events ?S d) = int j \<and> 0 \<le> fd (events ?S d) \<and> fd (events ?S d) < 1024 \<and>
      readFds ?S (fd (events ?S d)) \<and> fd (events ?S d) < nfds ?S" if "in_slot ?S j d" for j d
    using that ne [of j d] table_okD(2) [OF T, of j d] slot by simp
  show "in_slot ?S j d" if "ev_index (events ?S d) = int j" "j < MAX_FD_EVENTS" for d j
    using that i [of j] table_okD(3) [OF T, of d j] slot by (auto split: if_splits)
  show "j = k" if "in_slot ?S j c" "in_slot ?S k d" "fd (events ?S c) = fd (events ?S d)" for j k c d
    using that ne [of j c] ne [of k d] table_okD(4) [OF T, of j c k d] slot by simp
  show "\<exists>j d. in_slot ?S j d \<and> fd (events ?S d) = f" if "readFds ?S f" for f
  proof -
    from that have "readFds S f" by simp
    from table_okD(5) [OF T this] obtain j d where "in_slot S j d" "fd (events S d) = f" by blast
    then have "in_slot ?S j d \<and> fd (events ?S d) = f" using ne slot by simp
    then show ?thesis by blast
  qed
qed

lemma not_watched_index:
  "table_ok S \<Longrightarrow> \<not> watched S e \<Longrightarrow> i < MAX_FD_EVENTS \<Longrightarrow> ev_index (events S e) \<noteq> int i"
  using table_okD(3) [of S e i] watched_slot [of S e] by blast

lemma free_slot_Some: "free_slot ws = Some i \<Longrightarrow> i < length ws \<and> ws ! i = None"
  by (induction ws arbitrary: i rule: free_slot.induct) (auto simp: nth_Cons split: nat.splits)

lemma add_table_ok:
  assumes T: "table_ok S" and A: "allowed (EvAdd e) S" and R: "ril_event_add e S = Some S'"
  shows "table_ok S'"
proof (cases "free_slot (watch_table S)")
  case None
  with R T show ?thesis by (simp add: ril_event_add_def)
next
  case (Some i)
  have len: "length (watch_table S) = MAX_FD_EVENTS" by (rule table_okD(1) [OF T])
  have i: "i < MAX_FD_EVENTS" "watch_table S ! i = None" using free_slot_Some [OF Some] len by auto
  let ?f = "fd (events S e)"
  have S': "S' = S\<lparr>watch_table := (watch_table S)[i := Some e], events := (events S)(e := (events S e)\<lparr>ev_index := int i\<rparr>),
      readFds := (readFds S)(?f := True), nfds := (if ?f \<ge> nfds S then ?f + 1 else nfds S)\<rparr>"
    using R Some A by (simp add: ril_event_add_def Let_def split: if_splits)
  have slot: "in_slot S' j d \<longleftrightarrow> (j = i \<and> d = e) \<or> (in_slot S j d \<and> j \<noteq> i)" for j d
    using i len by (auto simp: S' in_slot_def nth_list_update)
  have ne: "d \<noteq> e \<and> fd (events S d) \<noteq> ?f" if "in_slot S j d" for j d
    using that A watched_slot [OF T, of e] table_okD(2) [OF T that] by auto
  have ev: "fd (events S' d) = fd (events S d)" "ev_index (events S' d) = (if d = e then int i else ev_index (events S d))" for d
    by (simp_all add: S')
  show ?thesis
  proof (rule table_okI)
    show "length (watch_table S') = MAX_FD_EVENTS" by (simp add: S' len)
    show "ev_index (events S' d) = int j \<and> 0 \<le> fd (events S' d) \<and> fd (events S' d) < 1024 \<and>
      readFds S' (fd (events S' d)) \<and> fd (events S' d) < nfds S'" if "in_slot S' j d" for j d
    proof (cases "j = i \<and> d = e")
      case True
      with A show ?thesis by (simp add: S')
    next
      case False
      with that slot have s: "in_slot S j d" by blast
      with ne [OF s] table_okD(2) [OF T s] show ?thesis by (simp add: S')
    qed
    show "in_slot S' j d" if "ev_index (events S' d) = int j" "j < MAX_FD_EVENTS" for d j
    proof (cases "d = e")
      case True
      with that ev slot show ?thesis by simp
    next
      case False
      with that ev have s: "in_slot S j d" using table_okD(3) [OF T, of d j] by simp
      then have "j \<noteq> i" using i by (auto simp: in_slot_def)
      with s slot show ?thesis by blast
    qed
    show "j = k" if "in_slot S' j c" "in_slot S' k d" "fd (events S' c) = fd (events S' d)" for j k c d
      using that slot ne [of j c] ne [of k d] table_okD(4) [OF T, of j c k d] unfolding ev by metis
    show "\<exists>j d. in_slot S' j d \<and> fd (events S' d) = f" if "readFds S' f" for f
    proof (cases "f = ?f")
      case True
      then have "in_slot S' i e \<and> fd (events S' e) = f" using slot ev by simp
      then show ?thesis by blast
    next
      case False
      with that obtain j d where s: "in_slot S j d" "fd (events S d) = f"
        using table_okD(5) [OF T, of f] by (auto simp: S')
      then have "j \<noteq> i" using i by (auto simp: in_slot_def)
      then have "in_slot S' j d \<and> fd (events S' d) = f" using slot s ev by simp
      then show ?thesis by blast
    qed
  qed
qed

text \<open>The order of the timers.\<close>

abbreviation in_order :: "(addr \<Rightarrow> ril_event) \<Rightarrow> addr list \<Rightarrow> bool" where
  "in_order evs \<equiv> sorted_wrt (\<lambda>a b. \<not> timercmp_less (timeout (evs b)) (timeout (evs a)))"

lemma less_trans1: "\<not> timercmp_less b a \<Longrightarrow> \<not> timercmp_less c b \<Longrightarrow> \<not> timercmp_less c a"
  by (auto simp: timercmp_less_def split: if_splits)

lemma less_asym1: "timercmp_less a b \<Longrightarrow> \<not> timercmp_less b a"
  by (auto simp: timercmp_less_def split: if_splits)

lemma insert_timer_set: "set (insert_timer evs e ts) = insert e (set ts)"
  by (induction ts) auto

lemma insert_timer_distinct: "distinct (insert_timer evs e ts) \<longleftrightarrow> distinct (e # ts)"
  by (induction ts) (auto simp: insert_timer_set)

lemma insert_timer_sorted: "in_order evs ts \<Longrightarrow> in_order evs (insert_timer evs e ts)"
proof (induction ts)
  case (Cons l ls)
  show ?case
  proof (cases "timercmp_less (timeout (evs l)) (timeout (evs e))")
    case True
    with Cons less_asym1 [OF True] show ?thesis by (auto simp: insert_timer_set)
  next
    case False
    with Cons.prems less_trans1 [of "timeout (evs l)" "timeout (evs e)"] show ?thesis by auto
  qed
qed simp

lemma in_order_cong: "(\<And>x. x \<in> set ts \<Longrightarrow> timeout (evs x) = timeout (evs' x)) \<Longrightarrow> in_order evs ts = in_order evs' ts"
  by (induction ts) auto

subsection \<open>Every action keeps the invariant\<close>

lemma watched_upd [simp]:
  "watched (S\<lparr>events := x\<rparr>) e = watched S e" "watched (S\<lparr>timer_list := ts\<rparr>) e = watched S e"
  "watched (S\<lparr>pending_list := ps\<rparr>) e = watched S e"
  by (simp_all add: watched_def)

lemma table_ok_upd [simp]:
  "table_ok (S\<lparr>timer_list := ts\<rparr>) = table_ok S" "table_ok (S\<lparr>pending_list := ps\<rparr>) = table_ok S"
  "table_ok (S\<lparr>fired_calls := cs\<rparr>) = table_ok S"
  by (simp_all add: table_ok_def in_slot_def)

lemma watched_remove: "table_ok S \<Longrightarrow> in_slot S i e \<Longrightarrow> watched (removeWatch e i S) d \<Longrightarrow> watched S d"
  by (auto simp: watched_def dest!: set_update_subset_insert [THEN subsetD])

lemma set_inv:
  assumes I: "ril_inv S" and A: "allowed (EvSet e f p par) S"
  shows "\<exists>S'. ril_event_set e f p par S = Some S' \<and> ril_inv S'"
proof -
  let ?r = "\<lparr>fd = f, ev_index = -1, persist = p, timeout = \<lparr>tv_s = 0, tv_us = 0\<rparr>, param = par\<rparr>"
  have "table_ok (S\<lparr>events := (events S)(e := ?r)\<rparr>)"
    using I A by (intro table_ok_other) (simp_all add: ril_inv_def)
  moreover have "in_order ((events S)(e := ?r)) (timer_list S) = in_order (events S) (timer_list S)"
    using A by (intro in_order_cong) (auto simp: linked_def)
  ultimately show ?thesis
    using I A by (simp add: ril_event_set_def ril_inv_def lists_ok_def)
qed

lemma timer_add_inv:
  assumes I: "ril_inv S" and A: "allowed (TimerAdd e tv now) S"
  shows "\<exists>S'. ril_timer_add e tv now S = Some S' \<and> ril_inv S'"
proof (cases tv)
  case None
  with I show ?thesis by (simp add: ril_timer_add_def)
next
  case (Some t)
  have T: "table_ok S" and L: "lists_ok S" using I by (simp_all add: ril_inv_def)
  let ?r = "(events S e)\<lparr>fd := -1, timeout := timeradd now t\<rparr>"
  let ?evs = "(events S)(e := ?r)"
  have "table_ok (S\<lparr>events := ?evs\<rparr>)"
    using A not_watched_index [OF T, of e] by (intro table_ok_other [OF T]) simp_all
  moreover have "in_order ?evs (timer_list S) = in_order (events S) (timer_list S)"
    using A by (intro in_order_cong) (auto simp: linked_def)
  then have "in_order ?evs (insert_timer ?evs e (timer_list S))"
    using L by (intro insert_timer_sorted) (simp add: lists_ok_def)
  ultimately show ?thesis
    using Some A L by (auto simp: ril_timer_add_def Let_def ril_inv_def lists_ok_def insert_timer_set
        insert_timer_distinct linked_def)
qed

lemma add_inv:
  assumes I: "ril_inv S" and A: "allowed (EvAdd e) S"
  shows "\<exists>S'. ril_event_add e S = Some S' \<and> ril_inv S'"
proof -
  have T: "table_ok S" and L: "lists_ok S" using I by (simp_all add: ril_inv_def)
  obtain S' where S': "ril_event_add e S = Some S'"
    using A by (cases "free_slot (watch_table S)") (auto simp: ril_event_add_def Let_def)
  have "table_ok S'" by (rule add_table_ok [OF T A S'])
  moreover have "lists_ok S'"
  proof (cases "free_slot (watch_table S)")
    case None
    with S' L show ?thesis by (simp add: ril_event_add_def)
  next
    case (Some i)
    have eq: "timer_list S' = timer_list S" "pending_list S' = pending_list S"
      "timeout (events S' x) = timeout (events S x)" "watch_table S' = (watch_table S)[i := Some e]" for x
      using S' Some by (auto simp: ril_event_add_def Let_def split: if_splits)
    have "watched S' x \<Longrightarrow> watched S x \<or> x = e" for x
      unfolding watched_def eq by (auto dest!: set_update_subset_insert [THEN subsetD])
    then have "\<forall>x\<in>set (timer_list S'). \<not> watched S' x"
      using L A eq(1) by (auto simp: lists_ok_def)
    with L show ?thesis by (simp add: lists_ok_def eq)
  qed
  ultimately show ?thesis using S' by (simp add: ril_inv_def)
qed

lemma remove_inv:
  assumes I: "ril_inv S" and s: "in_slot S i e"
  shows "ril_inv (removeWatch e i S)"
proof -
  have T: "table_ok S" and L: "lists_ok S" using I by (simp_all add: ril_inv_def)
  have "\<forall>x\<in>set (timer_list S). \<not> watched (removeWatch e i S) x"
    using L watched_remove [OF T s] by (auto simp: lists_ok_def)
  with L removeWatch_ok [OF T s] show ?thesis by (simp add: ril_inv_def lists_ok_def)
qed

lemma del_inv:
  assumes "ril_inv S"
  shows "ril_inv (ril_event_del e S)"
proof -
  have "in_slot S (nat (ev_index (events S e))) e"
    if "\<not> (ev_index (events S e) < 0 \<or> ev_index (events S e) \<ge> int MAX_FD_EVENTS)"
    using that assms by (intro table_okD(3)) (auto simp: ril_inv_def)
  with assms remove_inv [OF assms] show ?thesis by (simp add: ril_event_del_def Let_def)
qed

lemma client_do_inv:
  assumes "ril_inv S"
  shows "\<exists>S'. client_do c S = Some S' \<and> ril_inv S'"
  using set_inv [OF assms] add_inv [OF assms] timer_add_inv [OF assms] del_inv [OF assms] assms
  by (cases c) (simp_all add: client_do_def)

interpretation rc: safe_system client_do ril_inv
  by unfold_locales (rule client_do_inv)

subsection \<open>A round of the loop\<close>

abbreviation due :: "timeval \<Rightarrow> ril \<Rightarrow> addr \<Rightarrow> bool" where
  "due now S e \<equiv> timercmp_less (timeout (events S e)) now"

lemma timeouts_loop_eq:
  "in_order evs ts \<Longrightarrow> timeouts_loop now evs ts p =
    (filter (\<lambda>e. \<not> timercmp_less (timeout (evs e)) now) ts, p @ filter (\<lambda>e. timercmp_less (timeout (evs e)) now) ts)"
proof (induction ts arbitrary: p)
  case (Cons t ts)
  show ?case
  proof (cases "timercmp_less (timeout (evs t)) now")
    case True
    with Cons show ?thesis by simp
  next
    case False
    then have "\<forall>e\<in>set ts. \<not> timercmp_less (timeout (evs e)) now"
      using Cons.prems less_trans1 [of "timeout (evs t)" now] by auto
    with False filter_none [OF this] show ?thesis by simp
  qed
qed simp

lemma processTimeouts_eq:
  assumes "ril_inv S"
  shows "processTimeouts now S = S\<lparr>timer_list := filter (\<lambda>e. \<not> due now S e) (timer_list S),
    pending_list := pending_list S @ filter (due now S) (timer_list S)\<rparr>"
  using assms by (simp add: processTimeouts_def timeouts_loop_eq ril_inv_def lists_ok_def)

lemma processTimeouts_inv:
  assumes I: "ril_inv S"
  shows "ril_inv (processTimeouts now S)"
proof -
  have "lists_ok S" using I by (simp add: ril_inv_def)
  then have "in_order (events S) (filter (\<lambda>e. \<not> due now S e) (timer_list S))"
    by (auto simp: lists_ok_def intro: sorted_wrt_filter)
  with I show ?thesis
    unfolding processTimeouts_eq [OF I] by (auto simp: ril_inv_def lists_ok_def)
qed

text \<open>The ready events in the order of their slots.\<close>

definition ready_evs :: "(int \<Rightarrow> bool) \<Rightarrow> ril \<Rightarrow> nat list \<Rightarrow> addr list" where
  "ready_evs rfds S slots = concat (map (\<lambda>i. case watch_table S ! i of
     Some e \<Rightarrow> if rfds (fd (events S e)) then [e] else [] | None \<Rightarrow> []) slots)"

lemma ready_evs_simps:
  "ready_evs rfds S [] = []"
  "ready_evs rfds S (i # slots) = (case watch_table S ! i of
     Some e \<Rightarrow> if rfds (fd (events S e)) then [e] else [] | None \<Rightarrow> []) @ ready_evs rfds S slots"
  by (simp_all add: ready_evs_def)

lemma ready_evs_cong:
  "(\<And>i. i \<in> set slots \<Longrightarrow> watch_table S ! i = watch_table S' ! i) \<Longrightarrow> (\<And>e. fd (events S e) = fd (events S' e)) \<Longrightarrow>
    ready_evs rfds S slots = ready_evs rfds S' slots"
  by (induction slots) (simp_all add: ready_evs_simps split: option.split)

definition call_of :: "ril \<Rightarrow> addr \<Rightarrow> int \<times> nat" where
  "call_of S e = (fd (events S e), param (events S e))"

text \<open>What the loop over the slots does.\<close>

definition readied :: "(int \<Rightarrow> bool) \<Rightarrow> nat list \<Rightarrow> int \<Rightarrow> ril \<Rightarrow> ril \<Rightarrow> bool" where
  "readied rfds slots n S S' \<longleftrightarrow>
    timer_list S' = timer_list S \<and> fired_calls S' = fired_calls S \<and>
    pending_list S' = pending_list S @ take (nat n) (ready_evs rfds S slots) \<and>
    (\<forall>e. call_of S' e = call_of S e \<and> persist (events S' e) = persist (events S e)) \<and>
    (\<forall>e. watched S' e \<longleftrightarrow> watched S e \<and>
      (e \<in> set (take (nat n) (ready_evs rfds S slots)) \<longrightarrow> persist (events S e)))"

lemma watched_removed:
  assumes T: "table_ok S" and s: "in_slot S i e"
  shows "watched (removeWatch e i S) d \<longleftrightarrow> watched S d \<and> d \<noteq> e"
proof -
  have len: "length (watch_table S) = MAX_FD_EVENTS" by (rule table_okD(1) [OF T])
  have slot: "in_slot (removeWatch e i S) j d \<longleftrightarrow> in_slot S j d \<and> j \<noteq> i" for j d
    using s len by (auto simp: in_slot_def nth_list_update split: if_splits)
  have one: "in_slot S j e \<longleftrightarrow> j = i" for j using slot_inj [OF T s] s by blast
  have two: "in_slot S i d \<longleftrightarrow> d = e" for d using s by (auto simp: in_slot_def)
  show ?thesis
    unfolding watched_slot [OF T] watched_slot [OF removeWatch_ok [OF T s]] slot using one two by blast
qed

lemma in_slot_pending [simp]: "in_slot (S\<lparr>pending_list := ps\<rparr>) i e = in_slot S i e"
  by (simp add: in_slot_def)

lemma readies_loop_correct:
  assumes "ril_inv S" and "distinct slots" and "\<forall>i\<in>set slots. i < MAX_FD_EVENTS"
    and "\<And>i e. i \<in> set slots \<Longrightarrow> in_slot S i e \<Longrightarrow> e \<notin> set (pending_list S)"
  shows "\<exists>S'. readies_loop rfds slots n S = Some S' \<and> ril_inv S' \<and> readied rfds slots n S S'"
  using assms
proof (induction slots arbitrary: n S)
  case Nil
  then show ?case by (simp add: readied_def ready_evs_simps)
next
  case (Cons i slots)
  show ?case
  proof (cases "n > 0 \<and> (\<exists>e. watch_table S ! i = Some e \<and> rfds (fd (events S e)))")
    case False
    have "\<exists>S'. readies_loop rfds slots n S = Some S' \<and> ril_inv S' \<and> readied rfds slots n S S'"
      using Cons.prems by (intro Cons.IH) auto
    with False Cons.prems(1) show ?thesis
      by (auto simp: readied_def ready_evs_simps split: option.split)
  next
    case True
    then obtain e where e: "watch_table S ! i = Some e" "rfds (fd (events S e))" and n: "n > 0" by blast
    have T: "table_ok S" using Cons.prems(1) by (simp add: ril_inv_def)
    have s: "in_slot S i e" using e Cons.prems(3) by (simp add: in_slot_def)
    have w: "watched S e" using s watched_slot [OF T] by blast
    have nl: "\<not> linked S e"
      using Cons.prems(1,4) s w by (auto simp: linked_def ril_inv_def lists_ok_def)
    let ?S1 = "S\<lparr>pending_list := pending_list S @ [e]\<rparr>"
    let ?S2 = "if persist (events S e) then ?S1 else removeWatch e i ?S1"
    have I1: "ril_inv ?S1"
      using Cons.prems(1) nl by (auto simp: ril_inv_def lists_ok_def linked_def)
    then have I2: "ril_inv ?S2" using remove_inv [OF I1, of i e] s by simp
    have sub: "in_slot ?S2 j d \<Longrightarrow> in_slot S j d" for j d
      using table_okD(1) [OF T] by (cases "j = i") (auto simp: in_slot_def nth_list_update split: if_splits)
    have p: "d \<notin> set (pending_list ?S2)" if j: "j \<in> set slots" "in_slot ?S2 j d" for j d
    proof -
      have "in_slot S j d" by (rule sub [OF j(2)])
      moreover have "j \<noteq> i" using j(1) Cons.prems(2) by auto
      ultimately have "d \<noteq> e" using slot_inj [OF T] s by blast
      moreover have "d \<notin> set (pending_list S)" using Cons.prems(4) [of j d] j(1) \<open>in_slot S j d\<close> by simp
      ultimately show ?thesis by auto
    qed
    have d: "distinct slots" "\<forall>j\<in>set slots. j < MAX_FD_EVENTS" using Cons.prems(2,3) by auto
    have "\<exists>S'. readies_loop rfds slots (n - 1) ?S2 = Some S' \<and> ril_inv S' \<and> readied rfds slots (n - 1) ?S2 S'"
      by (rule Cons.IH [OF I2 d p])
    then obtain S' where S': "readies_loop rfds slots (n - 1) ?S2 = Some S'" "ril_inv S'"
      "readied rfds slots (n - 1) ?S2 S'" by blast
    have same: "ready_evs rfds ?S2 slots = ready_evs rfds S slots"
    proof (rule ready_evs_cong)
      fix j assume "j \<in> set slots"
      then have "j \<noteq> i" using Cons.prems(2) by auto
      then show "watch_table ?S2 ! j = watch_table S ! j" by simp
    qed simp
    have take: "take (nat n) (ready_evs rfds S (i # slots)) = e # take (nat (n - 1)) (ready_evs rfds S slots)"
      using n e by (cases "nat n") (auto simp: ready_evs_simps nat_diff_distrib')
    have ev: "call_of ?S2 d = call_of S d \<and> persist (events ?S2 d) = persist (events S d)" for d
      by (simp add: call_of_def)
    have w2: "watched ?S2 d \<longleftrightarrow> watched S d \<and> (d = e \<longrightarrow> persist (events S e))" for d
      using watched_removed [of ?S1 i e d] T s by simp
    have "readied rfds (i # slots) n S S'"
      using S'(3) ev w2 unfolding readied_def same take by auto
    moreover have "readies_loop rfds (i # slots) n S = Some S'"
      using S'(1) e n nl by (simp add: Let_def)
    ultimately show ?thesis using S'(2) by blast
  qed
qed

text \<open>The callbacks do not change the events that wait to be called.\<close>

lemma client_keeps:
  "client_do c S = Some S' \<Longrightarrow> e \<in> set (pending_list S) \<Longrightarrow> call_of S' e = call_of S e"
  by (cases c) (auto simp: client_do_def ril_event_set_def ril_event_add_def ril_timer_add_def ril_event_del_def
      call_of_def linked_def Let_def split: option.splits if_splits)

lemma clients_keep:
  "run_steps client_do cs S = Some S' \<Longrightarrow> e \<in> set (pending_list S) \<Longrightarrow> call_of S' e = call_of S e"
proof (induction cs arbitrary: S)
  case (Cons c cs)
  then obtain S1 where S1: "client_do c S = Some S1" "run_steps client_do cs S1 = Some S'"
    by (auto split: bind_splits)
  have "run_steps client_do [c] S = Some S1" using S1(1) by simp
  then have "pending_list S1 = pending_list S" using client_pending by blast
  with Cons.IH [OF S1(2)] client_keeps [OF S1(1) Cons.prems(2)] Cons.prems(2) show ?case by simp
qed simp

lemma firePending_correct:
  assumes "ril_inv S"
  shows "\<exists>S'. firePending cb S = Some S' \<and> ril_inv S' \<and> pending_list S' = [] \<and>
    fired_calls S' = fired_calls S @ map (call_of S) (pending_list S)"
  using assms
proof (induction "length (pending_list S)" arbitrary: S)
  case 0
  then show ?case by (subst firePending.simps) simp
next
  case (Suc k)
  then obtain e rest where p: "pending_list S = e # rest" by (cases "pending_list S") auto
  let ?S1 = "S\<lparr>pending_list := rest, fired_calls := fired_calls S @ [call_of S e]\<rparr>"
  have "ril_inv ?S1" using Suc.prems p by (auto simp: ril_inv_def lists_ok_def watched_def)
  then obtain S2 where S2: "run_steps client_do (cb e) ?S1 = Some S2" "ril_inv S2"
    using rc.run_safe by blast
  have q: "pending_list S2 = rest" "fired_calls S2 = fired_calls S @ [call_of S e]"
    using client_pending [OF S2(1)] by simp_all
  have keep: "call_of S2 d = call_of S d" if "d \<in> set rest" for d
    using clients_keep [OF S2(1), of d] that by (simp add: call_of_def)
  have "k = length (pending_list S2)" using Suc.hyps(2) p q by simp
  from Suc.hyps(1) [OF this S2(2)] obtain S' where
    S': "firePending cb S2 = Some S'" "ril_inv S'" "pending_list S' = []"
      "fired_calls S' = fired_calls S2 @ map (call_of S2) rest" using q by auto
  have "firePending cb S = Some S'"
    using S'(1) S2(1) p by (subst firePending.simps) (simp add: call_of_def)
  moreover have "map (call_of S2) rest = map (call_of S) rest" using keep by simp
  ultimately show ?case using S' q p by simp
qed

lemma loop_round_correct:
  assumes I: "ril_inv S" and P: "pending_list S = []"
  shows "\<exists>S'. loop_round cb now rfds n S = Some S' \<and> ril_inv S' \<and> pending_list S' = [] \<and>
    fired_calls S' = fired_calls S @ (if n < 0 then [] else map (call_of S)
      (filter (due now S) (timer_list S) @ take (nat n) (ready_evs rfds S [0..<MAX_FD_EVENTS])))"
proof (cases "n < 0")
  case True
  with I P show ?thesis by (simp add: loop_round_def)
next
  case False
  let ?S = "processTimeouts now S"
  note eq = processTimeouts_eq [OF I, of now]
  have I1: "ril_inv ?S" by (rule processTimeouts_inv [OF I])
  have T: "table_ok S" using I by (simp add: ril_inv_def)
  have "e \<notin> set (pending_list ?S)" if "in_slot ?S i e" for i e
  proof -
    have "in_slot S i e" using that by (simp add: eq in_slot_def)
    then have "watched S e" using watched_slot [OF T] by blast
    then show ?thesis using I P by (auto simp: eq ril_inv_def lists_ok_def)
  qed
  then obtain S1 where S1: "readies_loop rfds [0..<MAX_FD_EVENTS] n ?S = Some S1" "ril_inv S1"
    "readied rfds [0..<MAX_FD_EVENTS] n ?S S1"
    using readies_loop_correct [OF I1, of "[0..<MAX_FD_EVENTS]" rfds n] by auto
  obtain S' where S': "firePending cb S1 = Some S'" "ril_inv S'" "pending_list S' = []"
    "fired_calls S' = fired_calls S1 @ map (call_of S1) (pending_list S1)"
    using firePending_correct [OF S1(2)] by blast
  have c: "call_of ?S = call_of S" by (simp add: eq call_of_def [abs_def])
  have r: "ready_evs rfds ?S [0..<MAX_FD_EVENTS] = ready_evs rfds S [0..<MAX_FD_EVENTS]"
    by (rule ready_evs_cong) (simp_all add: eq)
  have "call_of S1 = call_of S" using S1(3) c by (auto simp: readied_def)
  moreover have "fired_calls S1 = fired_calls S" "pending_list S1 = filter (due now S) (timer_list S) @
      take (nat n) (ready_evs rfds S [0..<MAX_FD_EVENTS])"
    using S1(3) P r by (auto simp: readied_def eq)
  moreover have "loop_round cb now rfds n S = Some S'"
    using False S1(1) S'(1) by (simp add: loop_round_def processReadReadies_def)
  ultimately show ?thesis using S' False by auto
qed

subsection \<open>Properties\<close>

text \<open>What happens to the loop: calls by clients, and its rounds.\<close>

datatype ril_action = Client ril_call | Round "addr \<Rightarrow> ril_call list" timeval "int \<Rightarrow> bool" int

fun ril_act :: "ril_action \<Rightarrow> ril \<Rightarrow> ril mem" where
  "ril_act (Client c) S = client_do c S"
| "ril_act (Round cb now rfds n) S = loop_round cb now rfds n S"

lemma ril_act_inv:
  assumes h: "ril_inv S \<and> pending_list S = []"
  shows "\<exists>S'. ril_act a S = Some S' \<and> ril_inv S' \<and> pending_list S' = []"
proof (cases a)
  case (Client c)
  obtain S' where S': "client_do c S = Some S'" "ril_inv S'" using client_do_inv [of S c] h by blast
  then have "pending_list S' = []" using client_pending [of "[c]" S S'] h by simp
  then show ?thesis using Client S' by simp
next
  case (Round cb now rfds n)
  with loop_round_correct [of S cb now rfds n] h show ?thesis by auto
qed

interpretation rl: safe_system ril_act "\<lambda>S. ril_inv S \<and> pending_list S = []"
  by unfold_locales (rule ril_act_inv)

lemma ril_init_inv: "ril_inv ril_event_init" "pending_list ril_event_init = []"
  by (auto simp: ril_inv_def ril_event_init_def table_ok_def lists_ok_def in_slot_def watched_def)

lemmas ril_run = rl.run_safe [OF conjI [OF ril_init_inv]] rl.run_inv [OF conjI [OF ril_init_inv]]


definition ril_example :: "ril_action list" where
  "ril_example = [Client (EvSet 10 5 True 1), Client (EvAdd 10), Client (EvSet 11 9 False 2), Client (EvAdd 11),
     Client (TimerAdd 12 (Some \<lparr>tv_s = 2, tv_us = 900000\<rparr>) \<lparr>tv_s = 1, tv_us = 200000\<rparr>),
     Client (TimerAdd 13 (Some \<lparr>tv_s = 1, tv_us = 0\<rparr>) \<lparr>tv_s = 1, tv_us = 300000\<rparr>)]"

definition ril_seen :: "ril \<Rightarrow> int list \<times> int \<times> addr option list \<times> addr list \<times> (int \<times> int) list" where
  "ril_seen S = (map (\<lambda>w. case w of None \<Rightarrow> -1 | Some e \<Rightarrow> fd (events S e)) (watch_table S), nfds S,
     watch_table S, timer_list S, map (\<lambda>e. (tv_s (timeout (events S e)), tv_us (timeout (events S e)))) (timer_list S))"

lemma ril_example_runs: "map_option ril_seen (run_steps ril_act ril_example ril_event_init) =
  Some ([5, 9, -1, -1, -1, -1, -1, -1], 10, [Some 10, Some 11, None, None, None, None, None, None], [13, 12],
    [(2, 300000), (4, 100000)])"
  by code_simp

lemma ril_example_state:
  obtains S where "run_steps ril_act ril_example ril_event_init = Some S" "timer_list S = [13, 12]"
    "watch_table S = [Some 10, Some 11, None, None, None, None, None, None]"
    "timeout (events S 13) = \<lparr>tv_s = 2, tv_us = 300000\<rparr>" "timeout (events S 12) = \<lparr>tv_s = 4, tv_us = 100000\<rparr>"
    "fd (events S 10) = 5" "fd (events S 11) = 9"
  using ril_example_runs by (auto simp: ril_seen_def)


lemma ready_evs_table:
  assumes "length (watch_table S) = MAX_FD_EVENTS"
  shows "ready_evs rfds S [0..<MAX_FD_EVENTS] = filter (\<lambda>e. rfds (fd (events S e))) (List.map_filter (\<lambda>w. w) (watch_table S))"
proof -
  have "concat (map (\<lambda>w. case w of Some e \<Rightarrow> if rfds (fd (events S e)) then [e] else [] | None \<Rightarrow> []) ws) =
    filter (\<lambda>e. rfds (fd (events S e))) (List.map_filter (\<lambda>w. w) ws)" for ws
    by (induction ws) (auto simp: List.map_filter_simps split: option.split)
  moreover have "map (\<lambda>i. g (watch_table S ! i)) [0..<MAX_FD_EVENTS] = map g (watch_table S)" for g :: "addr option \<Rightarrow> addr list"
    using assms by (intro nth_equalityI) auto
  ultimately show ?thesis by (simp add: ready_evs_def)
qed



definition micros :: "timeval \<Rightarrow> int" where
  "micros t = 1000000 * tv_s t + tv_us t"

definition normal :: "timeval \<Rightarrow> bool" where
  "normal t \<longleftrightarrow> 0 \<le> tv_us t \<and> tv_us t < 1000000"

lemma less_micros: "normal a \<Longrightarrow> normal b \<Longrightarrow> timercmp_less a b \<longleftrightarrow> micros a < micros b"
  by (auto simp: timercmp_less_def micros_def normal_def)

lemma timersub_micros: "micros (timersub a b) = micros a - micros b"
  by (auto simp: timersub_def micros_def Let_def)

lemma timeradd_micros: "micros (timeradd a b) = micros a + micros b"
  by (auto simp: timeradd_def micros_def Let_def)

text \<open>The loop sleeps until the first timer is due: with timers and clock in normal form, the time given
  to \<open>select\<close> is the time to the soonest of all timers, 0 when one has passed, and without timers the
  loop blocks.\<close>

theorem calcNextTimeout_soonest:
  assumes "run_steps ril_act as ril_event_init = Some S" and "normal now"
    and "\<forall>e\<in>set (timer_list S). normal (timeout (events S e))"
  shows "case calcNextTimeout now S of
      None \<Rightarrow> timer_list S = []
    | Some t \<Rightarrow> timer_list S \<noteq> [] \<and> normal t \<and>
        micros t = max 0 (Min (micros ` timeout ` events S ` set (timer_list S)) - micros now)"
proof (cases "timer_list S")
  case Nil
  then show ?thesis by (simp add: calcNextTimeout_def)
next
  case (Cons e es)
  have "ril_inv S" using ril_run(2) [OF assms(1)] by simp
  then have "in_order (events S) (e # es)" using Cons by (simp add: ril_inv_def lists_ok_def)
  then have "\<forall>d\<in>set es. micros (timeout (events S e)) \<le> micros (timeout (events S d))"
    using assms(3) Cons by (auto simp: less_micros)
  then have m: "Min (micros ` timeout ` events S ` set (timer_list S)) = micros (timeout (events S e))"
    using Cons by (intro Min_eqI) auto
  have n: "normal (timeout (events S e))" using assms(3) Cons by simp
  show ?thesis unfolding m
    using Cons n assms(2) less_micros [OF assms(2) n]
    by (auto simp: calcNextTimeout_def timersub_micros normal_def timersub_def Let_def)
      (simp_all add: micros_def)
qed

theorem calcNextTimeout_soonest_witness:
  "\<exists>S t. run_steps ril_act ril_example ril_event_init = Some S \<and> calcNextTimeout \<lparr>tv_s = 1, tv_us = 900000\<rparr> S = Some t \<and>
    micros t = 400000"
proof -
  obtain S where S: "run_steps ril_act ril_example ril_event_init = Some S" "timer_list S = [13, 12]"
    "timeout (events S 13) = \<lparr>tv_s = 2, tv_us = 300000\<rparr>" "timeout (events S 12) = \<lparr>tv_s = 4, tv_us = 100000\<rparr>"
    by (rule ril_example_state)
  have "\<exists>t. calcNextTimeout \<lparr>tv_s = 1, tv_us = 900000\<rparr> S = Some t" using S by (simp add: calcNextTimeout_def)
  with calcNextTimeout_soonest [OF S(1), of "\<lparr>tv_s = 1, tv_us = 900000\<rparr>"] S show ?thesis
    by (auto simp: normal_def micros_def)
qed

text \<open>In every reachable state, deleting an event that is armed as a timer changes nothing: the
  timer stays armed, and the next round after its time still calls it back.\<close>

theorem ril_event_del_timer:
  assumes "run_steps ril_act as ril_event_init = Some S" and "e \<in> set (timer_list S)"
    and "timercmp_less (timeout (events S e)) now"
  shows "ril_event_del e S = S \<and>
    (\<exists>S'. loop_round cb now rfds 0 (ril_event_del e S) = Some S' \<and>
      (fd (events S e), param (events S e)) \<in> set (drop (length (fired_calls S)) (fired_calls S')))"
proof -
  have I: "ril_inv S" "pending_list S = []" using ril_run(2) [OF assms(1)] by simp_all
  have T: "table_ok S" and nw: "\<not> watched S e" using I assms(2) by (auto simp: ril_inv_def lists_ok_def)
  have del: "ril_event_del e S = S"
  proof (cases "0 \<le> ev_index (events S e) \<and> ev_index (events S e) < int MAX_FD_EVENTS")
    case True
    then have "in_slot S (nat (ev_index (events S e))) e"
      by (intro table_okD(3) [OF T]) (auto simp: nat_less_iff)
    then show ?thesis using nw watched_slot [OF T] by blast
  next
    case False
    then show ?thesis by (auto simp: ril_event_del_def Let_def)
  qed
  with loop_round_correct [OF I, of cb now rfds 0] assms(2,3) show ?thesis
    by (auto simp: call_of_def)
qed

theorem ril_event_del_timer_witness:
  "\<exists>S. run_steps ril_act ril_example ril_event_init = Some S \<and> ril_event_del 13 S = S"
proof -
  obtain S where S: "run_steps ril_act ril_example ril_event_init = Some S" "timer_list S = [13, 12]"
    "timeout (events S 13) = \<lparr>tv_s = 2, tv_us = 300000\<rparr>" by (rule ril_example_state)
  with ril_event_del_timer [OF S(1), of 13 "\<lparr>tv_s = 3, tv_us = 0\<rparr>"] show ?thesis
    by (auto simp: timercmp_less_def)
qed

end
