(* ===== verification/Nmea_Format.thy ===== *)
theory Nmea_Format
  imports Prelude Complex_Main "HOL-Library.Word"
begin

text \<open>
  What the NMEA generator \<open>loc_eng_nmea.cpp\<close> uses of the C library: finite floating point numbers with
  their sign (also the sign of zero), correctly rounded operations, the conversions of \<open>printf\<close>, the broken-down
  time of \<open>gmtime\<close>, and appending to a buffer with \<open>snprintf\<close>; then the checksum of a sentence
  and the check a receiver makes.
\<close>

unbundle bit_operations_syntax


subsection \<open>Finite floating point numbers\<close>

text \<open>The sign is kept apart from the magnitude: \<open>-0.0\<close> is \<open>Fl True 0\<close>.\<close>

datatype fl = Fl (negative: bool) (magnitude: rat)

definition fval :: "fl \<Rightarrow> rat" where
  "fval x = (if negative x then - magnitude x else magnitude x)"

text \<open>Rounding half to even, to an integer and to a precision of \<open>p\<close> binary digits.\<close>

definition round_even :: "rat \<Rightarrow> int" where
  "round_even q = (let f = \<lfloor>q\<rfloor>; d = q - of_int f in
     if d < 1 / 2 then f else if d > 1 / 2 then f + 1 else if even f then f else f + 1)"

function log2 :: "int \<Rightarrow> int" where
  "log2 n = (if n < 2 then 0 else 1 + log2 (n div 2))"
  by pat_completeness auto
termination by (relation "measure nat") auto

declare log2.simps [simp del]

definition binexp :: "rat \<Rightarrow> int" where
  "binexp q = (let (a, b) = quotient_of q; e = log2 a - log2 b
     in if 2 powi e \<le> q then e else e - 1)"

definition rnd :: "nat \<Rightarrow> rat \<Rightarrow> rat" where
  "rnd p q = (if q = 0 then 0 else let u = 2 powi (binexp q - int p + 1) in of_int (round_even (q / u)) * u)"

abbreviation "single_prec \<equiv> 24 :: nat"
abbreviation "double_prec \<equiv> 53 :: nat"

definition f_mul :: "nat \<Rightarrow> fl \<Rightarrow> fl \<Rightarrow> fl" where
  "f_mul p x y = Fl (negative x \<noteq> negative y) (rnd p (magnitude x * magnitude y))"

definition f_sub :: "nat \<Rightarrow> fl \<Rightarrow> fl \<Rightarrow> fl" where
  "f_sub p x y = (let d = fval x - fval y in
     if d = 0 then Fl (negative x \<and> \<not> negative y) 0 else Fl (d < 0) (rnd p \<bar>d\<bar>))"

definition f_round :: "nat \<Rightarrow> fl \<Rightarrow> fl" where
  "f_round p x = Fl (negative x) (rnd p (magnitude x))"

definition f_neg :: "fl \<Rightarrow> fl" where
  "f_neg x = Fl (\<not> negative x) (magnitude x)"

text \<open>\<open>fmod\<close> is exact and keeps the sign of its first argument.\<close>

definition f_mod :: "fl \<Rightarrow> rat \<Rightarrow> fl" where
  "f_mod x m = Fl (negative x) (magnitude x - of_int \<lfloor>magnitude x / m\<rfloor> * m)"

text \<open>The conversion of \<open>0.5 + x\<close> to an integer truncates.\<close>

definition trunc :: "rat \<Rightarrow> int" where
  "trunc q = (if q < 0 then - \<lfloor>- q\<rfloor> else \<lfloor>q\<rfloor>)"

definition half_up :: "fl \<Rightarrow> int" where
  "half_up x = (let q = 1 / 2 + fval x in trunc (if q < 0 then - rnd double_prec (- q) else rnd double_prec q))"

subsection \<open>Printing\<close>

definition digit :: "int \<Rightarrow> char" where
  "digit n = char_of (48 + n)"

function show_nat :: "int \<Rightarrow> string" where
  "show_nat n = (if n < 10 then [digit n] else show_nat (n div 10) @ [digit (n mod 10)])"
  by pat_completeness auto
termination by (relation "measure nat") auto

declare show_nat.simps [simp del]

definition zeros :: "nat \<Rightarrow> string \<Rightarrow> string" where
  "zeros w s = replicate (w - length s) (CHR ''0'') @ s"

text \<open>\<open>%0wd\<close>: the sign counts for the width.\<close>

definition fmt_d :: "nat \<Rightarrow> int \<Rightarrow> string" where
  "fmt_d w n = (if n < 0 then ''-'' @ zeros (w - 1) (show_nat (- n)) else zeros w (show_nat n))"

text \<open>\<open>%2.2d\<close>: a precision of two digits, which fills the width too.\<close>

definition fmt_2_2d :: "int \<Rightarrow> string" where
  "fmt_2_2d n = (if n < 0 then ''-'' @ zeros 2 (show_nat (- n)) else zeros 2 (show_nat n))"

text \<open>\<open>%0w.pf\<close>: exact decimal rounding, half to even.\<close>

definition fmt_f :: "nat \<Rightarrow> nat \<Rightarrow> fl \<Rightarrow> string" where
  "fmt_f w p x = (let n = round_even (magnitude x * 10 ^ p);
       s = show_nat (n div 10 ^ p) @ ''.'' @ zeros p (show_nat (n mod 10 ^ p))
     in if negative x then ''-'' @ zeros (w - 1) s else zeros w s)"

definition hex_digit :: "nat \<Rightarrow> char" where
  "hex_digit n = (if n < 10 then char_of (48 + n) else char_of (55 + n))"

definition hex2 :: "8 word \<Rightarrow> string" where
  "hex2 w = [hex_digit (unat w div 16), hex_digit (unat w mod 16)]"

subsection \<open>Broken-down time\<close>

record tm =
  tm_year :: int
  tm_mon :: int
  tm_mday :: int
  tm_hour :: int
  tm_min :: int
  tm_sec :: int

text \<open>The proleptic Gregorian calendar; \<open>gmtime\<close> fails when the year does not fit an \<open>int\<close>.\<close>

definition gmtime :: "int \<Rightarrow> tm option" where
  "gmtime t =
    (let days = t div 86400; secs = t mod 86400;
         z = days + 719468; era = z div 146097; doe = z mod 146097;
         yoe = (doe - doe div 1460 + doe div 36524 - doe div 146096) div 365;
         doy = doe - (365 * yoe + yoe div 4 - yoe div 100);
         mp = (5 * doy + 2) div 153;
         mon = (if mp < 10 then mp + 2 else mp - 10);
         year = yoe + era * 400 + (if mon \<le> 1 then 1 else 0) - 1900
     in if - 2147483648 \<le> year \<and> year \<le> 2147483647
        then Some \<lparr>tm_year = year, tm_mon = mon, tm_mday = doy - (153 * mp + 2) div 5 + 1,
          tm_hour = secs div 3600, tm_min = secs div 60 mod 60, tm_sec = secs mod 60\<rparr>
        else None)"

text \<open>The remainder of C, with the sign of the dividend.\<close>

definition crem :: "int \<Rightarrow> int \<Rightarrow> int" where
  "crem a b = (if a < 0 then - ((- a) mod b) else a mod b)"

definition cdiv :: "int \<Rightarrow> int \<Rightarrow> int" where
  "cdiv a b = (if a < 0 then - ((- a) div b) else a div b)"

subsection \<open>Sentences\<close>

definition NMEA_SENTENCE_MAX_LENGTH :: nat where "NMEA_SENTENCE_MAX_LENGTH = 200"

text \<open>
  \<open>snprintf\<close> at the end of the sentence: with the check that follows it in the code, and without,
  where the text is cut so that the terminating zero fits.
\<close>

definition print_checked :: "string \<Rightarrow> string \<Rightarrow> string option" where
  "print_checked t s = (if length t \<ge> NMEA_SENTENCE_MAX_LENGTH - length s then None else Some (s @ t))"

definition print_cut :: "string \<Rightarrow> string \<Rightarrow> string" where
  "print_cut t s = s @ take (NMEA_SENTENCE_MAX_LENGTH - length s - 1) t"

definition xor_sum :: "string \<Rightarrow> 8 word" where
  "xor_sum s = foldl (\<lambda>w c. w XOR of_char c) 0 s"

text \<open>The sentence with its checksum, as far as it fits the buffer, and the total length returned.\<close>

definition put_checksum :: "string \<Rightarrow> nat \<Rightarrow> string \<times> int" where
  "put_checksum s maxSize =
    (let body = tl s; t = ''*'' @ hex2 (xor_sum body) @ [CHR 0x0D, CHR 0x0A]
     in (s @ take (maxSize - length body - 1 - 1) t, int (length body) + int (length t) + 1))"

text \<open>What a receiver checks: the frame, and that the two digits are the sum of what is between.\<close>

definition hex_val :: "char \<Rightarrow> nat option" where
  "hex_val c = (let n = of_char c :: nat in
     if 48 \<le> n \<and> n \<le> 57 then Some (n - 48) else if 65 \<le> n \<and> n \<le> 70 then Some (n - 55) else None)"

definition nmea_receive :: "string \<Rightarrow> string option" where
  "nmea_receive s =
    (case s of
       [] \<Rightarrow> None
     | c # rest \<Rightarrow>
         (let body = takeWhile (\<lambda>c. c \<noteq> CHR ''*'') rest in
          case dropWhile (\<lambda>c. c \<noteq> CHR ''*'') rest of
            [_, h, l, cr, lf] \<Rightarrow>
              (case (hex_val h, hex_val l) of
                 (Some a, Some b) \<Rightarrow>
                   if c = CHR ''$'' \<and> cr = CHR 0x0D \<and> lf = CHR 0x0A \<and> 16 * a + b = unat (xor_sum body)
                   then Some body else None
               | _ \<Rightarrow> None)
          | _ \<Rightarrow> None))"

end
