(* ===== verification/Nmea.thy ===== *)
theory Nmea
  imports Nmea_Format
begin

text \<open>
  The NMEA generator \<open>gps/loc_api/libloc_api_50001/loc_eng_nmea.cpp\<close>: the sentences built from a position report and
  from a satellite report. The cursor of the code is always the end of the sentence built so far,
  so the buffer is the text in it. A sentence whose formatting fails makes the generator return;
  its result says whether it ran to the end.
\<close>

subsection \<open>Reports and the engine's state\<close>

text \<open>The parts of the reports that the generator reads; a flag says that its field is valid.\<close>

record gps_location =
  has_lat_long :: bool
  has_altitude :: bool
  has_speed :: bool
  has_bearing :: bool
  latitude :: fl
  longitude :: fl
  altitude :: fl
  speed :: fl
  bearing :: fl
  timestamp :: int

record location_extended =
  has_dop :: bool
  has_altitude_msl :: bool
  has_mag_dev :: bool
  altitudeMeanSeaLevel :: fl
  pdop :: fl
  hdop :: fl
  vdop :: fl
  magneticDeviation :: fl

record sv_info =
  prn :: int
  snr :: fl
  elevation :: fl
  azimuth :: fl

record sv_status =
  num_svs :: int
  sv_list :: "sv_info list"
  gps_used_in_fix_mask :: "32 word"
  glo_used_in_fix_mask :: "32 word"

text \<open>\<open>sent\<close> logs the calls of \<open>nmea_cb\<close>: the text of the buffer and the length given.\<close>

record eng =
  nmea_cb :: bool
  standalone :: bool
  gps_used_mask :: "32 word"
  glo_used_mask :: "32 word"
  c_pdop :: fl
  c_hdop :: fl
  c_vdop :: fl
  sent :: "(string \<times> int) list"

definition nmea_send :: "string \<times> int \<Rightarrow> eng \<Rightarrow> eng" where
  "nmea_send m E = (if nmea_cb E then E\<lparr>sent := sent E @ [m]\<rparr> else E)"

definition finish :: "string \<Rightarrow> eng \<Rightarrow> eng" where
  "finish s E = nmea_send (put_checksum s NMEA_SENTENCE_MAX_LENGTH) E"

text \<open>A text copied by \<open>strlcpy\<close>.\<close>

definition blank :: "string \<Rightarrow> eng \<Rightarrow> eng" where
  "blank t E = finish (take (NMEA_SENTENCE_MAX_LENGTH - 1) t) E"

subsection \<open>Satellites in use\<close>

text \<open>The loop over the bits of the mask, with the list of identifiers found so far.\<close>

function used_loop :: "nat \<Rightarrow> nat \<Rightarrow> 32 word \<Rightarrow> nat list \<Rightarrow> nat list" where
  "used_loop offset i m us =
    (if m > 0 \<and> length us < 32
     then used_loop offset (i + 1) (drop_bit 1 m) (if m AND 1 \<noteq> 0 then us @ [i + offset] else us)
     else us)"
  by pat_completeness auto
termination
proof (relation "measure (\<lambda>(_, _, m, _). unat m)")
  fix offset i :: nat and m :: "32 word" and us :: "nat list"
  assume "0 < m \<and> length us < 32"
  then have "0 < unat m" by (simp add: word_less_nat_alt)
  then have "unat (drop_bit 1 m) < unat m" by (simp add: unat_drop_bit_eq drop_bit_eq_div unat_div)
  then show "((offset, i + 1, drop_bit 1 m, if m AND 1 \<noteq> 0 then us @ [i + offset] else us), offset, i, m, us)
    \<in> measure (\<lambda>(_, _, m, _). unat m)" by simp
qed simp

declare used_loop.simps [simp del]

definition fix_type :: "nat \<Rightarrow> string" where
  "fix_type n = (if n = 0 then ''1'' else if n \<le> 3 then ''2'' else ''3'')"

text \<open>The loop over the twelve fields for identifiers.\<close>

fun gsa_ids :: "nat list \<Rightarrow> nat \<Rightarrow> nat \<Rightarrow> string \<Rightarrow> string option" where
  "gsa_ids us i 0 s = Some s"
| "gsa_ids us i (Suc k) s = do {
     s1 \<leftarrow> print_checked (if i < length us then fmt_d 2 (int (us ! i)) @ '','' else '','') s;
     gsa_ids us (i + 1) k s1 }"

definition cached_dop :: "eng \<Rightarrow> bool" where
  "cached_dop E \<longleftrightarrow> fval (c_pdop E) > 0 \<and> fval (c_hdop E) > 0 \<and> fval (c_vdop E) > 0"

definition gsa_dop :: "eng \<Rightarrow> location_extended \<Rightarrow> string" where
  "gsa_dop E X =
    (if has_dop X then fmt_f 0 1 (pdop X) @ '','' @ fmt_f 0 1 (hdop X) @ '','' @ fmt_f 0 1 (vdop X)
     else if cached_dop E then fmt_f 0 1 (c_pdop E) @ '','' @ fmt_f 0 1 (c_hdop E) @ '','' @ fmt_f 0 1 (c_vdop E)
     else '',,'')"

definition gpgsa :: "eng \<Rightarrow> location_extended \<Rightarrow> nat list \<Rightarrow> string option" where
  "gpgsa E X us = do {
     s1 \<leftarrow> print_checked (''$GPGSA,A,'' @ fix_type (length us) @ '','') [];
     s2 \<leftarrow> gsa_ids us 0 12 s1;
     Some (print_cut (gsa_dop E X) s2) }"

definition gngsa :: "eng \<Rightarrow> location_extended \<Rightarrow> nat list \<Rightarrow> string option" where
  "gngsa E X us = do {
     s1 \<leftarrow> print_checked (''$GNGSA,A,'' @ fix_type (length us) @ '','') [];
     s2 \<leftarrow> gsa_ids us 0 12 s1;
     Some (print_cut (gsa_dop E X) s2) }"

subsection \<open>The other sentences of a position report\<close>

text \<open>
  The declaration of \<open>magTrack\<close> inside the test of the magnetic deviation hides the outer
  variable, which is the one that is printed.
\<close>

definition gpvtg :: "eng \<Rightarrow> gps_location \<Rightarrow> location_extended \<Rightarrow> string option" where
  "gpvtg E L X = do {
     let magTrack = bearing L;
     s1 \<leftarrow> print_checked (if has_bearing L then ''$GPVTG,'' @ fmt_f 0 1 (bearing L) @ '',T,'' @ fmt_f 0 1 magTrack @ '',M,''
                    else ''$GPVTG,,T,,M,'') [];
     let speedKnots = f_round single_prec (f_mul double_prec (speed L) (Fl False (rnd double_prec (3600 / 1852))));
     let speedKmPerHour = f_round single_prec (f_mul double_prec (speed L) (Fl False (rnd double_prec (36 / 10))));
     s2 \<leftarrow> print_checked (if has_speed L then fmt_f 0 1 speedKnots @ '',N,'' @ fmt_f 0 1 speedKmPerHour @ '',K,''
                    else '',N,,K,'') s1;
     Some (print_cut (if \<not> has_lat_long L then ''N'' else if standalone E then ''A'' else ''D'') s2) }"

definition lat_long :: "gps_location \<Rightarrow> string" where
  "lat_long L =
    (if has_lat_long L then
       (let (lat, latH) = (if fval (latitude L) > 0 then (latitude L, ''N'') else (f_neg (latitude L), ''S''));
            (lon, lonH) = (if fval (longitude L) < 0 then (f_neg (longitude L), ''W'') else (longitude L, ''E''));
            sixty = Fl False 60;
            latMinutes = f_mod (f_mul double_prec lat sixty) 60;
            lonMinutes = f_mod (f_mul double_prec lon sixty) 60
        in fmt_d 2 \<lfloor>fval lat\<rfloor> @ fmt_f 9 6 latMinutes @ '','' @ latH @ '','' @
           fmt_d 3 \<lfloor>fval lon\<rfloor> @ fmt_f 9 6 lonMinutes @ '','' @ lonH @ '','')
     else '',,,,'')"

definition utc_text :: "gps_location \<Rightarrow> tm \<Rightarrow> string" where
  "utc_text L T = fmt_d 2 (tm_hour T) @ fmt_d 2 (tm_min T) @ fmt_d 2 (tm_sec T) @ ''.'' @
     fmt_d 2 (cdiv (crem (timestamp L) 1000) 10) @ '',''"

definition gprmc :: "eng \<Rightarrow> gps_location \<Rightarrow> location_extended \<Rightarrow> tm \<Rightarrow> string option" where
  "gprmc E L X T = do {
     s1 \<leftarrow> print_checked (''$GPRMC,'' @ utc_text L T @ ''A,'') [];
     s2 \<leftarrow> print_checked (lat_long L) s1;
     let speedKnots = f_round single_prec (f_mul double_prec (speed L) (Fl False (rnd double_prec (3600 / 1852))));
     s3 \<leftarrow> print_checked (if has_speed L then fmt_f 0 1 speedKnots @ '','' else '','') s2;
     s4 \<leftarrow> print_checked (if has_bearing L then fmt_f 0 1 (bearing L) @ '','' else '','') s3;
     s5 \<leftarrow> print_checked (fmt_2_2d (tm_mday T) @ fmt_2_2d (tm_mon T + 1) @ fmt_2_2d (crem (tm_year T) 100) @ '','') s4;
     let (variation, direction) = (if fval (magneticDeviation X) < 0 then (f_neg (magneticDeviation X), ''W'')
                                   else (magneticDeviation X, ''E''));
     s6 \<leftarrow> print_checked (if has_mag_dev X then fmt_f 0 1 variation @ '','' @ direction @ '','' else '',,'') s5;
     Some (print_cut (if \<not> has_lat_long L then ''N'' else if standalone E then ''A'' else ''D'') s6) }"

definition gpgga :: "eng \<Rightarrow> gps_location \<Rightarrow> location_extended \<Rightarrow> tm \<Rightarrow> nat \<Rightarrow> string option" where
  "gpgga E L X T svUsedCount = do {
     s1 \<leftarrow> print_checked (''$GPGGA,'' @ utc_text L T) [];
     s2 \<leftarrow> print_checked (lat_long L) s1;
     let gpsQuality = (if \<not> has_lat_long L then ''0'' else if standalone E then ''1'' else ''2'');
     s3 \<leftarrow> print_checked (gpsQuality @ '','' @ fmt_d 2 (int svUsedCount) @ '','' @
         (if has_dop X then fmt_f 0 1 (hdop X) else if cached_dop E then fmt_f 0 1 (c_hdop E) else []) @ '','') s2;
     s4 \<leftarrow> print_checked (if has_altitude_msl X then fmt_f 0 1 (altitudeMeanSeaLevel X) @ '',M,'' else '',,'') s3;
     Some (print_cut (if has_altitude L \<and> has_altitude_msl X
       then fmt_f 0 1 (f_sub double_prec (altitude L) (altitudeMeanSeaLevel X)) @ '',M,,'' else '',,,'') s4) }"

text \<open>A sentence is sent, or the generator returns.\<close>

definition then_send :: "string option \<Rightarrow> (eng \<Rightarrow> eng \<times> bool) \<Rightarrow> eng \<Rightarrow> eng \<times> bool" where
  "then_send r k E = (case r of None \<Rightarrow> (E, False) | Some s \<Rightarrow> k (finish s E))"

definition clear_dop :: "eng \<Rightarrow> eng" where
  "clear_dop E = E\<lparr>c_pdop := Fl False 0, c_hdop := Fl False 0, c_vdop := Fl False 0\<rparr>"

definition blank_pos :: "eng \<Rightarrow> eng" where
  "blank_pos E = blank ''$GPGGA,,,,,,0,,,,,,,,'' (blank ''$GPRMC,,V,,,,,,,,,,N'' (blank ''$GPVTG,,T,,M,,N,,K,N''
     (blank ''$GNGSA,A,1,,,,,,,,,,,,,,,'' (blank ''$GPGSA,A,1,,,,,,,,,,,,,,,'' E))))"

definition generate_pos :: "gps_location \<Rightarrow> location_extended \<Rightarrow> bool \<Rightarrow> eng \<Rightarrow> eng \<times> bool" where
  "generate_pos L X generate_nmea E =
    (case gmtime (cdiv (timestamp L) 1000) of
       None \<Rightarrow> (E, False)
     | Some T \<Rightarrow>
         if generate_nmea then
           (let gps = used_loop 0 1 (gps_used_mask E) []; E1 = E\<lparr>gps_used_mask := 0\<rparr> in
            then_send (gpgsa E1 X gps) (\<lambda>E2.
              let glo = used_loop 64 1 (glo_used_mask E2) []; E3 = E2\<lparr>glo_used_mask := 0\<rparr> in
              then_send (gngsa E3 X glo) (\<lambda>E4.
              then_send (gpvtg E4 L X) (\<lambda>E5.
              then_send (gprmc E5 L X T) (\<lambda>E6.
              then_send (gpgga E6 L X T (length gps)) (\<lambda>E7.
              (clear_dop E7, True)) E6) E5) E4) E3) E1)
         else (clear_dop (blank_pos E), True))"

subsection \<open>A satellite report\<close>

definition is_gps :: "sv_info \<Rightarrow> bool" where
  "is_gps v \<longleftrightarrow> 1 \<le> prn v \<and> prn v \<le> 32"

definition is_glonass :: "sv_info \<Rightarrow> bool" where
  "is_glonass v \<longleftrightarrow> 65 \<le> prn v \<and> prn v \<le> 96"

fun count_svs :: "sv_info list \<Rightarrow> nat \<Rightarrow> nat \<Rightarrow> nat \<times> nat" where
  "count_svs [] gps gln = (gps, gln)"
| "count_svs (v # vs) gps gln =
    (if is_gps v then count_svs vs (gps + 1) gln
     else if is_glonass v then count_svs vs gps (gln + 1) else count_svs vs gps gln)"

text \<open>
  The loop that adds up to four satellites of a system to a sentence; \<open>i\<close> counts those added. It returns
  the satellites not yet visited, which stand for the index \<open>svNumber\<close>.
\<close>

fun gsv_svs :: "(sv_info \<Rightarrow> bool) \<Rightarrow> nat \<Rightarrow> sv_info list \<Rightarrow> string \<Rightarrow> (string \<times> sv_info list) option" where
  "gsv_svs sel i [] s = Some (s, [])"
| "gsv_svs sel i (v # vs) s =
    (if i < 4 then
       if sel v then do {
         s1 \<leftarrow> print_checked ('','' @ fmt_d 2 (prn v) @ '','' @ fmt_d 2 (half_up (elevation v)) @ '','' @
                       fmt_d 3 (half_up (azimuth v)) @ '','') s;
         s2 \<leftarrow> (if fval (snr v) > 0 then print_checked (fmt_d 2 (half_up (snr v))) s1 else Some s1);
         gsv_svs sel (i + 1) vs s2 }
       else gsv_svs sel i vs s
     else Some (s, v # vs))"

text \<open>The loop over the sentences from \<open>num\<close> on; \<open>k\<close> of them are left.\<close>

fun gsv_loop :: "string \<Rightarrow> (sv_info \<Rightarrow> bool) \<Rightarrow> nat \<Rightarrow> nat \<Rightarrow> nat \<Rightarrow> nat \<Rightarrow> sv_info list \<Rightarrow> eng \<Rightarrow> eng \<times> bool" where
  "gsv_loop name sel cnt tot num 0 vs E = (E, True)"
| "gsv_loop name sel cnt tot num (Suc k) vs E =
    (case do {
       s \<leftarrow> print_checked (name @ fmt_d 0 (int tot) @ '','' @ fmt_d 0 (int num) @ '','' @ fmt_d 2 (int cnt)) [];
       gsv_svs sel 0 vs s } of
       None \<Rightarrow> (E, False)
     | Some (s, rest) \<Rightarrow> gsv_loop name sel cnt tot (num + 1) k rest (finish s E))"

definition gsv_sentences :: "nat \<Rightarrow> nat" where
  "gsv_sentences cnt = cnt div 4 + (if cnt mod 4 \<noteq> 0 then 1 else 0)"

definition gpgsv :: "nat \<Rightarrow> sv_info list \<Rightarrow> eng \<Rightarrow> eng \<times> bool" where
  "gpgsv gpsCount vs E =
    (if gpsCount \<le> 0 then (blank ''$GPGSV,1,1,0,'' E, True)
     else (let n = gsv_sentences gpsCount in gsv_loop ''$GPGSV,'' is_gps gpsCount n 1 n vs E))"

definition glgsv :: "nat \<Rightarrow> sv_info list \<Rightarrow> eng \<Rightarrow> eng \<times> bool" where
  "glgsv glnCount vs E =
    (if glnCount \<le> 0 then (blank ''$GLGSV,1,1,0,'' E, True)
     else (let n = gsv_sentences glnCount in gsv_loop ''$GLGSV,'' is_glonass glnCount n 1 n vs E))"

definition cache_sv :: "sv_status \<Rightarrow> location_extended \<Rightarrow> eng \<Rightarrow> eng" where
  "cache_sv V X E =
    (let E1 = E\<lparr>gps_used_mask := gps_used_in_fix_mask V, glo_used_mask := glo_used_in_fix_mask V\<rparr>
     in if has_dop X then E1\<lparr>c_pdop := pdop X, c_hdop := hdop X, c_vdop := vdop X\<rparr> else clear_dop E1)"

text \<open>The list of the report is an array; a count beyond its length reads other memory.\<close>

definition generate_sv :: "sv_status \<Rightarrow> location_extended \<Rightarrow> eng \<Rightarrow> (eng \<times> bool) mem" where
  "generate_sv V X E =
    (if num_svs V > int (length (sv_list V)) then None
     else Some (let vs = take (nat (num_svs V)) (sv_list V); (gpsCount, glnCount) = count_svs vs 0 0;
                    (E1, ok1) = gpgsv gpsCount vs E
                in if \<not> ok1 then (E1, False)
                   else (let (E2, ok2) = glgsv glnCount vs E1
                         in if \<not> ok2 then (E2, False) else (cache_sv V X E2, True))))"

end
