(* ===== verification/Nmea_Props.thy ===== *)
theory Nmea_Props
  imports Nmea
begin

text \<open>
  Correctness of the NMEA generator: every field fits its place and is free of the framing character,
  so that every sentence passes the receiver's check; the satellites of a mask and of a report are
  listed completely and in order.
\<close>

subsection \<open>Fields\<close>

definition field :: "nat \<Rightarrow> string \<Rightarrow> bool" where
  "field n s \<longleftrightarrow> length s \<le> n \<and> CHR ''*'' \<notin> set s"

lemma field_append: "field m s \<Longrightarrow> field n t \<Longrightarrow> field (m + n) (s @ t)"
  by (auto simp: field_def)

lemma field_mono: "field m s \<Longrightarrow> m \<le> n \<Longrightarrow> field n s"
  by (simp add: field_def)

lemma field_Cons: "field m s \<Longrightarrow> c \<noteq> CHR ''*'' \<Longrightarrow> field (Suc m) (c # s)"
  by (auto simp: field_def)

lemma int_div_less: "n < a * b \<Longrightarrow> 0 < b \<Longrightarrow> n div b < (a :: int)"
proof (rule ccontr)
  assume n: "n < a * b" "0 < b" "\<not> n div b < a"
  then have "a * b \<le> n div b * b" by (intro mult_right_mono) auto
  also have "\<dots> = n - n mod b" by (simp add: minus_mod_eq_div_mult)
  also have "\<dots> \<le> n" using n(2) by simp
  finally show False using n(1) by simp
qed

lemma digit_values:
  "digit 0 = CHR ''0''" "digit 1 = CHR ''1''" "digit 2 = CHR ''2''" "digit 3 = CHR ''3''" "digit 4 = CHR ''4''"
  "digit 5 = CHR ''5''" "digit 6 = CHR ''6''" "digit 7 = CHR ''7''" "digit 8 = CHR ''8''" "digit 9 = CHR ''9''"
  by code_simp+

lemma digit_clean: "0 \<le> n \<Longrightarrow> n < 10 \<Longrightarrow> digit n \<noteq> CHR ''*''"
proof -
  assume "0 \<le> n" "n < 10"
  then have "n = 0 \<or> n = 1 \<or> n = 2 \<or> n = 3 \<or> n = 4 \<or> n = 5 \<or> n = 6 \<or> n = 7 \<or> n = 8 \<or> n = 9" by presburger
  then show ?thesis by (elim disjE) (simp_all add: digit_values)
qed

lemma digit_clean' [simp]: "0 \<le> n \<Longrightarrow> n < 10 \<Longrightarrow> CHR ''*'' \<noteq> digit n"
  using digit_clean by metis

lemma show_nat_field: "0 \<le> n \<Longrightarrow> n < 10 ^ Suc k \<Longrightarrow> field (Suc k) (show_nat n)"
proof (induction k arbitrary: n)
  case 0
  then show ?case by (subst show_nat.simps) (simp add: field_def digit_clean)
next
  case (Suc k)
  show ?case
  proof (cases "n < 10")
    case True
    with Suc.prems show ?thesis by (subst show_nat.simps) (simp add: field_def digit_clean)
  next
    case False
    have "n div 10 < 10 ^ Suc k" using Suc.prems(2) by (simp add: div_less_iff_less_mult)
    then have "field (Suc k) (show_nat (n div 10))" using Suc.IH [of "n div 10"] Suc.prems(1) by simp
    then show ?thesis using False by (subst show_nat.simps) (auto simp: field_def digit_clean)
  qed
qed

lemma zeros_field: "field k s \<Longrightarrow> w \<le> k \<Longrightarrow> field k (zeros w s)"
  by (auto simp: field_def zeros_def)

text \<open>The names of the sentences and the separators.\<close>

lemma field_lit: "list_all (\<lambda>c. c \<noteq> CHR ''*'') s \<Longrightarrow> length s \<le> n \<Longrightarrow> field n s"
  by (auto simp: field_def list_all_iff)

lemma fmt_d_field:
  assumes "\<bar>n\<bar> < 10 ^ Suc k" and "w \<le> Suc k"
  shows "field (k + 2) (fmt_d w n)" and "0 \<le> n \<Longrightarrow> field (Suc k) (fmt_d w n)"
proof -
  have a: "field (Suc k) (zeros v (show_nat \<bar>n\<bar>))" if "v \<le> w" for v
    using assms that by (intro zeros_field show_nat_field) auto
  show "0 \<le> n \<Longrightarrow> field (Suc k) (fmt_d w n)" using a [of w] by (simp add: fmt_d_def)
  then have "0 \<le> n \<Longrightarrow> field (k + 2) (fmt_d w n)" using field_mono [of "Suc k" _ "k + 2"] by simp
  moreover have "n < 0 \<Longrightarrow> field (k + 2) (fmt_d w n)"
    using field_Cons [OF a [of "w - 1"], of "CHR ''-''"] by (simp add: fmt_d_def)
  ultimately show "field (k + 2) (fmt_d w n)" by linarith
qed

lemma round_even_bounds: "0 \<le> q \<Longrightarrow> 0 \<le> round_even q \<and> of_int (round_even q) \<le> q + 1 / 2"
proof -
  assume q: "0 \<le> q"
  define f where "f = \<lfloor>q\<rfloor>"
  have "of_int f \<le> q" "0 \<le> f" using q by (simp_all add: f_def)
  then show ?thesis unfolding round_even_def f_def [symmetric] by (auto simp: Let_def)
qed

text \<open>A number with \<open>p\<close> decimals whose integer part has at most \<open>k + 1\<close> digits.\<close>

lemma fmt_f_field:
  assumes m: "0 \<le> magnitude x" "magnitude x + 1 \<le> 10 ^ Suc k" and p: "0 < p" and w: "w \<le> k + p + 2"
  shows "field (k + p + 3) (fmt_f w p x)"
proof -
  define n where "n = round_even (magnitude x * 10 ^ p)"
  have q: "0 \<le> magnitude x * 10 ^ p" using m by simp
  have pw: "(1 :: rat) \<le> 10 ^ p" by simp
  have n0: "0 \<le> n" using round_even_bounds [OF q] by (simp add: n_def)
  have "of_int n \<le> magnitude x * 10 ^ p + 1 / 2" using round_even_bounds [OF q] by (simp add: n_def)
  also have "\<dots> < (magnitude x + 1) * 10 ^ p" by (simp only: distrib_right) (use pw in linarith)
  also have "\<dots> \<le> 10 ^ Suc k * 10 ^ p" using m by (intro mult_right_mono) auto
  finally have "(of_int n :: rat) < of_int (10 ^ Suc k * 10 ^ p)" by simp
  then have "n < 10 ^ Suc k * 10 ^ p" by (simp only: of_int_less_iff)
  then have a: "n div 10 ^ p < 10 ^ Suc k" by (intro int_div_less) auto
  have b: "n mod 10 ^ p < 10 ^ p" by simp
  obtain p' where p': "p = Suc p'" using p by (cases p) auto
  have f1: "field (Suc k) (show_nat (n div 10 ^ p))" using a n0 by (intro show_nat_field) (auto simp: pos_imp_zdiv_nonneg_iff)
  have f2: "field p (zeros p (show_nat (n mod 10 ^ p)))"
    using show_nat_field [of "n mod 10 ^ p" p'] b p' by (intro zeros_field) auto
  have "field (Suc k + (1 + p)) (show_nat (n div 10 ^ p) @ ''.'' @ zeros p (show_nat (n mod 10 ^ p)))"
    by (intro field_append f1 f2) (simp add: field_def)
  then have f: "field (k + p + 2) (zeros v (show_nat (n div 10 ^ p) @ ''.'' @ zeros p (show_nat (n mod 10 ^ p))))"
    if "v \<le> w" for v using that w by (intro zeros_field) (auto simp: field_def)
  show ?thesis
    using f [of w] field_Cons [OF f [of "w - 1"], of "CHR ''-''"]
    by (auto simp: fmt_f_def n_def [symmetric] Let_def intro: field_mono)
qed

subsection \<open>Rounding\<close>

lemma log2_bounds: "0 < n \<Longrightarrow> 0 \<le> log2 n \<and> 2 ^ nat (log2 n) \<le> n \<and> n < 2 ^ nat (log2 n + 1)"
proof (induction n rule: log2.induct)
  case (1 n)
  show ?case
  proof (cases "n < 2")
    case True
    with 1 show ?thesis by (simp add: log2.simps)
  next
    case False
    then have "0 < n div 2" by (simp add: pos_imp_zdiv_pos_iff)
    then have IH: "0 \<le> log2 (n div 2)" "2 ^ nat (log2 (n div 2)) \<le> n div 2" "n div 2 < 2 ^ nat (log2 (n div 2) + 1)"
      using 1 False by auto
    have l: "log2 n = 1 + log2 (n div 2)" using False by (subst log2.simps) simp
    have e: "nat (log2 n) = Suc (nat (log2 (n div 2)))" "nat (log2 n + 1) = Suc (nat (log2 (n div 2) + 1))"
      using IH(1) l by auto
    have "2 * (n div 2) \<le> n" "n < 2 * (n div 2) + 2" by auto
    then show ?thesis using IH l unfolding e by auto
  qed
qed

lemma binexp_le: 
  assumes "0 < q"
  shows "2 powi binexp q \<le> q"
proof -
  obtain a b where ab: "quotient_of q = (a, b)" by fastforce
  have b: "0 < b" using quotient_of_denom_pos [OF ab] .
  have q: "q = of_int a / of_int b" by (rule quotient_of_div [OF ab])
  then have a: "0 < a" using assms b by (simp add: zero_less_divide_iff)
  define e where "e = log2 a - log2 b"
  have la: "2 ^ nat (log2 a) \<le> a" "0 \<le> log2 a" and lb: "b < 2 ^ nat (log2 b + 1)" "0 \<le> log2 b"
    using log2_bounds [OF a] log2_bounds [OF b] by simp_all
  have "(2 :: rat) powi (e - 1) = 2 powi log2 a / 2 powi (log2 b + 1)"
    unfolding e_def by (simp add: power_int_diff [symmetric] diff_diff_eq)
  also have "\<dots> = of_int (2 ^ nat (log2 a)) / of_int (2 ^ nat (log2 b + 1))"
    using la lb by (simp add: power_int_def)
  also have "\<dots> \<le> of_int a / of_int b"
  proof (rule frac_le)
    show "(of_int (2 ^ nat (log2 a)) :: rat) \<le> of_int a" using la(1) by (simp only: of_int_le_iff)
    show "(of_int b :: rat) \<le> of_int (2 ^ nat (log2 b + 1))" using lb(1) by (simp only: of_int_le_iff)
  qed (use a b in auto)
  finally have "2 powi (e - 1) \<le> q" by (simp add: q)
  then show ?thesis by (simp add: binexp_def ab e_def [symmetric] Let_def)
qed

lemma rnd_bounds: "0 \<le> q \<Longrightarrow> 0 < p \<Longrightarrow> 0 \<le> rnd p q \<and> rnd p q \<le> 2 * q"
proof (cases "q = 0")
  case False
  assume "0 \<le> q" "0 < p"
  with False have q: "0 < q" by simp
  define u :: rat where "u = 2 powi (binexp q - int p + 1)"
  have u: "0 < u" by (simp add: u_def)
  have "u \<le> 2 powi binexp q" using \<open>0 < p\<close> unfolding u_def by (intro power_int_increasing) auto
  also have "\<dots> \<le> q" by (rule binexp_le [OF q])
  finally have uq: "u \<le> q" .
  have r: "0 \<le> round_even (q / u)" "of_int (round_even (q / u)) \<le> q / u + 1 / 2"
    using round_even_bounds [of "q / u"] q u by auto
  have "of_int (round_even (q / u)) * u \<le> (q / u + 1 / 2) * u" using r u by (intro mult_right_mono) auto
  also have "\<dots> = q + u / 2" using u by (simp add: distrib_right)
  finally have "rnd p q \<le> q + u / 2" using False by (simp add: rnd_def u_def [symmetric] Let_def)
  moreover have "0 \<le> rnd p q" using r(1) u False by (simp add: rnd_def u_def [symmetric] Let_def)
  ultimately show ?thesis using uq u by linarith
qed (simp add: rnd_def)

subsection \<open>The checksum\<close>

lemma hex_val_digit: "n < 16 \<Longrightarrow> hex_val (hex_digit n) = Some n"
  by (auto simp: hex_val_def hex_digit_def Let_def of_char_of take_bit_eq_mod)

lemma hex2_value: "hex_val (hex_digit (unat w div 16)) = Some (unat (w :: 8 word) div 16)"
  "hex_val (hex_digit (unat w mod 16)) = Some (unat w mod 16)"
proof -
  have "unat w < 256" using unsigned_less [of w, where ?'a = nat] by simp
  then have "unat w div 16 < 16" by (simp add: div_less_iff_less_mult)
  then show "hex_val (hex_digit (unat w div 16)) = Some (unat w div 16)"
    "hex_val (hex_digit (unat w mod 16)) = Some (unat w mod 16)" by (simp_all add: hex_val_digit)
qed

lemma put_checksum_fits:
  assumes "length body \<le> 193"
  shows "put_checksum (CHR ''$'' # body) 200 = (CHR ''$'' # body @ ''*'' @ hex2 (xor_sum body) @ [CHR 0x0D, CHR 0x0A],
    int (length body) + 6)"
  using assms by (simp add: put_checksum_def hex2_def Let_def)

lemma nmea_receive_frame:
  assumes "CHR ''*'' \<notin> set body"
  shows "nmea_receive (CHR ''$'' # body @ ''*'' @ hex2 (xor_sum body) @ [CHR 0x0D, CHR 0x0A]) = Some body"
proof -
  have t: "takeWhile (\<lambda>c. c \<noteq> CHR ''*'') (body @ CHR ''*'' # r) = body"
    "dropWhile (\<lambda>c. c \<noteq> CHR ''*'') (body @ CHR ''*'' # r) = CHR ''*'' # r" for r
    using assms by (induction body) auto
  show ?thesis by (simp add: nmea_receive_def t hex2_def hex2_value)
qed

text \<open>A message passes the receiver's check, and its length is that of its text, which fits the buffer.\<close>

definition valid_msg :: "string \<Rightarrow> string \<times> int \<Rightarrow> bool" where
  "valid_msg body m \<longleftrightarrow> nmea_receive (fst m) = Some body \<and> snd m = int (length (fst m)) \<and> snd m < 200"

lemma put_checksum_valid: "field 193 body \<Longrightarrow> valid_msg body (put_checksum (CHR ''$'' # body) 200)"
  using nmea_receive_frame [of body]
  by (auto simp: valid_msg_def put_checksum_fits field_def hex2_def)

definition log_msgs :: "(string \<times> int) list \<Rightarrow> eng \<Rightarrow> eng" where
  "log_msgs ms E = (if nmea_cb E then E\<lparr>sent := sent E @ ms\<rparr> else E)"

lemma finish_log: "finish s E = log_msgs [put_checksum s 200] E"
  by (simp add: finish_def nmea_send_def log_msgs_def NMEA_SENTENCE_MAX_LENGTH_def)

lemma log_log [simp]: "log_msgs ms (log_msgs ls E) = log_msgs (ls @ ms) E" "log_msgs [] E = E"
  by (simp_all add: log_msgs_def)

lemma log_fields [simp]:
  "nmea_cb (log_msgs ms E) = nmea_cb E" "standalone (log_msgs ms E) = standalone E"
  "gps_used_mask (log_msgs ms E) = gps_used_mask E" "glo_used_mask (log_msgs ms E) = glo_used_mask E"
  "c_pdop (log_msgs ms E) = c_pdop E" "c_hdop (log_msgs ms E) = c_hdop E" "c_vdop (log_msgs ms E) = c_vdop E"
  by (simp_all add: log_msgs_def)

lemma sent_log: "sent (log_msgs ms E) = sent E @ (if nmea_cb E then ms else [])"
  by (simp add: log_msgs_def)

text \<open>C29. Every sentence of up to 194 characters comes back from the receiver's check once its
  checksum is put: the receiver recomputes the exclusive or of the body and finds the two digits, and
  the length returned is that of the text in the buffer.\<close>

theorem nmea_checksum_roundtrip:
  assumes "length body \<le> 193" and "CHR ''*'' \<notin> set body"
  shows "nmea_receive (fst (put_checksum (CHR ''$'' # body) 200)) = Some body \<and>
    snd (put_checksum (CHR ''$'' # body) 200) = int (length (fst (put_checksum (CHR ''$'' # body) 200)))"
  using put_checksum_valid [of body] assms by (simp add: valid_msg_def field_def)

theorem nmea_checksum_roundtrip_witness:
  "nmea_receive (fst (put_checksum ''$GPGSV,1,1,0,'' 200)) = Some ''GPGSV,1,1,0,''"
  using nmea_checksum_roundtrip [of "''GPGSV,1,1,0,''"] by simp

text \<open>When the text of a sentence leaves no room for its checksum the generator does not notice:
  the receiver's check fails and the length given to the callback is greater than that of the text,
  so the reader runs over its end.\<close>

theorem nmea_checksum_cut:
  assumes "194 \<le> length body" and "length body \<le> 198" and "CHR ''*'' \<notin> set body"
  shows "nmea_receive (fst (put_checksum (CHR ''$'' # body) 200)) = None \<and>
    int (length (fst (put_checksum (CHR ''$'' # body) 200))) < snd (put_checksum (CHR ''$'' # body) 200)"
proof -
  obtain k where k: "200 - length body - 1 - 1 = k" "k < 5" using assms by auto
  define t where "t = take k (''*'' @ hex2 (xor_sum body) @ [CHR 0x0D, CHR 0x0A])"
  have t: "fst (put_checksum (CHR ''$'' # body) 200) = CHR ''$'' # body @ t" "length t < 5"
    using k by (simp_all add: put_checksum_def Let_def t_def)
  have "t = [] \<or> (\<exists>r. t = CHR ''*'' # r)" unfolding t_def by (cases k) auto
  then have "dropWhile (\<lambda>c. c \<noteq> CHR ''*'') (body @ t) = t" using assms(3)
    by (induction body) auto
  moreover have "length t \<noteq> 5" using t(2) by simp
  ultimately have "nmea_receive (CHR ''$'' # body @ t) = None"
    by (auto simp: nmea_receive_def Let_def split: list.split)
  then show ?thesis using t by (simp add: put_checksum_def Let_def hex2_def)
qed

theorem nmea_checksum_cut_witness:
  "nmea_receive (fst (put_checksum (CHR ''$'' # replicate 196 (CHR ''1'')) 200)) = None"
  using nmea_checksum_cut [of "replicate 196 (CHR ''1'')"] by simp

subsection \<open>Satellites in use\<close>

lemma used_loop_bits:
  "length us \<le> k \<Longrightarrow> used_loop offset (Suc k) (drop_bit k m) us =
    us @ map (\<lambda>j. j + 1 + offset) (filter (bit m) [k..<32])"
proof (induction "32 - k" arbitrary: k us)
  case 0
  then have "drop_bit k m = 0" by (intro bit_word_eqI) (auto simp: bit_drop_bit_eq dest: bit_imp_le_length)
  with 0 show ?case by (subst used_loop.simps) simp
next
  case (Suc n)
  then have k: "k < 32" by simp
  show ?case
  proof (cases "drop_bit k m = 0")
    case True
    have "\<not> bit m j" if "k \<le> j" for j
    proof -
      have "bit (drop_bit k m) (j - k) = bit m j" using that by (simp add: bit_drop_bit_eq)
      then show ?thesis using True by simp
    qed
    then have "filter (bit m) [k..<32] = []" by (auto simp: filter_empty_conv)
    with True show ?thesis by (subst used_loop.simps) simp
  next
    case False
    have b: "drop_bit k m AND 1 \<noteq> 0 \<longleftrightarrow> bit m k"
      by (simp add: and_one_eq mod_2_eq_odd bit_iff_odd_drop_bit)
    have d: "drop_bit 1 (drop_bit k m) = drop_bit (Suc k) m" by (simp add: drop_bit_drop_bit)
    have "used_loop offset (Suc k) (drop_bit k m) us =
        used_loop offset (Suc (Suc k)) (drop_bit (Suc k) m) (if bit m k then us @ [Suc k + offset] else us)"
      using False Suc.prems k by (subst used_loop.simps) (simp add: b d word_gt_0)
    also have "\<dots> = (if bit m k then us @ [Suc k + offset] else us) @
        map (\<lambda>j. j + 1 + offset) (filter (bit m) [Suc k..<32])"
      by (rule Suc.hyps(1)) (use Suc in auto)
    also have "\<dots> = us @ map (\<lambda>j. j + 1 + offset) (filter (bit m) [k..<32])"
      using k by (simp add: upt_conv_Cons)
    finally show ?thesis .
  qed
qed

text \<open>The loop that shifts through a mask of satellites in use lists exactly the bits that are
  set, in order, each as its number plus one and the offset of its system; the bound of 32 entries
  of the array is never what ends it.\<close>

theorem used_satellites:
  "used_loop offset 1 m [] = map (\<lambda>j. j + 1 + offset) (filter (bit m) [0..<32])"
  using used_loop_bits [of "[]" 0 offset m] by simp

lemma used_bound: "length (used_loop offset 1 m []) \<le> 32" "u \<in> set (used_loop offset 1 m []) \<Longrightarrow> u \<le> 32 + offset"
proof -
  have eq: "used_loop offset 1 m [] = map (\<lambda>j. j + 1 + offset) (filter (bit m) [0..<32])"
    using used_loop_bits [of "[]" 0 offset m] by simp
  show "length (used_loop offset 1 m []) \<le> 32" unfolding eq using length_filter_le [of "bit m" "[0..<32]"] by simp
  show "u \<in> set (used_loop offset 1 m []) \<Longrightarrow> u \<le> 32 + offset" unfolding eq by auto
qed

subsection \<open>Sentences of a position report\<close>

lemma checked: "length s + length t < 200 \<Longrightarrow> print_checked t s = Some (s @ t)"
  by (simp add: print_checked_def NMEA_SENTENCE_MAX_LENGTH_def)

lemma cut_fits: "length s + length t < 200 \<Longrightarrow> print_cut t s = s @ t"
  by (simp add: print_cut_def NMEA_SENTENCE_MAX_LENGTH_def)

definition gsa_id :: "nat list \<Rightarrow> nat \<Rightarrow> string" where
  "gsa_id us i = (if i < length us then fmt_d 2 (int (us ! i)) @ '','' else '','')"

lemma gsa_id_field: "\<forall>u\<in>set us. u < 100 \<Longrightarrow> field 3 (gsa_id us i)"
  using fmt_d_field(2) [of "int (us ! i)" 1 2]
  by (auto simp: gsa_id_def field_def)

lemma concat_field: "\<forall>x\<in>set xs. field n (f x) \<Longrightarrow> field (n * length xs) (concat (map f xs))"
proof (induction xs)
  case (Cons x xs)
  then have "field (n + n * length xs) (f x @ concat (map f xs))" by (intro field_append) auto
  then show ?case by simp
qed (simp add: field_def)

lemma gsa_ids_eq:
  assumes "\<forall>u\<in>set us. u < 100"
  shows "length s + 3 * k < 200 \<Longrightarrow> gsa_ids us i k s = Some (s @ concat (map (gsa_id us) [i..<i + k]))"
proof (induction k arbitrary: i s)
  case (Suc k)
  have l: "length (gsa_id us i) \<le> 3" using gsa_id_field [OF assms] by (simp add: field_def)
  have "print_checked (gsa_id us i) s = Some (s @ gsa_id us i)" using l Suc.prems by (intro checked) auto
  moreover have "gsa_ids us (i + 1) k (s @ gsa_id us i) =
      Some ((s @ gsa_id us i) @ concat (map (gsa_id us) [i + 1..<i + 1 + k]))"
    using l Suc.prems by (intro Suc.IH) auto
  moreover have "[i..<i + Suc k] = i # [i + 1..<i + 1 + k]" by (simp add: upt_conv_Cons del: upt_Suc)
  ultimately show ?case by (simp add: gsa_id_def [symmetric] del: upt_Suc)
qed simp

text \<open>Reports whose numbers are within the ranges of the receiver.\<close>

definition small :: "nat \<Rightarrow> fl \<Rightarrow> bool" where
  "small k x \<longleftrightarrow> 0 \<le> magnitude x \<and> magnitude x \<le> 10 ^ k"

lemma fmt1_field:
  assumes "small k x"
  shows "field (k + 4) (fmt_f 0 1 x)"
proof -
  have "(1 :: rat) \<le> 10 ^ k" by simp
  then have "magnitude x + 1 \<le> 10 ^ Suc k" using assms unfolding small_def power_Suc by linarith
  then show ?thesis using fmt_f_field [of x k 1 0] assms by (simp add: small_def add.commute)
qed

definition dop_ok :: "eng \<Rightarrow> location_extended \<Rightarrow> bool" where
  "dop_ok E X \<longleftrightarrow> (\<forall>x\<in>{pdop X, hdop X, vdop X, c_pdop E, c_hdop E, c_vdop E}. small 6 x)"

lemma gsa_dop_field: "dop_ok E X \<Longrightarrow> field 32 (gsa_dop E X)"
proof -
  assume "dop_ok E X"
  then have d: "small 6 (pdop X)" "small 6 (hdop X)" "small 6 (vdop X)"
    "small 6 (c_pdop E)" "small 6 (c_hdop E)" "small 6 (c_vdop E)" by (simp_all add: dop_ok_def)
  have f: "field 10 (fmt_f 0 1 x)" if "small 6 x" for x using fmt1_field [OF that] by simp
  have g: "field 32 (a @ '','' @ b @ '','' @ c)" if "field 10 a" "field 10 b" "field 10 c" for a b c
    using that by (auto simp: field_def)
  show ?thesis unfolding gsa_dop_def
    using g [OF f f f, OF d(1-3)] g [OF f f f, OF d(4-6)] by (simp add: field_lit)
qed

text \<open>Rounded products stay within a factor.\<close>

lemma f_mul_small:
  assumes "0 \<le> magnitude x" "magnitude x \<le> a" "0 \<le> magnitude y" "magnitude y \<le> b" "0 < p"
  shows "0 \<le> magnitude (f_mul p x y) \<and> magnitude (f_mul p x y) \<le> 2 * (a * b)"
proof -
  have "0 \<le> magnitude x * magnitude y" using assms by simp
  moreover have "magnitude x * magnitude y \<le> a * b" using assms by (intro mult_mono) auto
  ultimately show ?thesis using rnd_bounds [of "magnitude x * magnitude y" p] assms(5) by (simp add: f_mul_def)
qed

lemma f_round_small: "0 \<le> magnitude x \<Longrightarrow> magnitude x \<le> a \<Longrightarrow> 0 < p \<Longrightarrow>
    0 \<le> magnitude (f_round p x) \<and> magnitude (f_round p x) \<le> 2 * a"
  using rnd_bounds [of "magnitude x" p] by (simp add: f_round_def)

lemma speed_field:
  assumes "small 6 v" "0 \<le> c" "c \<le> 4"
  shows "field 12 (fmt_f 0 1 (f_round single_prec (f_mul double_prec v (Fl False (rnd double_prec c)))))"
proof -
  have c: "0 \<le> rnd double_prec c" "rnd double_prec c \<le> 8" using rnd_bounds [of c double_prec] assms by auto
  have "0 \<le> magnitude (f_mul double_prec v (Fl False (rnd double_prec c))) \<and>
    magnitude (f_mul double_prec v (Fl False (rnd double_prec c))) \<le> 2 * (10 ^ 6 * 8)"
    using f_mul_small [of v "10 ^ 6" "Fl False (rnd double_prec c)" 8 double_prec] assms(1) c by (simp add: small_def)
  from f_round_small [of _ "2 * (10 ^ 6 * 8)" single_prec, OF conjunct1 [OF this] conjunct2 [OF this]]
  have "small 8 (f_round single_prec (f_mul double_prec v (Fl False (rnd double_prec c))))" by (simp add: small_def)
  from fmt1_field [OF this] show ?thesis by simp
qed

lemma f_mod_bounds: "0 \<le> magnitude x \<Longrightarrow> 0 < m \<Longrightarrow> 0 \<le> magnitude (f_mod x m) \<and> magnitude (f_mod x m) < m"
proof -
  assume m: "0 \<le> magnitude x" "0 < m"
  define f where "f = \<lfloor>magnitude x / m\<rfloor>"
  have "of_int f \<le> magnitude x / m" "magnitude x / m < of_int f + 1" unfolding f_def by linarith+
  then have "of_int f * m \<le> magnitude x" "magnitude x < (of_int f + 1) * m"
    using m by (simp_all add: pos_le_divide_eq pos_divide_less_eq)
  then show ?thesis by (simp add: f_mod_def f_def [symmetric] distrib_right)
qed

lemma minutes_field:
  assumes "0 \<le> magnitude x" "magnitude x \<le> 180"
  shows "field 10 (fmt_f 9 6 (f_mod (f_mul double_prec x (Fl False 60)) 60))"
proof -
  have "0 \<le> magnitude (f_mul double_prec x (Fl False 60))"
    using f_mul_small [of x 180 "Fl False 60" 60 double_prec] assms by simp
  from f_mod_bounds [OF this, of 60] show ?thesis
    using fmt_f_field [of "f_mod (f_mul double_prec x (Fl False 60)) 60" 1 6 9] by simp
qed

definition pos_ok :: "gps_location \<Rightarrow> location_extended \<Rightarrow> bool" where
  "pos_ok L X \<longleftrightarrow> (\<forall>x\<in>{altitude L, speed L, bearing L, altitudeMeanSeaLevel X, magneticDeviation X}. small 6 x) \<and>
     0 \<le> magnitude (latitude L) \<and> magnitude (latitude L) \<le> 90 \<and>
     0 \<le> magnitude (longitude L) \<and> magnitude (longitude L) \<le> 180 \<and> - (2 ^ 63) \<le> timestamp L \<and> timestamp L < 2 ^ 63"

lemma lat_long_field:
  assumes "pos_ok L X"
  shows "field 36 (lat_long L)"
proof -
  have d: "field 3 (fmt_d 2 n)" "field 4 (fmt_d 3 n)" if "\<bar>n\<bar> < 100 \<or> 0 \<le> n \<and> n < 1000" for n
    using that fmt_d_field [of n 1 2] fmt_d_field [of n 2 3] fmt_d_field(2) [of n 2 2] by (auto simp: numeral_eq_Suc intro: field_mono)
  have fl: "\<lfloor>q\<rfloor> \<le> 180" "0 \<le> \<lfloor>q\<rfloor>" if "0 \<le> q" "q \<le> 180" for q :: rat using that by (auto simp: floor_le_iff)
  note ok = assms [unfolded pos_ok_def]
  define lat where "lat = (if fval (latitude L) > 0 then latitude L else f_neg (latitude L))"
  define lon where "lon = (if fval (longitude L) < 0 then f_neg (longitude L) else longitude L)"
  have m: "0 \<le> magnitude lat" "magnitude lat \<le> 180" "0 \<le> magnitude lon" "magnitude lon \<le> 180"
    using ok by (auto simp: lat_def lon_def f_neg_def)
  have v: "0 \<le> fval lat" "fval lat \<le> 180" "0 \<le> fval lon" "fval lon \<le> 180"
    using m by (auto simp: lat_def lon_def f_neg_def fval_def split: if_splits)
  show ?thesis
    using d(1) [of "\<lfloor>fval lat\<rfloor>"] d(2) [of "\<lfloor>fval lon\<rfloor>"] fl [OF v(1,2)] fl [OF v(3,4)]
      minutes_field [OF m(1,2)] minutes_field [OF m(3,4)]
    unfolding lat_long_def lat_def [symmetric]
    by (auto simp: field_def Let_def lat_def lon_def split: if_splits)
qed

text \<open>Any 64-bit time stamp has a broken-down time, and its parts have few digits.\<close>

lemma cdiv_bounds: "0 < b \<Longrightarrow> \<bar>a\<bar> \<le> m \<Longrightarrow> \<bar>cdiv a b\<bar> \<le> m div b"
  using zdiv_mono1 [of a m b] zdiv_mono1 [of "- a" m b] pos_imp_zdiv_nonneg_iff [of b a] pos_imp_zdiv_nonneg_iff [of b "- a"]
  by (auto simp: cdiv_def abs_if split: if_splits)

lemma crem_bounds: "0 < b \<Longrightarrow> \<bar>crem a b\<bar> < b"
  by (auto simp: crem_def)

lemma gmtime_parts:
  assumes "- (2 ^ 63) \<le> ts" "ts < 2 ^ 63"
  obtains T where "gmtime (cdiv ts 1000) = Some T" "0 \<le> tm_hour T" "tm_hour T < 24" "0 \<le> tm_min T" "tm_min T < 60"
    "0 \<le> tm_sec T" "tm_sec T < 60" "\<bar>tm_mday T\<bar> < 10 ^ 7" "\<bar>tm_mon T + 1\<bar> < 10 ^ 7"
proof -
  define t where "t = cdiv ts 1000"
  have "\<bar>t\<bar> \<le> 2 ^ 63 div 1000" unfolding t_def by (rule cdiv_bounds) (use assms in auto)
  then have t: "\<bar>t\<bar> \<le> 9223372036854775" by simp
  define z where "z = t div 86400 + 719468"
  have z: "\<bar>z\<bar> \<le> 106753000000" using t unfolding z_def by auto
  define era where "era = z div 146097"
  have era: "\<bar>era\<bar> \<le> 800000" using z unfolding era_def by auto
  define doe where "doe = z mod 146097"
  have doe: "0 \<le> doe" "doe < 146097" unfolding doe_def by simp_all
  define yoe where "yoe = (doe - doe div 1460 + doe div 36524 - doe div 146096) div 365"
  have yoe: "0 \<le> yoe" "yoe \<le> 420" using doe unfolding yoe_def by auto
  define doy where "doy = doe - (365 * yoe + yoe div 4 - yoe div 100)"
  have doy: "\<bar>doy\<bar> \<le> 310000" using doe yoe unfolding doy_def by auto
  define mp where "mp = (5 * doy + 2) div 153"
  have mp: "\<bar>mp\<bar> \<le> 20000" using doy unfolding mp_def by auto
  define mon where "mon = (if mp < 10 then mp + 2 else mp - 10)"
  have mon: "\<bar>mon\<bar> \<le> 30000" using mp unfolding mon_def by auto
  define year where "year = yoe + era * 400 + (if mon \<le> 1 then 1 else 0) - 1900"
  have year: "- 2147483648 \<le> year \<and> year \<le> 2147483647" using yoe era unfolding year_def by auto
  define T where "T = \<lparr>tm_year = year, tm_mon = mon, tm_mday = doy - (153 * mp + 2) div 5 + 1,
    tm_hour = (t mod 86400) div 3600, tm_min = (t mod 86400) div 60 mod 60, tm_sec = (t mod 86400) mod 60\<rparr>"
  have "gmtime t = Some T"
    unfolding gmtime_def Let_def z_def [symmetric] era_def [symmetric] doe_def [symmetric] yoe_def [symmetric]
      doy_def [symmetric] mp_def [symmetric] mon_def [symmetric] year_def [symmetric] T_def using year by simp
  moreover have "0 \<le> t mod 86400" "t mod 86400 < 86400" by simp_all
  then have "0 \<le> tm_hour T" "tm_hour T < 24" by (auto simp: T_def pos_imp_zdiv_nonneg_iff)
  moreover have "0 \<le> tm_min T" "tm_min T < 60" "0 \<le> tm_sec T" "tm_sec T < 60" by (simp_all add: T_def)
  moreover have "\<bar>tm_mday T\<bar> < 10 ^ 7" "\<bar>tm_mon T + 1\<bar> < 10 ^ 7" using doy mp mon by (auto simp: T_def)
  ultimately show ?thesis using that unfolding t_def by blast
qed

lemma utc_field:
  assumes "0 \<le> tm_hour T" "tm_hour T < 24" "0 \<le> tm_min T" "tm_min T < 60" "0 \<le> tm_sec T" "tm_sec T < 60"
  shows "field 11 (utc_text L T)"
proof -
  have "\<bar>cdiv (crem (timestamp L) 1000) 10\<bar> \<le> 999 div 10"
    using crem_bounds [of 1000 "timestamp L"] by (intro cdiv_bounds) auto
  then have "field 3 (fmt_d 2 (cdiv (crem (timestamp L) 1000) 10))"
    using fmt_d_field(1) [of _ 1 2] by (auto simp: numeral_eq_Suc)
  moreover have d: "field 2 (fmt_d 2 n)" if "0 \<le> n" "n < 60" for n
    using fmt_d_field(2) [of n 1 2] that by (simp add: numeral_eq_Suc)
  have "field 2 (fmt_d 2 (tm_hour T))" "field 2 (fmt_d 2 (tm_min T))" "field 2 (fmt_d 2 (tm_sec T))"
    using assms by (auto intro: d)
  ultimately show ?thesis by (auto simp: utc_text_def field_def)
qed

lemma fmt_2_2d_field: "\<bar>n\<bar> < 10 ^ 7 \<Longrightarrow> field 8 (fmt_2_2d n)"
proof -
  assume n: "\<bar>n\<bar> < 10 ^ 7"
  then have a: "field 7 (zeros 2 (show_nat \<bar>n\<bar>))"
    using show_nat_field [of "\<bar>n\<bar>" 6] by (intro zeros_field) auto
  from field_Cons [OF a, of "CHR ''-''"] field_mono [OF a, of 8] show ?thesis
    by (auto simp: fmt_2_2d_def abs_if split: if_splits)
qed

text \<open>A sentence that is built starts with its name and fits the buffer with its checksum.\<close>

definition built :: "string \<Rightarrow> string option \<Rightarrow> bool" where
  "built name r \<longleftrightarrow> (\<exists>body. r = Some (CHR ''$'' # name @ body) \<and> field 193 (name @ body))"

lemma gsa_built:
  assumes "\<forall>u\<in>set us. u < 100" "dop_ok E X"
  shows "built ''GPGSA,A,'' (gpgsa E X us)" "built ''GNGSA,A,'' (gngsa E X us)"
proof -
  let ?ids = "concat (map (gsa_id us) [0..<12])"
  have ids: "field 36 ?ids" using concat_field [of "[0..<12]" 3 "gsa_id us"] gsa_id_field [OF assms(1)] by simp
  have eq: "gsa_ids us 0 12 s = Some (s @ ?ids)" if "length s \<le> 11" for s
    using gsa_ids_eq [OF assms(1), of s 12 0] that by simp
  have ty: "field 1 (fix_type (length us))" by (auto simp: fix_type_def field_def)
  note dop = gsa_dop_field [OF assms(2)]
  have "gpgsa E X us = Some (''$GPGSA,A,'' @ fix_type (length us) @ '','' @ ?ids @ gsa_dop E X)"
    using ids ty dop by (simp add: gpgsa_def checked eq cut_fits field_def)
  moreover have "gngsa E X us = Some (''$GNGSA,A,'' @ fix_type (length us) @ '','' @ ?ids @ gsa_dop E X)"
    using ids ty dop by (simp add: gngsa_def checked eq cut_fits field_def)
  ultimately show "built ''GPGSA,A,'' (gpgsa E X us)" "built ''GNGSA,A,'' (gngsa E X us)"
    using ids ty dop by (auto simp: built_def field_def simp del: upt_Suc)
qed

lemma mode_field: "field 1 (if \<not> b then ''N'' else if c then ''A'' else ''D'')"
  by (simp add: field_def)

lemma pos_fields:
  assumes "pos_ok L X"
  shows "field 10 (fmt_f 0 1 (bearing L))" "field 10 (fmt_f 0 1 (magneticDeviation X))"
    "field 10 (fmt_f 0 1 (f_neg (magneticDeviation X)))" "field 10 (fmt_f 0 1 (altitudeMeanSeaLevel X))"
    "field 12 (fmt_f 0 1 (f_round single_prec (f_mul double_prec (speed L) (Fl False (rnd double_prec (3600 / 1852))))))"
    "field 12 (fmt_f 0 1 (f_round single_prec (f_mul double_prec (speed L) (Fl False (rnd double_prec (36 / 10))))))"
    "field 12 (fmt_f 0 1 (f_sub double_prec (altitude L) (altitudeMeanSeaLevel X)))"
proof -
  note ok = assms [unfolded pos_ok_def]
  have f: "field 10 (fmt_f 0 1 x)" if "small 6 x" for x using fmt1_field [OF that] by simp
  show "field 10 (fmt_f 0 1 (bearing L))" "field 10 (fmt_f 0 1 (magneticDeviation X))"
    "field 10 (fmt_f 0 1 (altitudeMeanSeaLevel X))" by (rule f; use ok in simp)+
  show "field 10 (fmt_f 0 1 (f_neg (magneticDeviation X)))" using ok by (intro f) (simp add: small_def f_neg_def)
  show "field 12 (fmt_f 0 1 (f_round single_prec (f_mul double_prec (speed L) (Fl False (rnd double_prec (3600 / 1852))))))"
    "field 12 (fmt_f 0 1 (f_round single_prec (f_mul double_prec (speed L) (Fl False (rnd double_prec (36 / 10))))))"
    by (rule speed_field; use ok in simp)+
  let ?d = "fval (altitude L) - fval (altitudeMeanSeaLevel X)"
  have "\<bar>?d\<bar> \<le> 2 * 10 ^ 6" using ok by (auto simp: fval_def small_def)
  then have "0 \<le> rnd double_prec \<bar>?d\<bar>" "rnd double_prec \<bar>?d\<bar> \<le> 10 ^ 8" using rnd_bounds [of "\<bar>?d\<bar>" double_prec] by auto
  then have "small 8 (f_sub double_prec (altitude L) (altitudeMeanSeaLevel X))"
    by (auto simp: f_sub_def small_def Let_def)
  from fmt1_field [OF this] show "field 12 (fmt_f 0 1 (f_sub double_prec (altitude L) (altitudeMeanSeaLevel X)))" by simp
qed

lemma built_start: "field n t \<Longrightarrow> n < 150 \<Longrightarrow> length s < 30 \<Longrightarrow> print_checked (s @ t) [] = Some (s @ t)"
  by (simp add: checked field_def)

lemma gpvtg_built:
  assumes "pos_ok L X"
  shows "built ''GPVTG,'' (gpvtg E L X)"
proof -
  define a where "a = (if has_bearing L then fmt_f 0 1 (bearing L) @ '',T,'' @ fmt_f 0 1 (bearing L) @ '',M,'' else '',T,,M,'')"
  define b where "b = (if has_speed L then fmt_f 0 1 (f_round single_prec (f_mul double_prec (speed L) (Fl False (rnd double_prec (3600 / 1852))))) @
     '',N,'' @ fmt_f 0 1 (f_round single_prec (f_mul double_prec (speed L) (Fl False (rnd double_prec (36 / 10))))) @ '',K,''
     else '',N,,K,'')"
  define c where "c = (if \<not> has_lat_long L then ''N'' else if standalone E then ''A'' else ''D'')"
  have a: "field 30 a" and b: "field 30 b" and c: "field 1 c"
    using pos_fields [OF assms] by (auto simp: a_def b_def c_def field_def)
  have a': "(if has_bearing L then ''$GPVTG,'' @ fmt_f 0 1 (bearing L) @ '',T,'' @ fmt_f 0 1 (bearing L) @ '',M,''
     else ''$GPVTG,,T,,M,'') = ''$GPVTG,'' @ a" by (simp add: a_def)
  have "gpvtg E L X = Some (''$GPVTG,'' @ a @ b @ c)"
    unfolding gpvtg_def Let_def a' b_def [symmetric] c_def [symmetric]
    using a b c by (simp add: checked cut_fits field_def)
  then show ?thesis using a b c by (auto simp: built_def field_def)
qed

lemma gprmc_built:
  assumes P: "pos_ok L X" and T: "field 11 (utc_text L T)" "\<bar>tm_mday T\<bar> < 10 ^ 7" "\<bar>tm_mon T + 1\<bar> < 10 ^ 7"
  shows "built ''GPRMC,'' (gprmc E L X T)"
proof -
  define a where "a = (if has_speed L then fmt_f 0 1 (f_round single_prec (f_mul double_prec (speed L) (Fl False (rnd double_prec (3600 / 1852))))) @ '','' else '','')"
  define b where "b = (if has_bearing L then fmt_f 0 1 (bearing L) @ '','' else '','')"
  define c where "c = fmt_2_2d (tm_mday T) @ fmt_2_2d (tm_mon T + 1) @ fmt_2_2d (crem (tm_year T) 100) @ '',''"
  define v where "v = (if fval (magneticDeviation X) < 0 then (f_neg (magneticDeviation X), ''W'') else (magneticDeviation X, ''E''))"
  define d where "d = (if has_mag_dev X then fmt_f 0 1 (fst v) @ '','' @ snd v @ '','' else '',,'')"
  define e where "e = (if \<not> has_lat_long L then ''N'' else if standalone E then ''A'' else ''D'')"
  have v: "v = (fst v, snd v)" by simp
  have a: "field 13 a" and b: "field 11 b" and d: "field 14 d" and e: "field 1 e"
    using pos_fields [OF P] by (auto simp: a_def b_def d_def v_def e_def field_def)
  have "\<bar>crem (tm_year T) 100\<bar> < 10 ^ 7" using crem_bounds [of 100 "tm_year T"] by simp
  then have c: "field 25 c" using T(2,3)[THEN fmt_2_2d_field] fmt_2_2d_field by (fastforce simp: c_def field_def)
  note l = lat_long_field [OF P]
  have "gprmc E L X T = Some (''$GPRMC,'' @ utc_text L T @ ''A,'' @ lat_long L @ a @ b @ c @ d @ e)"
    unfolding gprmc_def Let_def a_def [symmetric] b_def [symmetric] c_def [symmetric] v_def [symmetric]
      e_def [symmetric]
    apply (subst (1) v) unfolding case_prod_conv d_def [symmetric]
    using a b c d e l T(1) by (simp add: checked cut_fits field_def)
  then show ?thesis using a b c d e l T(1) by (auto simp: built_def field_def)
qed

lemma gpgga_built:
  assumes P: "pos_ok L X" "dop_ok E X" and T: "field 11 (utc_text L T)" and n: "n \<le> 32"
  shows "built ''GPGGA,'' (gpgga E L X T n)"
proof -
  define q where "q = (if \<not> has_lat_long L then ''0'' else if standalone E then ''1'' else ''2'')"
  define h where "h = (if has_dop X then fmt_f 0 1 (hdop X) else if cached_dop E then fmt_f 0 1 (c_hdop E) else [])"
  define a where "a = q @ '','' @ fmt_d 2 (int n) @ '','' @ h @ '',''"
  define b where "b = (if has_altitude_msl X then fmt_f 0 1 (altitudeMeanSeaLevel X) @ '',M,'' else '',,'')"
  define c where "c = (if has_altitude L \<and> has_altitude_msl X
     then fmt_f 0 1 (f_sub double_prec (altitude L) (altitudeMeanSeaLevel X)) @ '',M,,'' else '',,,'')"
  have f: "field 10 (fmt_f 0 1 x)" if "small 6 x" for x using fmt1_field [OF that] by simp
  have "field 10 (fmt_f 0 1 (hdop X))" "field 10 (fmt_f 0 1 (c_hdop E))" by (rule f; use P(2) in \<open>simp add: dop_ok_def\<close>)+
  then have "field 10 h" by (simp add: h_def field_lit)
  moreover have "field 2 (fmt_d 2 (int n))" using fmt_d_field(2) [of "int n" 1 2] n by (simp add: numeral_eq_Suc)
  moreover have "field 1 q" by (simp add: q_def field_def)
  ultimately have a: "field 16 a" by (auto simp: a_def field_def)
  have b: "field 13 b" and c: "field 16 c" using pos_fields [OF P(1)] by (auto simp: b_def c_def field_def)
  note l = lat_long_field [OF P(1)]
  have "gpgga E L X T n = Some (''$GPGGA,'' @ utc_text L T @ lat_long L @ a @ b @ c)"
    unfolding gpgga_def Let_def q_def [symmetric] h_def [symmetric] a_def [symmetric] b_def [symmetric] c_def [symmetric]
    using a b c l T by (simp add: checked cut_fits field_def)
  then show ?thesis using a b c l T by (auto simp: built_def field_def)
qed

lemma built_send:
  assumes "built name r"
  obtains m b where "valid_msg (name @ b) m" "\<And>k E. then_send r k E = k (log_msgs [m] E)"
proof -
  obtain b where b: "r = Some (CHR ''$'' # name @ b)" "field 193 (name @ b)" using assms by (auto simp: built_def)
  show ?thesis by (rule that [OF put_checksum_valid [OF b(2)]]) (simp add: then_send_def b(1) finish_log)
qed

definition pos_names :: "string list" where
  "pos_names = [''GPGSA,A,'', ''GNGSA,A,'', ''GPVTG,'', ''GPRMC,'', ''GPGGA,'']"

lemma generate_pos_log:
  assumes P: "pos_ok L X" "dop_ok E X"
  shows "\<exists>ms. list_all2 (\<lambda>name m. \<exists>b. valid_msg (name @ b) m) pos_names ms \<and>
    generate_pos L X True E = (clear_dop (log_msgs ms (E\<lparr>gps_used_mask := 0, glo_used_mask := 0\<rparr>)), True)"
proof -
  obtain T where T: "gmtime (cdiv (timestamp L) 1000) = Some T" "field 11 (utc_text L T)"
    "\<bar>tm_mday T\<bar> < 10 ^ 7" "\<bar>tm_mon T + 1\<bar> < 10 ^ 7"
  proof (rule gmtime_parts [of "timestamp L"])
    show "- (2 ^ 63) \<le> timestamp L" "timestamp L < 2 ^ 63" using P(1) by (simp_all add: pos_ok_def)
  qed (use that utc_field in blast)
  let ?E1 = "E\<lparr>gps_used_mask := 0\<rparr>" and ?gps = "used_loop 0 1 (gps_used_mask E) []"
  let ?glo = "used_loop 64 1 (glo_used_mask E) []"
  have dop: "dop_ok (log_msgs ms ?E1) X" "dop_ok ?E1 X" "dop_ok (log_msgs ms (E\<lparr>gps_used_mask := 0, glo_used_mask := 0\<rparr>)) X" for ms
    using P(2) by (simp_all add: dop_ok_def)
  have us: "\<forall>u\<in>set ?gps. u < 100" "\<forall>u\<in>set ?glo. u < 100" using used_bound(2) by fastforce+
  have glo: "(log_msgs ms ?E1)\<lparr>glo_used_mask := 0\<rparr> = log_msgs ms (E\<lparr>gps_used_mask := 0, glo_used_mask := 0\<rparr>)" for ms
    by (simp add: log_msgs_def)
  let ?E3 = "\<lambda>ms. log_msgs ms (E\<lparr>gps_used_mask := 0, glo_used_mask := 0\<rparr>)"
  obtain m1 b1 where m1: "valid_msg (''GPGSA,A,'' @ b1) m1" "\<And>k E. then_send (gpgsa ?E1 X ?gps) k E = k (log_msgs [m1] E)"
    by (rule built_send [OF gsa_built(1) [OF us(1) dop(2)]]) blast
  obtain m2 b2 where m2: "valid_msg (''GNGSA,A,'' @ b2) m2"
    "\<And>k E. then_send (gngsa (?E3 [m1]) X ?glo) k E = k (log_msgs [m2] E)"
    by (rule built_send [OF gsa_built(2) [OF us(2) dop(3)]]) blast
  obtain m3 b3 where m3: "valid_msg (''GPVTG,'' @ b3) m3"
    "\<And>k E. then_send (gpvtg (?E3 [m1, m2]) L X) k E = k (log_msgs [m3] E)"
    by (rule built_send [OF gpvtg_built [OF P(1)]]) blast
  obtain m4 b4 where m4: "valid_msg (''GPRMC,'' @ b4) m4"
    "\<And>k E. then_send (gprmc (?E3 [m1, m2, m3]) L X T) k E = k (log_msgs [m4] E)"
    by (rule built_send [OF gprmc_built [OF P(1) T(2-4)]]) blast
  obtain m5 b5 where m5: "valid_msg (''GPGGA,'' @ b5) m5"
    "\<And>k E. then_send (gpgga (?E3 [m1, m2, m3, m4]) L X T (length ?gps)) k E = k (log_msgs [m5] E)"
    by (rule built_send [OF gpgga_built [OF P(1) dop(3) T(2) used_bound(1)]]) blast
  have "generate_pos L X True E = (clear_dop (?E3 [m1, m2, m3, m4, m5]), True)"
    using m1(2) m2(2) m3(2) m4(2) m5(2) by (simp add: generate_pos_def T(1) Let_def glo)
  moreover have "list_all2 (\<lambda>name m. \<exists>b. valid_msg (name @ b) m) pos_names [m1, m2, m3, m4, m5]"
    using m1(1) m2(1) m3(1) m4(1) m5(1) unfolding pos_names_def by (simp only: list_all2_Cons list_all2_Nil) blast
  ultimately show ?thesis by blast
qed

text \<open>C28. For a final fix with values in the ranges of the receiver and any 64-bit time, the generator
  sends exactly the five sentences GSA (GPS and GLONASS), VTG, RMC and GGA in this order, each passes the
  receiver's check and is reported with its true length, and afterwards the masks and the cached
  dilutions are used up.\<close>

theorem nmea_pos_report:
  assumes "pos_ok L X" and "dop_ok E X" and "nmea_cb E"
  shows "\<exists>E' ms. generate_pos L X True E = (E', True) \<and> sent E' = sent E @ ms \<and>
    list_all2 (\<lambda>name m. \<exists>b. valid_msg (name @ b) m)
      [''GPGSA,A,'', ''GNGSA,A,'', ''GPVTG,'', ''GPRMC,'', ''GPGGA,''] ms \<and>
    gps_used_mask E' = 0 \<and> glo_used_mask E' = 0 \<and> \<not> cached_dop E'"
proof -
  obtain ms where ms: "list_all2 (\<lambda>name m. \<exists>b. valid_msg (name @ b) m) pos_names ms"
    "generate_pos L X True E = (clear_dop (log_msgs ms (E\<lparr>gps_used_mask := 0, glo_used_mask := 0\<rparr>)), True)"
    using generate_pos_log [OF assms(1,2)] by blast
  show ?thesis
    by (rule exI, rule exI [of _ ms], intro conjI, rule ms(2))
      (use ms(1) assms(3) in \<open>simp_all add: clear_dop_def sent_log cached_dop_def fval_def pos_names_def\<close>)
qed

definition nmea_eng :: eng where
  "nmea_eng = \<lparr>nmea_cb = True, standalone = True, gps_used_mask = 0x8000000B, glo_used_mask = 5,
     c_pdop = Fl False 0, c_hdop = Fl False 0, c_vdop = Fl False 0, sent = []\<rparr>"

definition nmea_loc :: gps_location where
  "nmea_loc = \<lparr>has_lat_long = True, has_altitude = True, has_speed = True, has_bearing = True,
     latitude = Fl True (481173 / 10000), longitude = Fl False (1131 / 100), altitude = Fl False 545,
     speed = Fl False 10, bearing = Fl False (843 / 10), timestamp = 1500000000123\<rparr>"

definition nmea_ext :: location_extended where
  "nmea_ext = \<lparr>has_dop = True, has_altitude_msl = True, has_mag_dev = True, altitudeMeanSeaLevel = Fl False 500,
     pdop = Fl False (12 / 10), hdop = Fl False 1, vdop = Fl False 3, magneticDeviation = Fl True 3\<rparr>"

lemmas nmea_example = nmea_eng_def nmea_loc_def nmea_ext_def

theorem nmea_pos_report_witness:
  "\<exists>E' m1 m2 m3 m4 m5. generate_pos nmea_loc nmea_ext True nmea_eng = (E', True) \<and> sent E' = [m1, m2, m3, m4, m5] \<and>
    (\<exists>b. nmea_receive (fst m4) = Some (''GPRMC,'' @ b))"
proof -
  have "pos_ok nmea_loc nmea_ext" "dop_ok nmea_eng nmea_ext" "nmea_cb nmea_eng"
    by (simp_all add: nmea_example pos_ok_def dop_ok_def small_def)
  from nmea_pos_report [OF this] show ?thesis
    by (auto simp: list_all2_Cons1 valid_msg_def nmea_eng_def)
qed

subsection \<open>Satellite reports\<close>

definition sv_text :: "sv_info \<Rightarrow> string" where
  "sv_text v = '','' @ fmt_d 2 (prn v) @ '','' @ fmt_d 2 (half_up (elevation v)) @ '','' @ fmt_d 3 (half_up (azimuth v)) @ '','' @
     (if fval (snr v) > 0 then fmt_d 2 (half_up (snr v)) else [])"

definition sv_ok :: "sv_info \<Rightarrow> bool" where
  "sv_ok v \<longleftrightarrow> (\<forall>x\<in>{elevation v, azimuth v, snr v}. - (2 ^ 31) \<le> half_up x \<and> half_up x < 2 ^ 31)"

lemma sv_field:
  assumes "sv_ok v" and "is_gps v \<or> is_glonass v"
  shows "field 39 (sv_text v)"
proof -
  have d: "field 11 (fmt_d 2 n)" "field 11 (fmt_d 3 n)" if "- (2 ^ 31) \<le> n \<and> n < 2 ^ 31" for n
    using fmt_d_field(1) [of n 9 2] fmt_d_field(1) [of n 9 3] that by auto
  have "field 2 (fmt_d 2 (prn v))" using assms(2) fmt_d_field(2) [of "prn v" 1 2]
    by (auto simp: is_gps_def is_glonass_def numeral_eq_Suc)
  moreover have "field 11 (fmt_d 2 (half_up (elevation v)))" "field 11 (fmt_d 3 (half_up (azimuth v)))"
    "field 11 (fmt_d 2 (half_up (snr v)))" using assms(1) by (auto simp: sv_ok_def intro!: d)
  ultimately show ?thesis by (auto simp: sv_text_def field_def)
qed

lemma gsv_svs_eq:
  assumes ok: "\<forall>v\<in>set vs. sv_ok v" and sel: "\<And>v. sel v \<Longrightarrow> is_gps v \<or> is_glonass v"
  shows "i \<le> 4 \<Longrightarrow> length s + 39 * (4 - i) < 200 \<Longrightarrow>
    \<exists>rest. gsv_svs sel i vs s = Some (s @ concat (map sv_text (take (4 - i) (filter sel vs))), rest) \<and>
      filter sel rest = drop (4 - i) (filter sel vs) \<and> set rest \<subseteq> set vs"
  using ok
proof (induction vs arbitrary: i s)
  case (Cons v vs)
  show ?case
  proof (cases "i < 4 \<and> sel v")
    case False
    then show ?thesis using Cons by (cases "i < 4") (fastforce, auto)
  next
    case True
    then obtain n where n: "4 - i = Suc n" "4 - (i + 1) = n" by (cases "4 - i") auto
    have f: "field 39 (sv_text v)" using sv_field [of v] sel Cons.prems(3) True by simp
    define a where "a = '','' @ fmt_d 2 (prn v) @ '','' @ fmt_d 2 (half_up (elevation v)) @ '','' @ fmt_d 3 (half_up (azimuth v)) @ '',''"
    define b where "b = (if fval (snr v) > 0 then fmt_d 2 (half_up (snr v)) else [])"
    have ab: "sv_text v = a @ b" by (simp add: sv_text_def a_def b_def)
    have l: "length a + length b \<le> 39" using f by (simp add: ab field_def)
    have s: "length s + 39 + 39 * n < 200" using Cons.prems(2) n by simp
    have "\<exists>rest. gsv_svs sel (i + 1) vs (s @ a @ b) =
        Some ((s @ a @ b) @ concat (map sv_text (take (4 - (i + 1)) (filter sel vs))), rest) \<and>
      filter sel rest = drop (4 - (i + 1)) (filter sel vs) \<and> set rest \<subseteq> set vs"
      using Cons.IH [of "i + 1" "s @ a @ b"] Cons.prems(3) True l s n by auto
    then obtain rest where r: "gsv_svs sel (i + 1) vs (s @ a @ b) =
        Some ((s @ a @ b) @ concat (map sv_text (take n (filter sel vs))), rest)"
      "filter sel rest = drop n (filter sel vs)" "set rest \<subseteq> set vs" unfolding n(2) by blast
    have "print_checked a s = Some (s @ a)" using l s by (intro checked) auto
    moreover have "(if fval (snr v) > 0 then print_checked (fmt_d 2 (half_up (snr v))) (s @ a) else Some (s @ a)) =
        Some (s @ a @ b)"
      using l s checked [of "s @ a" b] by (auto simp: b_def)
    ultimately have "gsv_svs sel i (v # vs) s = gsv_svs sel (i + 1) vs (s @ a @ b)"
      using True unfolding gsv_svs.simps(2) a_def [symmetric] by (simp only: if_True Option.bind.simps simp_thms)
    then show ?thesis using r True n(1) by (auto simp: ab)
  qed
qed simp

definition gsv_header :: "string \<Rightarrow> nat \<Rightarrow> nat \<Rightarrow> nat \<Rightarrow> string" where
  "gsv_header name tot num cnt =
    name @ fmt_d 0 (int tot) @ '','' @ fmt_d 0 (int num) @ '','' @ fmt_d 2 (int cnt)"

lemma gsv_header_field:
  assumes "tot < 100" "num < 100" "cnt < 100"
  shows "field n name \<Longrightarrow> field (n + 8) (gsv_header name tot num cnt)"
proof -
  have "field 2 (fmt_d w (int x))" if "x < 100" "w \<le> 2" for w x
    using fmt_d_field(2) [of "int x" 1 w] that by (simp add: numeral_eq_Suc)
  from this [of tot 0] this [of num 0] this [of cnt 2] assms
  show "field n name \<Longrightarrow> field (n + 8) (gsv_header name tot num cnt)"
    by (auto simp: gsv_header_def field_def)
qed

definition gsv_body :: "string \<Rightarrow> nat \<Rightarrow> sv_info list \<Rightarrow> nat \<Rightarrow> string" where
  "gsv_body name tot svs j =
    gsv_header name tot (j + 1) (length svs) @ concat (map sv_text (take 4 (drop (4 * j) svs)))"

lemma gsv_body_field:
  assumes "\<forall>v\<in>set svs. field 39 (sv_text v)" "length svs \<le> 32" "tot < 100" "j < 99" "field 6 name"
  shows "field 170 (gsv_body name tot svs j)"
proof -
  have "set (take 4 (drop (4 * j) svs)) \<subseteq> set svs" by (meson set_drop_subset set_take_subset subset_trans)
  then have "field (39 * length (take 4 (drop (4 * j) svs))) (concat (map sv_text (take 4 (drop (4 * j) svs))))"
    using assms(1) by (intro concat_field) blast
  then have "field 156 (concat (map sv_text (take 4 (drop (4 * j) svs))))" by (rule field_mono) simp
  moreover have "field 14 (gsv_header name tot (j + 1) (length svs))"
    using gsv_header_field [of tot "j + 1" "length svs" 6 name] assms by simp
  ultimately show ?thesis using field_append [of 14 _ 156] by (simp add: gsv_body_def)
qed

lemma gsv_loop_log:
  assumes sel: "\<And>v. sel v \<Longrightarrow> is_gps v \<or> is_glonass v" and name: "field 6 name"
    and svs: "length svs \<le> 32" "tot < 100"
  shows "\<forall>v\<in>set vs. sv_ok v \<Longrightarrow> filter sel vs = drop (4 * j) svs \<Longrightarrow> j + k < 99 \<Longrightarrow>
    gsv_loop (CHR ''$'' # name) sel (length svs) tot (j + 1) k vs E =
      (log_msgs (map (\<lambda>i. put_checksum (CHR ''$'' # gsv_body name tot svs i) 200) [j..<j + k]) E, True)"
proof (induction k arbitrary: j vs E)
  case (Suc k)
  let ?h = "gsv_header (CHR ''$'' # name) tot (j + 1) (length svs)"
  have h: "field 15 ?h" using gsv_header_field [of tot "j + 1" "length svs" 7 "CHR ''$'' # name"] field_Cons [OF name, of "CHR ''$''"] svs Suc.prems(3) by simp
  then have "\<exists>rest. gsv_svs sel 0 vs ?h = Some (?h @ concat (map sv_text (take (4 - 0) (filter sel vs))), rest) \<and>
      filter sel rest = drop (4 - 0) (filter sel vs) \<and> set rest \<subseteq> set vs"
    by (intro gsv_svs_eq [OF Suc.prems(1) sel]) (auto simp: field_def)
  then obtain rest where r: "gsv_svs sel 0 vs ?h = Some (?h @ concat (map sv_text (take 4 (drop (4 * j) svs))), rest)"
    "filter sel rest = drop (4 * (j + 1)) svs" "set rest \<subseteq> set vs" by (auto simp: Suc.prems(2) add.commute)
  have b: "?h @ concat (map sv_text (take 4 (drop (4 * j) svs))) = CHR ''$'' # gsv_body name tot svs j"
    by (simp add: gsv_body_def gsv_header_def)
  have c: "print_checked ?h [] = Some ?h" using h by (simp add: checked field_def)
  have rok: "\<forall>v\<in>set rest. sv_ok v" and jk: "(j + 1) + k < 99" using r(3) Suc.prems by auto
  have "gsv_loop (CHR ''$'' # name) sel (length svs) tot (j + 1) (Suc k) vs E =
     gsv_loop (CHR ''$'' # name) sel (length svs) tot (j + 1 + 1) k rest (finish (CHR ''$'' # gsv_body name tot svs j) E)"
    by (simp only: gsv_loop.simps gsv_header_def [symmetric] c r(1) Option.bind.simps option.case prod.case b)
  also have "\<dots> = (log_msgs (map (\<lambda>i. put_checksum (CHR ''$'' # gsv_body name tot svs i) 200) [j + 1..<j + 1 + k])
      (finish (CHR ''$'' # gsv_body name tot svs j) E), True)"
    by (rule Suc.IH [OF rok r(2) jk])
  moreover have "[j..<j + Suc k] = j # [j + 1..<j + 1 + k]" by (simp add: upt_conv_Cons del: upt_Suc)
  ultimately show ?case by (simp add: finish_log del: upt_Suc)
qed simp

lemma count_svs_eq:
  "count_svs vs a b = (a + length (filter is_gps vs), b + length (filter is_glonass vs))"
  by (induction vs arbitrary: a b) (auto simp: is_gps_def is_glonass_def)

lemma gsv_sentences_bound: "n \<le> 32 \<Longrightarrow> gsv_sentences n \<le> 8"
  unfolding gsv_sentences_def by presburger

text \<open>The bodies of the sentences for a list of satellites, and their messages.\<close>

definition gsv_bodies :: "string \<Rightarrow> sv_info list \<Rightarrow> string list" where
  "gsv_bodies name svs =
    (if svs = [] then [name @ ''1,1,0,''] else map (gsv_body name (gsv_sentences (length svs)) svs) [0..<gsv_sentences (length svs)])"

lemma gsv_bodies_field:
  assumes "\<forall>v\<in>set svs. field 39 (sv_text v)" "length svs \<le> 32" "field 6 name" "b \<in> set (gsv_bodies name svs)"
  shows "field 193 b"
proof (cases "svs = []")
  case True
  then show ?thesis using assms by (auto simp: gsv_bodies_def field_def)
next
  case False
  then obtain j where j: "b = gsv_body name (gsv_sentences (length svs)) svs j" "j < gsv_sentences (length svs)"
    using assms(4) by (auto simp: gsv_bodies_def)
  have "field 170 b" unfolding j(1)
    using gsv_sentences_bound [OF assms(2)] j(2) by (intro gsv_body_field [OF assms(1,2) _ _ assms(3)]) auto
  then show ?thesis by (rule field_mono) simp
qed

definition frame :: "string \<Rightarrow> string \<times> int" where
  "frame b = put_checksum (CHR ''$'' # b) 200"

lemma frames_valid: "(\<And>b. b \<in> set bs \<Longrightarrow> field 193 b) \<Longrightarrow> list_all2 valid_msg bs (map frame bs)"
  by (induction bs) (simp_all add: frame_def put_checksum_valid)

lemma gsv_log:
  assumes ok: "\<forall>v\<in>set vs. sv_ok v" and len: "length vs \<le> 32"
  shows "gpgsv (length (filter is_gps vs)) vs E = (log_msgs (map frame (gsv_bodies ''GPGSV,'' (filter is_gps vs))) E, True)"
    and "glgsv (length (filter is_glonass vs)) vs E = (log_msgs (map frame (gsv_bodies ''GLGSV,'' (filter is_glonass vs))) E, True)"
proof -
  have l: "length (filter P vs) \<le> 32" for P using len length_filter_le [of P vs] by linarith
  have n: "field 6 ''GPGSV,''" "field 6 ''GLGSV,''" by (simp_all add: field_def)
  note loop = gsv_loop_log [where j = 0 and vs = vs, simplified, OF _ _ l _ ok refl]
  have g: "gsv_sentences (length (filter P vs)) < 99" for P using gsv_sentences_bound [OF l [of P]] by simp
  show "gpgsv (length (filter is_gps vs)) vs E = (log_msgs (map frame (gsv_bodies ''GPGSV,'' (filter is_gps vs))) E, True)"
    using loop [of is_gps "''GPGSV,''" "gsv_sentences (length (filter is_gps vs))" "gsv_sentences (length (filter is_gps vs))" E] n g [of is_gps]
    by (auto simp: gpgsv_def gsv_bodies_def frame_def [abs_def] Let_def blank_def finish_log NMEA_SENTENCE_MAX_LENGTH_def comp_def)
  show "glgsv (length (filter is_glonass vs)) vs E = (log_msgs (map frame (gsv_bodies ''GLGSV,'' (filter is_glonass vs))) E, True)"
    using loop [of is_glonass "''GLGSV,''" "gsv_sentences (length (filter is_glonass vs))" "gsv_sentences (length (filter is_glonass vs))" E] n g [of is_glonass]
    by (auto simp: glgsv_def gsv_bodies_def frame_def [abs_def] Let_def blank_def finish_log NMEA_SENTENCE_MAX_LENGTH_def comp_def)
qed

lemma chunks_concat: "length xs \<le> 4 * n \<Longrightarrow> concat (map (\<lambda>j. take 4 (drop (4 * j) xs)) [0..<n]) = xs"
proof (induction n arbitrary: xs)
  case (Suc n)
  have "[0..<Suc n] = 0 # map Suc [0..<n]" by (simp add: upt_conv_Cons map_Suc_upt del: upt_Suc)
  moreover have "concat (map (\<lambda>j. take 4 (drop (4 * j) (drop 4 xs))) [0..<n]) = drop 4 xs"
    by (rule Suc.IH) (use Suc.prems in auto)
  moreover have "drop (4 * Suc j) xs = drop (4 * j) (drop 4 xs)" for j by (simp add: add.commute)
  ultimately show ?case by (simp add: comp_def del: upt_Suc)
qed simp

lemma generate_sv_log:
  assumes ok: "\<forall>v\<in>set (sv_list V). sv_ok v" and num: "num_svs V \<le> int (length (sv_list V))" "length (sv_list V) \<le> 32"
  defines "vs \<equiv> take (nat (num_svs V)) (sv_list V)"
  shows "generate_sv V X E = Some (cache_sv V X (log_msgs
      (map frame (gsv_bodies ''GPGSV,'' (filter is_gps vs) @ gsv_bodies ''GLGSV,'' (filter is_glonass vs))) E), True)"
proof -
  have ok': "\<forall>v\<in>set vs. sv_ok v" using ok unfolding vs_def by (meson in_set_takeD)
  have len: "length vs \<le> 32" using num(2) by (simp add: vs_def)
  show ?thesis unfolding generate_sv_def vs_def [symmetric]
    using num(1) by (simp add: count_svs_eq gsv_log [OF ok' len] Let_def)
qed

text \<open>C27. A satellite report of at most 32 satellites, the size of its array, with elevations, azimuths and
  signal strengths that fit an \<open>int\<close>, always comes out whole: every sentence passes the
  receiver's check with its true length, the GPS satellites and then the GLONASS satellites are listed in
  the report's order, four to a sentence, numbered from one to the announced number of sentences, with
  the announced number of satellites, so that together the sentences list every one of them exactly
  once; one blank sentence stands for none. The masks and dilutions are kept for the next position.\<close>

theorem nmea_sv_report:
  assumes "\<forall>v\<in>set (sv_list V). sv_ok v" and "num_svs V \<le> int (length (sv_list V))" and "length (sv_list V) \<le> 32"
    and "nmea_cb E"
  defines "gps \<equiv> filter is_gps (take (nat (num_svs V)) (sv_list V))"
    and "gln \<equiv> filter is_glonass (take (nat (num_svs V)) (sv_list V))"
  shows "\<exists>E' ms. generate_sv V X E = Some (E', True) \<and> sent E' = sent E @ ms \<and>
    list_all2 valid_msg (gsv_bodies ''GPGSV,'' gps @ gsv_bodies ''GLGSV,'' gln) ms \<and>
    concat (map (\<lambda>j. take 4 (drop (4 * j) gps)) [0..<gsv_sentences (length gps)]) = gps \<and>
    concat (map (\<lambda>j. take 4 (drop (4 * j) gln)) [0..<gsv_sentences (length gln)]) = gln \<and>
    gps_used_mask E' = gps_used_in_fix_mask V \<and> glo_used_mask E' = glo_used_in_fix_mask V \<and>
    (has_dop X \<longrightarrow> c_hdop E' = hdop X)"
proof -
  let ?vs = "take (nat (num_svs V)) (sv_list V)"
  let ?bs = "gsv_bodies ''GPGSV,'' gps @ gsv_bodies ''GLGSV,'' gln"
  let ?E = "cache_sv V X (log_msgs (map frame ?bs) E)"
  have g: "generate_sv V X E = Some (?E, True)"
    unfolding gps_def gln_def by (rule generate_sv_log [OF assms(1-3)])
  have l: "length gps \<le> 32" "length gln \<le> 32"
    using assms(3) length_filter_le [of is_gps ?vs] length_filter_le [of is_glonass ?vs] by (simp_all add: gps_def gln_def)
  have f: "\<forall>v\<in>set gps. field 39 (sv_text v)" "\<forall>v\<in>set gln. field 39 (sv_text v)"
    using assms(1) by (auto simp: gps_def gln_def dest!: in_set_takeD intro!: sv_field)
  have n: "field 6 ''GPGSV,''" "field 6 ''GLGSV,''" by (simp_all add: field_def)
  have "field 193 b" if "b \<in> set ?bs" for b
    using that gsv_bodies_field [OF f(1) l(1) n(1)] gsv_bodies_field [OF f(2) l(2) n(2)] by auto
  then have v: "list_all2 valid_msg ?bs (map frame ?bs)" by (rule frames_valid)
  have s: "length xs \<le> 4 * gsv_sentences (length xs)" for xs :: "sv_info list"
    unfolding gsv_sentences_def by presburger
  have c: "sent ?E = sent E @ map frame ?bs \<and> gps_used_mask ?E = gps_used_in_fix_mask V \<and>
    glo_used_mask ?E = glo_used_in_fix_mask V \<and> (has_dop X \<longrightarrow> c_hdop ?E = hdop X)"
    using assms(4) by (simp add: cache_sv_def clear_dop_def sent_log Let_def)
  show ?thesis
    by (rule exI [of _ ?E], rule exI [of _ "map frame ?bs"]) (use g v c chunks_concat [OF s] in auto)
qed

definition nmea_svs :: sv_status where
  "nmea_svs = \<lparr>num_svs = 6, sv_list = map (\<lambda>p. \<lparr>prn = p, snr = Fl False 20, elevation = Fl False 30, azimuth = Fl False 270\<rparr>)
     [1, 2, 70, 31, 32, 5, 6, 7], gps_used_in_fix_mask = 3, glo_used_in_fix_mask = 4\<rparr>"

lemma half_up_ints: "half_up (Fl False 20) = 20" "half_up (Fl False 30) = 30" "half_up (Fl False 270) = 270"
  by code_simp+

theorem nmea_sv_report_witness:
  "\<exists>E' m1 m2 m3. generate_sv nmea_svs nmea_ext nmea_eng = Some (E', True) \<and> sent E' = [m1, m2, m3] \<and>
    nmea_receive (fst m2) = Some ''GPGSV,2,2,05,05,30,270,20''"
proof -
  have ok: "\<forall>v\<in>set (sv_list nmea_svs). sv_ok v" by (simp add: nmea_svs_def sv_ok_def half_up_ints)
  have d: "num_svs nmea_svs \<le> int (length (sv_list nmea_svs))" "length (sv_list nmea_svs) \<le> 32" "nmea_cb nmea_eng"
    by (simp_all add: nmea_svs_def nmea_eng_def)
  have b: "map (\<lambda>b. b) (gsv_bodies ''GPGSV,'' (filter is_gps (take (nat (num_svs nmea_svs)) (sv_list nmea_svs))) @
      gsv_bodies ''GLGSV,'' (filter is_glonass (take (nat (num_svs nmea_svs)) (sv_list nmea_svs)))) =
    [''GPGSV,2,1,05,01,30,270,20,02,30,270,20,31,30,270,20,32,30,270,20'', ''GPGSV,2,2,05,05,30,270,20'',
     ''GLGSV,1,1,01,70,30,270,20'']" by code_simp
  from nmea_sv_report [OF ok d, of nmea_ext] b show ?thesis
    by (auto simp: list_all2_Cons1 valid_msg_def nmea_eng_def)
qed

text \<open>On the equator the position sentences are malformed: for a latitude of exactly zero the code
  negates it to minus zero, whose minutes print with a sign in the middle of the field.\<close>

theorem nmea_equator:
  assumes "has_lat_long L" and "latitude L = Fl False 0"
  shows "\<exists>rest. lat_long L = ''00-0.000000,S,'' @ rest"
proof -
  have m: "fmt_f 9 6 (f_mod (f_mul 53 (Fl True 0) (Fl False 60)) 60) = ''-0.000000''" "fmt_d 2 0 = ''00''" by code_simp+
  show ?thesis using assms by (simp add: lat_long_def fval_def f_neg_def m Let_def)
qed

theorem nmea_equator_witness:
  "\<exists>rest. lat_long (nmea_loc\<lparr>latitude := Fl False 0\<rparr>) = ''00-0.000000,S,'' @ rest"
  using nmea_equator [of "nmea_loc\<lparr>latitude := Fl False 0\<rparr>"] by (simp add: nmea_loc_def)

end
