(* ===== verification/Loc_Cfg.thy ===== *)
theory Loc_Cfg
  imports Nmea_Format
begin

text \<open>
  The configuration reader \<open>gps/utils/loc_cfg.cpp\<close> and the string helpers \<open>gps/utils/loc_misc_utils.cpp\<close>: splitting and
  trimming of strings, lines \<open>name = value\<close> parsed against a table of parameters, and the loops over a file and
  over a buffer. A parameter's variable and validity flag are cells of a store; a string of the code is the list
  of its characters before the terminating zero.
\<close>

subsection \<open>String helpers\<close>

text \<open>
  \<open>loc_util_split_string\<close>: the number of pieces and the pieces. The loop keeps the piece read so
  far; the text after the last piece allowed is dropped.
\<close>

fun split_loop :: "char \<Rightarrow> int \<Rightarrow> int \<Rightarrow> string \<Rightarrow> string \<Rightarrow> int \<times> string list" where
  "split_loop d mx n cur [] = (n + 1, [cur])"
| "split_loop d mx n cur (c # cs) =
    (if c = d then
       if n + 1 < mx then (let (k, ps) = split_loop d mx (n + 1) [] cs in (k, cur # ps)) else (n + 1, [cur])
     else split_loop d mx n (cur @ [c]) cs)"

definition loc_util_split_string :: "string option \<Rightarrow> bool \<Rightarrow> int \<Rightarrow> char \<Rightarrow> int \<times> string list" where
  "loc_util_split_string raw ptrs mx d =
    (case raw of None \<Rightarrow> (-1, []) | Some s \<Rightarrow> if ptrs then split_loop d mx 0 [] s else (-1, []))"

definition isspace :: "char \<Rightarrow> bool" where
  "isspace c \<longleftrightarrow> c = CHR '' '' \<or> (let n = of_char c :: nat in 9 \<le> n \<and> n \<le> 13)"

text \<open>
  \<open>loc_util_trim_space\<close> shifts the text in place: \<open>i\<close> is the position of \<open>scan_ptr\<close>, \<open>w\<close> that of
  \<open>write_ptr\<close>, \<open>found\<close> says that \<open>first_nonspace\<close> is set, and the last argument is \<open>last_nonspace\<close>.
\<close>

function trim_loop :: "nat \<Rightarrow> nat \<Rightarrow> bool \<Rightarrow> nat option \<Rightarrow> string \<Rightarrow> string \<times> nat option" where
  "trim_loop i w found lst buf =
    (if i < length buf then
       (let c = buf ! i; found' = (found \<or> \<not> isspace c) in
        if found' then trim_loop (i + 1) (w + 1) True (if isspace c then lst else Some (w + 1)) (buf[w := c])
        else trim_loop (i + 1) w False lst buf)
     else (buf, lst))"
  by pat_completeness auto
termination by (relation "measure (\<lambda>(i, _, _, _, buf). length buf - i)") auto

declare trim_loop.simps [simp del]

definition loc_util_trim_space :: "string \<Rightarrow> string" where
  "loc_util_trim_space s = (case trim_loop 0 0 False None s of (buf, None) \<Rightarrow> buf | (buf, Some n) \<Rightarrow> take n buf)"

subsection \<open>What the parser uses of the C library\<close>

text \<open>\<open>strtok_r\<close> with one delimiter: the token and what is left for the next call.\<close>

definition strtok :: "char \<Rightarrow> string \<Rightarrow> (string \<times> string) option" where
  "strtok d s =
    (let s1 = dropWhile (\<lambda>c. c = d) s in
     if s1 = [] then None else Some (takeWhile (\<lambda>c. c \<noteq> d) s1, drop 1 (dropWhile (\<lambda>c. c \<noteq> d) s1)))"

definition digit_val :: "char \<Rightarrow> int option" where
  "digit_val c = (let n = of_char c :: int in
     if 48 \<le> n \<and> n \<le> 57 then Some (n - 48) else if 97 \<le> n \<and> n \<le> 122 then Some (n - 87)
     else if 65 \<le> n \<and> n \<le> 90 then Some (n - 55) else None)"

definition is_digit :: "int \<Rightarrow> char \<Rightarrow> bool" where
  "is_digit b c \<longleftrightarrow> (case digit_val c of None \<Rightarrow> False | Some v \<Rightarrow> v < b)"

definition digits_val :: "int \<Rightarrow> string \<Rightarrow> int" where
  "digits_val b s = foldl (\<lambda>v c. v * b + the (digit_val c)) 0 (takeWhile (is_digit b) s)"

definition split_sign :: "string \<Rightarrow> bool \<times> string" where
  "split_sign s = (case s of c # cs \<Rightarrow> if c = CHR ''-'' then (True, cs) else if c = CHR ''+'' then (False, cs) else (False, s)
     | [] \<Rightarrow> (False, s))"

definition hex_prefix :: "string \<Rightarrow> bool" where
  "hex_prefix s \<longleftrightarrow> (case s of z # x # h # _ \<Rightarrow> z = CHR ''0'' \<and> (x = CHR ''x'' \<or> x = CHR ''X'') \<and> is_digit 16 h | _ \<Rightarrow> False)"

text \<open>\<open>strtol\<close> for a 64-bit \<open>long\<close>, and \<open>atoi\<close>.\<close>

definition strtol :: "int \<Rightarrow> string \<Rightarrow> int" where
  "strtol b s =
    (let (neg, s1) = split_sign (dropWhile isspace s);
         s2 = (if b = 16 \<and> hex_prefix s1 then drop 2 s1 else s1);
         v = digits_val b s2
     in if neg then max (- (2 ^ 63)) (- v) else min (2 ^ 63 - 1) v)"

definition to_int32 :: "int \<Rightarrow> 32 word" where
  "to_int32 v = word_of_int v"

definition atoi :: "string \<Rightarrow> 32 word" where
  "atoi s = to_int32 (strtol 10 s)"

text \<open>\<open>atof\<close> of decimal numbers; its hexadecimal, infinite and NaN forms are not modelled.\<close>

definition atof :: "string \<Rightarrow> fl" where
  "atof s =
    (let (neg, s1) = split_sign (dropWhile isspace s);
         whole = takeWhile (is_digit 10) s1; s2 = drop (length whole) s1;
         frac = (case s2 of c # cs \<Rightarrow> if c = CHR ''.'' then takeWhile (is_digit 10) cs else [] | [] \<Rightarrow> []);
         s3 = (case s2 of c # cs \<Rightarrow> if c = CHR ''.'' then drop (length frac) cs else s2 | [] \<Rightarrow> []);
         ex = (case s3 of c # cs \<Rightarrow>
                 if (c = CHR ''e'' \<or> c = CHR ''E'') \<and> whole @ frac \<noteq> []
                 then (let (eneg, t) = split_sign cs; e = digits_val 10 t in if eneg then - e else e) else 0
               | [] \<Rightarrow> 0)
     in Fl neg (rnd double_prec (of_int (digits_val 10 (whole @ frac)) * 10 powi (ex - int (length frac)))))"

subsection \<open>The table and its variables\<close>

datatype cfg_val = Num "32 word" | Dbl fl | Str string

record loc_param =
  param_name :: string
  param_ptr :: "addr option"
  param_set :: "addr option"
  param_type :: char

text \<open>The variables the table points to, and the validity flags.\<close>

record cfg_store =
  vars :: "addr \<Rightarrow> cfg_val"
  flags :: "addr \<Rightarrow> bool"

record loc_param_v =
  v_name :: string
  v_str :: string
  v_int :: "32 word"
  v_dbl :: fl

definition LOC_MAX_PARAM_STRING :: nat where "LOC_MAX_PARAM_STRING = 80"
definition LOC_MAX_PARAM_LINE :: nat where "LOC_MAX_PARAM_LINE = 80 + 80"

definition store_param :: "loc_param \<Rightarrow> addr \<Rightarrow> cfg_val \<Rightarrow> cfg_store \<Rightarrow> cfg_store" where
  "store_param p a v M =
    M\<lparr>vars := (vars M)(a := v), flags := (case param_set p of None \<Rightarrow> flags M | Some f \<Rightarrow> (flags M)(f := True))\<rparr>"

definition loc_set_config_entry :: "loc_param \<Rightarrow> loc_param_v \<Rightarrow> cfg_store \<Rightarrow> cfg_store \<times> int" where
  "loc_set_config_entry p v M =
    (case param_ptr p of
       None \<Rightarrow> (M, -1)
     | Some a \<Rightarrow>
         if param_name p = v_name v then
           if param_type p = CHR ''s'' then
             (store_param p a (Str (if v_str v = ''NULL'' then [] else take LOC_MAX_PARAM_STRING (v_str v))) M, 0)
           else if param_type p = CHR ''n'' then (store_param p a (Num (v_int v)) M, 0)
           else if param_type p = CHR ''f'' then (store_param p a (Dbl (v_dbl v)) M, 0)
           else (M, -1)
         else (M, -1))"

text \<open>The loop over the table; it counts the entries that were set.\<close>

fun set_entries :: "loc_param list \<Rightarrow> loc_param_v \<Rightarrow> cfg_store \<Rightarrow> nat \<Rightarrow> cfg_store \<times> nat" where
  "set_entries [] v M n = (M, n)"
| "set_entries (p # ps) v M n =
    (let (M', r) = loc_set_config_entry p v M in set_entries ps v M' (if r = 0 then n + 1 else n))"

definition parse_value :: "string \<Rightarrow> string \<Rightarrow> loc_param_v" where
  "parse_value name str =
    (if length str \<ge> 3 \<and> str ! 0 = CHR ''0'' \<and> (str ! 1 = CHR ''x'' \<or> str ! 1 = CHR ''X'')
     then \<lparr>v_name = name, v_str = str, v_int = to_int32 (strtol 16 (drop 2 str)), v_dbl = Fl False 0\<rparr>
     else \<lparr>v_name = name, v_str = str, v_int = atoi str, v_dbl = atof str\<rparr>)"

definition loc_fill_conf_item :: "string \<Rightarrow> loc_param list \<Rightarrow> cfg_store \<Rightarrow> cfg_store \<times> nat" where
  "loc_fill_conf_item input_buf table M =
    (case strtok (CHR ''='') input_buf of
       None \<Rightarrow> (M, 0)
     | Some (name, rest) \<Rightarrow>
         (case strtok (CHR ''='') rest of
            None \<Rightarrow> (M, 0)
          | Some (str, _) \<Rightarrow>
              set_entries table (parse_value (loc_util_trim_space name) (loc_util_trim_space str)) M 0))"

subsection \<open>Reading a file and a buffer\<close>

text \<open>\<open>fgets\<close>: at most \<open>n - 1\<close> characters, up to the end of the line; the text read and the rest of the file.\<close>

definition fgets :: "nat \<Rightarrow> string \<Rightarrow> (string \<times> string) option" where
  "fgets n s =
    (if s = [] then None
     else (let w = takeWhile (\<lambda>c. c \<noteq> CHR 0x0A) s; k = min (n - 1) (length w + 1) in Some (take k s, drop k s)))"

text \<open>The number of parameters still expected is an unsigned 32-bit number and may wrap.\<close>

partial_function (option) read_loop ::
  "loc_param list \<Rightarrow> 32 word \<Rightarrow> string \<Rightarrow> cfg_store \<Rightarrow> (cfg_store \<times> string) option" where
  "read_loop table num_params fp M =
    (if num_params = 0 then Some (M, fp)
     else (case fgets LOC_MAX_PARAM_LINE fp of
             None \<Rightarrow> Some (M, fp)
           | Some (line, fp') \<Rightarrow>
               (case loc_fill_conf_item line table M of
                  (M', k) \<Rightarrow> read_loop table (num_params - of_nat k) fp' M')))"

declare read_loop.simps [code]

definition clear_flags :: "loc_param list \<Rightarrow> cfg_store \<Rightarrow> cfg_store" where
  "clear_flags table M =
    foldl (\<lambda>M p. case param_set p of None \<Rightarrow> M | Some f \<Rightarrow> M\<lparr>flags := (flags M)(f := False)\<rparr>) M table"

text \<open>The file, if it is open; the result has the return value, the store and the rest of the file.\<close>

definition loc_read_conf_r ::
  "string option \<Rightarrow> loc_param list \<Rightarrow> cfg_store \<Rightarrow> (int \<times> cfg_store \<times> string) option" where
  "loc_read_conf_r fp table M =
    (case fp of
       None \<Rightarrow> Some (-1, M, [])
     | Some s \<Rightarrow>
         (case read_loop table (of_nat (length table)) s (clear_flags table M) of
            None \<Rightarrow> None
          | Some (M', s') \<Rightarrow> Some (0, M', s')))"

lemma strtok_shorter: "strtok d s = Some (t, r) \<Longrightarrow> length r < length s"
proof -
  assume a: "strtok d s = Some (t, r)"
  then obtain c u where u: "dropWhile (\<lambda>c. c = d) s = c # u"
    by (cases "dropWhile (\<lambda>c. c = d) s") (auto simp: strtok_def Let_def)
  have "length (c # u) \<le> length s" unfolding u [symmetric] by (rule length_dropWhile_le)
  moreover have "c \<noteq> d" using hd_dropWhile [of "\<lambda>c. c = d" s] u by simp
  then have "r = drop 1 (dropWhile (\<lambda>c. c \<noteq> d) u)" using a u by (simp add: strtok_def Let_def)
  moreover have "length (dropWhile (\<lambda>c. c \<noteq> d) u) \<le> length u" by (rule length_dropWhile_le)
  ultimately show ?thesis by simp
qed

function update_loop :: "loc_param list \<Rightarrow> 32 word \<Rightarrow> string option \<Rightarrow> string \<Rightarrow> cfg_store \<Rightarrow> int \<Rightarrow> cfg_store \<times> int" where
  "update_loop table num_params input_buf saveptr M ret =
    (case input_buf of
       None \<Rightarrow> (M, ret)
     | Some line \<Rightarrow>
         if num_params = 0 then (M, ret)
         else (case loc_fill_conf_item line table M of
                 (M', k) \<Rightarrow>
                   (case strtok (CHR 0x0A) saveptr of
                      None \<Rightarrow> update_loop table (num_params - of_nat k) None [] M' (ret + 1)
                    | Some (line', save') \<Rightarrow> update_loop table (num_params - of_nat k) (Some line') save' M' (ret + 1))))"
  by pat_completeness auto

termination
  by (relation "measure (\<lambda>(_, _, b, s, _, _). (case b of None \<Rightarrow> 0 | Some _ \<Rightarrow> length s + 1))")
    (auto dest: strtok_shorter)

declare update_loop.simps [simp del]

text \<open>Reading beyond the data is undefined; the copy ends at a zero within the data.\<close>

definition loc_update_conf ::
  "string option \<Rightarrow> int \<Rightarrow> loc_param list option \<Rightarrow> cfg_store \<Rightarrow> (cfg_store \<times> int) mem" where
  "loc_update_conf conf_data len table M =
    (case (conf_data, table) of
       (Some s, Some t) \<Rightarrow>
         if len = 0 \<or> t = [] then Some (M, -1)
         else if len < 0 \<or> int (length s) < len then None
         else (let conf_copy = takeWhile (\<lambda>c. c \<noteq> CHR 0x00) (take (nat len) s) in
               Some (case strtok (CHR 0x0A) conf_copy of
                       None \<Rightarrow> update_loop t (of_nat (length t) - 1) None [] M 0
                     | Some (line, save) \<Rightarrow> update_loop t (of_nat (length t) - 1) (Some line) save M 0))
     | _ \<Rightarrow> Some (M, -1))"

text \<open>The logger's own parameters, and reading a whole file: first the caller's table, then the logger's.\<close>

definition loc_param_table :: "loc_param list" where
  "loc_param_table = [\<lparr>param_name = ''DEBUG_LEVEL'', param_ptr = Some 0, param_set = None, param_type = CHR ''n''\<rparr>,
     \<lparr>param_name = ''TIMESTAMP'', param_ptr = Some 1, param_set = None, param_type = CHR ''n''\<rparr>]"

definition loc_read_conf :: "string option \<Rightarrow> loc_param list \<Rightarrow> cfg_store \<Rightarrow> cfg_store option" where
  "loc_read_conf file table M =
    (case file of
       None \<Rightarrow> Some M
     | Some s \<Rightarrow>
         (case (if table \<noteq> [] then map_option (\<lambda>(_, M, _). M) (loc_read_conf_r (Some s) table M) else Some M) of
            None \<Rightarrow> None
          | Some M1 \<Rightarrow> map_option (\<lambda>(_, M, _). M) (loc_read_conf_r (Some s) loc_param_table M1)))"

end
