(* ===== verification/Loc_Cfg_Props.thy ===== *)
theory Loc_Cfg_Props
  imports Loc_Cfg "HOL-Library.Sublist"
begin

text \<open>
  Correctness of the configuration reader: splitting undoes joining, trimming in place is trimming,
  reading a file always ends, and reading back a configuration that was written restores it.
\<close>

subsection \<open>Splitting\<close>

fun join_with :: "char \<Rightarrow> string list \<Rightarrow> string" where
  "join_with d [] = []"
| "join_with d [p] = p"
| "join_with d (p # ps) = p @ d # join_with d ps"

lemma split_loop_skip: "d \<notin> set p \<Longrightarrow> split_loop d mx n cur (p @ r) = split_loop d mx n (cur @ p) r"
  by (induction p arbitrary: cur) auto

lemma split_loop_join:
  assumes "\<forall>p\<in>set (p # ps). d \<notin> set p"
  shows "split_loop d mx n cur (join_with d (p # ps)) =
    (n + int (length (take (max 1 (nat (mx - n))) ((cur @ p) # ps))), take (max 1 (nat (mx - n))) ((cur @ p) # ps))"
  using assms
proof (induction ps arbitrary: p cur n)
  case Nil
  have "1 \<le> max 1 (nat (mx - n))" by simp
  then have "take (max 1 (nat (mx - n))) [cur @ p] = [cur @ p]" by simp
  then show ?case using split_loop_skip [of d p mx n cur "[]"] Nil by simp
next
  case (Cons q ps)
  have skip: "split_loop d mx n cur (join_with d (p # q # ps)) = split_loop d mx n (cur @ p) (d # join_with d (q # ps))"
    using split_loop_skip [of d p mx n cur "d # join_with d (q # ps)"] Cons.prems by simp
  show ?case
  proof (cases "n + 1 < mx")
    case True
    then have m: "max 1 (nat (mx - n)) = Suc (max 1 (nat (mx - (n + 1))))" by auto
    have "split_loop d mx (n + 1) [] (join_with d (q # ps)) =
      (n + 1 + int (length (take (max 1 (nat (mx - (n + 1)))) (q # ps))), take (max 1 (nat (mx - (n + 1)))) (q # ps))"
      using Cons.IH [of q "n + 1" "[]"] Cons.prems by simp
    then show ?thesis unfolding skip m using True by (simp add: Let_def)
  next
    case False
    then have "max 1 (nat (mx - n)) = 1" by auto
    then show ?thesis unfolding skip using False by simp
  qed
qed

text \<open>Splitting undoes joining: pieces without the delimiter, empty ones included, come back in
  order, as many as the caller's array holds, and the count returned is their number.\<close>

theorem split_string_roundtrip:
  assumes "ps \<noteq> []" and "\<forall>p\<in>set ps. d \<notin> set p" and "0 < mx"
  shows "loc_util_split_string (Some (join_with d ps)) True mx d =
    (min mx (int (length ps)), take (nat mx) ps)"
proof -
  obtain p qs where p: "ps = p # qs" using assms(1) by (cases ps) auto
  have "max 1 (nat (mx - 0)) = nat mx" using assms(3) by auto
  then show ?thesis using split_loop_join [of p qs d mx 0 "[]"] assms(2,3)
    by (simp add: loc_util_split_string_def p min_def) (auto simp: min_def)
qed

theorem split_string_roundtrip_witness:
  "loc_util_split_string (Some ''a,b,,c'') True 3 (CHR '','') = (3, [''a'', ''b'', ''''])"
  using split_string_roundtrip [of "[''a'', ''b'', '''', ''c'']" "CHR '',''" 3] by (simp add: numeral_eq_Suc)

subsection \<open>Trimming\<close>

definition lstrip :: "string \<Rightarrow> string" where "lstrip s = dropWhile isspace s"
definition rstrip :: "string \<Rightarrow> string" where "rstrip s = rev (dropWhile isspace (rev s))"

lemma rstrip_Cons: "rstrip (c # u) = (if list_all isspace u then (if isspace c then [] else [c]) else c # rstrip u)"
proof (cases "list_all isspace u")
  case True
  then have "dropWhile isspace (rev u @ [c]) = dropWhile isspace [c]"
    by (intro dropWhile_append2) (auto simp: list_all_iff)
  with True show ?thesis by (simp add: rstrip_def)
next
  case False
  then obtain x where "x \<in> set (rev u)" "\<not> isspace x" by (auto simp: list_all_iff)
  from dropWhile_append1 [of x "rev u" isspace "[c]", OF this] False show ?thesis by (simp add: rstrip_def)
qed

lemma rstrip_spaces: "list_all isspace u \<Longrightarrow> rstrip u = []"
  by (auto simp: rstrip_def list_all_iff)

lemma rstrip_prefix: "\<exists>t. u = rstrip u @ t"
proof -
  have "rev u = takeWhile isspace (rev u) @ dropWhile isspace (rev u)" by simp
  then have "u = rev (dropWhile isspace (rev u)) @ rev (takeWhile isspace (rev u))"
    by (metis rev_append rev_rev_ident)
  then show ?thesis unfolding rstrip_def by blast
qed

text \<open>The loop once a character other than a space was found: it moves the rest of the text to \<open>w\<close>.\<close>

lemma trim_loop_found:
  "w \<le> i \<Longrightarrow> i \<le> length buf \<Longrightarrow> trim_loop i w True lst buf = (buf', lst') \<Longrightarrow>
    take (w + (length buf - i)) buf' = take w buf @ drop i buf \<and>
    lst' = (if list_all isspace (drop i buf) then lst else Some (w + length (rstrip (drop i buf))))"
proof (induction "length buf - i" arbitrary: i w lst buf)
  case 0
  then show ?case by (subst (asm) trim_loop.simps) auto
next
  case (Suc n)
  then have i: "i < length buf" by simp
  let ?c = "buf ! i" and ?b = "buf[w := buf ! i]"
  have d: "drop i buf = ?c # drop (i + 1) buf" using i by (simp add: Cons_nth_drop_Suc)
  have db: "drop (i + 1) ?b = drop (i + 1) buf" using Suc.prems(1) by simp
  have tb: "take (w + 1) ?b = take w buf @ [?c]" using Suc.prems(1) i by (simp add: take_Suc_conv_app_nth)
  have step: "trim_loop (i + 1) (w + 1) True (if isspace ?c then lst else Some (w + 1)) ?b = (buf', lst')"
    using Suc.prems(3) i by (subst (asm) trim_loop.simps) (simp add: Let_def)
  have "take (w + 1 + (length ?b - (i + 1))) buf' = take (w + 1) ?b @ drop (i + 1) ?b \<and>
      lst' = (if list_all isspace (drop (i + 1) ?b) then if isspace ?c then lst else Some (w + 1)
              else Some (w + 1 + length (rstrip (drop (i + 1) ?b))))"
    by (rule Suc.hyps(1) [OF _ _ _ step]) (use Suc i in auto)
  then show ?case unfolding db tb d using i by (auto simp: rstrip_Cons Suc_diff_Suc)
qed

lemma trim_loop_start:
  "i \<le> length s \<Longrightarrow> list_all isspace (take i s) \<Longrightarrow>
    (if list_all isspace s then trim_loop i 0 False None s = (s, None)
     else \<exists>k<length s. list_all isspace (take k s) \<and> \<not> isspace (s ! k) \<and>
       trim_loop i 0 False None s = trim_loop k 0 True None s)"
proof (induction "length s - i" arbitrary: i)
  case 0
  then show ?case by (subst trim_loop.simps) simp
next
  case (Suc n)
  then have i: "i < length s" by simp
  have t: "take (i + 1) s = take i s @ [s ! i]" using i by (simp add: take_Suc_conv_app_nth)
  show ?case
  proof (cases "isspace (s ! i)")
    case True
    have "trim_loop i 0 False None s = trim_loop (i + 1) 0 False None s"
      using i True by (subst trim_loop.simps) (simp add: Let_def)
    moreover have "n = length s - (i + 1)" using Suc.hyps(2) by simp
    from Suc.hyps(1) [OF this] have "if list_all isspace s then trim_loop (i + 1) 0 False None s = (s, None)
      else \<exists>k<length s. list_all isspace (take k s) \<and> \<not> isspace (s ! k) \<and>
        trim_loop (i + 1) 0 False None s = trim_loop k 0 True None s"
      using Suc.prems True i t by (simp add: list_all_append)
    ultimately show ?thesis by (simp only:)
  next
    case False
    then have "\<not> list_all isspace s" using i by (auto simp: list_all_length)
    moreover have "trim_loop i 0 False None s = trim_loop i 0 True None s"
      using i False trim_loop.simps [of i 0 False None s] trim_loop.simps [of i 0 True None s] by (simp add: Let_def)
    ultimately show ?thesis using Suc.prems False i by auto
  qed
qed

lemma trim_eq: "loc_util_trim_space s = (if list_all isspace s then s else rstrip (lstrip s))"
proof (cases "list_all isspace s")
  case True
  then show ?thesis using trim_loop_start [of 0 s] by (simp add: loc_util_trim_space_def)
next
  case False
  then obtain k where k: "k < length s" "list_all isspace (take k s)" "\<not> isspace (s ! k)"
    "trim_loop 0 0 False None s = trim_loop k 0 True None s" using trim_loop_start [of 0 s] by auto
  have "s = take k s @ s ! k # drop (k + 1) s" using k(1) by (simp add: id_take_nth_drop)
  then have l: "lstrip s = drop k s"
    using k(1-3) dropWhile_append2 [of "take k s" isspace "drop k s"]
    by (simp add: lstrip_def list_all_iff Cons_nth_drop_Suc [symmetric])
  obtain buf' lst' where r: "trim_loop k 0 True None s = (buf', lst')" by fastforce
  have ns: "\<not> list_all isspace (drop k s)" using k by (auto simp: Cons_nth_drop_Suc [symmetric])
  have f: "take (length s - k) buf' = drop k s" "lst' = Some (length (rstrip (drop k s)))"
    using trim_loop_found [OF _ _ r] k(1) ns by auto
  obtain t where t: "drop k s = rstrip (drop k s) @ t" using rstrip_prefix by blast
  then have n: "length (rstrip (drop k s)) \<le> length s - k" by (metis le_add1 length_append length_drop)
  have "take m buf' = take m (take (length s - k) buf')" if "m \<le> length s - k" for m
    using that by (simp add: min_def)
  from this [OF n] have "take (length (rstrip (drop k s))) buf' = take (length (rstrip (drop k s))) (drop k s)"
    unfolding f(1) .
  also have "\<dots> = rstrip (drop k s)" by (subst (2) t) simp
  finally show ?thesis using False by (simp add: loc_util_trim_space_def k(4) r f(2) l)
qed

text \<open>Trimming in place is trimming: the two-pointer loop leaves the text without its leading and
  trailing spaces, except that a text of spaces only is left as it is.\<close>

theorem trim_space_equiv:
  "loc_util_trim_space s = (if list_all isspace s then s else rev (dropWhile isspace (rev (dropWhile isspace s))))"
  by (rule trim_eq [unfolded rstrip_def lstrip_def])

subsection \<open>Reading ends\<close>

lemma fgets_split: "fgets LOC_MAX_PARAM_LINE s = Some (l, r) \<Longrightarrow> s = l @ r \<and> length r < length s"
  by (auto simp: fgets_def Let_def LOC_MAX_PARAM_LINE_def split: if_splits)

lemma read_loop_ends:
  "\<exists>M' r. read_loop table np s M = Some (M', r) \<and> suffix r s"
proof (induction "length s" arbitrary: s np M rule: less_induct)
  case less
  show ?case
  proof (cases "np = 0 \<or> fgets LOC_MAX_PARAM_LINE s = None")
    case True
    then show ?thesis by (subst read_loop.simps) auto
  next
    case False
    then obtain l r where l: "fgets LOC_MAX_PARAM_LINE s = Some (l, r)" by auto
    obtain M1 k where k: "loc_fill_conf_item l table M = (M1, k)" by fastforce
    have s: "s = l @ r" "length r < length s" using fgets_split [OF l] by auto
    obtain M' r' where r': "read_loop table (np - of_nat k) r M1 = Some (M', r')" "suffix r' r"
      using less [OF s(2)] by blast
    have "read_loop table np s M = Some (M', r')" using False l k r'(1) by (subst read_loop.simps) simp
    moreover have "suffix r' s" using r'(2) s(1) by (simp add: suffix_appendI)
    ultimately show ?thesis by blast
  qed
qed

text \<open>C31. Reading a configuration file always returns, whatever the file holds and however often the
  count of parameters still expected wraps around because a line set several entries: each round
  takes at least a character off the file, and what is left for the next call is a suffix of the file.\<close>

theorem read_conf_terminates:
  "\<exists>M' r. loc_read_conf_r (Some s) table M = Some (0, M', r) \<and> suffix r s"
proof -
  obtain M' r where "read_loop table (of_nat (length table)) s (clear_flags table M) = Some (M', r)" "suffix r s"
    using read_loop_ends by blast
  then show ?thesis by (simp add: loc_read_conf_r_def)
qed

subsection \<open>Numbers\<close>

lemma digit_val_digit: "0 \<le> k \<Longrightarrow> k < 10 \<Longrightarrow> digit_val (digit k) = Some k"
proof -
  assume "0 \<le> k" "k < 10"
  then have "k = 0 \<or> k = 1 \<or> k = 2 \<or> k = 3 \<or> k = 4 \<or> k = 5 \<or> k = 6 \<or> k = 7 \<or> k = 8 \<or> k = 9" by presburger
  then show ?thesis by (elim disjE) (simp_all add: digit_def digit_val_def of_char_of take_bit_eq_mod)
qed

lemma show_nat_digits:
  "0 \<le> n \<Longrightarrow> list_all (is_digit 10) (show_nat n) \<and> foldl (\<lambda>v c. v * 10 + the (digit_val c)) 0 (show_nat n) = n \<and>
    show_nat n \<noteq> []"
proof (induction n rule: show_nat.induct)
  case (1 n)
  show ?case
  proof (cases "n < 10")
    case True
    with 1 show ?thesis by (subst (1 2 3) show_nat.simps) (simp add: is_digit_def digit_val_digit)
  next
    case False
    have "0 \<le> n div 10" using 1(2) by simp
    with 1(1) [OF False] have IH: "list_all (is_digit 10) (show_nat (n div 10))"
      "foldl (\<lambda>v c. v * 10 + the (digit_val c)) 0 (show_nat (n div 10)) = n div 10" by auto
    have d: "digit_val (digit (n mod 10)) = Some (n mod 10)" by (simp add: digit_val_digit)
    show ?thesis using False IH d by (subst (1 2 3) show_nat.simps) (simp add: is_digit_def)
  qed
qed

lemma digits_val_show: "0 \<le> n \<Longrightarrow> digits_val 10 (show_nat n) = n"
  using show_nat_digits [of n] by (simp add: digits_val_def list_all_iff takeWhile_eq_all_conv [THEN iffD2])

lemma is_digit_code: "is_digit 10 c \<longleftrightarrow> 48 \<le> (of_char c :: int) \<and> (of_char c :: int) \<le> 57"
  by (auto simp: is_digit_def digit_val_def Let_def)

lemma int_code: "(of_char c :: int) = int (of_char c :: nat)"
  by (simp only: of_nat_of_char)

lemma digit_plain:
  assumes "is_digit 10 c"
  shows "\<not> isspace c" "c \<noteq> CHR ''-''" "c \<noteq> CHR ''+''" "c \<noteq> CHR ''x''" "c \<noteq> CHR ''X''" "c \<noteq> CHR ''=''" "c \<noteq> CHR 0x0A"
  using assms int_code [of c] by (auto simp: is_digit_code isspace_def Let_def)

lemma atoi_show:
  assumes "- (2 ^ 31) \<le> n" "n < 2 ^ 31"
  shows "atoi (fmt_d 0 n) = word_of_int n"
proof (cases "n < 0")
  case True
  have "digits_val 10 (show_nat (- n)) = - n" using True by (simp add: digits_val_show)
  then show ?thesis using True assms
    by (simp add: atoi_def to_int32_def strtol_def fmt_d_def zeros_def split_sign_def isspace_def)
next
  case False
  obtain c cs where c: "show_nat n = c # cs" "is_digit 10 c" using show_nat_digits [of n] False by (cases "show_nat n") auto
  have "digits_val 10 (c # cs) = n" using digits_val_show [of n] False c by simp
  then show ?thesis using False assms digit_plain [OF c(2)]
    by (simp add: atoi_def to_int32_def strtol_def fmt_d_def zeros_def split_sign_def c(1))
qed

subsection \<open>Reading a written configuration\<close>

datatype cfg_item = IntItem int | StrItem string

fun item_text :: "cfg_item \<Rightarrow> string" where
  "item_text (IntItem n) = fmt_d 0 n"
| "item_text (StrItem s) = s"

fun item_val :: "cfg_item \<Rightarrow> cfg_val" where
  "item_val (IntItem n) = Num (word_of_int n)"
| "item_val (StrItem s) = Str s"

definition conf_line :: "loc_param \<times> cfg_item \<Rightarrow> string" where
  "conf_line e = param_name (fst e) @ ''='' @ item_text (snd e) @ [CHR 0x0A]"

text \<open>Names and texts without separators and without spaces at their ends.\<close>

definition plain :: "string \<Rightarrow> bool" where
  "plain s \<longleftrightarrow> s \<noteq> [] \<and> CHR ''='' \<notin> set s \<and> CHR 0x0A \<notin> set s \<and> \<not> isspace (hd s) \<and> \<not> isspace (last s)"

fun item_ok :: "loc_param \<times> cfg_item \<Rightarrow> bool" where
  "item_ok (p, IntItem n) \<longleftrightarrow> param_type p = CHR ''n'' \<and> - (2 ^ 31) \<le> n \<and> n < 2 ^ 31"
| "item_ok (p, StrItem s) \<longleftrightarrow> param_type p = CHR ''s'' \<and> plain s \<and> s \<noteq> ''NULL'' \<and> length s \<le> 80"

definition entry_ok :: "loc_param \<times> cfg_item \<Rightarrow> bool" where
  "entry_ok e \<longleftrightarrow> item_ok e \<and> plain (param_name (fst e)) \<and> length (conf_line e) \<le> 159 \<and> param_ptr (fst e) \<noteq> None"

lemma fmt_plain: "plain (fmt_d 0 n)"
proof -
  have d: "\<forall>c\<in>set (show_nat m). is_digit 10 c" "show_nat m \<noteq> []" if "0 \<le> m" for m
    using show_nat_digits [OF that] by (auto simp: list_all_iff)
  have p: "plain (show_nat m)" if "0 \<le> m" for m
  proof -
    have "c \<noteq> CHR ''='' \<and> c \<noteq> CHR 0x0A \<and> \<not> isspace c" if "c \<in> set (show_nat m)" for c
    proof -
      have "is_digit 10 c" using d(1) [OF \<open>0 \<le> m\<close>] that by blast
      from digit_plain [OF this] show ?thesis by simp
    qed
    note c = this
    have ne: "show_nat m \<noteq> []" by (rule d(2) [OF that])
    show ?thesis unfolding plain_def
      using ne c [OF hd_in_set [OF ne]] c [OF last_in_set [OF ne]] c [of "CHR ''=''"] c [of "CHR 0x0A"] by auto
  qed
  show ?thesis
  proof (cases "n < 0")
    case True
    then show ?thesis using p [of "- n"] by (auto simp: fmt_d_def zeros_def plain_def isspace_def)
  next
    case False
    then show ?thesis using p [of n] by (simp add: fmt_d_def zeros_def)
  qed
qed

lemma item_plain: "item_ok (p, it) \<Longrightarrow> plain (item_text it)"
  by (cases it) (auto simp: fmt_plain)

lemma trim_plain:
  assumes "plain s"
  shows "loc_util_trim_space s = s" "loc_util_trim_space (s @ [CHR 0x0A]) = s"
proof -
  obtain c u where u: "s = c # u" "\<not> isspace c" using assms by (cases s) (auto simp: plain_def)
  have n: "\<not> list_all isspace (s @ r)" for r using u by simp
  have l: "lstrip (s @ r) = s @ r" for r using u by (simp add: lstrip_def)
  obtain v e where v: "s = v @ [e]" "\<not> isspace e" using assms by (cases s rule: rev_cases) (auto simp: plain_def)
  have sp: "isspace (CHR 0x0A)" by (simp add: isspace_def Let_def)
  have r: "rstrip s = s" "rstrip (s @ [CHR 0x0A]) = s" using v sp by (simp_all add: rstrip_def)
  show "loc_util_trim_space s = s" using n [of "[]"] l [of "[]"] r by (simp add: trim_eq)
  show "loc_util_trim_space (s @ [CHR 0x0A]) = s" using n [of "[CHR 0x0A]"] l [of "[CHR 0x0A]"] r
    by (simp add: trim_eq)
qed

lemma takeWhile_until: "c \<notin> set s \<Longrightarrow> takeWhile (\<lambda>x. x \<noteq> c) (s @ c # r) = s \<and> dropWhile (\<lambda>x. x \<noteq> c) (s @ c # r) = c # r"
  by (induction s) auto

lemma takeWhile_all: "c \<notin> set s \<Longrightarrow> takeWhile (\<lambda>x. x \<noteq> c) s = s \<and> dropWhile (\<lambda>x. x \<noteq> c) s = []"
  by (induction s) auto

lemma strtok_tok:
  assumes "s \<noteq> []" "d \<notin> set s"
  shows "strtok d (s @ d # r) = Some (s, r)" "strtok d s = Some (s, [])"
proof -
  obtain c u where u: "s = c # u" "c \<noteq> d" using assms by (cases s) auto
  then have "dropWhile (\<lambda>c. c = d) (s @ t) = s @ t" for t by simp
  note dw = this
  have e: "takeWhile (\<lambda>c. c \<noteq> d) s = s" "dropWhile (\<lambda>c. c \<noteq> d) s = []"
    "takeWhile (\<lambda>c. c \<noteq> d) (s @ d # r) = s" "dropWhile (\<lambda>c. c \<noteq> d) (s @ d # r) = d # r"
    using takeWhile_until [OF assms(2), of r] takeWhile_all [OF assms(2)] by blast+
  show "strtok d (s @ d # r) = Some (s, r)"
    unfolding strtok_def Let_def dw e using assms(1) by simp
  show "strtok d s = Some (s, [])"
    using dw [of "[]"] assms(1) unfolding strtok_def Let_def append_Nil2 by (simp only: e) simp
qed

lemma fill_line:
  assumes "entry_ok e"
  shows "loc_fill_conf_item (conf_line e) table M =
    set_entries table (parse_value (param_name (fst e)) (item_text (snd e))) M 0"
proof -
  have n: "plain (param_name (fst e))" and t: "plain (item_text (snd e))"
    using assms item_plain [of "fst e" "snd e"] by (auto simp: entry_ok_def)
  have "strtok (CHR ''='') (conf_line e) = Some (param_name (fst e), item_text (snd e) @ [CHR 0x0A])"
    using n strtok_tok(1) [of "param_name (fst e)" "CHR ''=''" "item_text (snd e) @ [CHR 0x0A]"]
    by (simp add: conf_line_def plain_def)
  moreover have "strtok (CHR ''='') (item_text (snd e) @ [CHR 0x0A]) = Some (item_text (snd e) @ [CHR 0x0A], [])"
    using t by (intro strtok_tok(2)) (auto simp: plain_def)
  ultimately show ?thesis by (simp add: loc_fill_conf_item_def trim_plain [OF n] trim_plain [OF t])
qed

lemma parsed_fields:
  "v_name (parse_value n s) = n" "v_str (parse_value n s) = s"
  by (simp_all add: parse_value_def)

lemma int_not_hex:
  assumes "length (fmt_d 0 n) \<ge> 3"
  shows "fmt_d 0 n ! 1 \<noteq> CHR ''x''" "fmt_d 0 n ! 1 \<noteq> CHR ''X''"
proof -
  have d: "is_digit 10 c" if "0 \<le> m" "c \<in> set (show_nat m)" for m c
    using show_nat_digits [OF that(1)] that(2) by (auto simp: list_all_iff)
  have "is_digit 10 (fmt_d 0 n ! 1)"
  proof (cases "n < 0")
    case True
    then have "0 < length (show_nat (- n))" using assms by (cases "show_nat (- n)") (simp_all add: fmt_d_def zeros_def)
    from d [of "- n", OF _ nth_mem [OF this]] True show ?thesis by (simp add: fmt_d_def zeros_def)
  next
    case False
    with assms d [of n "show_nat n ! 1"] show ?thesis by (simp add: fmt_d_def zeros_def)
  qed
  from digit_plain [OF this] show "fmt_d 0 n ! 1 \<noteq> CHR ''x''" "fmt_d 0 n ! 1 \<noteq> CHR ''X''" by simp_all
qed

lemma set_entry:
  assumes "entry_ok e" and "param_ptr (fst e) = Some a"
  shows "loc_set_config_entry (fst e) (parse_value (param_name (fst e)) (item_text (snd e))) M =
    (store_param (fst e) a (item_val (snd e)) M, 0)"
proof (cases e)
  case (Pair p it)
  show ?thesis
  proof (cases it)
    case (IntItem n)
    have "v_int (parse_value (param_name p) (fmt_d 0 n)) = atoi (fmt_d 0 n)"
      using int_not_hex [of n] by (auto simp: parse_value_def)
    then show ?thesis using assms Pair IntItem atoi_show [of n]
      by (simp add: entry_ok_def loc_set_config_entry_def parsed_fields)
  next
    case (StrItem s)
    then show ?thesis using assms Pair
      by (simp add: entry_ok_def loc_set_config_entry_def parsed_fields LOC_MAX_PARAM_STRING_def)
  qed
qed

lemma set_entries_other: "\<forall>p\<in>set ps. param_name p \<noteq> v_name v \<Longrightarrow> set_entries ps v M n = (M, n)"
  by (induction ps) (auto simp: loc_set_config_entry_def split: option.splits)

lemma set_entries_one:
  assumes "distinct (map param_name table)" "p \<in> set table" "v_name v = param_name p"
    and "\<And>M. loc_set_config_entry p v M = (f M, 0)"
  shows "set_entries table v M n = (f M, n + 1)"
  using assms(1,2)
proof (induction table)
  case (Cons q qs)
  show ?case
  proof (cases "q = p")
    case True
    then have "param_name p \<notin> param_name ` set qs" using Cons.prems(1) by simp
    then have "\<forall>r\<in>set qs. param_name r \<noteq> v_name v" using assms(3) by (metis imageI)
    then show ?thesis using True assms(4) by (simp add: set_entries_other)
  next
    case False
    then have "p \<in> set qs" using Cons.prems(2) by simp
    then have "param_name q \<noteq> v_name v" using Cons.prems(1) assms(3) by (metis distinct.simps(2) imageI list.map(2) list.set_map)
    then have "loc_set_config_entry q v M = (M, -1)" by (simp add: loc_set_config_entry_def split: option.split)
    then show ?thesis using Cons False by simp
  qed
qed simp

lemma fgets_line:
  assumes "entry_ok e"
  shows "fgets LOC_MAX_PARAM_LINE (conf_line e @ r) = Some (conf_line e, r)"
proof -
  have n: "CHR 0x0A \<notin> set (param_name (fst e) @ ''='' @ item_text (snd e))"
    using assms item_plain [of "fst e" "snd e"] by (auto simp: entry_ok_def plain_def)
  have c: "conf_line e @ r = (param_name (fst e) @ ''='' @ item_text (snd e)) @ CHR 0x0A # r"
    "length (conf_line e) = length (param_name (fst e) @ ''='' @ item_text (snd e)) + 1"
    by (simp_all add: conf_line_def)
  have "takeWhile (\<lambda>x. x \<noteq> CHR 0x0A) (conf_line e @ r) = param_name (fst e) @ ''='' @ item_text (snd e)"
    unfolding c(1) using takeWhile_until [OF n] by blast
  moreover have "length (conf_line e) \<le> 159" using assms by (simp add: entry_ok_def)
  ultimately show ?thesis using c(2) by (simp add: fgets_def LOC_MAX_PARAM_LINE_def Let_def) (simp add: conf_line_def)
qed

definition put_item :: "loc_param \<times> cfg_item \<Rightarrow> cfg_store \<Rightarrow> cfg_store" where
  "put_item e M = store_param (fst e) (the (param_ptr (fst e))) (item_val (snd e)) M"

lemma read_loop_items:
  assumes "distinct (map param_name table)"
  shows "\<forall>e\<in>set es. entry_ok e \<and> fst e \<in> set table \<Longrightarrow> length es < 2 ^ 32 \<Longrightarrow>
    read_loop table (of_nat (length es)) (concat (map conf_line es) @ rest) M = Some (fold put_item es M, rest)"
proof (induction es arbitrary: M)
  case Nil
  then show ?case by (subst read_loop.simps) simp
next
  case (Cons e es)
  then obtain a where a: "param_ptr (fst e) = Some a" by (auto simp: entry_ok_def)
  have ok: "entry_ok e" "fst e \<in> set table" using Cons.prems(1) by simp_all
  have "loc_fill_conf_item (conf_line e) table M = (put_item e M, 0 + 1)"
    unfolding fill_line [OF ok(1)] using set_entry [OF ok(1) a] a
    by (intro set_entries_one [OF assms ok(2)]) (simp_all add: put_item_def parsed_fields)
  moreover have "(of_nat (length (e # es)) :: 32 word) \<noteq> 0"
    using Cons.prems(2) by (simp only: word_of_nat_eq_0_iff) (auto dest: dvd_imp_le)
  ultimately have "read_loop table (of_nat (length (e # es))) (concat (map conf_line (e # es)) @ rest) M =
      read_loop table (of_nat (length es)) (concat (map conf_line es) @ rest) (put_item e M)"
    using fgets_line [OF ok(1), of "concat (map conf_line es) @ rest"] by (subst read_loop.simps) simp
  also have "\<dots> = Some (fold put_item es (put_item e M), rest)"
    using Cons.prems by (intro Cons.IH) auto
  finally show ?case by simp
qed

lemma put_other: "the (param_ptr (fst e)) \<noteq> a \<Longrightarrow> vars (put_item e M) a = vars M a"
  by (simp add: put_item_def store_param_def)

lemma fold_put_other: "a \<notin> (\<lambda>e. the (param_ptr (fst e))) ` set es \<Longrightarrow> vars (fold put_item es M) a = vars M a"
  by (induction es arbitrary: M) (auto simp: put_other)

lemma put_flag: "flags M f \<Longrightarrow> flags (put_item e M) f"
  by (auto simp: put_item_def store_param_def split: option.split)

lemma fold_put_flag: "flags M f \<Longrightarrow> flags (fold put_item es M) f"
  by (induction es arbitrary: M) (auto simp: put_flag)

lemma fold_put:
  "distinct (map (\<lambda>e. the (param_ptr (fst e))) es) \<Longrightarrow> e \<in> set es \<Longrightarrow>
    vars (fold put_item es M) (the (param_ptr (fst e))) = item_val (snd e) \<and>
    (\<forall>f. param_set (fst e) = Some f \<longrightarrow> flags (fold put_item es M) f)"
proof (induction es arbitrary: M)
  case (Cons x es)
  show ?case
  proof (cases "e = x")
    case True
    have "vars (put_item x M) (the (param_ptr (fst x))) = item_val (snd x)"
      "\<And>f. param_set (fst x) = Some f \<Longrightarrow> flags (put_item x M) f" by (simp_all add: put_item_def store_param_def)
    then show ?thesis using True Cons.prems(1) fold_put_other [of "the (param_ptr (fst x))" es "put_item x M"]
      by (auto intro: fold_put_flag)
  next
    case False
    then show ?thesis using Cons by simp
  qed
qed simp

text \<open>C30. Reading back a written configuration restores it: for a table with distinct names and
  variables, a file that gives every parameter once, in any order, as a line \<open>name=value\<close> with a decimal
  32-bit number or a plain string, leaves exactly these values in the variables and marks them as set;
  reading stops behind the last line it needs, so the rest of the file is there for the next call.\<close>

theorem read_conf_roundtrip:
  assumes "distinct (map param_name table)" and "length table < 2 ^ 32"
    and "distinct (map fst es)" and "set (map fst es) = set table" and "\<forall>e\<in>set es. entry_ok e"
    and "distinct (map (\<lambda>e. the (param_ptr (fst e))) es)"
  shows "\<exists>M'. loc_read_conf_r (Some (concat (map conf_line es) @ rest)) table M = Some (0, M', rest) \<and>
    (\<forall>e\<in>set es. vars M' (the (param_ptr (fst e))) = item_val (snd e) \<and>
      (\<forall>f. param_set (fst e) = Some f \<longrightarrow> flags M' f))"
proof -
  have "distinct table" using assms(1) distinct_map by blast
  then have len: "length es = length table" using assms(3,4) by (metis distinct_card length_map)
  have "\<forall>e\<in>set es. entry_ok e \<and> fst e \<in> set table" using assms(4,5) by auto
  from read_loop_items [OF assms(1) this, of rest "clear_flags table M"]
  have "loc_read_conf_r (Some (concat (map conf_line es) @ rest)) table M = Some (0, fold put_item es (clear_flags table M), rest)"
    using assms(2) len by (simp add: loc_read_conf_r_def)
  then show ?thesis using fold_put [OF assms(6)] by blast
qed

definition cfg_table :: "loc_param list" where
  "cfg_table = [\<lparr>param_name = ''CAPABILITIES'', param_ptr = Some 5, param_set = Some 6, param_type = CHR ''n''\<rparr>,
     \<lparr>param_name = ''SUPL_HOST'', param_ptr = Some 7, param_set = None, param_type = CHR ''s''\<rparr>]"

definition cfg_lines :: "(loc_param \<times> cfg_item) list" where
  "cfg_lines = [(cfg_table ! 1, StrItem ''supl.example.org''), (cfg_table ! 0, IntItem (- 55))]"

definition cfg_zero :: cfg_store where
  "cfg_zero = \<lparr>vars = (\<lambda>_. Num 0), flags = (\<lambda>_. False)\<rparr>"

theorem read_conf_roundtrip_witness:
  "\<exists>M'. loc_read_conf_r (Some (concat (map conf_line cfg_lines) @ ''rest'')) cfg_table cfg_zero = Some (0, M', ''rest'') \<and>
    vars M' 5 = Num (- 55) \<and> vars M' 7 = Str ''supl.example.org'' \<and> flags M' 6"
proof -
  have "\<forall>e\<in>set cfg_lines. entry_ok e"
    by (simp add: cfg_lines_def cfg_table_def entry_ok_def plain_def isspace_def conf_line_def fmt_d_def zeros_def
        show_nat.simps)
  from read_conf_roundtrip [of cfg_table cfg_lines "''rest''" cfg_zero, OF _ _ _ _ this] show ?thesis
    by (auto simp: cfg_lines_def cfg_table_def)
qed

text \<open>A table of one parameter is never updated from a buffer: the count of parameters still
  expected starts one too low, so the loop does not run, and the call reports 0 lines for any data.\<close>

theorem update_conf_single_ignored:
  assumes "0 < len" and "len \<le> int (length s)"
  shows "loc_update_conf (Some s) len (Some [p]) M = Some (M, 0)"
  using assms by (auto simp: loc_update_conf_def Let_def update_loop.simps split: option.split)

theorem update_conf_single_ignored_witness:
  "loc_update_conf (Some ''A=1'') 3 (Some [cfg_table ! 0]) cfg_zero = Some (cfg_zero, 0)"
  using update_conf_single_ignored [of 3 "''A=1''"] by simp

end
