(* ===== verification/Ril_Request.thy ===== *)
theory Ril_Request
  imports Prelude
begin

text \<open>
  The requests of the radio interface layer between the client and the vendor library, \<open>libril/ril.cpp\<close> and the
  common part of \<open>libril/ril_service.cpp\<close>: the lists of pending requests of the slots, the completion and
  the acknowledgement of a request by its token, which is the address of its \<open>RequestInfo\<close>, the wake lock, and
  the delivery of responses to the client. Reading a freed \<open>RequestInfo\<close> is undefined. Allocation is
  an oracle, and addresses are not used again.
\<close>

subsection \<open>State\<close>

text \<open>\<open>cmd\<close> is the index of the request's entry in \<open>s_commands\<close>.\<close>

record request_info =
  token :: int
  cmd :: nat
  cancelled :: bool
  local_req :: bool
  socket_id :: int
  wasAckSent :: bool

text \<open>
  The status of a card. The array \<open>applications\<close> of the source has eight elements, of which \<open>num_applications\<close>
  count; a list that is shorter stands for a number out of range.
\<close>

record app_status =
  app_type :: int
  app_state :: int
  perso_substate :: int
  aid_ptr :: "string option"
  app_label_ptr :: "string option"
  pin1_replaced :: int
  pin1 :: int
  pin2 :: int

record card_status =
  card_state :: int
  universal_pin_state :: int
  gsm_umts_subscription_app_index :: int
  cdma_subscription_app_index :: int
  ims_subscription_app_index :: int
  num_applications :: int
  applications :: "app_status list"

text \<open>The payload of a vendor's response and the length it gives; what a request hands to the vendor.\<close>

datatype payload =
    PNull
  | PInts "int list"
  | PString string
  | PStrings "string option list"
  | PBytes "nat list"
  | PStruct string "int list" "string option list"
  | PCard card_status

type_synonym response = "payload \<times> nat"

datatype radio_error = RadioError int | INVALID_RESPONSE

datatype response_type = SOLICITED | SOLICITED_ACK | SOLICITED_ACK_EXP

record response_info =
  ri_serial :: int
  ri_type :: response_type
  ri_error :: radio_error

text \<open>
  The client's response interfaces: \<open>mRadioResponse\<close>, \<open>mRadioResponseV1_1\<close> and \<open>mOemHookResponse\<close>; a call of
  one of their methods, with the values it gets.
\<close>

datatype client_iface = Radio | RadioV11 | OemHook

datatype client_event =
    Response int string response_info "payload option"
  | Acknowledge int int

text \<open>A call of the vendor's \<open>onRequest\<close>: request, data, token, slot.\<close>

type_synonym vendor_call = "nat \<times> payload \<times> addr \<times> int"

record ril_core =
  sims :: nat
  version :: int
  infos :: "addr \<Rightarrow> request_info option"
  pending :: "nat \<Rightarrow> addr list"
  next_info :: addr
  mem_oracle :: "nat \<Rightarrow> bool"
  allocs :: nat
  temps :: int
  has_client :: "client_iface \<Rightarrow> int \<Rightarrow> bool"
  client_dead :: "client_iface \<Rightarrow> int \<Rightarrow> bool"
  oem_enabled :: bool
  sub_activated :: "int \<Rightarrow> bool"
  act_threads :: "(int \<times> int) list"
  vendor_calls :: "vendor_call list"
  client_events :: "client_event list"
  wakelock_held :: bool
  wakelock_count :: nat
  wake_timers :: "nat \<Rightarrow> bool"
  next_timer :: nat
  last_timer :: "nat option"

definition RIL_E_SUCCESS :: int where "RIL_E_SUCCESS = 0"
definition RIL_E_NO_MEMORY :: int where "RIL_E_NO_MEMORY = 37"
definition RIL_E_INTERNAL_ERR :: int where "RIL_E_INTERNAL_ERR = 38"

definition RESPONSE_SOLICITED :: int where "RESPONSE_SOLICITED = 0"
definition RESPONSE_SOLICITED_ACK_EXP :: int where "RESPONSE_SOLICITED_ACK_EXP = 3"

text \<open>An allocation: whether it succeeds.\<close>

definition try_alloc :: "ril_core \<Rightarrow> bool \<times> ril_core" where
  "try_alloc S = (mem_oracle S (allocs S), S\<lparr>allocs := allocs S + 1\<rparr>)"

subsection \<open>The list of pending requests\<close>

text \<open>The list that belongs to a socket.\<close>

definition hook :: "nat \<Rightarrow> int \<Rightarrow> nat" where
  "hook n s = (if 2 \<le> n \<and> s = 1 then 1 else if 3 \<le> n \<and> s = 2 then 2 else if 4 \<le> n \<and> s = 3 then 3 else 0)"

definition addRequestToList :: "nat \<Rightarrow> int \<Rightarrow> int \<Rightarrow> nat \<Rightarrow> ril_core \<Rightarrow> ril_core \<times> addr option" where
  "addRequestToList num_commands serial slotId request S =
    (if request \<ge> num_commands then (S, None)
     else (case try_alloc S of
             (False, S1) \<Rightarrow> (S1, None)
           | (True, S1) \<Rightarrow>
               (let pRI = next_info S1; h = hook (sims S1) slotId in
                (S1\<lparr>infos := (infos S1)(pRI \<mapsto> \<lparr>token = serial, cmd = request, cancelled = False, local_req = False,
                     socket_id = slotId, wasAckSent = False\<rparr>),
                    pending := (pending S1)(h := pRI # pending S1 h), next_info := pRI + 1\<rparr>, Some pRI))))"

text \<open>
  The socket of the request is read before the list is searched, when there is more than one
  SIM; a token that is no longer allocated is then read after its end.
\<close>

definition checkAndDequeueRequestInfoIfAck :: "addr \<Rightarrow> bool \<Rightarrow> ril_core \<Rightarrow> (ril_core \<times> bool) mem" where
  "checkAndDequeueRequestInfoIfAck pRI isAck S =
    (case (if 2 \<le> sims S then map_option (\<lambda>r. hook (sims S) (socket_id r)) (infos S pRI) else Some 0) of
       None \<Rightarrow> None
     | Some h \<Rightarrow>
         if pRI \<in> set (pending S h) then
           (if isAck then
              map_option (\<lambda>r. (S\<lparr>infos := (infos S)(pRI \<mapsto> r\<lparr>wasAckSent := True\<rparr>)\<rparr>, True)) (infos S pRI)
            else Some (S\<lparr>pending := (pending S)(h := remove1 pRI (pending S h))\<rparr>, True))
         else Some (S, False))"

subsection \<open>Wake lock\<close>

text \<open>A timer of the wake lock is armed, and says whether it was cancelled.\<close>

definition internalRequestTimedCallback :: "ril_core \<Rightarrow> ril_core \<times> nat option" where
  "internalRequestTimedCallback S =
    (case try_alloc S of
       (False, S1) \<Rightarrow> (S1, None)
     | (True, S1) \<Rightarrow> (S1\<lparr>wake_timers := (wake_timers S1)(next_timer S1 := False), next_timer := next_timer S1 + 1\<rparr>,
         Some (next_timer S1)))"

definition cancel_last :: "ril_core \<Rightarrow> ril_core" where
  "cancel_last S = (case last_timer S of None \<Rightarrow> S | Some t \<Rightarrow> S\<lparr>wake_timers := (wake_timers S)(t := True)\<rparr>)"

definition grabPartialWakeLock :: "ril_core \<Rightarrow> ril_core" where
  "grabPartialWakeLock S =
    (if version S \<ge> 13 then
       (case internalRequestTimedCallback (S\<lparr>wakelock_held := True\<rparr>) of
          (S1, None) \<Rightarrow> S1\<lparr>wakelock_held := False\<rparr>
        | (S1, Some t) \<Rightarrow> (cancel_last (S1\<lparr>wakelock_count := wakelock_count S1 + 1\<rparr>))\<lparr>last_timer := Some t\<rparr>)
     else S\<lparr>wakelock_held := True\<rparr>)"

definition releaseWakeLock :: "ril_core \<Rightarrow> ril_core" where
  "releaseWakeLock S =
    (if version S \<ge> 13 then
       (if wakelock_count S > 1 then S\<lparr>wakelock_count := wakelock_count S - 1\<rparr>
        else cancel_last (S\<lparr>wakelock_count := 0, wakelock_held := False\<rparr>))
     else S\<lparr>wakelock_held := False\<rparr>)"

definition wakeTimeoutCallback :: "nat \<Rightarrow> ril_core \<Rightarrow> ril_core" where
  "wakeTimeoutCallback t S =
    (if version S \<ge> 13 then (if \<not> wake_timers S t then S\<lparr>wakelock_count := 0, wakelock_held := False\<rparr> else S)
     else (if \<not> wake_timers S t then releaseWakeLock S else S))"

subsection \<open>Responses to the client\<close>

text \<open>
  The check of a response function before it calls a method; a call of the client, which forgets the
  interfaces of a client whose process is dead, until it registers again (\<open>checkReturnStatus\<close>).
\<close>

definition available :: "client_iface \<Rightarrow> int \<Rightarrow> ril_core \<Rightarrow> bool" where
  "available i slotId S \<longleftrightarrow> has_client S i slotId \<and> (i = OemHook \<longrightarrow> oem_enabled S)"

definition forget_client :: "client_iface \<Rightarrow> int \<Rightarrow> ril_core \<Rightarrow> ril_core" where
  "forget_client i slotId S =
    S\<lparr>has_client := (\<lambda>j s. if s = slotId \<and> (j = OemHook) = (i = OemHook) then False else has_client S j s)\<rparr>"

definition call_client :: "client_iface \<Rightarrow> int \<Rightarrow> client_event \<Rightarrow> ril_core \<Rightarrow> ril_core" where
  "call_client i slotId ev S =
    (if client_dead S i slotId then forget_client i slotId S else S\<lparr>client_events := client_events S @ [ev]\<rparr>)"

definition acknowledgeRequest :: "int \<Rightarrow> int \<Rightarrow> ril_core \<Rightarrow> ril_core" where
  "acknowledgeRequest slotId serial S =
    (if available Radio slotId S then call_client Radio slotId (Acknowledge slotId serial) S else S)"

definition populateResponseInfo :: "int \<Rightarrow> int \<Rightarrow> int \<Rightarrow> response_info" where
  "populateResponseInfo serial responseType e =
    \<lparr>ri_serial = serial,
     ri_type = (if responseType = RESPONSE_SOLICITED_ACK_EXP then SOLICITED_ACK_EXP else SOLICITED),
     ri_error = RadioError e\<rparr>"

text \<open>\<open>responseInt\<close> and \<open>responseIntOrEmpty\<close>; a payload of the length of an integer is read as one.\<close>

definition invalid :: "int \<Rightarrow> response_info \<Rightarrow> response_info" where
  "invalid e info = (if e = RIL_E_SUCCESS then info\<lparr>ri_error := INVALID_RESPONSE\<rparr> else info)"

definition read_int :: "payload \<Rightarrow> int mem" where
  "read_int p = (case p of PInts (i # _) \<Rightarrow> Some i | _ \<Rightarrow> None)"

definition responseInt :: "int \<Rightarrow> int \<Rightarrow> int \<Rightarrow> response \<Rightarrow> (response_info \<times> int) mem" where
  "responseInt serial responseType e resp =
    (let info = populateResponseInfo serial responseType e in
     if fst resp = PNull \<or> snd resp \<noteq> 4 then Some (invalid e info, -1)
     else map_option (\<lambda>i. (info, i)) (read_int (fst resp)))"

definition responseIntOrEmpty :: "int \<Rightarrow> int \<Rightarrow> int \<Rightarrow> response \<Rightarrow> (response_info \<times> int) mem" where
  "responseIntOrEmpty serial responseType e resp =
    (let info = populateResponseInfo serial responseType e in
     if fst resp = PNull \<and> snd resp = 0 then Some (info, -1)
     else if fst resp = PNull \<or> snd resp \<noteq> 4 then Some (invalid e info, -1)
     else map_option (\<lambda>i. (info, i)) (read_int (fst resp)))"

text \<open>
  The response functions and their shapes: they give the client no value, a string, an integer, or other
  values, which \<open>C\<close> converts and which is \<open>None\<close> for a response the function refuses.
\<close>

type_synonym response_fun = "int \<Rightarrow> int \<Rightarrow> int \<Rightarrow> int \<Rightarrow> response \<Rightarrow> ril_core \<Rightarrow> ril_core mem"

definition plain_response :: "client_iface \<Rightarrow> string \<Rightarrow> response_fun" where
  "plain_response i name slotId responseType serial e resp S =
    Some (if available i slotId S
          then call_client i slotId (Response slotId name (populateResponseInfo serial responseType e) None) S else S)"

definition convertCharPtrToHidlString :: "payload \<Rightarrow> string mem" where
  "convertCharPtrToHidlString p = (case p of PNull \<Rightarrow> Some [] | PString s \<Rightarrow> Some s | _ \<Rightarrow> None)"

definition string_response :: "string \<Rightarrow> response_fun" where
  "string_response name slotId responseType serial e resp S =
    (if available Radio slotId S
     then map_option (\<lambda>s. call_client Radio slotId
            (Response slotId name (populateResponseInfo serial responseType e) (Some (PString s))) S)
            (convertCharPtrToHidlString (fst resp))
     else Some S)"

definition int_response :: "string \<Rightarrow> response_fun" where
  "int_response name slotId responseType serial e resp S =
    (if available Radio slotId S
     then map_option (\<lambda>(info, i). call_client Radio slotId (Response slotId name info (Some (PInts [i]))) S)
            (responseInt serial responseType e resp)
     else Some S)"

definition int_or_empty_response :: "string \<Rightarrow> response_fun" where
  "int_or_empty_response name slotId responseType serial e resp S =
    (if available Radio slotId S
     then map_option (\<lambda>(info, i). call_client Radio slotId (Response slotId name info (Some (PInts [i]))) S)
            (responseIntOrEmpty serial responseType e resp)
     else Some S)"

definition data_response :: "(string \<Rightarrow> response \<Rightarrow> payload option) \<Rightarrow> client_iface \<Rightarrow> string \<Rightarrow> response_fun" where
  "data_response C i name slotId responseType serial e resp S =
    Some (if available i slotId S then
            (let info = populateResponseInfo serial responseType e in
             case C name resp of
               None \<Rightarrow> call_client i slotId (Response slotId name (invalid e info) None) S
             | Some v \<Rightarrow> call_client i slotId (Response slotId name info (Some v)) S)
          else S)"

subsection \<open>The status of the card\<close>

text \<open>
  The only response function with state of its own: when a slot's card is first seen, a thread is started that
  will activate its subscription. \<open>act_threads\<close> are the threads that sleep. The size of the structure is that
  of a 64-bit build.
\<close>

definition sizeof_RIL_CardStatus_v6 :: nat where "sizeof_RIL_CardStatus_v6 = 408"
definition RIL_CARDSTATE_PRESENT :: int where "RIL_CARDSTATE_PRESENT = 1"

definition convert_app :: "app_status \<Rightarrow> app_status" where
  "convert_app a = a\<lparr>aid_ptr := Some (case aid_ptr a of None \<Rightarrow> [] | Some s \<Rightarrow> s),
     app_label_ptr := Some (case app_label_ptr a of None \<Rightarrow> [] | Some s \<Rightarrow> s)\<rparr>"

definition convert_card :: "card_status \<Rightarrow> card_status mem" where
  "convert_card c =
    (if num_applications c < 0 \<or> num_applications c > int (length (applications c)) then None
     else Some (c\<lparr>applications := map convert_app (take (nat (num_applications c)) (applications c))\<rparr>))"

definition card_invalid :: "card_status \<Rightarrow> bool" where
  "card_invalid c \<longleftrightarrow> gsm_umts_subscription_app_index c \<ge> num_applications c \<or>
    cdma_subscription_app_index c \<ge> num_applications c \<or> ims_subscription_app_index c \<ge> num_applications c"

definition start_activation :: "int \<Rightarrow> card_status \<Rightarrow> ril_core \<Rightarrow> ril_core" where
  "start_activation slotId c S =
    (if \<not> sub_activated S slotId \<and> card_state c = RIL_CARDSTATE_PRESENT \<and> num_applications c > 0 \<and>
        gsm_umts_subscription_app_index c \<ge> 0 \<and> gsm_umts_subscription_app_index c < num_applications c
     then (case try_alloc (S\<lparr>sub_activated := (sub_activated S)(slotId := True)\<rparr>) of
             (False, S1) \<Rightarrow> S1
           | (True, S1) \<Rightarrow>
               (case try_alloc S1 of
                  (True, S2) \<Rightarrow> S2\<lparr>act_threads := act_threads S2 @ [(slotId, gsm_umts_subscription_app_index c)]\<rparr>
                | (False, S2) \<Rightarrow> S2\<lparr>sub_activated := (sub_activated S2)(slotId := False)\<rparr>))
     else S)"

definition getIccCardStatusResponse :: response_fun where
  "getIccCardStatusResponse slotId responseType serial e resp S =
    (if available Radio slotId S then
       (let name = ''getIccCardStatusResponse''; info = populateResponseInfo serial responseType e;
            refuse = Some (call_client Radio slotId (Response slotId name (invalid e info) None) S) in
        if fst resp = PNull \<or> snd resp \<noteq> sizeof_RIL_CardStatus_v6 then refuse
        else (case fst resp of
                PCard c \<Rightarrow>
                  if card_invalid c then refuse
                  else map_option (\<lambda>c'. call_client Radio slotId (Response slotId name info (Some (PCard c')))
                         (start_activation slotId c S)) (convert_card c)
              | _ \<Rightarrow> None))
     else Some S)"

subsection \<open>Completion by the vendor\<close>

text \<open>The table of commands: the request number and the response function, which may be missing.\<close>

type_synonym commands = "(nat \<times> response_fun option) list"

definition respond :: "commands \<Rightarrow> request_info \<Rightarrow> int \<Rightarrow> int \<Rightarrow> response \<Rightarrow> ril_core \<Rightarrow> ril_core mem" where
  "respond cmds r responseType e resp S =
    (case snd (cmds ! cmd r) of
       None \<Rightarrow> None
     | Some f \<Rightarrow> f (socket_id r) responseType (token r) e resp S)"

definition RIL_onRequestAck :: "addr \<Rightarrow> ril_core \<Rightarrow> ril_core mem" where
  "RIL_onRequestAck t S =
    (case checkAndDequeueRequestInfoIfAck t True S of
       None \<Rightarrow> None
     | Some (S1, False) \<Rightarrow> Some S1
     | Some (S1, True) \<Rightarrow>
         map_option (\<lambda>r. if \<not> cancelled r then acknowledgeRequest (socket_id r) (token r) S1 else S1) (infos S1 t))"

definition free_info :: "addr \<Rightarrow> ril_core \<Rightarrow> ril_core" where
  "free_info t S = S\<lparr>infos := (infos S)(t := None)\<rparr>"

definition RIL_onRequestComplete :: "commands \<Rightarrow> addr \<Rightarrow> int \<Rightarrow> response \<Rightarrow> ril_core \<Rightarrow> ril_core mem" where
  "RIL_onRequestComplete cmds t e resp S =
    (case checkAndDequeueRequestInfoIfAck t False S of
       None \<Rightarrow> None
     | Some (S1, False) \<Rightarrow> Some S1
     | Some (S1, True) \<Rightarrow>
         (case infos S1 t of
            None \<Rightarrow> None
          | Some r \<Rightarrow>
              if local_req r then Some (free_info t S1)
              else if cancelled r then Some (free_info t S1)
              else (let ack = (version S1 \<ge> 13 \<and> wasAckSent r);
                        S2 = (if ack then grabPartialWakeLock S1 else S1);
                        responseType = (if ack then RESPONSE_SOLICITED_ACK_EXP else RESPONSE_SOLICITED)
                    in map_option (free_info t) (respond cmds r responseType e resp S2))))"

definition sendErrorResponse :: "commands \<Rightarrow> addr \<Rightarrow> int \<Rightarrow> ril_core \<Rightarrow> ril_core mem" where
  "sendErrorResponse cmds pRI e S =
    (case infos S pRI of None \<Rightarrow> None | Some r \<Rightarrow> respond cmds r 0 e (PNull, 0) S)"

end
