(* ===== verification/Ril_Dispatch.thy ===== *)
theory Ril_Dispatch
  imports Ril_Request
begin

text \<open>
  How a request of the client reaches the vendor library, the dispatch functions of \<open>libril/ril_service.cpp\<close>:
  the request is added to the pending list, its arguments are copied into buffers of the C heap, the
  vendor is called, and the buffers are freed. \<open>temps\<close> counts the buffers that are allocated.
\<close>

subsection \<open>The vendor library\<close>

text \<open>What the vendor does with requests, at once or later; \<open>V\<close> is what it does before \<open>onRequest\<close> returns.\<close>

datatype vendor_act = VComplete addr int response | VAck addr

fun vendor_do :: "commands \<Rightarrow> vendor_act \<Rightarrow> ril_core \<Rightarrow> ril_core mem" where
  "vendor_do cmds (VComplete t e resp) S = RIL_onRequestComplete cmds t e resp S"
| "vendor_do cmds (VAck t) S = RIL_onRequestAck t S"

text \<open>
  The discipline of the vendor library, as \<open>ril.h\<close> documents it: it completes and acknowledges only requests
  it was given and has not completed; a response of the size of an integer to a request that is answered with
  one is an integer, the response to a request that is answered with a string is a string or null, and a
  card status of the right size is one, with at most the number of applications its array holds.
\<close>

definition handed :: "ril_core \<Rightarrow> addr set" where
  "handed S = (\<lambda>(_, _, t, _). t) ` set (vendor_calls S)"

definition string_requests :: "nat list" where
  "string_requests = [11, 51, 69, 100, 105, 118]"

definition int_requests :: "nat list" where
  "int_requests = [2, 3, 4, 5, 6, 7, 8, 42, 43, 55, 63, 74, 79, 81, 96, 104, 108, 136]"

definition RIL_CARD_MAX_APPS :: int where "RIL_CARD_MAX_APPS = 8"

definition fits_card :: "response \<Rightarrow> bool" where
  "fits_card resp \<longleftrightarrow> fst resp = PNull \<or> snd resp \<noteq> sizeof_RIL_CardStatus_v6 \<or>
    (case fst resp of
       PCard c \<Rightarrow> 0 \<le> num_applications c \<and> num_applications c \<le> RIL_CARD_MAX_APPS \<and>
         length (applications c) = nat RIL_CARD_MAX_APPS
     | _ \<Rightarrow> False)"

definition fits :: "nat \<Rightarrow> response \<Rightarrow> bool" where
  "fits request resp \<longleftrightarrow>
    (if request = 1 then fits_card resp
     else if request \<in> set string_requests then convertCharPtrToHidlString (fst resp) \<noteq> None
     else if request \<in> set int_requests \<and> snd resp = 4 then fst resp = PNull \<or> read_int (fst resp) \<noteq> None
     else True)"

fun vendor_ok :: "vendor_act \<Rightarrow> ril_core \<Rightarrow> bool" where
  "vendor_ok (VComplete t e resp) S \<longleftrightarrow>
     t \<in> handed S \<and> (case infos S t of None \<Rightarrow> False | Some r \<Rightarrow> fits (cmd r) resp)"
| "vendor_ok (VAck t) S \<longleftrightarrow> t \<in> handed S \<and> infos S t \<noteq> None"

definition vendor_try :: "commands \<Rightarrow> vendor_act \<Rightarrow> ril_core \<Rightarrow> ril_core mem" where
  "vendor_try cmds a S = (if vendor_ok a S then vendor_do cmds a S else Some S)"

type_synonym vendor = "vendor_call \<Rightarrow> vendor_act list"

definition CALL_ONREQUEST :: "commands \<Rightarrow> vendor \<Rightarrow> nat \<Rightarrow> payload \<Rightarrow> addr \<Rightarrow> int \<Rightarrow> ril_core \<Rightarrow> ril_core mem" where
  "CALL_ONREQUEST cmds V request data pRI slotId S =
    (let c = (request, data, pRI, slotId)
     in run_steps (vendor_try cmds) (V c) (S\<lparr>vendor_calls := vendor_calls S @ [c]\<rparr>))"

subsection \<open>Strings\<close>

text \<open>A \<open>hidl_string\<close>: its size, and the characters of \<open>c_str()\<close> up to the terminating zero.\<close>

record hidl_string =
  hs_size :: nat
  hs_chars :: string

definition hidl_of :: "string \<Rightarrow> hidl_string" where
  "hidl_of s = \<lparr>hs_size = length s, hs_chars = s\<rparr>"

definition new_temp :: "ril_core \<Rightarrow> bool \<times> ril_core" where
  "new_temp S = (case try_alloc S of (ok, S1) \<Rightarrow> (ok, if ok then S1\<lparr>temps := temps S1 + 1\<rparr> else S1))"

definition free_temp :: "ril_core \<Rightarrow> ril_core" where
  "free_temp S = S\<lparr>temps := temps S - 1\<rparr>"

fun memsetAndFreeStrings :: "string option list \<Rightarrow> ril_core \<Rightarrow> ril_core" where
  "memsetAndFreeStrings [] S = S"
| "memsetAndFreeStrings (p # ps) S = memsetAndFreeStrings ps (case p of None \<Rightarrow> S | Some _ \<Rightarrow> free_temp S)"

text \<open>The result says whether the copy succeeded; the pointer copied is \<open>None\<close> for a null pointer.\<close>

definition copyHidlStringToRil ::
  "commands \<Rightarrow> hidl_string \<Rightarrow> addr \<Rightarrow> bool \<Rightarrow> ril_core \<Rightarrow> (ril_core \<times> bool \<times> string option) mem" where
  "copyHidlStringToRil cmds src pRI allowEmpty S =
    (if hs_size src = 0 \<and> \<not> allowEmpty then Some (S, True, None)
     else (case new_temp S of
             (False, S1) \<Rightarrow> map_option (\<lambda>S2. (S2, False, None)) (sendErrorResponse cmds pRI RIL_E_NO_MEMORY S1)
           | (True, S1) \<Rightarrow>
               if length (hs_chars src) \<ge> hs_size src + 1
               then map_option (\<lambda>S2. (S2, False, None)) (sendErrorResponse cmds pRI RIL_E_INTERNAL_ERR (free_temp S1))
               else Some (S1, True, Some (hs_chars src))))"

text \<open>
  Strings copied one after another, each with its flag for empty strings; when one fails those copied before are
  freed. The loops of the dispatch functions use one flag for all.
\<close>

fun copy_each :: "commands \<Rightarrow> addr \<Rightarrow> (bool \<times> hidl_string) list \<Rightarrow> string option list \<Rightarrow> ril_core \<Rightarrow>
    (ril_core \<times> string option list option) mem" where
  "copy_each cmds pRI [] done S = Some (S, Some done)"
| "copy_each cmds pRI ((allowEmpty, s) # ss) done S =
    (case copyHidlStringToRil cmds s pRI allowEmpty S of
       None \<Rightarrow> None
     | Some (S1, False, _) \<Rightarrow> Some (memsetAndFreeStrings done S1, None)
     | Some (S1, True, p) \<Rightarrow> copy_each cmds pRI ss (done @ [p]) S1)"

definition copy_strings :: "commands \<Rightarrow> addr \<Rightarrow> bool \<Rightarrow> hidl_string list \<Rightarrow> string option list \<Rightarrow> ril_core \<Rightarrow>
    (ril_core \<times> string option list option) mem" where
  "copy_strings cmds pRI allowEmpty ss = copy_each cmds pRI (map (Pair allowEmpty) ss)"

subsection \<open>Dispatching\<close>

definition dispatchVoid :: "commands \<Rightarrow> vendor \<Rightarrow> int \<Rightarrow> int \<Rightarrow> nat \<Rightarrow> ril_core \<Rightarrow> (ril_core \<times> bool) mem" where
  "dispatchVoid cmds V serial slotId request S =
    (case addRequestToList (length cmds) serial slotId request S of
       (S1, None) \<Rightarrow> Some (S1, False)
     | (S1, Some pRI) \<Rightarrow> map_option (\<lambda>S2. (S2, True)) (CALL_ONREQUEST cmds V request PNull pRI slotId S1))"

definition dispatchString :: "commands \<Rightarrow> vendor \<Rightarrow> int \<Rightarrow> int \<Rightarrow> nat \<Rightarrow> string \<Rightarrow> ril_core \<Rightarrow> (ril_core \<times> bool) mem" where
  "dispatchString cmds V serial slotId request str S =
    (case addRequestToList (length cmds) serial slotId request S of
       (S1, None) \<Rightarrow> Some (S1, False)
     | (S1, Some pRI) \<Rightarrow>
         (case copyHidlStringToRil cmds (hidl_of str) pRI False S1 of
            None \<Rightarrow> None
          | Some (S2, False, _) \<Rightarrow> Some (S2, False)
          | Some (S2, True, p) \<Rightarrow>
              map_option (\<lambda>S3. (memsetAndFreeStrings [p] S3, True))
                (CALL_ONREQUEST cmds V request (case p of None \<Rightarrow> PNull | Some s \<Rightarrow> PString s) pRI slotId S2)))"

definition RIL_REQUEST_SET_NETWORK_SELECTION_MANUAL :: nat where "RIL_REQUEST_SET_NETWORK_SELECTION_MANUAL = 47"

definition dispatchStrings ::
  "commands \<Rightarrow> vendor \<Rightarrow> int \<Rightarrow> int \<Rightarrow> nat \<Rightarrow> bool \<Rightarrow> string list \<Rightarrow> ril_core \<Rightarrow> (ril_core \<times> bool) mem" where
  "dispatchStrings cmds V serial slotId request allowEmpty strs S =
    (case addRequestToList (length cmds) serial slotId request S of
       (S1, None) \<Rightarrow> Some (S1, False)
     | (S1, Some pRI) \<Rightarrow>
         (case new_temp S1 of
            (False, S2) \<Rightarrow> map_option (\<lambda>S3. (S3, False)) (sendErrorResponse cmds pRI RIL_E_NO_MEMORY S2)
          | (True, S2) \<Rightarrow>
              (case copy_strings cmds pRI allowEmpty (map hidl_of strs) [] S2 of
                 None \<Rightarrow> None
               | Some (S3, None) \<Rightarrow> Some (free_temp S3, False)
               | Some (S3, Some ps) \<Rightarrow>
                   (case CALL_ONREQUEST cmds V request (PStrings ps) pRI slotId S3 of
                      None \<Rightarrow> None
                    | Some S4 \<Rightarrow>
                        (let S5 = free_temp (memsetAndFreeStrings ps S4) in
                         if request = RIL_REQUEST_SET_NETWORK_SELECTION_MANUAL
                         then map_option (\<lambda>S6. (S6, True)) (RIL_onRequestComplete cmds pRI RIL_E_SUCCESS (PNull, 0) S5)
                         else Some (S5, True))))))"

definition dispatchStringVec ::
  "commands \<Rightarrow> vendor \<Rightarrow> int \<Rightarrow> int \<Rightarrow> nat \<Rightarrow> hidl_string list \<Rightarrow> ril_core \<Rightarrow> (ril_core \<times> bool) mem" where
  "dispatchStringVec cmds V serial slotId request data S =
    (case addRequestToList (length cmds) serial slotId request S of
       (S1, None) \<Rightarrow> Some (S1, False)
     | (S1, Some pRI) \<Rightarrow>
         (case new_temp S1 of
            (False, S2) \<Rightarrow> map_option (\<lambda>S3. (S3, False)) (sendErrorResponse cmds pRI RIL_E_NO_MEMORY S2)
          | (True, S2) \<Rightarrow>
              (case copy_strings cmds pRI False data [] S2 of
                 None \<Rightarrow> None
               | Some (S3, None) \<Rightarrow> Some (free_temp S3, False)
               | Some (S3, Some ps) \<Rightarrow>
                   map_option (\<lambda>S4. (free_temp (memsetAndFreeStrings ps S4), True))
                     (CALL_ONREQUEST cmds V request (PStrings ps) pRI slotId S3))))"

definition dispatchInts ::
  "commands \<Rightarrow> vendor \<Rightarrow> int \<Rightarrow> int \<Rightarrow> nat \<Rightarrow> int list \<Rightarrow> ril_core \<Rightarrow> (ril_core \<times> bool) mem" where
  "dispatchInts cmds V serial slotId request ints S =
    (case addRequestToList (length cmds) serial slotId request S of
       (S1, None) \<Rightarrow> Some (S1, False)
     | (S1, Some pRI) \<Rightarrow>
         (case new_temp S1 of
            (False, S2) \<Rightarrow> map_option (\<lambda>S3. (S3, False)) (sendErrorResponse cmds pRI RIL_E_NO_MEMORY S2)
          | (True, S2) \<Rightarrow>
              map_option (\<lambda>S3. (free_temp S3, True)) (CALL_ONREQUEST cmds V request (PInts ints) pRI slotId S2)))"

text \<open>The arguments of call forwarding and of a SIM command: their numbers, and a string.\<close>

record call_forward_info =
  cf_status :: int
  cf_reason :: int
  cf_serviceClass :: int
  cf_toa :: int
  cf_number :: hidl_string
  cf_timeSeconds :: int

definition dispatchCallForwardStatus ::
  "commands \<Rightarrow> vendor \<Rightarrow> int \<Rightarrow> int \<Rightarrow> nat \<Rightarrow> call_forward_info \<Rightarrow> ril_core \<Rightarrow> (ril_core \<times> bool) mem" where
  "dispatchCallForwardStatus cmds V serial slotId request callInfo S =
    (case addRequestToList (length cmds) serial slotId request S of
       (S1, None) \<Rightarrow> Some (S1, False)
     | (S1, Some pRI) \<Rightarrow>
         (case copyHidlStringToRil cmds (cf_number callInfo) pRI False S1 of
            None \<Rightarrow> None
          | Some (S2, False, _) \<Rightarrow> Some (S2, False)
          | Some (S2, True, p) \<Rightarrow>
              map_option (\<lambda>S3. (memsetAndFreeStrings [p] S3, True))
                (CALL_ONREQUEST cmds V request (PStruct ''RIL_CallForwardInfo''
                   [cf_status callInfo, cf_reason callInfo, cf_serviceClass callInfo, cf_toa callInfo, cf_timeSeconds callInfo]
                   [p]) pRI slotId S2)))"

definition dispatchRaw ::
  "commands \<Rightarrow> vendor \<Rightarrow> int \<Rightarrow> int \<Rightarrow> nat \<Rightarrow> nat list \<Rightarrow> ril_core \<Rightarrow> (ril_core \<times> bool) mem" where
  "dispatchRaw cmds V serial slotId request rawBytes S =
    (case addRequestToList (length cmds) serial slotId request S of
       (S1, None) \<Rightarrow> Some (S1, False)
     | (S1, Some pRI) \<Rightarrow> map_option (\<lambda>S2. (S2, True)) (CALL_ONREQUEST cmds V request (PBytes rawBytes) pRI slotId S1))"

record sim_apdu =
  ap_sessionId :: int
  ap_cla :: int
  ap_instruction :: int
  ap_p1 :: int
  ap_p2 :: int
  ap_p3 :: int
  ap_data :: hidl_string

definition dispatchIccApdu ::
  "commands \<Rightarrow> vendor \<Rightarrow> int \<Rightarrow> int \<Rightarrow> nat \<Rightarrow> sim_apdu \<Rightarrow> ril_core \<Rightarrow> (ril_core \<times> bool) mem" where
  "dispatchIccApdu cmds V serial slotId request message S =
    (case addRequestToList (length cmds) serial slotId request S of
       (S1, None) \<Rightarrow> Some (S1, False)
     | (S1, Some pRI) \<Rightarrow>
         (case copyHidlStringToRil cmds (ap_data message) pRI False S1 of
            None \<Rightarrow> None
          | Some (S2, False, _) \<Rightarrow> Some (S2, False)
          | Some (S2, True, p) \<Rightarrow>
              map_option (\<lambda>S3. (memsetAndFreeStrings [p] S3, True))
                (CALL_ONREQUEST cmds V request (PStruct ''RIL_SIM_APDU''
                   [ap_sessionId message, ap_cla message, ap_instruction message, ap_p1 message, ap_p2 message, ap_p3 message]
                   [p]) pRI slotId S2)))"

text \<open>
  What the methods do that fill a structure for the vendor: \<open>n\<close> buffers are allocated, the strings of the structure
  are copied (those of \<open>lits\<close> are not, they are passed as they are), and the arguments may turn out to be invalid; then the request is refused with the error
  \<open>refuse\<close>. Everything allocated is freed, before the error answer or after the call.
\<close>

fun alloc_buffers :: "nat \<Rightarrow> ril_core \<Rightarrow> ril_core \<times> bool" where
  "alloc_buffers 0 S = (S, True)"
| "alloc_buffers (Suc n) S =
    (case new_temp S of
       (False, S1) \<Rightarrow> (S1, False)
     | (True, S1) \<Rightarrow> (case alloc_buffers n S1 of (S2, ok) \<Rightarrow> (if ok then S2 else free_temp S2, ok)))"

definition free_buffers :: "nat \<Rightarrow> ril_core \<Rightarrow> ril_core" where
  "free_buffers n S = S\<lparr>temps := temps S - int n\<rparr>"

definition dispatchStruct ::
  "commands \<Rightarrow> vendor \<Rightarrow> int \<Rightarrow> int \<Rightarrow> nat \<Rightarrow> nat \<Rightarrow> string \<Rightarrow> int list \<Rightarrow> (bool \<times> hidl_string) list \<Rightarrow>
    string list \<Rightarrow> int option \<Rightarrow> ril_core \<Rightarrow> (ril_core \<times> bool) mem" where
  "dispatchStruct cmds V serial slotId request n name ints strs lits refuse S =
    (case addRequestToList (length cmds) serial slotId request S of
       (S1, None) \<Rightarrow> Some (S1, False)
     | (S1, Some pRI) \<Rightarrow>
         (case alloc_buffers n S1 of
            (S2, False) \<Rightarrow> map_option (\<lambda>S3. (S3, False)) (sendErrorResponse cmds pRI RIL_E_NO_MEMORY S2)
          | (S2, True) \<Rightarrow>
              (case copy_each cmds pRI strs [] S2 of
                 None \<Rightarrow> None
               | Some (S3, None) \<Rightarrow> Some (free_buffers n S3, False)
               | Some (S3, Some ps) \<Rightarrow>
                   (case refuse of
                      Some e \<Rightarrow> map_option (\<lambda>S4. (S4, False))
                        (sendErrorResponse cmds pRI e (free_buffers n (memsetAndFreeStrings ps S3)))
                    | None \<Rightarrow> map_option (\<lambda>S4. (free_buffers n (memsetAndFreeStrings ps S4), True))
                        (CALL_ONREQUEST cmds V request (PStruct name ints (ps @ map Some lits)) pRI slotId S3)))))"

subsection \<open>Activation of the subscriptions\<close>

definition RIL_REQUEST_SET_UICC_SUBSCRIPTION :: nat where "RIL_REQUEST_SET_UICC_SUBSCRIPTION = 122"
definition RIL_UICC_SUBSCRIPTION_ACTIVATE :: int where "RIL_UICC_SUBSCRIPTION_ACTIVATE = 1"

text \<open>A thread that was started for a slot, when its sleep is over.\<close>

definition subActivateThread :: "commands \<Rightarrow> vendor \<Rightarrow> int \<times> int \<Rightarrow> ril_core \<Rightarrow> ril_core mem" where
  "subActivateThread cmds V a S =
    (case a of (slotId, appIndex) \<Rightarrow>
      (case addRequestToList (length cmds) (-100 - slotId) slotId RIL_REQUEST_SET_UICC_SUBSCRIPTION S of
         (S1, None) \<Rightarrow> Some S1
       | (S1, Some pRI) \<Rightarrow>
           CALL_ONREQUEST cmds V RIL_REQUEST_SET_UICC_SUBSCRIPTION
             (PStruct ''RIL_SelectUiccSub'' [slotId, appIndex, slotId, RIL_UICC_SUBSCRIPTION_ACTIVATE] []) pRI slotId S1))"

definition activation_step :: "commands \<Rightarrow> vendor \<Rightarrow> nat \<Rightarrow> ril_core \<Rightarrow> ril_core mem" where
  "activation_step cmds V n S =
    (if n < length (act_threads S)
     then subActivateThread cmds V (act_threads S ! n)
            (S\<lparr>act_threads := take n (act_threads S) @ drop (Suc n) (act_threads S)\<rparr>)
     else Some S)"

subsection \<open>The requests of the client\<close>

text \<open>One constructor per dispatch function, and the data the vendor is to get.\<close>

datatype client_request =
    ReqVoid
  | ReqString string
  | ReqStrings bool "string list"
  | ReqStringVec "hidl_string list"
  | ReqInts "int list"
  | ReqCallForward call_forward_info
  | ReqRaw "nat list"
  | ReqApdu sim_apdu
  | ReqStruct nat string "int list" "(bool \<times> hidl_string) list" "string list" "int option"

fun dispatch :: "commands \<Rightarrow> vendor \<Rightarrow> int \<Rightarrow> int \<Rightarrow> nat \<Rightarrow> client_request \<Rightarrow> ril_core \<Rightarrow> (ril_core \<times> bool) mem" where
  "dispatch cmds V serial slotId request ReqVoid S = dispatchVoid cmds V serial slotId request S"
| "dispatch cmds V serial slotId request (ReqString s) S = dispatchString cmds V serial slotId request s S"
| "dispatch cmds V serial slotId request (ReqStrings ae ss) S = dispatchStrings cmds V serial slotId request ae ss S"
| "dispatch cmds V serial slotId request (ReqStringVec ss) S = dispatchStringVec cmds V serial slotId request ss S"
| "dispatch cmds V serial slotId request (ReqInts is) S = dispatchInts cmds V serial slotId request is S"
| "dispatch cmds V serial slotId request (ReqCallForward c) S = dispatchCallForwardStatus cmds V serial slotId request c S"
| "dispatch cmds V serial slotId request (ReqRaw bs) S = dispatchRaw cmds V serial slotId request bs S"
| "dispatch cmds V serial slotId request (ReqApdu m) S = dispatchIccApdu cmds V serial slotId request m S"
| "dispatch cmds V serial slotId request (ReqStruct n nm is ss ls e) S = dispatchStruct cmds V serial slotId request n nm is ss ls e S"

definition copied :: "bool \<Rightarrow> hidl_string \<Rightarrow> string option" where
  "copied allowEmpty src = (if hs_size src = 0 \<and> \<not> allowEmpty then None else Some (hs_chars src))"

fun request_data :: "client_request \<Rightarrow> payload" where
  "request_data ReqVoid = PNull"
| "request_data (ReqString s) = (if s = [] then PNull else PString s)"
| "request_data (ReqStrings ae ss) = PStrings (map (\<lambda>s. copied ae (hidl_of s)) ss)"
| "request_data (ReqStringVec ss) = PStrings (map (copied False) ss)"
| "request_data (ReqInts is) = PInts is"
| "request_data (ReqCallForward c) = PStruct ''RIL_CallForwardInfo''
     [cf_status c, cf_reason c, cf_serviceClass c, cf_toa c, cf_timeSeconds c] [copied False (cf_number c)]"
| "request_data (ReqRaw bs) = PBytes bs"
| "request_data (ReqApdu m) = PStruct ''RIL_SIM_APDU''
     [ap_sessionId m, ap_cla m, ap_instruction m, ap_p1 m, ap_p2 m, ap_p3 m] [copied False (ap_data m)]"
| "request_data (ReqStruct n nm is ss ls e) = PStruct nm is (map (\<lambda>(ae, s). copied ae s) ss @ map Some ls)"

end
