(* ===== verification/Ril_Request_Props.thy ===== *)
theory Ril_Request_Props
  imports Ril_Dispatch
begin

text \<open>
  Every request gets at most one answer and no freed request is read: the invariant of the pending lists, and a
  potential, the answers a serial number has had plus the requests with this number that are with the vendor.
\<close>

subsection \<open>Response functions\<close>

text \<open>
  A response function calls one method of the client at most once, with the serial number of the request, and
  exactly once when the interface it needs is registered and the client alive; it changes nothing else.
  \<open>R\<close> holds the interfaces and the methods.
\<close>

text \<open>States that differ in nothing the invariant depends on.\<close>

text \<open>The activations of a slot's subscription that can still start: threads that sleep, and one that was not triggered.\<close>

definition act_budget :: "(int \<times> int) list \<Rightarrow> (int \<Rightarrow> bool) \<Rightarrow> int \<Rightarrow> nat" where
  "act_budget ths done slotId = length (filter (\<lambda>(s, _). s = slotId) ths) + (if done slotId then 0 else 1)"

definition act_less :: "ril_core \<Rightarrow> ril_core \<Rightarrow> bool" where
  "act_less S S' \<longleftrightarrow> (\<forall>n. act_budget (act_threads S') (sub_activated S') n \<le> act_budget (act_threads S) (sub_activated S) n)"

lemma act_less_refl [simp]: "act_less S S"
  by (simp add: act_less_def)

lemma act_less_trans: "act_less S S' \<Longrightarrow> act_less S' S'' \<Longrightarrow> act_less S S''"
  unfolding act_less_def using le_trans by blast

lemma act_less_updates [simp]:
  "act_less A (S\<lparr>infos := x0\<rparr>) = act_less A S" "act_less (S\<lparr>infos := x0\<rparr>) A = act_less S A"
  "act_less A (S\<lparr>pending := x1\<rparr>) = act_less A S" "act_less (S\<lparr>pending := x1\<rparr>) A = act_less S A"
  "act_less A (S\<lparr>next_info := x2\<rparr>) = act_less A S" "act_less (S\<lparr>next_info := x2\<rparr>) A = act_less S A"
  "act_less A (S\<lparr>allocs := x3\<rparr>) = act_less A S" "act_less (S\<lparr>allocs := x3\<rparr>) A = act_less S A"
  "act_less A (S\<lparr>temps := x4\<rparr>) = act_less A S" "act_less (S\<lparr>temps := x4\<rparr>) A = act_less S A"
  "act_less A (S\<lparr>has_client := x5\<rparr>) = act_less A S" "act_less (S\<lparr>has_client := x5\<rparr>) A = act_less S A"
  "act_less A (S\<lparr>client_events := x6\<rparr>) = act_less A S" "act_less (S\<lparr>client_events := x6\<rparr>) A = act_less S A"
  "act_less A (S\<lparr>vendor_calls := x7\<rparr>) = act_less A S" "act_less (S\<lparr>vendor_calls := x7\<rparr>) A = act_less S A"
  "act_less A (S\<lparr>wakelock_held := x8\<rparr>) = act_less A S" "act_less (S\<lparr>wakelock_held := x8\<rparr>) A = act_less S A"
  "act_less A (S\<lparr>wakelock_count := x9\<rparr>) = act_less A S" "act_less (S\<lparr>wakelock_count := x9\<rparr>) A = act_less S A"
  "act_less A (S\<lparr>wake_timers := x10\<rparr>) = act_less A S" "act_less (S\<lparr>wake_timers := x10\<rparr>) A = act_less S A"
  "act_less A (S\<lparr>next_timer := x11\<rparr>) = act_less A S" "act_less (S\<lparr>next_timer := x11\<rparr>) A = act_less S A"
  "act_less A (S\<lparr>last_timer := x12\<rparr>) = act_less A S" "act_less (S\<lparr>last_timer := x12\<rparr>) A = act_less S A"
  by (simp_all add: act_less_def)

definition same_core :: "ril_core \<Rightarrow> ril_core \<Rightarrow> bool" where
  "same_core S S' \<longleftrightarrow> infos S' = infos S \<and> pending S' = pending S \<and> next_info S' = next_info S \<and>
    vendor_calls S' = vendor_calls S \<and> sims S' = sims S \<and> act_less S S'"

definition reachable :: "client_iface \<Rightarrow> int \<Rightarrow> ril_core \<Rightarrow> bool" where
  "reachable i slotId S \<longleftrightarrow> available i slotId S \<and> \<not> client_dead S i slotId"

definition gives_answer :: "client_iface \<Rightarrow> int \<Rightarrow> int \<Rightarrow> string \<Rightarrow> ril_core \<Rightarrow> ril_core \<Rightarrow> bool" where
  "gives_answer i slotId serial nm S S' \<longleftrightarrow>
    same_core S S' \<and> temps S' = temps S \<and>
    (\<exists>evs. client_events S' = client_events S @ evs \<and>
      (evs = [] \<and> \<not> reachable i slotId S \<or> (\<exists>info v. evs = [Response slotId nm info v] \<and> ri_serial info = serial)))"

definition answers :: "(response \<Rightarrow> bool) \<Rightarrow> (client_iface \<times> string) set \<Rightarrow> response_fun \<Rightarrow> bool" where
  "answers ok R f \<longleftrightarrow> (\<forall>slotId responseType serial e resp S. ok resp \<longrightarrow>
    (\<exists>S' i nm. f slotId responseType serial e resp S = Some S' \<and> (i, nm) \<in> R \<and> gives_answer i slotId serial nm S S'))"

lemma same_core_refl [simp]: "same_core S S"
  by (simp add: same_core_def)

lemma gives_none: "\<not> available i slotId S \<Longrightarrow> gives_answer i slotId serial nm S S"
  by (simp add: gives_answer_def reachable_def)

lemma gives_call:
  assumes "ri_serial info = serial"
  shows "gives_answer i slotId serial nm S (call_client i slotId (Response slotId nm info v) S)"
  using assms by (simp add: gives_answer_def call_client_def forget_client_def same_core_def reachable_def)

lemma populate_serial [simp]:
  "ri_serial (populateResponseInfo serial rt e) = serial" "ri_serial (invalid e info) = ri_serial info"
  by (simp_all add: populateResponseInfo_def invalid_def)

text \<open>The shape all response functions have: a computation that may fail on a payload, then one call.\<close>

lemma answers_call:
  assumes "\<And>slotId rt serial e resp S. ok resp \<Longrightarrow>
      \<exists>info v. (if available i slotId S then f slotId rt serial e resp S = Some (call_client i slotId (Response slotId nm info v) S)
        else f slotId rt serial e resp S = Some S) \<and> ri_serial info = serial"
  shows "answers ok {(i, nm)} f"
  unfolding answers_def
proof (intro allI impI)
  fix slotId rt serial e resp S
  assume "ok resp"
  then obtain info v where f: "if available i slotId S then f slotId rt serial e resp S = Some (call_client i slotId (Response slotId nm info v) S)
        else f slotId rt serial e resp S = Some S" "ri_serial info = serial"
    using assms by blast
  show "\<exists>S' j n. f slotId rt serial e resp S = Some S' \<and> (j, n) \<in> {(i, nm)} \<and> gives_answer j slotId serial n S S'"
    using f gives_call [OF f(2)] gives_none by (cases "available i slotId S") auto
qed

lemma answers_plain: "answers ok {(i, nm)} (plain_response i nm)"
  by (rule answers_call) (auto simp: plain_response_def)

lemma answers_data: "answers ok {(i, nm)} (data_response C i nm)"
proof (rule answers_call)
  fix slotId rt serial e resp S
  show "\<exists>info v. (if available i slotId S then data_response C i nm slotId rt serial e resp S = Some (call_client i slotId (Response slotId nm info v) S)
        else data_response C i nm slotId rt serial e resp S = Some S) \<and> ri_serial info = serial"
    by (cases "C nm resp") (auto simp: data_response_def Let_def)
qed

lemma answers_string:
  assumes "\<And>resp. ok resp \<Longrightarrow> convertCharPtrToHidlString (fst resp) \<noteq> None"
  shows "answers ok {(Radio, nm)} (string_response nm)"
proof (rule answers_call)
  fix slotId rt serial e resp and S :: ril_core
  assume "ok resp"
  then obtain s where "convertCharPtrToHidlString (fst resp) = Some s" using assms by blast
  then show "\<exists>info v. (if available Radio slotId S then string_response nm slotId rt serial e resp S = Some (call_client Radio slotId (Response slotId nm info v) S)
        else string_response nm slotId rt serial e resp S = Some S) \<and> ri_serial info = serial"
    by (auto simp: string_response_def)
qed

lemma responseInt_ok:
  assumes "snd resp = 4 \<Longrightarrow> fst resp = PNull \<or> read_int (fst resp) \<noteq> None"
  shows "\<exists>info i. responseInt serial rt e resp = Some (info, i) \<and> ri_serial info = serial"
    and "\<exists>info i. responseIntOrEmpty serial rt e resp = Some (info, i) \<and> ri_serial info = serial"
  using assms by (auto simp: responseInt_def responseIntOrEmpty_def Let_def)

lemma answers_int:
  assumes "\<And>resp. ok resp \<Longrightarrow> snd resp = 4 \<Longrightarrow> fst resp = PNull \<or> read_int (fst resp) \<noteq> None"
  shows "answers ok {(Radio, nm)} (int_response nm)" "answers ok {(Radio, nm)} (int_or_empty_response nm)"
proof -
  show "answers ok {(Radio, nm)} (int_response nm)"
  proof (rule answers_call)
    fix slotId rt serial e resp and S :: ril_core
    assume "ok resp"
    with responseInt_ok(1) [OF assms, of resp] obtain info i where
      "responseInt serial rt e resp = Some (info, i)" "ri_serial info = serial" by blast
    then show "\<exists>info v. (if available Radio slotId S then int_response nm slotId rt serial e resp S = Some (call_client Radio slotId (Response slotId nm info v) S)
        else int_response nm slotId rt serial e resp S = Some S) \<and> ri_serial info = serial"
      by (intro exI [of _ info] exI [of _ "Some (PInts [i])"]) (simp add: int_response_def)
  qed
  show "answers ok {(Radio, nm)} (int_or_empty_response nm)"
  proof (rule answers_call)
    fix slotId rt serial e resp and S :: ril_core
    assume "ok resp"
    with responseInt_ok(2) [OF assms, of resp] obtain info i where
      "responseIntOrEmpty serial rt e resp = Some (info, i)" "ri_serial info = serial" by blast
    then show "\<exists>info v. (if available Radio slotId S then int_or_empty_response nm slotId rt serial e resp S = Some (call_client Radio slotId (Response slotId nm info v) S)
        else int_or_empty_response nm slotId rt serial e resp S = Some S) \<and> ri_serial info = serial"
      by (intro exI [of _ info] exI [of _ "Some (PInts [i])"]) (simp add: int_or_empty_response_def)
  qed
qed

text \<open>The card status: the activation it may start changes nothing the invariant depends on.\<close>

lemma start_activation_budget: "act_less S (start_activation slotId c S)"
proof -
  have "act_budget (act_threads (start_activation slotId c S)) (sub_activated (start_activation slotId c S)) n
      \<le> act_budget (act_threads S) (sub_activated S) n" for n
    by (auto simp: start_activation_def try_alloc_def act_budget_def split: bool.split)
  then show ?thesis by (simp add: act_less_def)
qed

lemma start_activation_core:
  "same_core S (start_activation slotId c S)" "temps (start_activation slotId c S) = temps S"
  "client_events (start_activation slotId c S) = client_events S"
  "reachable i n (start_activation slotId c S) = reachable i n S"
  using start_activation_budget [of S slotId c]
  by (auto simp: start_activation_def try_alloc_def same_core_def reachable_def available_def split: bool.split)

lemma gives_after:
  assumes "same_core S S1" "temps S1 = temps S" "client_events S1 = client_events S" "reachable i slotId S1 = reachable i slotId S"
    "gives_answer i slotId serial nm S1 S2"
  shows "gives_answer i slotId serial nm S S2"
  using assms act_less_trans by (auto simp: gives_answer_def same_core_def)

lemma answers_card: "answers fits_card {(Radio, ''getIccCardStatusResponse'')} getIccCardStatusResponse"
  unfolding answers_def
proof (intro allI impI)
  fix slotId rt serial e resp S
  assume ok: "fits_card resp"
  have ser: "ri_serial (populateResponseInfo serial rt e) = serial" "ri_serial (invalid e (populateResponseInfo serial rt e)) = serial"
    by simp_all
  show "\<exists>S' i nm. getIccCardStatusResponse slotId rt serial e resp S = Some S' \<and>
    (i, nm) \<in> {(Radio, ''getIccCardStatusResponse'')} \<and> gives_answer i slotId serial nm S S'"
  proof (cases "available Radio slotId S")
    case False
    then show ?thesis using gives_none [OF False] by (simp add: getIccCardStatusResponse_def)
  next
    case True
    show ?thesis
    proof (cases "fst resp = PNull \<or> snd resp \<noteq> sizeof_RIL_CardStatus_v6 \<or> (\<exists>c. fst resp = PCard c \<and> card_invalid c)")
      case refuse: True
      then show ?thesis using gives_call [OF ser(2)] True by (auto simp: getIccCardStatusResponse_def Let_def)
    next
      case False
      with ok obtain c where c: "fst resp = PCard c" "\<not> card_invalid c" "snd resp = sizeof_RIL_CardStatus_v6"
        "0 \<le> num_applications c" "num_applications c \<le> RIL_CARD_MAX_APPS" "length (applications c) = nat RIL_CARD_MAX_APPS"
        by (auto simp: fits_card_def split: payload.splits)
      then obtain c' where "convert_card c = Some c'" by (auto simp: convert_card_def)
      then show ?thesis using True c gives_after [OF start_activation_core(1-3,4) gives_call [OF ser(1)]]
        by (simp add: getIccCardStatusResponse_def Let_def)
    qed
  qed
qed

lemma fits_null [simp]: "fits n (PNull, 0)"
  by (simp add: fits_def fits_card_def convertCharPtrToHidlString_def)

lemma answers_subset: "answers ok R f \<Longrightarrow> R \<subseteq> R' \<Longrightarrow> answers ok R' f"
  unfolding answers_def by blast

subsection \<open>The invariant and the potential\<close>

definition usable :: "commands \<Rightarrow> nat \<Rightarrow> bool" where
  "usable cmds request \<longleftrightarrow> (request < length cmds \<longrightarrow> snd (cmds ! request) \<noteq> None)"

definition core_inv :: "commands \<Rightarrow> ril_core \<Rightarrow> bool" where
  "core_inv cmds S \<longleftrightarrow>
    (\<forall>t r. infos S t = Some r \<longrightarrow> t < next_info S \<and> t \<in> set (pending S (hook (sims S) (socket_id r))) \<and>
       cmd r < length cmds \<and> snd (cmds ! cmd r) \<noteq> None) \<and>
    (\<forall>h. distinct (pending S h) \<and> (\<forall>t\<in>set (pending S h). \<exists>r. infos S t = Some r \<and> hook (sims S) (socket_id r) = h)) \<and>
    (\<forall>t\<in>handed S. t < next_info S)"

fun answers_serial :: "int \<Rightarrow> client_event \<Rightarrow> bool" where
  "answers_serial s (Response _ _ info _) = (ri_serial info = s)"
| "answers_serial s (Acknowledge _ _) = False"

definition answered :: "int \<Rightarrow> ril_core \<Rightarrow> nat" where
  "answered s S = length (filter (answers_serial s) (client_events S))"

definition with_vendor :: "int \<Rightarrow> ril_core \<Rightarrow> addr set" where
  "with_vendor s S = {t \<in> handed S. \<exists>r. infos S t = Some r \<and> token r = s}"

definition potential :: "int \<Rightarrow> ril_core \<Rightarrow> nat" where
  "potential s S = answered s S + card (with_vendor s S)"

lemma finite_with_vendor [simp]: "finite (with_vendor s S)"
  by (rule finite_subset [of _ "handed S"]) (auto simp: with_vendor_def handed_def)

lemma hook_one: "sims S < 2 \<Longrightarrow> hook (sims S) s = 0"
  by (simp add: hook_def)

lemma core_inv_info:
  assumes "core_inv cmds S" "infos S t = Some r"
  shows "t < next_info S" "t \<in> set (pending S (hook (sims S) (socket_id r)))" "cmd r < length cmds" "snd (cmds ! cmd r) \<noteq> None"
  using assms by (auto simp: core_inv_def)

lemma same_core_inv: "same_core S S' \<Longrightarrow> core_inv cmds S' = core_inv cmds S"
  by (simp add: same_core_def core_inv_def handed_def)

lemma same_core_trans: "same_core S S' \<Longrightarrow> same_core S' S'' \<Longrightarrow> same_core S S''"
  using act_less_trans by (auto simp: same_core_def)

lemma same_core_vendor: "same_core S S' \<Longrightarrow> with_vendor s S' = with_vendor s S"
  by (simp add: same_core_def with_vendor_def handed_def)

lemma same_core_wake [simp]: "same_core S (grabPartialWakeLock S)" "client_events (grabPartialWakeLock S) = client_events S"
  "temps (grabPartialWakeLock S) = temps S"
  by (auto simp: same_core_def grabPartialWakeLock_def internalRequestTimedCallback_def try_alloc_def cancel_last_def
      split: option.split prod.split bool.split)

lemma same_core_release [simp]: "same_core S (releaseWakeLock S)" "client_events (releaseWakeLock S) = client_events S"
  "temps (releaseWakeLock S) = temps S"
  by (auto simp: same_core_def releaseWakeLock_def cancel_last_def split: option.split)

lemma gives_answer_core:
  assumes "gives_answer i slotId serial nm S S'"
  shows "same_core S S'" "temps S' = temps S" "answered s S' \<le> answered s S + (if s = serial then 1 else 0)"
  using assms by (auto simp: gives_answer_def same_core_def answered_def)

subsection \<open>What the vendor does\<close>

lemma core_inv_remove:
  assumes inv: "core_inv cmds S" and r: "infos S t = Some r" and h: "h = hook (sims S) (socket_id r)"
    and S': "infos S' = (infos S)(t := None)" "pending S' = (pending S)(h := remove1 t (pending S h))"
      "next_info S' = next_info S" "vendor_calls S' = vendor_calls S" "sims S' = sims S"
  shows "core_inv cmds S'"
proof -
  have a: "\<forall>u q. infos S' u = Some q \<longrightarrow> u < next_info S' \<and> u \<in> set (pending S' (hook (sims S') (socket_id q))) \<and>
      cmd q < length cmds \<and> snd (cmds ! cmd q) \<noteq> None"
    using inv by (auto simp: core_inv_def S' in_set_remove1 split: if_splits)
  have d: "distinct (pending S k)" for k using inv by (simp add: core_inv_def)
  have m: "\<exists>q. infos S' u = Some q \<and> hook (sims S') (socket_id q) = k" if u: "u \<in> set (pending S' k)" for u k
  proof -
    have "u \<in> set (pending S k)" using u set_remove1_subset by (fastforce simp: S' split: if_splits)
    moreover have "\<forall>u\<in>set (pending S k). \<exists>q. infos S u = Some q \<and> hook (sims S) (socket_id q) = k"
      using inv by (simp add: core_inv_def)
    ultimately obtain q where q: "infos S u = Some q" "hook (sims S) (socket_id q) = k" by blast
    have "u \<noteq> t"
    proof
      assume "u = t"
      then have "k = h" using q r h by simp
      then show False using u d \<open>u = t\<close> by (simp add: S')
    qed
    with q show ?thesis by (simp add: S')
  qed
  have "\<forall>u\<in>handed S'. u < next_info S'" using inv by (simp add: core_inv_def handed_def S')
  moreover have "distinct (pending S' k)" for k using d by (simp add: S' distinct_remove1)
  ultimately show ?thesis using a m by (auto simp: core_inv_def)
qed

text \<open>What acts of the vendor keep.\<close>

definition kept :: "commands \<Rightarrow> ril_core \<Rightarrow> ril_core \<Rightarrow> bool" where
  "kept cmds S S' \<longleftrightarrow> core_inv cmds S' \<and> vendor_calls S' = vendor_calls S \<and> temps S' = temps S \<and> sims S' = sims S \<and>
    next_info S' = next_info S \<and> (\<forall>s. potential s S' \<le> potential s S) \<and> act_less S S' \<and>
    (\<forall>t. t \<notin> handed S \<longrightarrow> infos S' t = infos S t)"

lemma kept_refl: "core_inv cmds S \<Longrightarrow> kept cmds S S"
  by (simp add: kept_def)

lemma kept_trans:
  assumes "kept cmds S S'" "kept cmds S' S''"
  shows "kept cmds S S''"
proof -
  have "potential s S'' \<le> potential s S" for s
    by (rule le_trans [of _ "potential s S'"]) (use assms in \<open>simp_all add: kept_def\<close>)
  moreover have "handed S' = handed S" using assms(1) by (simp add: kept_def handed_def)
  moreover have "act_less S S''" by (rule act_less_trans [of _ S']) (use assms in \<open>simp_all add: kept_def\<close>)
  ultimately show ?thesis using assms by (simp add: kept_def)
qed

lemma kept_same:
  assumes "core_inv cmds S" "same_core S S'" "temps S' = temps S" "client_events S' = client_events S"
  shows "kept cmds S S'"
proof -
  have "core_inv cmds S'" using assms(1) same_core_inv [OF assms(2)] by simp
  moreover have "potential s S' = potential s S" for s
    using same_core_vendor [OF assms(2)] by (simp add: potential_def answered_def assms(4))
  ultimately show ?thesis using assms(2,3) by (simp add: kept_def same_core_def)
qed

locale command_table =
  fixes cmds :: commands
  assumes entry_answers: "n < length cmds \<Longrightarrow> snd (cmds ! n) = Some f \<Longrightarrow> \<exists>R. answers (fits n) R f"
begin

lemma respond_ok:
  assumes "cmd r < length cmds" "snd (cmds ! cmd r) \<noteq> None" "fits (cmd r) resp"
  shows "\<exists>S' i nm. respond cmds r rt e resp S = Some S' \<and> gives_answer i (socket_id r) (token r) nm S S'"
proof -
  obtain f where f: "snd (cmds ! cmd r) = Some f" using assms(2) by blast
  with entry_answers [OF assms(1)] obtain R where "answers (fits (cmd r)) R f" by blast
  with assms(3) have "\<exists>S' i nm. f (socket_id r) rt (token r) e resp S = Some S' \<and> gives_answer i (socket_id r) (token r) nm S S'"
    unfolding answers_def by blast
  then show ?thesis by (auto simp: respond_def f)
qed

lemma answer_and_free:
  assumes inv: "core_inv cmds S" and t: "t \<in> handed S" "infos S t = Some r"
    and S3: "same_core (S\<lparr>pending := (pending S)(h := remove1 t (pending S h))\<rparr>) S3" "temps S3 = temps S"
      "\<And>s. answered s S3 \<le> answered s S + (if s = token r then 1 else 0)"
    and h: "h = hook (sims S) (socket_id r)"
  shows "kept cmds S (free_info t S3)"
proof -
  have eqs: "infos (free_info t S3) = (infos S)(t := None)" "vendor_calls (free_info t S3) = vendor_calls S"
    "sims (free_info t S3) = sims S" "next_info (free_info t S3) = next_info S" "temps (free_info t S3) = temps S"
    "pending (free_info t S3) = (pending S)(h := remove1 t (pending S h))" "act_less S (free_info t S3)"
    using S3 by (auto simp: same_core_def free_info_def)
  have "core_inv cmds (free_info t S3)" by (rule core_inv_remove [OF inv t(2) h eqs(1) eqs(6) eqs(4) eqs(2) eqs(3)])
  moreover have "potential s (free_info t S3) \<le> potential s S" for s
  proof -
    have "handed (free_info t S3) = handed S" by (simp add: handed_def eqs)
    then have w: "with_vendor s (free_info t S3) = with_vendor s S - {t}"
      by (auto simp: with_vendor_def eqs split: if_splits)
    have a: "answered s (free_info t S3) \<le> answered s S + (if s = token r then 1 else 0)"
      using S3(3) [of s] by (simp add: answered_def free_info_def)
    show ?thesis
    proof (cases "s = token r")
      case True
      then have m: "t \<in> with_vendor s S" using t by (simp add: with_vendor_def)
      have "0 < card (with_vendor s S)" using m card_gt_0_iff finite_with_vendor by blast
      then show ?thesis unfolding potential_def w using a True card_Diff_singleton [OF m] by simp
    next
      case False
      have "card (with_vendor s S - {t}) \<le> card (with_vendor s S)" by (rule card_mono) auto
      then show ?thesis using a False by (simp add: potential_def w)
    qed
  qed
  moreover have "\<forall>u. u \<notin> handed S \<longrightarrow> infos (free_info t S3) u = infos S u" using t(1) by (auto simp: eqs)
  ultimately show ?thesis by (simp add: kept_def eqs)
qed

end

lemma checked_hook:
  assumes "infos S t = Some r"
  shows "(if 2 \<le> sims S then map_option (\<lambda>r. hook (sims S) (socket_id r)) (infos S t) else Some 0) =
    Some (hook (sims S) (socket_id r))"
  using assms hook_one [of S] by simp

lemma dequeued:
  assumes "core_inv cmds S" "infos S t = Some r"
  shows "checkAndDequeueRequestInfoIfAck t False S =
      Some (S\<lparr>pending := (pending S)(hook (sims S) (socket_id r) := remove1 t (pending S (hook (sims S) (socket_id r))))\<rparr>, True)"
    and "checkAndDequeueRequestInfoIfAck t True S = Some (S\<lparr>infos := (infos S)(t \<mapsto> r\<lparr>wasAckSent := True\<rparr>)\<rparr>, True)"
  unfolding checkAndDequeueRequestInfoIfAck_def checked_hook [OF assms(2)]
  using core_inv_info(2) [OF assms] assms(2) by simp_all

lemma not_pending:
  assumes "core_inv cmds S" "infos S t = None" "sims S < 2"
  shows "RIL_onRequestComplete cmds' t e resp S = Some S"
proof -
  have "t \<notin> set (pending S 0)" using assms(1,2) by (fastforce simp: core_inv_def)
  then show ?thesis using assms(3) by (simp add: RIL_onRequestComplete_def checkAndDequeueRequestInfoIfAck_def)
qed

lemma ack_ok:
  assumes inv: "core_inv cmds S" and t: "infos S t = Some r" "t \<in> handed S"
  shows "\<exists>S'. RIL_onRequestAck t S = Some S' \<and> kept cmds S S' \<and> (\<forall>u. infos S u \<noteq> None \<longrightarrow> infos S' u \<noteq> None)"
proof -
  let ?S = "S\<lparr>infos := (infos S)(t \<mapsto> r\<lparr>wasAckSent := True\<rparr>)\<rparr>"
  have core: "core_inv cmds ?S"
    using inv t(1) unfolding core_inv_def by (fastforce simp: handed_def split: if_splits)
  have "handed ?S = handed S" by (simp add: handed_def)
  then have "with_vendor s ?S = with_vendor s S" for s using t(1) by (auto simp: with_vendor_def)
  then have kept: "kept cmds S ?S" using core t(2) by (auto simp: kept_def potential_def answered_def)
  have call: "same_core ?S (call_client Radio n (Acknowledge n s) ?S)" "temps (call_client Radio n (Acknowledge n s) ?S) = temps S"
    "answered q (call_client Radio n (Acknowledge n s) ?S) = answered q ?S" for n s q
    by (auto simp: same_core_def answered_def call_client_def forget_client_def)
  have call_kept: "kept cmds ?S (call_client Radio n (Acknowledge n s) ?S)" for n s
    using core same_core_inv [OF call(1)] same_core_vendor [OF call(1)] call
    by (simp add: kept_def potential_def same_core_def)
  show ?thesis
  proof (cases "\<not> cancelled r \<and> available Radio (socket_id r) S")
    case True
    then have "RIL_onRequestAck t S = Some (call_client Radio (socket_id r) (Acknowledge (socket_id r) (token r)) ?S)"
      by (simp add: RIL_onRequestAck_def dequeued(2) [OF inv t(1)] acknowledgeRequest_def available_def)
    moreover have "infos (call_client Radio (socket_id r) (Acknowledge (socket_id r) (token r)) ?S) = infos ?S"
      using call(1) by (simp add: same_core_def)
    ultimately show ?thesis using kept_trans [OF kept call_kept] by simp
  next
    case False
    then have "RIL_onRequestAck t S = Some ?S"
      by (auto simp: RIL_onRequestAck_def dequeued(2) [OF inv t(1)] acknowledgeRequest_def available_def)
    then show ?thesis using kept by simp
  qed
qed

context command_table begin

lemma complete_ok:
  assumes inv: "core_inv cmds S" and t: "t \<in> handed S" "infos S t = Some r" and sh: "fits (cmd r) resp"
  shows "\<exists>S'. RIL_onRequestComplete cmds t e resp S = Some S' \<and> kept cmds S S'"
proof -
  define h where "h = hook (sims S) (socket_id r)"
  define S1 where "S1 = S\<lparr>pending := (pending S)(h := remove1 t (pending S h))\<rparr>"
  have d: "checkAndDequeueRequestInfoIfAck t False S = Some (S1, True)"
    unfolding S1_def h_def by (rule dequeued(1) [OF inv t(2)])
  have i: "infos S1 t = Some r" "temps S1 = temps S" "answered s S1 = answered s S" for s
    by (simp_all add: S1_def t(2) answered_def)
  note freed = answer_and_free [OF inv t _ _ _ h_def, folded S1_def]
  show ?thesis
  proof (cases "local_req r \<or> cancelled r")
    case True
    then have "RIL_onRequestComplete cmds t e resp S = Some (free_info t S1)"
      by (auto simp: RIL_onRequestComplete_def d i)
    then show ?thesis using freed [of S1] i by simp
  next
    case False
    define ack where "ack = (version S1 \<ge> 13 \<and> wasAckSent r)"
    define S2 where "S2 = (if ack then grabPartialWakeLock S1 else S1)"
    have S2: "same_core S1 S2" "temps S2 = temps S" "answered s S2 = answered s S" for s
      by (simp_all add: S2_def i) (simp add: answered_def, simp add: i(3) [unfolded answered_def])
    obtain S3 i nm where S3: "respond cmds r (if ack then RESPONSE_SOLICITED_ACK_EXP else RESPONSE_SOLICITED) e resp S2 = Some S3"
      "gives_answer i (socket_id r) (token r) nm S2 S3"
      using respond_ok [OF core_inv_info(3,4) [OF inv t(2)] sh] by blast
    have "RIL_onRequestComplete cmds t e resp S = Some (free_info t S3)"
      using False S3(1) by (simp add: RIL_onRequestComplete_def d i ack_def S2_def Let_def)
    moreover have "kept cmds S (free_info t S3)"
      using gives_answer_core [OF S3(2)] S2 by (intro freed) (auto intro: same_core_trans)
    ultimately show ?thesis by simp
  qed
qed

lemma vendor_try_ok:
  assumes inv: "core_inv cmds S"
  shows "\<exists>S'. vendor_try cmds a S = Some S' \<and> kept cmds S S' \<and>
    ((\<forall>t e r. a \<noteq> VComplete t e r) \<longrightarrow> (\<forall>u. infos S u \<noteq> None \<longrightarrow> infos S' u \<noteq> None))"
proof (cases "vendor_ok a S")
  case False
  then show ?thesis using kept_refl [OF inv] by (simp add: vendor_try_def)
next
  case True
  show ?thesis
  proof (cases a)
    case (VComplete t e resp)
    with True obtain r where "t \<in> handed S" "infos S t = Some r" "fits (cmd r) resp" by (auto split: option.splits)
    from complete_ok [OF inv this, of e] True VComplete show ?thesis by (auto simp: vendor_try_def)
  next
    case (VAck t)
    with True obtain r where "infos S t = Some r" "t \<in> handed S" by auto
    from ack_ok [OF inv this] True VAck show ?thesis by (auto simp: vendor_try_def)
  qed
qed

lemma vendor_acts_ok:
  assumes "core_inv cmds S"
  shows "\<exists>S'. run_steps (vendor_try cmds) as S = Some S' \<and> kept cmds S S' \<and>
    ((\<forall>t e r. VComplete t e r \<notin> set as) \<longrightarrow> (\<forall>u. infos S u \<noteq> None \<longrightarrow> infos S' u \<noteq> None))"
  using assms
proof (induction as arbitrary: S)
  case Nil
  then show ?case by (simp add: kept_refl)
next
  case (Cons a as)
  obtain S1 where S1: "vendor_try cmds a S = Some S1" "kept cmds S S1"
    "(\<forall>t e r. a \<noteq> VComplete t e r) \<longrightarrow> (\<forall>u. infos S u \<noteq> None \<longrightarrow> infos S1 u \<noteq> None)"
    using vendor_try_ok [OF Cons.prems] by blast
  then have "core_inv cmds S1" by (simp add: kept_def)
  from Cons.IH [OF this] obtain S2 where S2: "run_steps (vendor_try cmds) as S1 = Some S2" "kept cmds S1 S2"
    "(\<forall>t e r. VComplete t e r \<notin> set as) \<longrightarrow> (\<forall>u. infos S1 u \<noteq> None \<longrightarrow> infos S2 u \<noteq> None)" by blast
  have "(\<forall>u. infos S u \<noteq> None \<longrightarrow> infos S2 u \<noteq> None)" if "\<forall>t e r. VComplete t e r \<notin> set (a # as)"
    using that S1(3) S2(3) by force
  then show ?case using S1(1) S2(1) kept_trans [OF S1(2) S2(2)] by simp
qed

end

end
