(* ===== verification/Ril_Dispatch_Props.thy ===== *)
theory Ril_Dispatch_Props
  imports Ril_Request_Props
begin

text \<open>
  What every dispatch function does, whatever allocations fail and whatever the vendor does at once: the
  request reaches the vendor with its data, or it is refused with an error answer, and no buffer is leaked.
\<close>

subsection \<open>Copying the arguments\<close>

text \<open>All interfaces of the client are registered and alive.\<close>

definition all_reachable :: "int \<Rightarrow> ril_core \<Rightarrow> bool" where
  "all_reachable slotId S \<longleftrightarrow> (\<forall>i. reachable i slotId S)"

lemma same_reachable:
  assumes "has_client S' = has_client S" "client_dead S' = client_dead S" "oem_enabled S' = oem_enabled S"
  shows "all_reachable slotId S' = all_reachable slotId S"
  using assms by (simp add: all_reachable_def reachable_def available_def)

text \<open>The arguments were copied, \<open>n\<close> buffers are held; the request was refused, its error answer sent.\<close>

definition prepared :: "ril_core \<Rightarrow> ril_core \<Rightarrow> int \<Rightarrow> bool" where
  "prepared S S' n \<longleftrightarrow> same_core S S' \<and> temps S' = temps S + n \<and> client_events S' = client_events S \<and>
    has_client S' = has_client S \<and> client_dead S' = client_dead S \<and> oem_enabled S' = oem_enabled S"

definition refused :: "int \<Rightarrow> int \<Rightarrow> ril_core \<Rightarrow> ril_core \<Rightarrow> int \<Rightarrow> bool" where
  "refused slotId serial S S' n \<longleftrightarrow> same_core S S' \<and> temps S' = temps S + n \<and>
    (\<exists>evs. client_events S' = client_events S @ evs \<and>
      (evs = [] \<and> \<not> all_reachable slotId S \<or>
       (\<exists>nm info v. evs = [Response slotId nm info v] \<and> ri_serial info = serial)))"

definition live :: "string option list \<Rightarrow> int" where
  "live ps = int (length (filter (\<lambda>p. p \<noteq> None) ps))"

lemma live_simps [simp]: "live [] = 0" "live (p # ps) = (if p = None then 0 else 1) + live ps" "live (ps @ qs) = live ps + live qs"
  by (simp_all add: live_def)

lemma memsetAndFreeStrings_eq [simp]: "memsetAndFreeStrings ps S = S\<lparr>temps := temps S - live ps\<rparr>"
  by (induction ps arbitrary: S) (auto simp: free_temp_def split: option.split)

lemma prepared_refl [simp]: "prepared S S 0"
  by (simp add: prepared_def)

lemma prepared_trans: "prepared S S' m \<Longrightarrow> prepared S' S'' n \<Longrightarrow> prepared S S'' (m + n)"
  using same_core_trans [of S S' S''] by (simp add: prepared_def)

lemma prepared_refused: "prepared S S' m \<Longrightarrow> refused slotId serial S' S'' n \<Longrightarrow> refused slotId serial S S'' (m + n)"
  using same_core_trans [of S S' S''] same_reachable [of S' S] by (simp add: prepared_def refused_def)

lemma refused_free: "refused slotId serial S S' n \<Longrightarrow> refused slotId serial S (S'\<lparr>temps := temps S' - k\<rparr>) (n - k)"
  by (simp add: refused_def same_core_def)

lemma prepared_alloc: "try_alloc S = (ok, S') \<Longrightarrow> prepared S S' 0"
  by (auto simp: try_alloc_def prepared_def same_core_def)

lemma prepared_new_temp: "new_temp S = (ok, S') \<Longrightarrow> prepared S S' (if ok then 1 else 0)"
  by (auto simp: new_temp_def try_alloc_def prepared_def same_core_def)

lemma gives_refused: "gives_answer i slotId serial nm S S' \<Longrightarrow> refused slotId serial S S' 0"
  unfolding refused_def gives_answer_def all_reachable_def add_0_right by blast

context command_table begin

lemma sendErrorResponse_ok:
  assumes "core_inv cmds S" "infos S pRI = Some r"
  shows "\<exists>S'. sendErrorResponse cmds pRI e S = Some S' \<and> refused (socket_id r) (token r) S S' 0"
proof -
  have "fits (cmd r) (PNull, 0)" by (rule fits_null)
  from respond_ok [OF core_inv_info(3,4) [OF assms] this, of 0 e S] show ?thesis
    using gives_refused by (auto simp: sendErrorResponse_def assms(2))
qed

lemma copyHidlStringToRil_ok:
  assumes inv: "core_inv cmds S" "infos S pRI = Some r"
  shows "\<exists>S' ok p. copyHidlStringToRil cmds src pRI ae S = Some (S', ok, p) \<and>
    (if ok then prepared S S' (live [p]) \<and> p = copied ae src else refused (socket_id r) (token r) S S' 0)"
proof (cases "hs_size src = 0 \<and> \<not> ae")
  case True
  then show ?thesis by (intro exI [of _ S] exI [of _ True] exI [of _ None]) (simp add: copyHidlStringToRil_def copied_def)
next
  case False
  obtain ok S1 where n: "new_temp S = (ok, S1)" by (cases "new_temp S")
  note p = prepared_new_temp [OF n]
  have inv1: "core_inv cmds S1" "infos S1 pRI = Some r" using p inv same_core_inv [of S S1] by (auto simp: prepared_def same_core_def)
  show ?thesis
  proof (cases "\<not> ok \<or> length (hs_chars src) \<ge> hs_size src + 1")
    case True
    define S2 where "S2 = (if ok then free_temp S1 else S1)"
    define e where "e = (if ok then RIL_E_INTERNAL_ERR else RIL_E_NO_MEMORY)"
    have p2: "prepared S S2 0" using p by (simp add: S2_def prepared_def free_temp_def same_core_def)
    have "core_inv cmds S2" "infos S2 pRI = Some r"
      using p2 inv same_core_inv [of S S2] by (auto simp: prepared_def same_core_def)
    from sendErrorResponse_ok [OF this, of e] obtain S3 where
      S3: "sendErrorResponse cmds pRI e S2 = Some S3" "refused (socket_id r) (token r) S2 S3 0" by blast
    have "copyHidlStringToRil cmds src pRI ae S = Some (S3, False, None)"
      using False True S3(1) by (cases ok) (auto simp: copyHidlStringToRil_def n S2_def e_def)
    then show ?thesis using prepared_refused [OF p2 S3(2)]
      by (intro exI [of _ S3] exI [of _ False] exI [of _ None]) simp
  next
    case ok: False
    then have "copyHidlStringToRil cmds src pRI ae S = Some (S1, True, Some (hs_chars src))"
      using False by (auto simp: copyHidlStringToRil_def n)
    then show ?thesis using p ok False by (auto simp: copied_def)
  qed
qed

lemma copy_each_ok:
  assumes "core_inv cmds S" "infos S pRI = Some r"
  shows "\<exists>S' res. copy_each cmds pRI ss ps S = Some (S', res) \<and>
    (case res of Some qs \<Rightarrow> qs = ps @ map (\<lambda>(ae, s). copied ae s) ss \<and> prepared S S' (live qs - live ps)
     | None \<Rightarrow> refused (socket_id r) (token r) S S' (- live ps))"
  using assms
proof (induction ss arbitrary: ps S)
  case (Cons x ss)
  obtain ae s where x: "x = (ae, s)" by (cases x)
  obtain S1 ok p where c: "copyHidlStringToRil cmds s pRI ae S = Some (S1, ok, p)"
    "if ok then prepared S S1 (live [p]) \<and> p = copied ae s else refused (socket_id r) (token r) S S1 0"
    using copyHidlStringToRil_ok [OF Cons.prems] by blast
  show ?case
  proof (cases ok)
    case False
    then show ?thesis using c refused_free [of "socket_id r" "token r" S S1 0 "live ps"] by (simp add: x)
  next
    case True
    have "prepared S S1 (live [p]) \<and> p = copied ae s" by (rule c(2) [unfolded if_P [OF True]])
    then have p: "prepared S S1 (live [p])" "p = copied ae s" by blast+
    have "core_inv cmds S1" "infos S1 pRI = Some r"
      using p(1) Cons.prems same_core_inv [of S S1] by (auto simp: prepared_def same_core_def)
    from Cons.IH [OF this, of "ps @ [p]"] obtain S2 res where S2: "copy_each cmds pRI ss (ps @ [p]) S1 = Some (S2, res)"
      "case res of Some qs \<Rightarrow> qs = (ps @ [p]) @ map (\<lambda>(ae, s). copied ae s) ss \<and> prepared S1 S2 (live qs - live (ps @ [p]))
       | None \<Rightarrow> refused (socket_id r) (token r) S1 S2 (- live (ps @ [p]))" by blast
    have e: "copy_each cmds pRI (x # ss) ps S = Some (S2, res)" using c(1) True S2(1) by (simp add: x)
    show ?thesis
    proof (cases res)
      case None
      then show ?thesis using e S2(2) prepared_refused [OF p(1), of "socket_id r" "token r" S2 "- live (ps @ [p])"] by simp
    next
      case (Some qs)
      have "qs = (ps @ [p]) @ map (\<lambda>(ae, s). copied ae s) ss \<and> prepared S1 S2 (live qs - live (ps @ [p]))"
        by (rule S2(2) [unfolded Some option.case])
      then have qs: "qs = (ps @ [p]) @ map (\<lambda>(ae, s). copied ae s) ss" "prepared S1 S2 (live qs - live (ps @ [p]))" by blast+
      have "live [p] + (live qs - live (ps @ [p])) = live qs - live ps" by simp
      with prepared_trans [OF p(1) qs(2)] have "prepared S S2 (live qs - live ps)" by simp
      then show ?thesis using e Some qs(1) p(2) by (simp add: x)
    qed
  qed
qed simp

lemma copy_strings_ok:
  assumes "core_inv cmds S" "infos S pRI = Some r"
  shows "\<exists>S' res. copy_strings cmds pRI ae ss ps S = Some (S', res) \<and>
    (case res of Some qs \<Rightarrow> qs = ps @ map (copied ae) ss \<and> prepared S S' (live qs - live ps)
     | None \<Rightarrow> refused (socket_id r) (token r) S S' (- live ps))"
proof -
  have m: "map (\<lambda>(ae, s). copied ae s) (map (Pair ae) ss) = map (copied ae) ss" by simp
  show ?thesis using copy_each_ok [OF assms, of "map (Pair ae) ss" ps] unfolding copy_strings_def m .
qed

end

subsection \<open>One request\<close>

text \<open>A request that is with the vendor, after a call it has not reacted to yet.\<close>

definition waiting :: "int \<Rightarrow> vendor_call \<Rightarrow> ril_core \<Rightarrow> ril_core \<Rightarrow> bool" where
  "waiting serial c S S' \<longleftrightarrow>
    (case c of (request, _, t, slotId) \<Rightarrow> \<exists>r. infos S' t = Some r \<and> token r = serial \<and> cmd r = request \<and>
       socket_id r = slotId \<and> \<not> cancelled r \<and> \<not> local_req r \<and> \<not> wasAckSent r) \<and>
    client_events S' = client_events S \<and> (\<forall>i slotId. reachable i slotId S' = reachable i slotId S)"

text \<open>
  What a dispatch does: \<open>ok\<close> says whether the vendor was called with \<open>c\<close>. Only requests that are with the vendor
  can change, and no serial number but the request's own gets more answers.
\<close>

definition dispatch_spec :: "commands \<Rightarrow> vendor \<Rightarrow> int \<Rightarrow> vendor_call \<Rightarrow> ril_core \<Rightarrow> ril_core \<Rightarrow> bool \<Rightarrow> bool" where
  "dispatch_spec cmds V serial c S S' ok \<longleftrightarrow>
    core_inv cmds S' \<and> temps S' = temps S \<and> sims S' = sims S \<and> next_info S \<le> next_info S' \<and>
    vendor_calls S' = vendor_calls S @ (if ok then [c] else []) \<and> act_less S S' \<and>
    (\<forall>s. potential s S' \<le> potential s S + (if s = serial then 1 else 0)) \<and>
    (\<forall>t. t \<notin> handed S \<longrightarrow> t < next_info S \<longrightarrow> infos S' t = infos S t) \<and>
    (\<not> ok \<longrightarrow> infos S' = infos S \<and> client_events S' = client_events S \<or>
       (\<exists>r evs. infos S' = (infos S)(next_info S \<mapsto> r) \<and> client_events S' = client_events S @ evs \<and>
         next_info S' = next_info S + 1 \<and>
         (case c of (_, _, _, slotId) \<Rightarrow> all_reachable slotId S \<longrightarrow>
            (\<exists>nm info v. evs = [Response slotId nm info v] \<and> ri_serial info = serial)))) \<and>
    (ok \<and> fst c \<noteq> RIL_REQUEST_SET_NETWORK_SELECTION_MANUAL \<and> V c = [] \<longrightarrow> waiting serial c S S')"

lemma not_added:
  assumes "addRequestToList (length cmds) serial slotId request S = (S1, None)" "core_inv cmds S"
  shows "dispatch_spec cmds V serial c S S1 False"
proof -
  have s: "same_core S S1" "temps S1 = temps S" "client_events S1 = client_events S"
    using assms(1) by (auto simp: addRequestToList_def try_alloc_def same_core_def Let_def split: if_splits prod.splits bool.splits)
  then have "potential s S1 = potential s S" for s
    by (simp add: potential_def answered_def same_core_vendor [OF s(1)])
  then show ?thesis using s assms(2) same_core_inv [OF s(1)] by (simp add: dispatch_spec_def) (simp add: same_core_def)
qed

definition added :: "commands \<Rightarrow> int \<Rightarrow> int \<Rightarrow> nat \<Rightarrow> ril_core \<Rightarrow> ril_core \<Rightarrow> request_info \<Rightarrow> bool" where
  "added cmds serial slotId request S S1 r \<longleftrightarrow> core_inv cmds S1 \<and> infos S1 = (infos S)(next_info S \<mapsto> r) \<and>
    next_info S1 = next_info S + 1 \<and> token r = serial \<and> socket_id r = slotId \<and>
    act_less S S1 \<and> cmd r = request \<and> \<not> cancelled r \<and> \<not> local_req r \<and> \<not> wasAckSent r \<and> vendor_calls S1 = vendor_calls S \<and>
    temps S1 = temps S \<and> sims S1 = sims S \<and> client_events S1 = client_events S \<and> has_client S1 = has_client S \<and>
    client_dead S1 = client_dead S \<and> oem_enabled S1 = oem_enabled S \<and> next_info S \<notin> handed S"

lemma request_added:
  assumes a: "addRequestToList (length cmds) serial slotId request S = (S1, Some pRI)"
    and inv: "core_inv cmds S" and u: "usable cmds request"
  shows "pRI = next_info S" "\<exists>r. added cmds serial slotId request S S1 r"
proof -
  define r where "r = \<lparr>token = serial, cmd = request, cancelled = False, local_req = False, socket_id = slotId, wasAckSent = False\<rparr>"
  define h where "h = hook (sims S) slotId"
  have req: "request < length cmds" using a by (auto simp: addRequestToList_def split: if_splits)
  have S1: "pRI = next_info S" "S1 = S\<lparr>allocs := allocs S + 1, infos := (infos S)(next_info S \<mapsto> r),
      pending := (pending S)(h := next_info S # pending S h), next_info := next_info S + 1\<rparr>"
    using a by (auto simp: addRequestToList_def try_alloc_def Let_def r_def h_def split: if_splits bool.splits)
  show "pRI = next_info S" by (rule S1)
  have old: "t < next_info S" if "infos S t = Some q" for t q using inv that by (simp add: core_inv_def)
  have fresh: "infos S (next_info S) = None" using old less_irrefl by fastforce
  have pend: "next_info S \<notin> set (pending S k)" for k using inv fresh by (fastforce simp: core_inv_def)
  have hand: "next_info S \<notin> handed S" using inv by (auto simp: core_inv_def)
  have i1: "\<forall>t q. infos S1 t = Some q \<longrightarrow> t < next_info S1 \<and> t \<in> set (pending S1 (hook (sims S1) (socket_id q))) \<and>
      cmd q < length cmds \<and> snd (cmds ! cmd q) \<noteq> None"
  proof (intro allI impI)
    fix t q
    assume q: "infos S1 t = Some q"
    show "t < next_info S1 \<and> t \<in> set (pending S1 (hook (sims S1) (socket_id q))) \<and> cmd q < length cmds \<and> snd (cmds ! cmd q) \<noteq> None"
    proof (cases "t = next_info S")
      case True
      then have "q = r" using q by (simp add: S1)
      then show ?thesis using True u req by (simp add: S1 usable_def r_def h_def)
    next
      case False
      then have "infos S t = Some q" using q by (simp add: S1)
      from core_inv_info [OF inv this] show ?thesis by (auto simp: S1)
    qed
  qed
  have dist: "distinct (pending S1 k)" for k using inv pend by (simp add: S1 core_inv_def)
  have mem: "\<exists>q. infos S1 t = Some q \<and> hook (sims S1) (socket_id q) = k" if t: "t \<in> set (pending S1 k)" for t k
  proof (cases "t = next_info S")
    case True
    then have "k = h" using t pend by (auto simp: S1 split: if_splits)
    then show ?thesis by (simp add: S1 True h_def r_def)
  next
    case False
    then have "t \<in> set (pending S k)" using t by (auto simp: S1 split: if_splits)
    moreover have "\<forall>u\<in>set (pending S k). \<exists>q. infos S u = Some q \<and> hook (sims S) (socket_id q) = k"
      using inv by (simp add: core_inv_def)
    ultimately show ?thesis using False by (simp add: S1)
  qed
  have "\<forall>t\<in>handed S1. t < next_info S1" using inv by (auto simp: core_inv_def S1 handed_def less_Suc_eq)
  with i1 dist mem have "core_inv cmds S1" unfolding core_inv_def by blast
  then have "added cmds serial slotId request S S1 r"
    using hand unfolding added_def S1 by (simp add: r_def)
  then show "\<exists>r. added cmds serial slotId request S S1 r" by blast
qed

lemma added_vendor:
  assumes "added cmds serial slotId request S S1 r" "same_core S1 S2"
  shows "with_vendor s S2 = with_vendor s S"
proof -
  have "infos S2 = (infos S)(next_info S \<mapsto> r)" "handed S2 = handed S" "next_info S \<notin> handed S"
    using assms by (simp_all add: added_def same_core_def handed_def)
  then show ?thesis by (auto simp: with_vendor_def)
qed

lemma dispatch_refused:
  assumes a: "added cmds serial slotId request S S1 r" and f: "refused slotId serial S1 S2 0"
  shows "dispatch_spec cmds V serial (request, data, next_info S, slotId) S S2 False"
proof -
  have s: "same_core S1 S2" using f by (simp add: refused_def)
  obtain evs where evs: "client_events S2 = client_events S @ evs"
    "evs = [] \<and> \<not> all_reachable slotId S \<or>
       (\<exists>nm info v. evs = [Response slotId nm info v] \<and> ri_serial info = serial)"
    using a f same_reachable [of S1 S] by (auto simp: refused_def added_def)
  have "answered s S2 \<le> answered s S + (if s = serial then 1 else 0)" for s using evs by (auto simp: answered_def)
  then have pot: "\<forall>s. potential s S2 \<le> potential s S + (if s = serial then 1 else 0)"
    by (simp add: potential_def added_vendor [OF a s])
  have core: "core_inv cmds S2" "infos S2 = (infos S)(next_info S \<mapsto> r)" "next_info S2 = next_info S + 1"
    "vendor_calls S2 = vendor_calls S" "sims S2 = sims S" "temps S2 = temps S" "act_less S S2"
    using a f same_core_inv [OF s] act_less_trans [of S S1 S2] by (simp_all add: added_def refused_def same_core_def)
  have "all_reachable slotId S \<longrightarrow> (\<exists>nm info v. evs = [Response slotId nm info v] \<and> ri_serial info = serial)"
    using evs(2) by blast
  then show ?thesis unfolding dispatch_spec_def using core pot evs(1) by auto
qed

context command_table begin

lemma call_ok:
  assumes a: "added cmds serial slotId request S S1 r" and p: "prepared S1 S2 n"
  shows "\<exists>S3. CALL_ONREQUEST cmds V request data (next_info S) slotId S2 = Some S3 \<and>
    dispatch_spec cmds V serial (request, data, next_info S, slotId) S (S3\<lparr>temps := temps S3 - n\<rparr>) True \<and>
    core_inv cmds S3 \<and> sims S3 = sims S \<and> next_info S \<in> handed S3 \<and>
    ((\<forall>t e q. VComplete t e q \<notin> set (V (request, data, next_info S, slotId))) \<longrightarrow> infos S3 (next_info S) \<noteq> None)"
proof -
  define c where "c = (request, data, next_info S, slotId)"
  define Sc where "Sc = S2\<lparr>vendor_calls := vendor_calls S2 @ [c]\<rparr>"
  have s: "same_core S1 S2" using p by (simp add: prepared_def)
  have i2: "core_inv cmds S2" using a same_core_inv [OF s] by (simp add: added_def)
  have n2: "next_info S2 = next_info S + 1" "infos S2 = (infos S)(next_info S \<mapsto> r)" "vendor_calls S2 = vendor_calls S"
    "sims S2 = sims S" "temps S2 = temps S + n" "client_events S2 = client_events S"
    using a p by (simp_all add: added_def prepared_def same_core_def)
  have hc: "handed Sc = insert (next_info S) (handed S)" by (auto simp: Sc_def handed_def c_def n2)
  have ic: "core_inv cmds Sc" using i2 n2(1) by (auto simp: core_inv_def Sc_def handed_def c_def)
  obtain S3 where S3: "run_steps (vendor_try cmds) (V c) Sc = Some S3" "kept cmds Sc S3"
    "(\<forall>t e q. VComplete t e q \<notin> set (V c)) \<longrightarrow> (\<forall>u. infos Sc u \<noteq> None \<longrightarrow> infos S3 u \<noteq> None)"
    using vendor_acts_ok [OF ic] by blast
  have w2: "with_vendor s S2 = with_vendor s S" for s by (rule added_vendor [OF a s])
  have wc: "with_vendor s Sc \<subseteq> with_vendor s S2 \<union> (if s = serial then {next_info S} else {})" for s
  proof
    fix t
    assume t: "t \<in> with_vendor s Sc"
    then have "t \<in> handed Sc" by (simp add: with_vendor_def)
    then have h: "t = next_info S \<or> t \<in> handed S" by (simp add: hc)
    obtain q where q: "((infos S)(next_info S \<mapsto> r)) t = Some q" "token q = s"
      using t by (auto simp: with_vendor_def Sc_def n2)
    show "t \<in> with_vendor s S2 \<union> (if s = serial then {next_info S} else {})"
    proof (cases "t = next_info S")
      case True
      then show ?thesis using q a by (simp add: added_def)
    next
      case False
      then have "t \<in> with_vendor s S" using q h by (simp add: with_vendor_def)
      then show ?thesis by (simp add: w2)
    qed
  qed
  have "card (with_vendor s Sc) \<le> card (with_vendor s S) + (if s = serial then 1 else 0)" for s
    using card_mono [OF _ wc [of s]] card_insert_le_m1 [of "card (with_vendor s S) + 1" "with_vendor s S" "next_info S"]
    by (cases "s = serial") (simp_all add: w2)
  then have "potential s Sc \<le> potential s S + (if s = serial then 1 else 0)" for s
    by (simp add: potential_def answered_def Sc_def n2)
  then have pot: "potential s S3 \<le> potential s S + (if s = serial then 1 else 0)" for s
    using S3(2) le_trans [of "potential s S3" "potential s Sc"] by (auto simp: kept_def)
  have k: "core_inv cmds S3" "vendor_calls S3 = vendor_calls S @ [c]" "temps S3 = temps S + n" "sims S3 = sims S"
    "next_info S3 = next_info S + 1" "\<forall>t. t \<notin> handed Sc \<longrightarrow> infos S3 t = infos Sc t" "handed S3 = handed Sc"
    using S3(2) by (simp_all add: kept_def handed_def) (simp_all add: Sc_def n2)
  have "act_less S S2" by (rule act_less_trans [of _ S1]) (use a s in \<open>simp_all add: added_def same_core_def\<close>)
  then have act: "act_less S S3" by (rule act_less_trans) (use S3(2) in \<open>simp add: kept_def Sc_def\<close>)
  define S4 where "S4 = S3\<lparr>temps := temps S3 - n\<rparr>"
  have s4: "same_core S3 S4" by (simp add: S4_def same_core_def)
  have "potential s S4 = potential s S3" for s
    by (simp add: potential_def answered_def same_core_vendor [OF s4]) (simp add: S4_def)
  moreover have "core_inv cmds S4" using k(1) same_core_inv [OF s4] by simp
  moreover have "\<forall>t. t \<notin> handed S \<longrightarrow> t < next_info S \<longrightarrow> infos S4 t = infos S t"
    using k(6) by (simp add: hc S4_def) (simp add: Sc_def n2)
  moreover have "waiting serial c S S4" if "V c = []"
  proof -
    have "S4 = Sc\<lparr>temps := temps S3 - n\<rparr>" using S3(1) that by (simp add: S4_def)
    then show ?thesis using a p by (auto simp: waiting_def Sc_def n2 c_def added_def prepared_def reachable_def available_def)
  qed
  ultimately have "dispatch_spec cmds V serial c S S4 True" using k pot act by (simp add: dispatch_spec_def S4_def)
  moreover have "infos Sc (next_info S) \<noteq> None" by (simp add: Sc_def n2)
  then have "(\<forall>t e q. VComplete t e q \<notin> set (V c)) \<longrightarrow> infos S3 (next_info S) \<noteq> None" using S3(3) by blast
  moreover have "CALL_ONREQUEST cmds V request data (next_info S) slotId S2 = Some S3"
    using S3(1) by (simp add: CALL_ONREQUEST_def Sc_def c_def)
  moreover have "next_info S \<in> handed S3" by (simp add: k(7) hc)
  ultimately show ?thesis using k(1,4) unfolding c_def S4_def by blast
qed

end

text \<open>
  The vendor does not complete requests of manual network selection before \<open>onRequest\<close> returns; the
  dispatcher answers them itself.
\<close>

definition quiet :: "vendor \<Rightarrow> bool" where
  "quiet V \<longleftrightarrow> (\<forall>data t slotId u e resp. VComplete u e resp \<notin> set (V (RIL_REQUEST_SET_NETWORK_SELECTION_MANUAL, data, t, slotId)))"

lemma spec_kept:
  assumes fst: "fst c = RIL_REQUEST_SET_NETWORK_SELECTION_MANUAL" and spec: "dispatch_spec cmds V serial c S S' True"
    and kept: "kept cmds S' S''" and old: "\<And>t. t \<in> handed S' \<Longrightarrow> t \<in> handed S \<or> t = next_info S"
  shows "dispatch_spec cmds V serial c S S'' True"
proof -
  have "potential s S'' \<le> potential s S + (if s = serial then 1 else 0)" for s
    by (rule le_trans [of _ "potential s S'"]) (use spec kept in \<open>simp_all add: kept_def dispatch_spec_def\<close>)
  moreover have "infos S'' t = infos S t" if t: "t \<notin> handed S" "t < next_info S" for t
  proof -
    have "t \<notin> handed S'" using old [of t] t by auto
    then show ?thesis using spec kept t by (simp add: kept_def dispatch_spec_def)
  qed
  moreover have "act_less S S''" by (rule act_less_trans [of _ S']) (use spec kept in \<open>simp_all add: kept_def dispatch_spec_def\<close>)
  ultimately show ?thesis using fst spec kept by (simp add: kept_def dispatch_spec_def)
qed

context command_table begin

lemma dispatched:
  assumes inv: "core_inv cmds S" and u: "usable cmds request"
    and body: "\<And>S1 r. added cmds serial slotId request S S1 r \<Longrightarrow>
      (\<exists>S2. B (next_info S) S1 = Some (S2, False) \<and> refused slotId serial S1 S2 0) \<or>
      (\<exists>S2 n. prepared S1 S2 n \<and> (\<forall>S3. CALL_ONREQUEST cmds V request data (next_info S) slotId S2 = Some S3 \<longrightarrow>
         B (next_info S) S1 = Some (S3\<lparr>temps := temps S3 - n\<rparr>, True)))"
  shows "\<exists>S' ok. (case addRequestToList (length cmds) serial slotId request S of
      (S1, None) \<Rightarrow> Some (S1, False) | (S1, Some pRI) \<Rightarrow> B pRI S1) = Some (S', ok) \<and>
    dispatch_spec cmds V serial (request, data, next_info S, slotId) S S' ok"
proof -
  obtain S1 q where q: "addRequestToList (length cmds) serial slotId request S = (S1, q)"
    by (cases "addRequestToList (length cmds) serial slotId request S")
  show ?thesis
  proof (cases q)
    case None
    with q not_added [OF _ inv] show ?thesis by (intro exI [of _ S1] exI [of _ False]) simp
  next
    case (Some pRI)
    obtain r where r: "pRI = next_info S" "added cmds serial slotId request S S1 r"
      using request_added [OF q [unfolded Some] inv u] by blast
    from body [OF r(2)] show ?thesis
    proof
      assume "\<exists>S2. B (next_info S) S1 = Some (S2, False) \<and> refused slotId serial S1 S2 0"
      then obtain S2 where S2: "B (next_info S) S1 = Some (S2, False)" "refused slotId serial S1 S2 0" by blast
      from dispatch_refused [OF r(2) S2(2)] show ?thesis
        by (intro exI [of _ S2] exI [of _ False]) (simp add: q Some r(1) S2(1))
    next
      assume "\<exists>S2 n. prepared S1 S2 n \<and> (\<forall>S3. CALL_ONREQUEST cmds V request data (next_info S) slotId S2 = Some S3 \<longrightarrow>
         B (next_info S) S1 = Some (S3\<lparr>temps := temps S3 - n\<rparr>, True))"
      then obtain S2 n where S2: "prepared S1 S2 n" "\<And>S3. CALL_ONREQUEST cmds V request data (next_info S) slotId S2 = Some S3 \<Longrightarrow>
         B (next_info S) S1 = Some (S3\<lparr>temps := temps S3 - n\<rparr>, True)" by blast
      from call_ok [OF r(2) S2(1), where V = V and data = data] obtain S3 where
        S3: "CALL_ONREQUEST cmds V request data (next_info S) slotId S2 = Some S3"
          "dispatch_spec cmds V serial (request, data, next_info S, slotId) S (S3\<lparr>temps := temps S3 - n\<rparr>) True" by blast
      from S3(2) show ?thesis
        by (intro exI [of _ "S3\<lparr>temps := temps S3 - n\<rparr>"] exI [of _ True]) (simp add: q Some r(1) S2(2) [OF S3(1)])
    qed
  qed
qed

lemma added_info:
  assumes "added cmds serial slotId request S S1 r"
  shows "core_inv cmds S1" "infos S1 (next_info S) = Some r" "socket_id r = slotId" "token r = serial"
  using assms by (simp_all add: added_def)

text \<open>The bodies: nothing to copy, one string, a buffer, a buffer of strings.\<close>

lemma body_direct:
  "\<exists>S2 n. prepared S1 S2 n \<and> (\<forall>S3. CALL_ONREQUEST cmds V request data pRI slotId S2 = Some S3 \<longrightarrow>
    map_option (\<lambda>S2. (S2, True)) (CALL_ONREQUEST cmds V request data pRI slotId S1) = Some (S3\<lparr>temps := temps S3 - n\<rparr>, True))"
  by (intro exI [of _ S1] exI [of _ 0]) simp

lemma body_string:
  assumes a: "added cmds serial slotId request S S1 r"
  shows "(\<exists>S2. (case copyHidlStringToRil cmds src (next_info S) ae S1 of
        None \<Rightarrow> None
      | Some (S2, False, _) \<Rightarrow> Some (S2, False)
      | Some (S2, True, p) \<Rightarrow> map_option (\<lambda>S3. (memsetAndFreeStrings [p] S3, True))
          (CALL_ONREQUEST cmds V request (F p) (next_info S) slotId S2)) = Some (S2, False) \<and> refused slotId serial S1 S2 0) \<or>
    (\<exists>S2 n. prepared S1 S2 n \<and> (\<forall>S3. CALL_ONREQUEST cmds V request (F (copied ae src)) (next_info S) slotId S2 = Some S3 \<longrightarrow>
      (case copyHidlStringToRil cmds src (next_info S) ae S1 of
        None \<Rightarrow> None
      | Some (S2, False, _) \<Rightarrow> Some (S2, False)
      | Some (S2, True, p) \<Rightarrow> map_option (\<lambda>S3. (memsetAndFreeStrings [p] S3, True))
          (CALL_ONREQUEST cmds V request (F p) (next_info S) slotId S2)) = Some (S3\<lparr>temps := temps S3 - n\<rparr>, True)))"
proof -
  obtain S2 ok p where c: "copyHidlStringToRil cmds src (next_info S) ae S1 = Some (S2, ok, p)"
    "if ok then prepared S1 S2 (live [p]) \<and> p = copied ae src else refused slotId serial S1 S2 0"
    using copyHidlStringToRil_ok [OF added_info(1,2) [OF a], of src ae] added_info(3,4) [OF a] by auto
  show ?thesis
  proof (cases ok)
    case False
    with c show ?thesis by (intro disjI1 exI [of _ S2]) simp
  next
    case True
    have "prepared S1 S2 (live [p]) \<and> p = copied ae src" by (rule c(2) [unfolded if_P [OF True]])
    then have p: "prepared S1 S2 (live [p])" "copied ae src = p" by auto
    show ?thesis
      by (rule disjI2, rule exI [of _ S2], rule exI [of _ "live [p]"], rule conjI [OF p(1)]) (simp add: c(1) True p(2))
  qed
qed

end

context command_table begin

lemma dispatchVoid_ok:
  assumes "core_inv cmds S" "usable cmds request"
  shows "\<exists>S' ok. dispatchVoid cmds V serial slotId request S = Some (S', ok) \<and>
    dispatch_spec cmds V serial (request, PNull, next_info S, slotId) S S' ok"
  unfolding dispatchVoid_def by (rule dispatched [OF assms], rule disjI2, rule body_direct)

lemma dispatchRaw_ok:
  assumes "core_inv cmds S" "usable cmds request"
  shows "\<exists>S' ok. dispatchRaw cmds V serial slotId request bs S = Some (S', ok) \<and>
    dispatch_spec cmds V serial (request, PBytes bs, next_info S, slotId) S S' ok"
  unfolding dispatchRaw_def by (rule dispatched [OF assms], rule disjI2, rule body_direct)

lemma dispatchString_ok:
  assumes "core_inv cmds S" "usable cmds request"
  shows "\<exists>S' ok. dispatchString cmds V serial slotId request str S = Some (S', ok) \<and>
    dispatch_spec cmds V serial (request, request_data (ReqString str), next_info S, slotId) S S' ok"
proof -
  have d: "request_data (ReqString str) = (case copied False (hidl_of str) of None \<Rightarrow> PNull | Some s \<Rightarrow> PString s)"
    by (auto simp: copied_def hidl_of_def)
  show ?thesis unfolding dispatchString_def d
    by (rule dispatched [OF assms], rule body_string [where F = "\<lambda>p. case p of None \<Rightarrow> PNull | Some s \<Rightarrow> PString s"])
qed

lemma dispatchCallForwardStatus_ok:
  assumes "core_inv cmds S" "usable cmds request"
  shows "\<exists>S' ok. dispatchCallForwardStatus cmds V serial slotId request c S = Some (S', ok) \<and>
    dispatch_spec cmds V serial (request, request_data (ReqCallForward c), next_info S, slotId) S S' ok"
  unfolding dispatchCallForwardStatus_def request_data.simps
  by (rule dispatched [OF assms], rule body_string [where F = "\<lambda>p. PStruct ''RIL_CallForwardInfo''
     [cf_status c, cf_reason c, cf_serviceClass c, cf_toa c, cf_timeSeconds c] [p]"])

lemma dispatchIccApdu_ok:
  assumes "core_inv cmds S" "usable cmds request"
  shows "\<exists>S' ok. dispatchIccApdu cmds V serial slotId request m S = Some (S', ok) \<and>
    dispatch_spec cmds V serial (request, request_data (ReqApdu m), next_info S, slotId) S S' ok"
  unfolding dispatchIccApdu_def request_data.simps
  by (rule dispatched [OF assms], rule body_string [where F = "\<lambda>p. PStruct ''RIL_SIM_APDU''
     [ap_sessionId m, ap_cla m, ap_instruction m, ap_p1 m, ap_p2 m, ap_p3 m] [p]"])

lemma buffer_cases:
  assumes a: "added cmds serial slotId request S S1 r"
  obtains (refused) S2 S3 where "new_temp S1 = (False, S2)"
      "sendErrorResponse cmds (next_info S) RIL_E_NO_MEMORY S2 = Some S3" "refused slotId serial S1 S3 0"
  | (buffer) S2 where "new_temp S1 = (True, S2)" "prepared S1 S2 1"
proof (cases "new_temp S1")
  case (Pair ok S2)
  note p = prepared_new_temp [OF Pair]
  show ?thesis
  proof (cases ok)
    case True
    with p Pair show ?thesis by (intro buffer) simp_all
  next
    case False
    then have p0: "prepared S1 S2 0" using p by simp
    have i: "core_inv cmds S2" "infos S2 (next_info S) = Some r"
      using p0 added_info(1,2) [OF a] same_core_inv [of S1 S2] by (auto simp: prepared_def same_core_def)
    obtain S3 where S3: "sendErrorResponse cmds (next_info S) RIL_E_NO_MEMORY S2 = Some S3" "refused slotId serial S2 S3 0"
      using sendErrorResponse_ok [OF i, of RIL_E_NO_MEMORY] added_info(3,4) [OF a] by auto
    with prepared_refused [OF p0 S3(2)] Pair False show ?thesis by (intro refused) simp_all
  qed
qed

lemma dispatchInts_ok:
  assumes "core_inv cmds S" "usable cmds request"
  shows "\<exists>S' ok. dispatchInts cmds V serial slotId request is S = Some (S', ok) \<and>
    dispatch_spec cmds V serial (request, PInts is, next_info S, slotId) S S' ok"
  unfolding dispatchInts_def
proof (rule dispatched [OF assms, where V = V], goal_cases)
  case (1 S1 r)
  then show ?case
  proof (cases rule: buffer_cases)
    case (refused S2 S3)
    then show ?thesis by (intro disjI1 exI [of _ S3]) simp
  next
    case (buffer S2)
    show ?thesis
      by (rule disjI2, rule exI [of _ S2], rule exI [of _ 1], rule conjI [OF buffer(2)]) (simp add: buffer(1) free_temp_def)
  qed
qed

text \<open>A buffer of strings, up to the call of the vendor; \<open>K\<close> is what follows it.\<close>

lemma strings_cases:
  assumes a: "added cmds serial slotId request S S1 r"
  obtains (refused) S2 where "\<And>K. (case new_temp S1 of
        (False, S2) \<Rightarrow> map_option (\<lambda>S3. (S3, False)) (sendErrorResponse cmds (next_info S) RIL_E_NO_MEMORY S2)
      | (True, S2) \<Rightarrow> (case copy_strings cmds (next_info S) ae ss [] S2 of
          None \<Rightarrow> None | Some (S3, None) \<Rightarrow> Some (free_temp S3, False) | Some (S3, Some ps) \<Rightarrow> K S3 ps)) = Some (S2, False)"
      "refused slotId serial S1 S2 0"
  | (buffer) S2 where "\<And>K. (case new_temp S1 of
        (False, S2) \<Rightarrow> map_option (\<lambda>S3. (S3, False)) (sendErrorResponse cmds (next_info S) RIL_E_NO_MEMORY S2)
      | (True, S2) \<Rightarrow> (case copy_strings cmds (next_info S) ae ss [] S2 of
          None \<Rightarrow> None | Some (S3, None) \<Rightarrow> Some (free_temp S3, False) | Some (S3, Some ps) \<Rightarrow> K S3 ps)) =
      K S2 (map (copied ae) ss)"
      "prepared S1 S2 (1 + live (map (copied ae) ss))"
  using a
proof (cases rule: buffer_cases)
  case (refused S2 S3)
  then show ?thesis by (intro that(1) [of S3]) simp_all
next
  case (buffer S2)
  have i: "core_inv cmds S2" "infos S2 (next_info S) = Some r"
    using buffer(2) added_info(1,2) [OF a] same_core_inv [of S1 S2] by (auto simp: prepared_def same_core_def)
  obtain S3 res where c: "copy_strings cmds (next_info S) ae ss [] S2 = Some (S3, res)"
    "case res of Some qs \<Rightarrow> qs = [] @ map (copied ae) ss \<and> prepared S2 S3 (live qs - live [])
     | None \<Rightarrow> Ril_Dispatch_Props.refused (socket_id r) (token r) S2 S3 (- live [])"
    using copy_strings_ok [OF i, of ae ss "[]"] by blast
  show ?thesis
  proof (cases res)
    case None
    then have "Ril_Dispatch_Props.refused slotId serial S1 S3 1"
      using c(2) prepared_refused [OF buffer(2)] added_info(3,4) [OF a] by fastforce
    from refused_free [OF this, of 1] c(1) None buffer(1) show ?thesis
      by (intro that(1) [of "free_temp S3"]) (simp_all add: free_temp_def)
  next
    case (Some qs)
    have "qs = [] @ map (copied ae) ss \<and> prepared S2 S3 (live qs - live [])" by (rule c(2) [unfolded Some option.case])
    then have q: "qs = map (copied ae) ss" "prepared S2 S3 (live qs)" by auto
    from prepared_trans [OF buffer(2) q(2)] c(1) Some buffer(1) q(1) show ?thesis
      by (intro that(2) [of S3]) simp_all
  qed
qed

lemma dispatchStringVec_ok:
  assumes "core_inv cmds S" "usable cmds request"
  shows "\<exists>S' ok. dispatchStringVec cmds V serial slotId request ss S = Some (S', ok) \<and>
    dispatch_spec cmds V serial (request, request_data (ReqStringVec ss), next_info S, slotId) S S' ok"
  unfolding dispatchStringVec_def request_data.simps
proof (rule dispatched [OF assms, where V = V], goal_cases)
  case (1 S1 r)
  then show ?case
  proof (cases rule: strings_cases [where ae = False and ss = ss])
    case (refused S2)
    then show ?thesis by (intro disjI1 exI [of _ S2]) simp
  next
    case (buffer S2)
    show ?thesis
      by (rule disjI2, rule exI [of _ S2], rule exI, rule conjI [OF buffer(2)]) (simp add: buffer(1) free_temp_def)
  qed
qed

end

context command_table begin

text \<open>A structure: buffers, strings, and arguments that may be invalid.\<close>

lemma alloc_buffers_ok: "alloc_buffers n S = (S', ok) \<Longrightarrow> prepared S S' (if ok then int n else 0)"
proof (induction n arbitrary: S S' ok)
  case (Suc n)
  obtain b S1 where b: "new_temp S = (b, S1)" by (cases "new_temp S")
  note p = prepared_new_temp [OF b]
  show ?case
  proof (cases b)
    case False
    with b Suc.prems have "S' = S1" "\<not> ok" by simp_all
    with p False show ?thesis by simp
  next
    case True
    obtain S2 c where c: "alloc_buffers n S1 = (S2, c)" by (cases "alloc_buffers n S1")
    have e: "S' = (if c then S2 else free_temp S2)" "ok = c" using Suc.prems by (auto simp: b True c)
    have "prepared S S2 (1 + (if c then int n else 0))" using prepared_trans [OF p Suc.IH [OF c]] True by simp
    then show ?thesis by (auto simp: e prepared_def same_core_def free_temp_def)
  qed
qed simp

lemma prepared_inv:
  assumes "prepared S1 S2 n" "core_inv cmds S1" "infos S1 t = Some r"
  shows "core_inv cmds S2" "infos S2 t = Some r"
  using assms same_core_inv [of S1 S2] by (auto simp: prepared_def same_core_def)

lemma dispatchStruct_ok:
  assumes "core_inv cmds S" "usable cmds request"
  shows "\<exists>S' ok. dispatchStruct cmds V serial slotId request n nm is ss ls e S = Some (S', ok) \<and>
    dispatch_spec cmds V serial (request, request_data (ReqStruct n nm is ss ls e), next_info S, slotId) S S' ok"
  unfolding dispatchStruct_def
proof (rule dispatched [OF assms, where V = V], goal_cases)
  case (1 S1 r)
  note i1 = added_info [OF 1]
  obtain S2 ok where S2: "alloc_buffers n S1 = (S2, ok)" by (cases "alloc_buffers n S1")
  note p2 = alloc_buffers_ok [OF S2]
  note i2 = prepared_inv [OF p2 i1(1,2)]
  show ?case
  proof (cases ok)
    case False
    obtain S3 where "sendErrorResponse cmds (next_info S) RIL_E_NO_MEMORY S2 = Some S3" "refused slotId serial S2 S3 0"
      using sendErrorResponse_ok [OF i2, of RIL_E_NO_MEMORY] i1(3,4) by auto
    with prepared_refused [OF p2] False S2 show ?thesis by (intro disjI1 exI [of _ S3]) fastforce
  next
    case True
    obtain S3 res where c: "copy_each cmds (next_info S) ss [] S2 = Some (S3, res)"
      "case res of Some qs \<Rightarrow> qs = [] @ map (\<lambda>(ae, s). copied ae s) ss \<and> prepared S2 S3 (live qs - live [])
       | None \<Rightarrow> refused (socket_id r) (token r) S2 S3 (- live [])"
      using copy_each_ok [OF i2, of ss "[]"] by blast
    show ?thesis
    proof (cases res)
      case None
      then have "refused slotId serial S2 S3 0" using c(2) i1(3,4) by simp
      from refused_free [OF prepared_refused [OF p2 this], of "int n"] True c(1) None S2 show ?thesis
        by (intro disjI1 exI [of _ "free_buffers n S3"]) (simp add: free_buffers_def)
    next
      case (Some qs)
      have q: "qs = map (\<lambda>(ae, s). copied ae s) ss" "prepared S2 S3 (live qs)"
        using c(2) [unfolded Some option.case] by auto
      have p3: "prepared S1 S3 (int n + live qs)" using prepared_trans [OF p2 q(2)] True by simp
      show ?thesis
      proof (cases e)
        case None
        show ?thesis
          by (rule disjI2, rule exI [of _ S3], rule exI, rule conjI [OF p3])
            (simp add: S2 True c(1) Some None q(1) free_buffers_def algebra_simps)
      next
        case err: (Some er)
        let ?S = "free_buffers n (memsetAndFreeStrings qs S3)"
        have p4: "prepared S1 ?S 0" using p3 by (simp add: prepared_def same_core_def free_buffers_def)
        obtain S4 where S4: "sendErrorResponse cmds (next_info S) er ?S = Some S4" "refused slotId serial ?S S4 0"
          using sendErrorResponse_ok [OF prepared_inv [OF p4 i1(1,2)], of er] i1(3,4) by auto
        show ?thesis using prepared_refused [OF p4 S4(2)] S4(1)
          by (intro disjI1 exI [of _ S4]) (simp add: S2 True c(1) Some err)
      qed
    qed
  qed
qed

text \<open>The answer the dispatcher gives itself, after the vendor's call.\<close>

lemma fake_success:
  assumes inv: "core_inv cmds S3" and t: "t \<in> handed S3" and alive: "sims S3 < 2 \<or> infos S3 t \<noteq> None"
  shows "\<exists>S4. RIL_onRequestComplete cmds t RIL_E_SUCCESS (PNull, 0) S3 = Some S4 \<and> kept cmds S3 S4"
proof (cases "infos S3 t")
  case None
  then show ?thesis using not_pending [OF inv None] alive kept_refl [OF inv] by simp
next
  case (Some r)
  have "fits (cmd r) (PNull, 0)" by (rule fits_null)
  from complete_ok [OF inv t Some this] show ?thesis by blast
qed

lemma dispatchStrings_ok:
  assumes inv: "core_inv cmds S" and u: "usable cmds request"
    and q: "request = RIL_REQUEST_SET_NETWORK_SELECTION_MANUAL \<longrightarrow> sims S < 2 \<or> quiet V"
  shows "\<exists>S' ok. dispatchStrings cmds V serial slotId request ae ss S = Some (S', ok) \<and>
    dispatch_spec cmds V serial (request, request_data (ReqStrings ae ss), next_info S, slotId) S S' ok"
proof -
  let ?ps = "map (copied ae) (map hidl_of ss)"
  let ?c = "(request, PStrings ?ps, next_info S, slotId)"
  have data: "request_data (ReqStrings ae ss) = PStrings ?ps" by (simp add: comp_def)
  obtain S1 p where add: "addRequestToList (length cmds) serial slotId request S = (S1, p)"
    by (cases "addRequestToList (length cmds) serial slotId request S")
  show ?thesis
  proof (cases p)
    case None
    with add not_added [OF _ inv] show ?thesis
      by (intro exI [of _ S1] exI [of _ False]) (simp add: dispatchStrings_def)
  next
    case (Some pRI)
    obtain r where r: "pRI = next_info S" "added cmds serial slotId request S S1 r"
      using request_added [OF add [unfolded Some] inv u] by blast
    from r(2) show ?thesis
    proof (cases rule: strings_cases [where ae = ae and ss = "map hidl_of ss"])
      case (refused S2)
      with dispatch_refused [OF r(2) refused(2)] show ?thesis
        by (intro exI [of _ S2] exI [of _ False]) (simp add: dispatchStrings_def add Some r(1))
    next
      case (buffer S2)
      let ?n = "1 + live ?ps"
      obtain S3 where S3: "CALL_ONREQUEST cmds V request (PStrings ?ps) (next_info S) slotId S2 = Some S3"
        "dispatch_spec cmds V serial ?c S (S3\<lparr>temps := temps S3 - ?n\<rparr>) True"
        "core_inv cmds S3" "sims S3 = sims S" "next_info S \<in> handed S3"
        "(\<forall>t e q. VComplete t e q \<notin> set (V ?c)) \<longrightarrow> infos S3 (next_info S) \<noteq> None"
        using call_ok [OF r(2) buffer(2), where V = V and data = "PStrings ?ps"] by blast
      define S5 where "S5 = S3\<lparr>temps := temps S3 - ?n\<rparr>"
      have spec: "dispatch_spec cmds V serial ?c S S5 True" unfolding S5_def by (rule S3(2))
      then have core: "core_inv cmds S5" by (simp add: dispatch_spec_def)
      have eq: "dispatchStrings cmds V serial slotId request ae ss S =
        (if request = RIL_REQUEST_SET_NETWORK_SELECTION_MANUAL
         then map_option (\<lambda>S6. (S6, True)) (RIL_onRequestComplete cmds (next_info S) RIL_E_SUCCESS (PNull, 0) S5)
         else Some (S5, True))"
        by (simp add: dispatchStrings_def add Some r(1) buffer(1) S3(1) Let_def free_temp_def S5_def algebra_simps
            del: map_map)
      show ?thesis
      proof (cases "request = RIL_REQUEST_SET_NETWORK_SELECTION_MANUAL")
        case False
        then show ?thesis unfolding data using eq spec by (intro exI [of _ S5] exI [of _ True]) simp
      next
        case True
        have "sims S5 < 2 \<or> infos S5 (next_info S) \<noteq> None"
          using q True S3(4,6) by (auto simp: S5_def quiet_def)
        moreover have "next_info S \<in> handed S5" using S3(5) by (simp add: S5_def handed_def)
        ultimately obtain S6 where S6: "RIL_onRequestComplete cmds (next_info S) RIL_E_SUCCESS (PNull, 0) S5 = Some S6" "kept cmds S5 S6"
          using fake_success [OF core] by blast
        have "dispatch_spec cmds V serial ?c S S6 True"
        proof (rule spec_kept [OF _ spec S6(2)])
          show "fst ?c = RIL_REQUEST_SET_NETWORK_SELECTION_MANUAL" using True by simp
          fix t
          assume "t \<in> handed S5"
          then show "t \<in> handed S \<or> t = next_info S" using spec by (auto simp: dispatch_spec_def handed_def)
        qed
        then show ?thesis unfolding data using eq True S6(1) by (intro exI [of _ S6] exI [of _ True]) simp
      qed
    qed
  qed
qed

lemma dispatch_ok:
  assumes "core_inv cmds S" "usable cmds request"
    and "request = RIL_REQUEST_SET_NETWORK_SELECTION_MANUAL \<longrightarrow> sims S < 2 \<or> quiet V"
  shows "\<exists>S' ok. dispatch cmds V serial slotId request rq S = Some (S', ok) \<and>
    dispatch_spec cmds V serial (request, request_data rq, next_info S, slotId) S S' ok"
  using assms dispatchVoid_ok dispatchString_ok dispatchStrings_ok dispatchStringVec_ok dispatchInts_ok
    dispatchCallForwardStatus_ok dispatchRaw_ok dispatchIccApdu_ok dispatchStruct_ok
  by (cases rq) (simp_all del: request_data.simps(2,3,4,6,8,9))

end

context command_table begin

text \<open>The thread that activates a subscription makes a request of its own.\<close>

lemma subActivateThread_ok:
  assumes inv: "core_inv cmds S" and u: "usable cmds RIL_REQUEST_SET_UICC_SUBSCRIPTION"
  shows "\<exists>S' ok. subActivateThread cmds V (slotId, appIndex) S = Some S' \<and>
    dispatch_spec cmds V (-100 - slotId) (RIL_REQUEST_SET_UICC_SUBSCRIPTION,
      PStruct ''RIL_SelectUiccSub'' [slotId, appIndex, slotId, RIL_UICC_SUBSCRIPTION_ACTIVATE] [], next_info S, slotId) S S' ok"
proof -
  let ?data = "PStruct ''RIL_SelectUiccSub'' [slotId, appIndex, slotId, RIL_UICC_SUBSCRIPTION_ACTIVATE] []"
  let ?B = "\<lambda>pRI S1. map_option (\<lambda>S2. (S2, True)) (CALL_ONREQUEST cmds V RIL_REQUEST_SET_UICC_SUBSCRIPTION ?data pRI slotId S1)"
  have "\<exists>S' ok. (case addRequestToList (length cmds) (-100 - slotId) slotId RIL_REQUEST_SET_UICC_SUBSCRIPTION S of
      (S1, None) \<Rightarrow> Some (S1, False) | (S1, Some pRI) \<Rightarrow> ?B pRI S1) = Some (S', ok) \<and>
    dispatch_spec cmds V (-100 - slotId) (RIL_REQUEST_SET_UICC_SUBSCRIPTION, ?data, next_info S, slotId) S S' ok"
    by (rule dispatched [OF inv u], rule disjI2, rule body_direct)
  then obtain S' ok where D: "(case addRequestToList (length cmds) (-100 - slotId) slotId RIL_REQUEST_SET_UICC_SUBSCRIPTION S of
      (S1, None) \<Rightarrow> Some (S1, False) | (S1, Some pRI) \<Rightarrow> ?B pRI S1) = Some (S', ok)"
    "dispatch_spec cmds V (-100 - slotId) (RIL_REQUEST_SET_UICC_SUBSCRIPTION, ?data, next_info S, slotId) S S' ok" by blast
  have "subActivateThread cmds V (slotId, appIndex) S = Some S'"
    using D(1) by (auto simp: subActivateThread_def split: prod.splits option.splits)
  with D(2) show ?thesis by blast
qed

end

end
