(* ===== verification/Ril_Commands.thy ===== *)
theory Ril_Commands
  imports Ril_Dispatch_Props
begin

text \<open>
  The table of requests \<open>s_commands\<close> of \<open>libril/ril.cpp\<close>, as \<open>libril/ril_commands.h\<close> fills it, with the request
  numbers of \<open>telephony/ril.h\<close> and the response functions of \<open>libril/ril_service.cpp\<close>. The response functions that
  convert structures are \<open>data_response\<close> with the conversion \<open>C\<close>, a parameter.
\<close>

subsection \<open>Request numbers\<close>

definition RIL_REQUEST_GET_SIM_STATUS :: nat where "RIL_REQUEST_GET_SIM_STATUS = 1"
definition RIL_REQUEST_ENTER_SIM_PIN :: nat where "RIL_REQUEST_ENTER_SIM_PIN = 2"
definition RIL_REQUEST_ENTER_SIM_PUK :: nat where "RIL_REQUEST_ENTER_SIM_PUK = 3"
definition RIL_REQUEST_ENTER_SIM_PIN2 :: nat where "RIL_REQUEST_ENTER_SIM_PIN2 = 4"
definition RIL_REQUEST_ENTER_SIM_PUK2 :: nat where "RIL_REQUEST_ENTER_SIM_PUK2 = 5"
definition RIL_REQUEST_CHANGE_SIM_PIN :: nat where "RIL_REQUEST_CHANGE_SIM_PIN = 6"
definition RIL_REQUEST_CHANGE_SIM_PIN2 :: nat where "RIL_REQUEST_CHANGE_SIM_PIN2 = 7"
definition RIL_REQUEST_ENTER_NETWORK_DEPERSONALIZATION :: nat where "RIL_REQUEST_ENTER_NETWORK_DEPERSONALIZATION = 8"
definition RIL_REQUEST_GET_CURRENT_CALLS :: nat where "RIL_REQUEST_GET_CURRENT_CALLS = 9"
definition RIL_REQUEST_DIAL :: nat where "RIL_REQUEST_DIAL = 10"
definition RIL_REQUEST_GET_IMSI :: nat where "RIL_REQUEST_GET_IMSI = 11"
definition RIL_REQUEST_HANGUP :: nat where "RIL_REQUEST_HANGUP = 12"
definition RIL_REQUEST_HANGUP_WAITING_OR_BACKGROUND :: nat where "RIL_REQUEST_HANGUP_WAITING_OR_BACKGROUND = 13"
definition RIL_REQUEST_HANGUP_FOREGROUND_RESUME_BACKGROUND :: nat where "RIL_REQUEST_HANGUP_FOREGROUND_RESUME_BACKGROUND = 14"
definition RIL_REQUEST_SWITCH_WAITING_OR_HOLDING_AND_ACTIVE :: nat where "RIL_REQUEST_SWITCH_WAITING_OR_HOLDING_AND_ACTIVE = 15"
definition RIL_REQUEST_CONFERENCE :: nat where "RIL_REQUEST_CONFERENCE = 16"
definition RIL_REQUEST_UDUB :: nat where "RIL_REQUEST_UDUB = 17"
definition RIL_REQUEST_LAST_CALL_FAIL_CAUSE :: nat where "RIL_REQUEST_LAST_CALL_FAIL_CAUSE = 18"
definition RIL_REQUEST_SIGNAL_STRENGTH :: nat where "RIL_REQUEST_SIGNAL_STRENGTH = 19"
definition RIL_REQUEST_VOICE_REGISTRATION_STATE :: nat where "RIL_REQUEST_VOICE_REGISTRATION_STATE = 20"
definition RIL_REQUEST_DATA_REGISTRATION_STATE :: nat where "RIL_REQUEST_DATA_REGISTRATION_STATE = 21"
definition RIL_REQUEST_OPERATOR :: nat where "RIL_REQUEST_OPERATOR = 22"
definition RIL_REQUEST_RADIO_POWER :: nat where "RIL_REQUEST_RADIO_POWER = 23"
definition RIL_REQUEST_DTMF :: nat where "RIL_REQUEST_DTMF = 24"
definition RIL_REQUEST_SEND_SMS :: nat where "RIL_REQUEST_SEND_SMS = 25"
definition RIL_REQUEST_SEND_SMS_EXPECT_MORE :: nat where "RIL_REQUEST_SEND_SMS_EXPECT_MORE = 26"
definition RIL_REQUEST_SETUP_DATA_CALL :: nat where "RIL_REQUEST_SETUP_DATA_CALL = 27"
definition RIL_REQUEST_SIM_IO :: nat where "RIL_REQUEST_SIM_IO = 28"
definition RIL_REQUEST_SEND_USSD :: nat where "RIL_REQUEST_SEND_USSD = 29"
definition RIL_REQUEST_CANCEL_USSD :: nat where "RIL_REQUEST_CANCEL_USSD = 30"
definition RIL_REQUEST_GET_CLIR :: nat where "RIL_REQUEST_GET_CLIR = 31"
definition RIL_REQUEST_SET_CLIR :: nat where "RIL_REQUEST_SET_CLIR = 32"
definition RIL_REQUEST_QUERY_CALL_FORWARD_STATUS :: nat where "RIL_REQUEST_QUERY_CALL_FORWARD_STATUS = 33"
definition RIL_REQUEST_SET_CALL_FORWARD :: nat where "RIL_REQUEST_SET_CALL_FORWARD = 34"
definition RIL_REQUEST_QUERY_CALL_WAITING :: nat where "RIL_REQUEST_QUERY_CALL_WAITING = 35"
definition RIL_REQUEST_SET_CALL_WAITING :: nat where "RIL_REQUEST_SET_CALL_WAITING = 36"
definition RIL_REQUEST_SMS_ACKNOWLEDGE :: nat where "RIL_REQUEST_SMS_ACKNOWLEDGE = 37"
definition RIL_REQUEST_GET_IMEI :: nat where "RIL_REQUEST_GET_IMEI = 38"
definition RIL_REQUEST_GET_IMEISV :: nat where "RIL_REQUEST_GET_IMEISV = 39"
definition RIL_REQUEST_ANSWER :: nat where "RIL_REQUEST_ANSWER = 40"
definition RIL_REQUEST_DEACTIVATE_DATA_CALL :: nat where "RIL_REQUEST_DEACTIVATE_DATA_CALL = 41"
definition RIL_REQUEST_QUERY_FACILITY_LOCK :: nat where "RIL_REQUEST_QUERY_FACILITY_LOCK = 42"
definition RIL_REQUEST_SET_FACILITY_LOCK :: nat where "RIL_REQUEST_SET_FACILITY_LOCK = 43"
definition RIL_REQUEST_CHANGE_BARRING_PASSWORD :: nat where "RIL_REQUEST_CHANGE_BARRING_PASSWORD = 44"
definition RIL_REQUEST_QUERY_NETWORK_SELECTION_MODE :: nat where "RIL_REQUEST_QUERY_NETWORK_SELECTION_MODE = 45"
definition RIL_REQUEST_SET_NETWORK_SELECTION_AUTOMATIC :: nat where "RIL_REQUEST_SET_NETWORK_SELECTION_AUTOMATIC = 46"
definition RIL_REQUEST_QUERY_AVAILABLE_NETWORKS :: nat where "RIL_REQUEST_QUERY_AVAILABLE_NETWORKS = 48"
definition RIL_REQUEST_DTMF_START :: nat where "RIL_REQUEST_DTMF_START = 49"
definition RIL_REQUEST_DTMF_STOP :: nat where "RIL_REQUEST_DTMF_STOP = 50"
definition RIL_REQUEST_BASEBAND_VERSION :: nat where "RIL_REQUEST_BASEBAND_VERSION = 51"
definition RIL_REQUEST_SEPARATE_CONNECTION :: nat where "RIL_REQUEST_SEPARATE_CONNECTION = 52"
definition RIL_REQUEST_SET_MUTE :: nat where "RIL_REQUEST_SET_MUTE = 53"
definition RIL_REQUEST_GET_MUTE :: nat where "RIL_REQUEST_GET_MUTE = 54"
definition RIL_REQUEST_QUERY_CLIP :: nat where "RIL_REQUEST_QUERY_CLIP = 55"
definition RIL_REQUEST_LAST_DATA_CALL_FAIL_CAUSE :: nat where "RIL_REQUEST_LAST_DATA_CALL_FAIL_CAUSE = 56"
definition RIL_REQUEST_DATA_CALL_LIST :: nat where "RIL_REQUEST_DATA_CALL_LIST = 57"
definition RIL_REQUEST_RESET_RADIO :: nat where "RIL_REQUEST_RESET_RADIO = 58"
definition RIL_REQUEST_OEM_HOOK_RAW :: nat where "RIL_REQUEST_OEM_HOOK_RAW = 59"
definition RIL_REQUEST_OEM_HOOK_STRINGS :: nat where "RIL_REQUEST_OEM_HOOK_STRINGS = 60"
definition RIL_REQUEST_SCREEN_STATE :: nat where "RIL_REQUEST_SCREEN_STATE = 61"
definition RIL_REQUEST_SET_SUPP_SVC_NOTIFICATION :: nat where "RIL_REQUEST_SET_SUPP_SVC_NOTIFICATION = 62"
definition RIL_REQUEST_WRITE_SMS_TO_SIM :: nat where "RIL_REQUEST_WRITE_SMS_TO_SIM = 63"
definition RIL_REQUEST_DELETE_SMS_ON_SIM :: nat where "RIL_REQUEST_DELETE_SMS_ON_SIM = 64"
definition RIL_REQUEST_SET_BAND_MODE :: nat where "RIL_REQUEST_SET_BAND_MODE = 65"
definition RIL_REQUEST_QUERY_AVAILABLE_BAND_MODE :: nat where "RIL_REQUEST_QUERY_AVAILABLE_BAND_MODE = 66"
definition RIL_REQUEST_STK_GET_PROFILE :: nat where "RIL_REQUEST_STK_GET_PROFILE = 67"
definition RIL_REQUEST_STK_SET_PROFILE :: nat where "RIL_REQUEST_STK_SET_PROFILE = 68"
definition RIL_REQUEST_STK_SEND_ENVELOPE_COMMAND :: nat where "RIL_REQUEST_STK_SEND_ENVELOPE_COMMAND = 69"
definition RIL_REQUEST_STK_SEND_TERMINAL_RESPONSE :: nat where "RIL_REQUEST_STK_SEND_TERMINAL_RESPONSE = 70"
definition RIL_REQUEST_STK_HANDLE_CALL_SETUP_REQUESTED_FROM_SIM :: nat where "RIL_REQUEST_STK_HANDLE_CALL_SETUP_REQUESTED_FROM_SIM = 71"
definition RIL_REQUEST_EXPLICIT_CALL_TRANSFER :: nat where "RIL_REQUEST_EXPLICIT_CALL_TRANSFER = 72"
definition RIL_REQUEST_SET_PREFERRED_NETWORK_TYPE :: nat where "RIL_REQUEST_SET_PREFERRED_NETWORK_TYPE = 73"
definition RIL_REQUEST_GET_PREFERRED_NETWORK_TYPE :: nat where "RIL_REQUEST_GET_PREFERRED_NETWORK_TYPE = 74"
definition RIL_REQUEST_GET_NEIGHBORING_CELL_IDS :: nat where "RIL_REQUEST_GET_NEIGHBORING_CELL_IDS = 75"
definition RIL_REQUEST_SET_LOCATION_UPDATES :: nat where "RIL_REQUEST_SET_LOCATION_UPDATES = 76"
definition RIL_REQUEST_CDMA_SET_SUBSCRIPTION_SOURCE :: nat where "RIL_REQUEST_CDMA_SET_SUBSCRIPTION_SOURCE = 77"
definition RIL_REQUEST_CDMA_SET_ROAMING_PREFERENCE :: nat where "RIL_REQUEST_CDMA_SET_ROAMING_PREFERENCE = 78"
definition RIL_REQUEST_CDMA_QUERY_ROAMING_PREFERENCE :: nat where "RIL_REQUEST_CDMA_QUERY_ROAMING_PREFERENCE = 79"
definition RIL_REQUEST_SET_TTY_MODE :: nat where "RIL_REQUEST_SET_TTY_MODE = 80"
definition RIL_REQUEST_QUERY_TTY_MODE :: nat where "RIL_REQUEST_QUERY_TTY_MODE = 81"
definition RIL_REQUEST_CDMA_SET_PREFERRED_VOICE_PRIVACY_MODE :: nat where "RIL_REQUEST_CDMA_SET_PREFERRED_VOICE_PRIVACY_MODE = 82"
definition RIL_REQUEST_CDMA_QUERY_PREFERRED_VOICE_PRIVACY_MODE :: nat where "RIL_REQUEST_CDMA_QUERY_PREFERRED_VOICE_PRIVACY_MODE = 83"
definition RIL_REQUEST_CDMA_FLASH :: nat where "RIL_REQUEST_CDMA_FLASH = 84"
definition RIL_REQUEST_CDMA_BURST_DTMF :: nat where "RIL_REQUEST_CDMA_BURST_DTMF = 85"
definition RIL_REQUEST_CDMA_VALIDATE_AND_WRITE_AKEY :: nat where "RIL_REQUEST_CDMA_VALIDATE_AND_WRITE_AKEY = 86"
definition RIL_REQUEST_CDMA_SEND_SMS :: nat where "RIL_REQUEST_CDMA_SEND_SMS = 87"
definition RIL_REQUEST_CDMA_SMS_ACKNOWLEDGE :: nat where "RIL_REQUEST_CDMA_SMS_ACKNOWLEDGE = 88"
definition RIL_REQUEST_GSM_GET_BROADCAST_SMS_CONFIG :: nat where "RIL_REQUEST_GSM_GET_BROADCAST_SMS_CONFIG = 89"
definition RIL_REQUEST_GSM_SET_BROADCAST_SMS_CONFIG :: nat where "RIL_REQUEST_GSM_SET_BROADCAST_SMS_CONFIG = 90"
definition RIL_REQUEST_GSM_SMS_BROADCAST_ACTIVATION :: nat where "RIL_REQUEST_GSM_SMS_BROADCAST_ACTIVATION = 91"
definition RIL_REQUEST_CDMA_GET_BROADCAST_SMS_CONFIG :: nat where "RIL_REQUEST_CDMA_GET_BROADCAST_SMS_CONFIG = 92"
definition RIL_REQUEST_CDMA_SET_BROADCAST_SMS_CONFIG :: nat where "RIL_REQUEST_CDMA_SET_BROADCAST_SMS_CONFIG = 93"
definition RIL_REQUEST_CDMA_SMS_BROADCAST_ACTIVATION :: nat where "RIL_REQUEST_CDMA_SMS_BROADCAST_ACTIVATION = 94"
definition RIL_REQUEST_CDMA_SUBSCRIPTION :: nat where "RIL_REQUEST_CDMA_SUBSCRIPTION = 95"
definition RIL_REQUEST_CDMA_WRITE_SMS_TO_RUIM :: nat where "RIL_REQUEST_CDMA_WRITE_SMS_TO_RUIM = 96"
definition RIL_REQUEST_CDMA_DELETE_SMS_ON_RUIM :: nat where "RIL_REQUEST_CDMA_DELETE_SMS_ON_RUIM = 97"
definition RIL_REQUEST_DEVICE_IDENTITY :: nat where "RIL_REQUEST_DEVICE_IDENTITY = 98"
definition RIL_REQUEST_EXIT_EMERGENCY_CALLBACK_MODE :: nat where "RIL_REQUEST_EXIT_EMERGENCY_CALLBACK_MODE = 99"
definition RIL_REQUEST_GET_SMSC_ADDRESS :: nat where "RIL_REQUEST_GET_SMSC_ADDRESS = 100"
definition RIL_REQUEST_SET_SMSC_ADDRESS :: nat where "RIL_REQUEST_SET_SMSC_ADDRESS = 101"
definition RIL_REQUEST_REPORT_SMS_MEMORY_STATUS :: nat where "RIL_REQUEST_REPORT_SMS_MEMORY_STATUS = 102"
definition RIL_REQUEST_REPORT_STK_SERVICE_IS_RUNNING :: nat where "RIL_REQUEST_REPORT_STK_SERVICE_IS_RUNNING = 103"
definition RIL_REQUEST_CDMA_GET_SUBSCRIPTION_SOURCE :: nat where "RIL_REQUEST_CDMA_GET_SUBSCRIPTION_SOURCE = 104"
definition RIL_REQUEST_ISIM_AUTHENTICATION :: nat where "RIL_REQUEST_ISIM_AUTHENTICATION = 105"
definition RIL_REQUEST_ACKNOWLEDGE_INCOMING_GSM_SMS_WITH_PDU :: nat where "RIL_REQUEST_ACKNOWLEDGE_INCOMING_GSM_SMS_WITH_PDU = 106"
definition RIL_REQUEST_STK_SEND_ENVELOPE_WITH_STATUS :: nat where "RIL_REQUEST_STK_SEND_ENVELOPE_WITH_STATUS = 107"
definition RIL_REQUEST_VOICE_RADIO_TECH :: nat where "RIL_REQUEST_VOICE_RADIO_TECH = 108"
definition RIL_REQUEST_GET_CELL_INFO_LIST :: nat where "RIL_REQUEST_GET_CELL_INFO_LIST = 109"
definition RIL_REQUEST_SET_UNSOL_CELL_INFO_LIST_RATE :: nat where "RIL_REQUEST_SET_UNSOL_CELL_INFO_LIST_RATE = 110"
definition RIL_REQUEST_SET_INITIAL_ATTACH_APN :: nat where "RIL_REQUEST_SET_INITIAL_ATTACH_APN = 111"
definition RIL_REQUEST_IMS_REGISTRATION_STATE :: nat where "RIL_REQUEST_IMS_REGISTRATION_STATE = 112"
definition RIL_REQUEST_IMS_SEND_SMS :: nat where "RIL_REQUEST_IMS_SEND_SMS = 113"
definition RIL_REQUEST_SIM_TRANSMIT_APDU_BASIC :: nat where "RIL_REQUEST_SIM_TRANSMIT_APDU_BASIC = 114"
definition RIL_REQUEST_SIM_OPEN_CHANNEL :: nat where "RIL_REQUEST_SIM_OPEN_CHANNEL = 115"
definition RIL_REQUEST_SIM_CLOSE_CHANNEL :: nat where "RIL_REQUEST_SIM_CLOSE_CHANNEL = 116"
definition RIL_REQUEST_SIM_TRANSMIT_APDU_CHANNEL :: nat where "RIL_REQUEST_SIM_TRANSMIT_APDU_CHANNEL = 117"
definition RIL_REQUEST_NV_READ_ITEM :: nat where "RIL_REQUEST_NV_READ_ITEM = 118"
definition RIL_REQUEST_NV_WRITE_ITEM :: nat where "RIL_REQUEST_NV_WRITE_ITEM = 119"
definition RIL_REQUEST_NV_WRITE_CDMA_PRL :: nat where "RIL_REQUEST_NV_WRITE_CDMA_PRL = 120"
definition RIL_REQUEST_NV_RESET_CONFIG :: nat where "RIL_REQUEST_NV_RESET_CONFIG = 121"
definition RIL_REQUEST_ALLOW_DATA :: nat where "RIL_REQUEST_ALLOW_DATA = 123"
definition RIL_REQUEST_GET_HARDWARE_CONFIG :: nat where "RIL_REQUEST_GET_HARDWARE_CONFIG = 124"
definition RIL_REQUEST_SIM_AUTHENTICATION :: nat where "RIL_REQUEST_SIM_AUTHENTICATION = 125"
definition RIL_REQUEST_GET_DC_RT_INFO :: nat where "RIL_REQUEST_GET_DC_RT_INFO = 126"
definition RIL_REQUEST_SET_DC_RT_INFO_RATE :: nat where "RIL_REQUEST_SET_DC_RT_INFO_RATE = 127"
definition RIL_REQUEST_SET_DATA_PROFILE :: nat where "RIL_REQUEST_SET_DATA_PROFILE = 128"
definition RIL_REQUEST_SHUTDOWN :: nat where "RIL_REQUEST_SHUTDOWN = 129"
definition RIL_REQUEST_GET_RADIO_CAPABILITY :: nat where "RIL_REQUEST_GET_RADIO_CAPABILITY = 130"
definition RIL_REQUEST_SET_RADIO_CAPABILITY :: nat where "RIL_REQUEST_SET_RADIO_CAPABILITY = 131"
definition RIL_REQUEST_START_LCE :: nat where "RIL_REQUEST_START_LCE = 132"
definition RIL_REQUEST_STOP_LCE :: nat where "RIL_REQUEST_STOP_LCE = 133"
definition RIL_REQUEST_PULL_LCEDATA :: nat where "RIL_REQUEST_PULL_LCEDATA = 134"
definition RIL_REQUEST_GET_ACTIVITY_INFO :: nat where "RIL_REQUEST_GET_ACTIVITY_INFO = 135"
definition RIL_REQUEST_SET_CARRIER_RESTRICTIONS :: nat where "RIL_REQUEST_SET_CARRIER_RESTRICTIONS = 136"
definition RIL_REQUEST_GET_CARRIER_RESTRICTIONS :: nat where "RIL_REQUEST_GET_CARRIER_RESTRICTIONS = 137"
definition RIL_REQUEST_SEND_DEVICE_STATE :: nat where "RIL_REQUEST_SEND_DEVICE_STATE = 138"
definition RIL_REQUEST_SET_UNSOLICITED_RESPONSE_FILTER :: nat where "RIL_REQUEST_SET_UNSOLICITED_RESPONSE_FILTER = 139"
definition RIL_REQUEST_SET_SIM_CARD_POWER :: nat where "RIL_REQUEST_SET_SIM_CARD_POWER = 140"
definition RIL_REQUEST_SET_CARRIER_INFO_IMSI_ENCRYPTION :: nat where "RIL_REQUEST_SET_CARRIER_INFO_IMSI_ENCRYPTION = 141"
definition RIL_REQUEST_START_NETWORK_SCAN :: nat where "RIL_REQUEST_START_NETWORK_SCAN = 142"
definition RIL_REQUEST_STOP_NETWORK_SCAN :: nat where "RIL_REQUEST_STOP_NETWORK_SCAN = 143"
definition RIL_REQUEST_START_KEEPALIVE :: nat where "RIL_REQUEST_START_KEEPALIVE = 144"
definition RIL_REQUEST_STOP_KEEPALIVE :: nat where "RIL_REQUEST_STOP_KEEPALIVE = 145"

lemmas request_numbers =
  RIL_REQUEST_GET_SIM_STATUS_def RIL_REQUEST_ENTER_SIM_PIN_def RIL_REQUEST_ENTER_SIM_PUK_def
  RIL_REQUEST_ENTER_SIM_PIN2_def RIL_REQUEST_ENTER_SIM_PUK2_def RIL_REQUEST_CHANGE_SIM_PIN_def
  RIL_REQUEST_CHANGE_SIM_PIN2_def RIL_REQUEST_ENTER_NETWORK_DEPERSONALIZATION_def RIL_REQUEST_GET_CURRENT_CALLS_def
  RIL_REQUEST_DIAL_def RIL_REQUEST_GET_IMSI_def RIL_REQUEST_HANGUP_def RIL_REQUEST_HANGUP_WAITING_OR_BACKGROUND_def
  RIL_REQUEST_HANGUP_FOREGROUND_RESUME_BACKGROUND_def RIL_REQUEST_SWITCH_WAITING_OR_HOLDING_AND_ACTIVE_def
  RIL_REQUEST_CONFERENCE_def RIL_REQUEST_UDUB_def RIL_REQUEST_LAST_CALL_FAIL_CAUSE_def
  RIL_REQUEST_SIGNAL_STRENGTH_def RIL_REQUEST_VOICE_REGISTRATION_STATE_def RIL_REQUEST_DATA_REGISTRATION_STATE_def
  RIL_REQUEST_OPERATOR_def RIL_REQUEST_RADIO_POWER_def RIL_REQUEST_DTMF_def RIL_REQUEST_SEND_SMS_def
  RIL_REQUEST_SEND_SMS_EXPECT_MORE_def RIL_REQUEST_SETUP_DATA_CALL_def RIL_REQUEST_SIM_IO_def
  RIL_REQUEST_SEND_USSD_def RIL_REQUEST_CANCEL_USSD_def RIL_REQUEST_GET_CLIR_def RIL_REQUEST_SET_CLIR_def
  RIL_REQUEST_QUERY_CALL_FORWARD_STATUS_def RIL_REQUEST_SET_CALL_FORWARD_def RIL_REQUEST_QUERY_CALL_WAITING_def
  RIL_REQUEST_SET_CALL_WAITING_def RIL_REQUEST_SMS_ACKNOWLEDGE_def RIL_REQUEST_GET_IMEI_def
  RIL_REQUEST_GET_IMEISV_def RIL_REQUEST_ANSWER_def RIL_REQUEST_DEACTIVATE_DATA_CALL_def
  RIL_REQUEST_QUERY_FACILITY_LOCK_def RIL_REQUEST_SET_FACILITY_LOCK_def RIL_REQUEST_CHANGE_BARRING_PASSWORD_def
  RIL_REQUEST_QUERY_NETWORK_SELECTION_MODE_def RIL_REQUEST_SET_NETWORK_SELECTION_AUTOMATIC_def
  RIL_REQUEST_SET_NETWORK_SELECTION_MANUAL_def RIL_REQUEST_QUERY_AVAILABLE_NETWORKS_def RIL_REQUEST_DTMF_START_def
  RIL_REQUEST_DTMF_STOP_def RIL_REQUEST_BASEBAND_VERSION_def RIL_REQUEST_SEPARATE_CONNECTION_def
  RIL_REQUEST_SET_MUTE_def RIL_REQUEST_GET_MUTE_def RIL_REQUEST_QUERY_CLIP_def
  RIL_REQUEST_LAST_DATA_CALL_FAIL_CAUSE_def RIL_REQUEST_DATA_CALL_LIST_def RIL_REQUEST_RESET_RADIO_def
  RIL_REQUEST_OEM_HOOK_RAW_def RIL_REQUEST_OEM_HOOK_STRINGS_def RIL_REQUEST_SCREEN_STATE_def
  RIL_REQUEST_SET_SUPP_SVC_NOTIFICATION_def RIL_REQUEST_WRITE_SMS_TO_SIM_def RIL_REQUEST_DELETE_SMS_ON_SIM_def
  RIL_REQUEST_SET_BAND_MODE_def RIL_REQUEST_QUERY_AVAILABLE_BAND_MODE_def RIL_REQUEST_STK_GET_PROFILE_def
  RIL_REQUEST_STK_SET_PROFILE_def RIL_REQUEST_STK_SEND_ENVELOPE_COMMAND_def
  RIL_REQUEST_STK_SEND_TERMINAL_RESPONSE_def RIL_REQUEST_STK_HANDLE_CALL_SETUP_REQUESTED_FROM_SIM_def
  RIL_REQUEST_EXPLICIT_CALL_TRANSFER_def RIL_REQUEST_SET_PREFERRED_NETWORK_TYPE_def
  RIL_REQUEST_GET_PREFERRED_NETWORK_TYPE_def RIL_REQUEST_GET_NEIGHBORING_CELL_IDS_def
  RIL_REQUEST_SET_LOCATION_UPDATES_def RIL_REQUEST_CDMA_SET_SUBSCRIPTION_SOURCE_def
  RIL_REQUEST_CDMA_SET_ROAMING_PREFERENCE_def RIL_REQUEST_CDMA_QUERY_ROAMING_PREFERENCE_def
  RIL_REQUEST_SET_TTY_MODE_def RIL_REQUEST_QUERY_TTY_MODE_def RIL_REQUEST_CDMA_SET_PREFERRED_VOICE_PRIVACY_MODE_def
  RIL_REQUEST_CDMA_QUERY_PREFERRED_VOICE_PRIVACY_MODE_def RIL_REQUEST_CDMA_FLASH_def RIL_REQUEST_CDMA_BURST_DTMF_def
  RIL_REQUEST_CDMA_VALIDATE_AND_WRITE_AKEY_def RIL_REQUEST_CDMA_SEND_SMS_def RIL_REQUEST_CDMA_SMS_ACKNOWLEDGE_def
  RIL_REQUEST_GSM_GET_BROADCAST_SMS_CONFIG_def RIL_REQUEST_GSM_SET_BROADCAST_SMS_CONFIG_def
  RIL_REQUEST_GSM_SMS_BROADCAST_ACTIVATION_def RIL_REQUEST_CDMA_GET_BROADCAST_SMS_CONFIG_def
  RIL_REQUEST_CDMA_SET_BROADCAST_SMS_CONFIG_def RIL_REQUEST_CDMA_SMS_BROADCAST_ACTIVATION_def
  RIL_REQUEST_CDMA_SUBSCRIPTION_def RIL_REQUEST_CDMA_WRITE_SMS_TO_RUIM_def RIL_REQUEST_CDMA_DELETE_SMS_ON_RUIM_def
  RIL_REQUEST_DEVICE_IDENTITY_def RIL_REQUEST_EXIT_EMERGENCY_CALLBACK_MODE_def RIL_REQUEST_GET_SMSC_ADDRESS_def
  RIL_REQUEST_SET_SMSC_ADDRESS_def RIL_REQUEST_REPORT_SMS_MEMORY_STATUS_def
  RIL_REQUEST_REPORT_STK_SERVICE_IS_RUNNING_def RIL_REQUEST_CDMA_GET_SUBSCRIPTION_SOURCE_def
  RIL_REQUEST_ISIM_AUTHENTICATION_def RIL_REQUEST_ACKNOWLEDGE_INCOMING_GSM_SMS_WITH_PDU_def
  RIL_REQUEST_STK_SEND_ENVELOPE_WITH_STATUS_def RIL_REQUEST_VOICE_RADIO_TECH_def RIL_REQUEST_GET_CELL_INFO_LIST_def
  RIL_REQUEST_SET_UNSOL_CELL_INFO_LIST_RATE_def RIL_REQUEST_SET_INITIAL_ATTACH_APN_def
  RIL_REQUEST_IMS_REGISTRATION_STATE_def RIL_REQUEST_IMS_SEND_SMS_def RIL_REQUEST_SIM_TRANSMIT_APDU_BASIC_def
  RIL_REQUEST_SIM_OPEN_CHANNEL_def RIL_REQUEST_SIM_CLOSE_CHANNEL_def RIL_REQUEST_SIM_TRANSMIT_APDU_CHANNEL_def
  RIL_REQUEST_NV_READ_ITEM_def RIL_REQUEST_NV_WRITE_ITEM_def RIL_REQUEST_NV_WRITE_CDMA_PRL_def
  RIL_REQUEST_NV_RESET_CONFIG_def RIL_REQUEST_SET_UICC_SUBSCRIPTION_def RIL_REQUEST_ALLOW_DATA_def
  RIL_REQUEST_GET_HARDWARE_CONFIG_def RIL_REQUEST_SIM_AUTHENTICATION_def RIL_REQUEST_GET_DC_RT_INFO_def
  RIL_REQUEST_SET_DC_RT_INFO_RATE_def RIL_REQUEST_SET_DATA_PROFILE_def RIL_REQUEST_SHUTDOWN_def
  RIL_REQUEST_GET_RADIO_CAPABILITY_def RIL_REQUEST_SET_RADIO_CAPABILITY_def RIL_REQUEST_START_LCE_def
  RIL_REQUEST_STOP_LCE_def RIL_REQUEST_PULL_LCEDATA_def RIL_REQUEST_GET_ACTIVITY_INFO_def
  RIL_REQUEST_SET_CARRIER_RESTRICTIONS_def RIL_REQUEST_GET_CARRIER_RESTRICTIONS_def RIL_REQUEST_SEND_DEVICE_STATE_def
  RIL_REQUEST_SET_UNSOLICITED_RESPONSE_FILTER_def RIL_REQUEST_SET_SIM_CARD_POWER_def
  RIL_REQUEST_SET_CARRIER_INFO_IMSI_ENCRYPTION_def RIL_REQUEST_START_NETWORK_SCAN_def
  RIL_REQUEST_STOP_NETWORK_SCAN_def RIL_REQUEST_START_KEEPALIVE_def RIL_REQUEST_STOP_KEEPALIVE_def

subsection \<open>Response functions\<close>

definition supplyIccPinForAppResponse :: response_fun where
  "supplyIccPinForAppResponse = int_or_empty_response ''supplyIccPinForAppResponse''"

definition supplyIccPukForAppResponse :: response_fun where
  "supplyIccPukForAppResponse = int_or_empty_response ''supplyIccPukForAppResponse''"

definition supplyIccPin2ForAppResponse :: response_fun where
  "supplyIccPin2ForAppResponse = int_or_empty_response ''supplyIccPin2ForAppResponse''"

definition supplyIccPuk2ForAppResponse :: response_fun where
  "supplyIccPuk2ForAppResponse = int_or_empty_response ''supplyIccPuk2ForAppResponse''"

definition changeIccPinForAppResponse :: response_fun where
  "changeIccPinForAppResponse = int_or_empty_response ''changeIccPinForAppResponse''"

definition changeIccPin2ForAppResponse :: response_fun where
  "changeIccPin2ForAppResponse = int_or_empty_response ''changeIccPin2ForAppResponse''"

definition supplyNetworkDepersonalizationResponse :: response_fun where
  "supplyNetworkDepersonalizationResponse = int_or_empty_response ''supplyNetworkDepersonalizationResponse''"

definition dialResponse :: response_fun where
  "dialResponse = plain_response Radio ''dialResponse''"

definition getIMSIForAppResponse :: response_fun where
  "getIMSIForAppResponse = string_response ''getIMSIForAppResponse''"

definition hangupConnectionResponse :: response_fun where
  "hangupConnectionResponse = plain_response Radio ''hangupConnectionResponse''"

definition hangupWaitingOrBackgroundResponse :: response_fun where
  "hangupWaitingOrBackgroundResponse = plain_response Radio ''hangupWaitingOrBackgroundResponse''"

definition hangupForegroundResumeBackgroundResponse :: response_fun where
  "hangupForegroundResumeBackgroundResponse = plain_response Radio ''hangupWaitingOrBackgroundResponse''"

definition switchWaitingOrHoldingAndActiveResponse :: response_fun where
  "switchWaitingOrHoldingAndActiveResponse = plain_response Radio ''switchWaitingOrHoldingAndActiveResponse''"

definition conferenceResponse :: response_fun where
  "conferenceResponse = plain_response Radio ''conferenceResponse''"

definition rejectCallResponse :: response_fun where
  "rejectCallResponse = plain_response Radio ''rejectCallResponse''"

definition setRadioPowerResponse :: response_fun where
  "setRadioPowerResponse = plain_response Radio ''setRadioPowerResponse''"

definition sendDtmfResponse :: response_fun where
  "sendDtmfResponse = plain_response Radio ''sendDtmfResponse''"

definition sendUssdResponse :: response_fun where
  "sendUssdResponse = plain_response Radio ''sendUssdResponse''"

definition cancelPendingUssdResponse :: response_fun where
  "cancelPendingUssdResponse = plain_response Radio ''cancelPendingUssdResponse''"

definition setClirResponse :: response_fun where
  "setClirResponse = plain_response Radio ''setClirResponse''"

definition setCallForwardResponse :: response_fun where
  "setCallForwardResponse = plain_response Radio ''setCallForwardResponse''"

definition setCallWaitingResponse :: response_fun where
  "setCallWaitingResponse = plain_response Radio ''setCallWaitingResponse''"

definition acknowledgeLastIncomingGsmSmsResponse :: response_fun where
  "acknowledgeLastIncomingGsmSmsResponse = plain_response Radio ''acknowledgeLastIncomingGsmSmsResponse''"

definition acceptCallResponse :: response_fun where
  "acceptCallResponse = plain_response Radio ''acceptCallResponse''"

definition deactivateDataCallResponse :: response_fun where
  "deactivateDataCallResponse = plain_response Radio ''deactivateDataCallResponse''"

definition getFacilityLockForAppResponse :: response_fun where
  "getFacilityLockForAppResponse = int_response ''getFacilityLockForAppResponse''"

definition setFacilityLockForAppResponse :: response_fun where
  "setFacilityLockForAppResponse = int_or_empty_response ''setFacilityLockForAppResponse''"

definition setBarringPasswordResponse :: response_fun where
  "setBarringPasswordResponse = plain_response Radio ''setBarringPasswordResponse''"

definition setNetworkSelectionModeAutomaticResponse :: response_fun where
  "setNetworkSelectionModeAutomaticResponse = plain_response Radio ''setNetworkSelectionModeAutomaticResponse''"

definition setNetworkSelectionModeManualResponse :: response_fun where
  "setNetworkSelectionModeManualResponse = plain_response Radio ''setNetworkSelectionModeManualResponse''"

definition startDtmfResponse :: response_fun where
  "startDtmfResponse = plain_response Radio ''startDtmfResponse''"

definition stopDtmfResponse :: response_fun where
  "stopDtmfResponse = plain_response Radio ''stopDtmfResponse''"

definition getBasebandVersionResponse :: response_fun where
  "getBasebandVersionResponse = string_response ''getBasebandVersionResponse''"

definition separateConnectionResponse :: response_fun where
  "separateConnectionResponse = plain_response Radio ''separateConnectionResponse''"

definition setMuteResponse :: response_fun where
  "setMuteResponse = plain_response Radio ''setMuteResponse''"

definition getClipResponse :: response_fun where
  "getClipResponse = int_response ''getClipResponse''"

definition sendDeviceStateResponse :: response_fun where
  "sendDeviceStateResponse = plain_response Radio ''sendDeviceStateResponse''"

definition setSuppServiceNotificationsResponse :: response_fun where
  "setSuppServiceNotificationsResponse = plain_response Radio ''setSuppServiceNotificationsResponse''"

definition writeSmsToSimResponse :: response_fun where
  "writeSmsToSimResponse = int_response ''writeSmsToSimResponse''"

definition deleteSmsOnSimResponse :: response_fun where
  "deleteSmsOnSimResponse = plain_response Radio ''deleteSmsOnSimResponse''"

definition setBandModeResponse :: response_fun where
  "setBandModeResponse = plain_response Radio ''setBandModeResponse''"

definition sendEnvelopeResponse :: response_fun where
  "sendEnvelopeResponse = string_response ''sendEnvelopeResponse''"

definition sendTerminalResponseToSimResponse :: response_fun where
  "sendTerminalResponseToSimResponse = plain_response Radio ''sendTerminalResponseToSimResponse''"

definition handleStkCallSetupRequestFromSimResponse :: response_fun where
  "handleStkCallSetupRequestFromSimResponse = plain_response Radio ''handleStkCallSetupRequestFromSimResponse''"

definition explicitCallTransferResponse :: response_fun where
  "explicitCallTransferResponse = plain_response Radio ''explicitCallTransferResponse''"

definition setPreferredNetworkTypeResponse :: response_fun where
  "setPreferredNetworkTypeResponse = plain_response Radio ''setPreferredNetworkTypeResponse''"

definition getPreferredNetworkTypeResponse :: response_fun where
  "getPreferredNetworkTypeResponse = int_response ''getPreferredNetworkTypeResponse''"

definition setLocationUpdatesResponse :: response_fun where
  "setLocationUpdatesResponse = plain_response Radio ''setLocationUpdatesResponse''"

definition setCdmaSubscriptionSourceResponse :: response_fun where
  "setCdmaSubscriptionSourceResponse = plain_response Radio ''setCdmaSubscriptionSourceResponse''"

definition setCdmaRoamingPreferenceResponse :: response_fun where
  "setCdmaRoamingPreferenceResponse = plain_response Radio ''setCdmaRoamingPreferenceResponse''"

definition getCdmaRoamingPreferenceResponse :: response_fun where
  "getCdmaRoamingPreferenceResponse = int_response ''getCdmaRoamingPreferenceResponse''"

definition setTTYModeResponse :: response_fun where
  "setTTYModeResponse = plain_response Radio ''setTTYModeResponse''"

definition getTTYModeResponse :: response_fun where
  "getTTYModeResponse = int_response ''getTTYModeResponse''"

definition setPreferredVoicePrivacyResponse :: response_fun where
  "setPreferredVoicePrivacyResponse = plain_response Radio ''setPreferredVoicePrivacyResponse''"

definition sendCDMAFeatureCodeResponse :: response_fun where
  "sendCDMAFeatureCodeResponse = plain_response Radio ''sendCDMAFeatureCodeResponse''"

definition sendBurstDtmfResponse :: response_fun where
  "sendBurstDtmfResponse = plain_response Radio ''sendBurstDtmfResponse''"

definition acknowledgeLastIncomingCdmaSmsResponse :: response_fun where
  "acknowledgeLastIncomingCdmaSmsResponse = plain_response Radio ''acknowledgeLastIncomingCdmaSmsResponse''"

definition setGsmBroadcastConfigResponse :: response_fun where
  "setGsmBroadcastConfigResponse = plain_response Radio ''setGsmBroadcastConfigResponse''"

definition setGsmBroadcastActivationResponse :: response_fun where
  "setGsmBroadcastActivationResponse = plain_response Radio ''setGsmBroadcastActivationResponse''"

definition setCdmaBroadcastConfigResponse :: response_fun where
  "setCdmaBroadcastConfigResponse = plain_response Radio ''setCdmaBroadcastConfigResponse''"

definition setCdmaBroadcastActivationResponse :: response_fun where
  "setCdmaBroadcastActivationResponse = plain_response Radio ''setCdmaBroadcastActivationResponse''"

definition writeSmsToRuimResponse :: response_fun where
  "writeSmsToRuimResponse = int_response ''writeSmsToRuimResponse''"

definition deleteSmsOnRuimResponse :: response_fun where
  "deleteSmsOnRuimResponse = plain_response Radio ''deleteSmsOnRuimResponse''"

definition exitEmergencyCallbackModeResponse :: response_fun where
  "exitEmergencyCallbackModeResponse = plain_response Radio ''exitEmergencyCallbackModeResponse''"

definition getSmscAddressResponse :: response_fun where
  "getSmscAddressResponse = string_response ''getSmscAddressResponse''"

definition setSmscAddressResponse :: response_fun where
  "setSmscAddressResponse = plain_response Radio ''setSmscAddressResponse''"

definition reportSmsMemoryStatusResponse :: response_fun where
  "reportSmsMemoryStatusResponse = plain_response Radio ''reportSmsMemoryStatusResponse''"

definition reportStkServiceIsRunningResponse :: response_fun where
  "reportStkServiceIsRunningResponse = plain_response Radio ''reportStkServiceIsRunningResponse''"

definition getCdmaSubscriptionSourceResponse :: response_fun where
  "getCdmaSubscriptionSourceResponse = int_response ''getCdmaSubscriptionSourceResponse''"

definition requestIsimAuthenticationResponse :: response_fun where
  "requestIsimAuthenticationResponse = string_response ''requestIsimAuthenticationResponse''"

definition acknowledgeIncomingGsmSmsWithPduResponse :: response_fun where
  "acknowledgeIncomingGsmSmsWithPduResponse = plain_response Radio ''acknowledgeIncomingGsmSmsWithPduResponse''"

definition getVoiceRadioTechnologyResponse :: response_fun where
  "getVoiceRadioTechnologyResponse = int_response ''getVoiceRadioTechnologyResponse''"

definition setCellInfoListRateResponse :: response_fun where
  "setCellInfoListRateResponse = plain_response Radio ''setCellInfoListRateResponse''"

definition setInitialAttachApnResponse :: response_fun where
  "setInitialAttachApnResponse = plain_response Radio ''setInitialAttachApnResponse''"

definition iccCloseLogicalChannelResponse :: response_fun where
  "iccCloseLogicalChannelResponse = plain_response Radio ''iccCloseLogicalChannelResponse''"

definition nvReadItemResponse :: response_fun where
  "nvReadItemResponse = string_response ''nvReadItemResponse''"

definition nvWriteItemResponse :: response_fun where
  "nvWriteItemResponse = plain_response Radio ''nvWriteItemResponse''"

definition nvWriteCdmaPrlResponse :: response_fun where
  "nvWriteCdmaPrlResponse = plain_response Radio ''nvWriteCdmaPrlResponse''"

definition nvResetConfigResponse :: response_fun where
  "nvResetConfigResponse = plain_response Radio ''nvResetConfigResponse''"

definition setUiccSubscriptionResponse :: response_fun where
  "setUiccSubscriptionResponse = plain_response Radio ''setUiccSubscriptionResponse''"

definition setDataAllowedResponse :: response_fun where
  "setDataAllowedResponse = plain_response Radio ''setDataAllowedResponse''"

definition setDataProfileResponse :: response_fun where
  "setDataProfileResponse = plain_response Radio ''setDataProfileResponse''"

definition requestShutdownResponse :: response_fun where
  "requestShutdownResponse = plain_response Radio ''requestShutdownResponse''"

definition setAllowedCarriersResponse :: response_fun where
  "setAllowedCarriersResponse = int_response ''setAllowedCarriersResponse''"

definition setIndicationFilterResponse :: response_fun where
  "setIndicationFilterResponse = plain_response Radio ''setIndicationFilterResponse''"

definition setCarrierInfoForImsiEncryptionResponse :: response_fun where
  "setCarrierInfoForImsiEncryptionResponse = plain_response RadioV11 ''setCarrierInfoForImsiEncryptionResponse''"

definition startNetworkScanResponse :: response_fun where
  "startNetworkScanResponse = plain_response RadioV11 ''startNetworkScanResponse''"

definition stopNetworkScanResponse :: response_fun where
  "stopNetworkScanResponse = plain_response RadioV11 ''stopNetworkScanResponse''"

definition stopKeepaliveResponse :: response_fun where
  "stopKeepaliveResponse = plain_response RadioV11 ''stopKeepaliveResponse''"

text \<open>The one response function that chooses between two interfaces.\<close>

definition setSimCardPowerResponse :: response_fun where
  "setSimCardPowerResponse slotId responseType serial e resp S =
    (if available RadioV11 slotId S
     then plain_response RadioV11 ''setSimCardPowerResponse_1_1'' slotId responseType serial e resp S
     else plain_response Radio ''setSimCardPowerResponse'' slotId responseType serial e resp S)"

subsection \<open>The table\<close>

definition s_commands :: "(string \<Rightarrow> response \<Rightarrow> payload option) \<Rightarrow> commands" where
  "s_commands C =
   [(0, None),
    (RIL_REQUEST_GET_SIM_STATUS, Some getIccCardStatusResponse),
    (RIL_REQUEST_ENTER_SIM_PIN, Some supplyIccPinForAppResponse),
    (RIL_REQUEST_ENTER_SIM_PUK, Some supplyIccPukForAppResponse),
    (RIL_REQUEST_ENTER_SIM_PIN2, Some supplyIccPin2ForAppResponse),
    (RIL_REQUEST_ENTER_SIM_PUK2, Some supplyIccPuk2ForAppResponse),
    (RIL_REQUEST_CHANGE_SIM_PIN, Some changeIccPinForAppResponse),
    (RIL_REQUEST_CHANGE_SIM_PIN2, Some changeIccPin2ForAppResponse),
    (RIL_REQUEST_ENTER_NETWORK_DEPERSONALIZATION, Some supplyNetworkDepersonalizationResponse),
    (RIL_REQUEST_GET_CURRENT_CALLS, Some (data_response C Radio ''getCurrentCallsResponse'')),
    (RIL_REQUEST_DIAL, Some dialResponse),
    (RIL_REQUEST_GET_IMSI, Some getIMSIForAppResponse),
    (RIL_REQUEST_HANGUP, Some hangupConnectionResponse),
    (RIL_REQUEST_HANGUP_WAITING_OR_BACKGROUND, Some hangupWaitingOrBackgroundResponse),
    (RIL_REQUEST_HANGUP_FOREGROUND_RESUME_BACKGROUND, Some hangupForegroundResumeBackgroundResponse),
    (RIL_REQUEST_SWITCH_WAITING_OR_HOLDING_AND_ACTIVE, Some switchWaitingOrHoldingAndActiveResponse),
    (RIL_REQUEST_CONFERENCE, Some conferenceResponse),
    (RIL_REQUEST_UDUB, Some rejectCallResponse),
    (RIL_REQUEST_LAST_CALL_FAIL_CAUSE, Some (data_response C Radio ''getLastCallFailCauseResponse'')),
    (RIL_REQUEST_SIGNAL_STRENGTH, Some (data_response C Radio ''getSignalStrengthResponse'')),
    (RIL_REQUEST_VOICE_REGISTRATION_STATE, Some (data_response C Radio ''getVoiceRegistrationStateResponse'')),
    (RIL_REQUEST_DATA_REGISTRATION_STATE, Some (data_response C Radio ''getDataRegistrationStateResponse'')),
    (RIL_REQUEST_OPERATOR, Some (data_response C Radio ''getOperatorResponse'')),
    (RIL_REQUEST_RADIO_POWER, Some setRadioPowerResponse),
    (RIL_REQUEST_DTMF, Some sendDtmfResponse),
    (RIL_REQUEST_SEND_SMS, Some (data_response C Radio ''sendSmsResponse'')),
    (RIL_REQUEST_SEND_SMS_EXPECT_MORE, Some (data_response C Radio ''sendSMSExpectMoreResponse'')),
    (RIL_REQUEST_SETUP_DATA_CALL, Some (data_response C Radio ''setupDataCallResponse'')),
    (RIL_REQUEST_SIM_IO, Some (data_response C Radio ''iccIOForAppResponse'')),
    (RIL_REQUEST_SEND_USSD, Some sendUssdResponse),
    (RIL_REQUEST_CANCEL_USSD, Some cancelPendingUssdResponse),
    (RIL_REQUEST_GET_CLIR, Some (data_response C Radio ''getClirResponse'')),
    (RIL_REQUEST_SET_CLIR, Some setClirResponse),
    (RIL_REQUEST_QUERY_CALL_FORWARD_STATUS, Some (data_response C Radio ''getCallForwardStatusResponse'')),
    (RIL_REQUEST_SET_CALL_FORWARD, Some setCallForwardResponse),
    (RIL_REQUEST_QUERY_CALL_WAITING, Some (data_response C Radio ''getCallWaitingResponse'')),
    (RIL_REQUEST_SET_CALL_WAITING, Some setCallWaitingResponse),
    (RIL_REQUEST_SMS_ACKNOWLEDGE, Some acknowledgeLastIncomingGsmSmsResponse),
    (RIL_REQUEST_GET_IMEI, None),
    (RIL_REQUEST_GET_IMEISV, None),
    (RIL_REQUEST_ANSWER, Some acceptCallResponse),
    (RIL_REQUEST_DEACTIVATE_DATA_CALL, Some deactivateDataCallResponse),
    (RIL_REQUEST_QUERY_FACILITY_LOCK, Some getFacilityLockForAppResponse),
    (RIL_REQUEST_SET_FACILITY_LOCK, Some setFacilityLockForAppResponse),
    (RIL_REQUEST_CHANGE_BARRING_PASSWORD, Some setBarringPasswordResponse),
    (RIL_REQUEST_QUERY_NETWORK_SELECTION_MODE, Some (data_response C Radio ''getNetworkSelectionModeResponse'')),
    (RIL_REQUEST_SET_NETWORK_SELECTION_AUTOMATIC, Some setNetworkSelectionModeAutomaticResponse),
    (RIL_REQUEST_SET_NETWORK_SELECTION_MANUAL, Some setNetworkSelectionModeManualResponse),
    (RIL_REQUEST_QUERY_AVAILABLE_NETWORKS, Some (data_response C Radio ''getAvailableNetworksResponse'')),
    (RIL_REQUEST_DTMF_START, Some startDtmfResponse),
    (RIL_REQUEST_DTMF_STOP, Some stopDtmfResponse),
    (RIL_REQUEST_BASEBAND_VERSION, Some getBasebandVersionResponse),
    (RIL_REQUEST_SEPARATE_CONNECTION, Some separateConnectionResponse),
    (RIL_REQUEST_SET_MUTE, Some setMuteResponse),
    (RIL_REQUEST_GET_MUTE, Some (data_response C Radio ''getMuteResponse'')),
    (RIL_REQUEST_QUERY_CLIP, Some getClipResponse),
    (RIL_REQUEST_LAST_DATA_CALL_FAIL_CAUSE, None),
    (RIL_REQUEST_DATA_CALL_LIST, Some (data_response C Radio ''getDataCallListResponse'')),
    (RIL_REQUEST_RESET_RADIO, None),
    (RIL_REQUEST_OEM_HOOK_RAW, Some (data_response C OemHook ''sendRequestRawResponse'')),
    (RIL_REQUEST_OEM_HOOK_STRINGS, Some (data_response C OemHook ''sendRequestStringsResponse'')),
    (RIL_REQUEST_SCREEN_STATE, Some sendDeviceStateResponse),
    (RIL_REQUEST_SET_SUPP_SVC_NOTIFICATION, Some setSuppServiceNotificationsResponse),
    (RIL_REQUEST_WRITE_SMS_TO_SIM, Some writeSmsToSimResponse),
    (RIL_REQUEST_DELETE_SMS_ON_SIM, Some deleteSmsOnSimResponse),
    (RIL_REQUEST_SET_BAND_MODE, Some setBandModeResponse),
    (RIL_REQUEST_QUERY_AVAILABLE_BAND_MODE, Some (data_response C Radio ''getAvailableBandModesResponse'')),
    (RIL_REQUEST_STK_GET_PROFILE, None),
    (RIL_REQUEST_STK_SET_PROFILE, None),
    (RIL_REQUEST_STK_SEND_ENVELOPE_COMMAND, Some sendEnvelopeResponse),
    (RIL_REQUEST_STK_SEND_TERMINAL_RESPONSE, Some sendTerminalResponseToSimResponse),
    (RIL_REQUEST_STK_HANDLE_CALL_SETUP_REQUESTED_FROM_SIM, Some handleStkCallSetupRequestFromSimResponse),
    (RIL_REQUEST_EXPLICIT_CALL_TRANSFER, Some explicitCallTransferResponse),
    (RIL_REQUEST_SET_PREFERRED_NETWORK_TYPE, Some setPreferredNetworkTypeResponse),
    (RIL_REQUEST_GET_PREFERRED_NETWORK_TYPE, Some getPreferredNetworkTypeResponse),
    (RIL_REQUEST_GET_NEIGHBORING_CELL_IDS, Some (data_response C Radio ''getNeighboringCidsResponse'')),
    (RIL_REQUEST_SET_LOCATION_UPDATES, Some setLocationUpdatesResponse),
    (RIL_REQUEST_CDMA_SET_SUBSCRIPTION_SOURCE, Some setCdmaSubscriptionSourceResponse),
    (RIL_REQUEST_CDMA_SET_ROAMING_PREFERENCE, Some setCdmaRoamingPreferenceResponse),
    (RIL_REQUEST_CDMA_QUERY_ROAMING_PREFERENCE, Some getCdmaRoamingPreferenceResponse),
    (RIL_REQUEST_SET_TTY_MODE, Some setTTYModeResponse),
    (RIL_REQUEST_QUERY_TTY_MODE, Some getTTYModeResponse),
    (RIL_REQUEST_CDMA_SET_PREFERRED_VOICE_PRIVACY_MODE, Some setPreferredVoicePrivacyResponse),
    (RIL_REQUEST_CDMA_QUERY_PREFERRED_VOICE_PRIVACY_MODE, Some (data_response C Radio ''getPreferredVoicePrivacyResponse'')),
    (RIL_REQUEST_CDMA_FLASH, Some sendCDMAFeatureCodeResponse),
    (RIL_REQUEST_CDMA_BURST_DTMF, Some sendBurstDtmfResponse),
    (RIL_REQUEST_CDMA_VALIDATE_AND_WRITE_AKEY, None),
    (RIL_REQUEST_CDMA_SEND_SMS, Some (data_response C Radio ''sendCdmaSmsResponse'')),
    (RIL_REQUEST_CDMA_SMS_ACKNOWLEDGE, Some acknowledgeLastIncomingCdmaSmsResponse),
    (RIL_REQUEST_GSM_GET_BROADCAST_SMS_CONFIG, Some (data_response C Radio ''getGsmBroadcastConfigResponse'')),
    (RIL_REQUEST_GSM_SET_BROADCAST_SMS_CONFIG, Some setGsmBroadcastConfigResponse),
    (RIL_REQUEST_GSM_SMS_BROADCAST_ACTIVATION, Some setGsmBroadcastActivationResponse),
    (RIL_REQUEST_CDMA_GET_BROADCAST_SMS_CONFIG, Some (data_response C Radio ''getCdmaBroadcastConfigResponse'')),
    (RIL_REQUEST_CDMA_SET_BROADCAST_SMS_CONFIG, Some setCdmaBroadcastConfigResponse),
    (RIL_REQUEST_CDMA_SMS_BROADCAST_ACTIVATION, Some setCdmaBroadcastActivationResponse),
    (RIL_REQUEST_CDMA_SUBSCRIPTION, Some (data_response C Radio ''getCDMASubscriptionResponse'')),
    (RIL_REQUEST_CDMA_WRITE_SMS_TO_RUIM, Some writeSmsToRuimResponse),
    (RIL_REQUEST_CDMA_DELETE_SMS_ON_RUIM, Some deleteSmsOnRuimResponse),
    (RIL_REQUEST_DEVICE_IDENTITY, Some (data_response C Radio ''getDeviceIdentityResponse'')),
    (RIL_REQUEST_EXIT_EMERGENCY_CALLBACK_MODE, Some exitEmergencyCallbackModeResponse),
    (RIL_REQUEST_GET_SMSC_ADDRESS, Some getSmscAddressResponse),
    (RIL_REQUEST_SET_SMSC_ADDRESS, Some setSmscAddressResponse),
    (RIL_REQUEST_REPORT_SMS_MEMORY_STATUS, Some reportSmsMemoryStatusResponse),
    (RIL_REQUEST_REPORT_STK_SERVICE_IS_RUNNING, Some reportStkServiceIsRunningResponse),
    (RIL_REQUEST_CDMA_GET_SUBSCRIPTION_SOURCE, Some getCdmaSubscriptionSourceResponse),
    (RIL_REQUEST_ISIM_AUTHENTICATION, Some requestIsimAuthenticationResponse),
    (RIL_REQUEST_ACKNOWLEDGE_INCOMING_GSM_SMS_WITH_PDU, Some acknowledgeIncomingGsmSmsWithPduResponse),
    (RIL_REQUEST_STK_SEND_ENVELOPE_WITH_STATUS, Some (data_response C Radio ''sendEnvelopeWithStatusResponse'')),
    (RIL_REQUEST_VOICE_RADIO_TECH, Some getVoiceRadioTechnologyResponse),
    (RIL_REQUEST_GET_CELL_INFO_LIST, Some (data_response C Radio ''getCellInfoListResponse'')),
    (RIL_REQUEST_SET_UNSOL_CELL_INFO_LIST_RATE, Some setCellInfoListRateResponse),
    (RIL_REQUEST_SET_INITIAL_ATTACH_APN, Some setInitialAttachApnResponse),
    (RIL_REQUEST_IMS_REGISTRATION_STATE, Some (data_response C Radio ''getImsRegistrationStateResponse'')),
    (RIL_REQUEST_IMS_SEND_SMS, Some (data_response C Radio ''sendImsSmsResponse'')),
    (RIL_REQUEST_SIM_TRANSMIT_APDU_BASIC, Some (data_response C Radio ''iccTransmitApduBasicChannelResponse'')),
    (RIL_REQUEST_SIM_OPEN_CHANNEL, Some (data_response C Radio ''iccOpenLogicalChannelResponse'')),
    (RIL_REQUEST_SIM_CLOSE_CHANNEL, Some iccCloseLogicalChannelResponse),
    (RIL_REQUEST_SIM_TRANSMIT_APDU_CHANNEL, Some (data_response C Radio ''iccTransmitApduLogicalChannelResponse'')),
    (RIL_REQUEST_NV_READ_ITEM, Some nvReadItemResponse),
    (RIL_REQUEST_NV_WRITE_ITEM, Some nvWriteItemResponse),
    (RIL_REQUEST_NV_WRITE_CDMA_PRL, Some nvWriteCdmaPrlResponse),
    (RIL_REQUEST_NV_RESET_CONFIG, Some nvResetConfigResponse),
    (RIL_REQUEST_SET_UICC_SUBSCRIPTION, Some setUiccSubscriptionResponse),
    (RIL_REQUEST_ALLOW_DATA, Some setDataAllowedResponse),
    (RIL_REQUEST_GET_HARDWARE_CONFIG, Some (data_response C Radio ''getHardwareConfigResponse'')),
    (RIL_REQUEST_SIM_AUTHENTICATION, Some (data_response C Radio ''requestIccSimAuthenticationResponse'')),
    (RIL_REQUEST_GET_DC_RT_INFO, None),
    (RIL_REQUEST_SET_DC_RT_INFO_RATE, None),
    (RIL_REQUEST_SET_DATA_PROFILE, Some setDataProfileResponse),
    (RIL_REQUEST_SHUTDOWN, Some requestShutdownResponse),
    (RIL_REQUEST_GET_RADIO_CAPABILITY, Some (data_response C Radio ''getRadioCapabilityResponse'')),
    (RIL_REQUEST_SET_RADIO_CAPABILITY, Some (data_response C Radio ''setRadioCapabilityResponse'')),
    (RIL_REQUEST_START_LCE, Some (data_response C Radio ''startLceServiceResponse'')),
    (RIL_REQUEST_STOP_LCE, Some (data_response C Radio ''stopLceServiceResponse'')),
    (RIL_REQUEST_PULL_LCEDATA, Some (data_response C Radio ''pullLceDataResponse'')),
    (RIL_REQUEST_GET_ACTIVITY_INFO, Some (data_response C Radio ''getModemActivityInfoResponse'')),
    (RIL_REQUEST_SET_CARRIER_RESTRICTIONS, Some setAllowedCarriersResponse),
    (RIL_REQUEST_GET_CARRIER_RESTRICTIONS, Some (data_response C Radio ''getAllowedCarriersResponse'')),
    (RIL_REQUEST_SEND_DEVICE_STATE, Some sendDeviceStateResponse),
    (RIL_REQUEST_SET_UNSOLICITED_RESPONSE_FILTER, Some setIndicationFilterResponse),
    (RIL_REQUEST_SET_SIM_CARD_POWER, Some setSimCardPowerResponse),
    (RIL_REQUEST_SET_CARRIER_INFO_IMSI_ENCRYPTION, Some setCarrierInfoForImsiEncryptionResponse),
    (RIL_REQUEST_START_NETWORK_SCAN, Some startNetworkScanResponse),
    (RIL_REQUEST_STOP_NETWORK_SCAN, Some stopNetworkScanResponse),
    (RIL_REQUEST_START_KEEPALIVE, Some (data_response C RadioV11 ''startKeepaliveResponse'')),
    (RIL_REQUEST_STOP_KEEPALIVE, Some stopKeepaliveResponse)]"

text \<open>The index of an entry is its request number, and every response function answers as the vendor's responses allow.\<close>

lemma s_commands_length: "length (s_commands C) = 146"
  by (simp add: s_commands_def)

lemma s_commands_numbers: "map fst (s_commands C) = [0..<146]"
  by (simp add: s_commands_def request_numbers upt_rec)

lemma plain_answers:
  shows "answers ok {(Radio, ''dialResponse'')} dialResponse"
  and "answers ok {(Radio, ''hangupConnectionResponse'')} hangupConnectionResponse"
  and "answers ok {(Radio, ''hangupWaitingOrBackgroundResponse'')} hangupWaitingOrBackgroundResponse"
  and "answers ok {(Radio, ''hangupWaitingOrBackgroundResponse'')} hangupForegroundResumeBackgroundResponse"
  and "answers ok {(Radio, ''switchWaitingOrHoldingAndActiveResponse'')} switchWaitingOrHoldingAndActiveResponse"
  and "answers ok {(Radio, ''conferenceResponse'')} conferenceResponse"
  and "answers ok {(Radio, ''rejectCallResponse'')} rejectCallResponse"
  and "answers ok {(Radio, ''setRadioPowerResponse'')} setRadioPowerResponse"
  and "answers ok {(Radio, ''sendDtmfResponse'')} sendDtmfResponse"
  and "answers ok {(Radio, ''sendUssdResponse'')} sendUssdResponse"
  and "answers ok {(Radio, ''cancelPendingUssdResponse'')} cancelPendingUssdResponse"
  and "answers ok {(Radio, ''setClirResponse'')} setClirResponse"
  and "answers ok {(Radio, ''setCallForwardResponse'')} setCallForwardResponse"
  and "answers ok {(Radio, ''setCallWaitingResponse'')} setCallWaitingResponse"
  and "answers ok {(Radio, ''acknowledgeLastIncomingGsmSmsResponse'')} acknowledgeLastIncomingGsmSmsResponse"
  and "answers ok {(Radio, ''acceptCallResponse'')} acceptCallResponse"
  and "answers ok {(Radio, ''deactivateDataCallResponse'')} deactivateDataCallResponse"
  and "answers ok {(Radio, ''setBarringPasswordResponse'')} setBarringPasswordResponse"
  and "answers ok {(Radio, ''setNetworkSelectionModeAutomaticResponse'')} setNetworkSelectionModeAutomaticResponse"
  and "answers ok {(Radio, ''setNetworkSelectionModeManualResponse'')} setNetworkSelectionModeManualResponse"
  and "answers ok {(Radio, ''startDtmfResponse'')} startDtmfResponse"
  and "answers ok {(Radio, ''stopDtmfResponse'')} stopDtmfResponse"
  and "answers ok {(Radio, ''separateConnectionResponse'')} separateConnectionResponse"
  and "answers ok {(Radio, ''setMuteResponse'')} setMuteResponse"
  and "answers ok {(Radio, ''sendDeviceStateResponse'')} sendDeviceStateResponse"
  and "answers ok {(Radio, ''setSuppServiceNotificationsResponse'')} setSuppServiceNotificationsResponse"
  and "answers ok {(Radio, ''deleteSmsOnSimResponse'')} deleteSmsOnSimResponse"
  and "answers ok {(Radio, ''setBandModeResponse'')} setBandModeResponse"
  and "answers ok {(Radio, ''sendTerminalResponseToSimResponse'')} sendTerminalResponseToSimResponse"
  and "answers ok {(Radio, ''handleStkCallSetupRequestFromSimResponse'')} handleStkCallSetupRequestFromSimResponse"
  and "answers ok {(Radio, ''explicitCallTransferResponse'')} explicitCallTransferResponse"
  and "answers ok {(Radio, ''setPreferredNetworkTypeResponse'')} setPreferredNetworkTypeResponse"
  and "answers ok {(Radio, ''setLocationUpdatesResponse'')} setLocationUpdatesResponse"
  and "answers ok {(Radio, ''setCdmaSubscriptionSourceResponse'')} setCdmaSubscriptionSourceResponse"
  and "answers ok {(Radio, ''setCdmaRoamingPreferenceResponse'')} setCdmaRoamingPreferenceResponse"
  and "answers ok {(Radio, ''setTTYModeResponse'')} setTTYModeResponse"
  and "answers ok {(Radio, ''setPreferredVoicePrivacyResponse'')} setPreferredVoicePrivacyResponse"
  and "answers ok {(Radio, ''sendCDMAFeatureCodeResponse'')} sendCDMAFeatureCodeResponse"
  and "answers ok {(Radio, ''sendBurstDtmfResponse'')} sendBurstDtmfResponse"
  and "answers ok {(Radio, ''acknowledgeLastIncomingCdmaSmsResponse'')} acknowledgeLastIncomingCdmaSmsResponse"
  and "answers ok {(Radio, ''setGsmBroadcastConfigResponse'')} setGsmBroadcastConfigResponse"
  and "answers ok {(Radio, ''setGsmBroadcastActivationResponse'')} setGsmBroadcastActivationResponse"
  and "answers ok {(Radio, ''setCdmaBroadcastConfigResponse'')} setCdmaBroadcastConfigResponse"
  and "answers ok {(Radio, ''setCdmaBroadcastActivationResponse'')} setCdmaBroadcastActivationResponse"
  and "answers ok {(Radio, ''deleteSmsOnRuimResponse'')} deleteSmsOnRuimResponse"
  and "answers ok {(Radio, ''exitEmergencyCallbackModeResponse'')} exitEmergencyCallbackModeResponse"
  and "answers ok {(Radio, ''setSmscAddressResponse'')} setSmscAddressResponse"
  and "answers ok {(Radio, ''reportSmsMemoryStatusResponse'')} reportSmsMemoryStatusResponse"
  and "answers ok {(Radio, ''reportStkServiceIsRunningResponse'')} reportStkServiceIsRunningResponse"
  and "answers ok {(Radio, ''acknowledgeIncomingGsmSmsWithPduResponse'')} acknowledgeIncomingGsmSmsWithPduResponse"
  and "answers ok {(Radio, ''setCellInfoListRateResponse'')} setCellInfoListRateResponse"
  and "answers ok {(Radio, ''setInitialAttachApnResponse'')} setInitialAttachApnResponse"
  and "answers ok {(Radio, ''iccCloseLogicalChannelResponse'')} iccCloseLogicalChannelResponse"
  and "answers ok {(Radio, ''nvWriteItemResponse'')} nvWriteItemResponse"
  and "answers ok {(Radio, ''nvWriteCdmaPrlResponse'')} nvWriteCdmaPrlResponse"
  and "answers ok {(Radio, ''nvResetConfigResponse'')} nvResetConfigResponse"
  and "answers ok {(Radio, ''setUiccSubscriptionResponse'')} setUiccSubscriptionResponse"
  and "answers ok {(Radio, ''setDataAllowedResponse'')} setDataAllowedResponse"
  and "answers ok {(Radio, ''setDataProfileResponse'')} setDataProfileResponse"
  and "answers ok {(Radio, ''requestShutdownResponse'')} requestShutdownResponse"
  and "answers ok {(Radio, ''setIndicationFilterResponse'')} setIndicationFilterResponse"
  and "answers ok {(RadioV11, ''setCarrierInfoForImsiEncryptionResponse'')} setCarrierInfoForImsiEncryptionResponse"
  and "answers ok {(RadioV11, ''startNetworkScanResponse'')} startNetworkScanResponse"
  and "answers ok {(RadioV11, ''stopNetworkScanResponse'')} stopNetworkScanResponse"
  and "answers ok {(RadioV11, ''stopKeepaliveResponse'')} stopKeepaliveResponse"
  by (simp_all only: answers_plain
    dialResponse_def hangupConnectionResponse_def hangupWaitingOrBackgroundResponse_def
    hangupForegroundResumeBackgroundResponse_def switchWaitingOrHoldingAndActiveResponse_def conferenceResponse_def
    rejectCallResponse_def setRadioPowerResponse_def sendDtmfResponse_def sendUssdResponse_def
    cancelPendingUssdResponse_def setClirResponse_def setCallForwardResponse_def setCallWaitingResponse_def
    acknowledgeLastIncomingGsmSmsResponse_def acceptCallResponse_def deactivateDataCallResponse_def
    setBarringPasswordResponse_def setNetworkSelectionModeAutomaticResponse_def
    setNetworkSelectionModeManualResponse_def startDtmfResponse_def stopDtmfResponse_def
    separateConnectionResponse_def setMuteResponse_def sendDeviceStateResponse_def
    setSuppServiceNotificationsResponse_def deleteSmsOnSimResponse_def setBandModeResponse_def
    sendTerminalResponseToSimResponse_def handleStkCallSetupRequestFromSimResponse_def
    explicitCallTransferResponse_def setPreferredNetworkTypeResponse_def setLocationUpdatesResponse_def
    setCdmaSubscriptionSourceResponse_def setCdmaRoamingPreferenceResponse_def setTTYModeResponse_def
    setPreferredVoicePrivacyResponse_def sendCDMAFeatureCodeResponse_def sendBurstDtmfResponse_def
    acknowledgeLastIncomingCdmaSmsResponse_def setGsmBroadcastConfigResponse_def
    setGsmBroadcastActivationResponse_def setCdmaBroadcastConfigResponse_def setCdmaBroadcastActivationResponse_def
    deleteSmsOnRuimResponse_def exitEmergencyCallbackModeResponse_def setSmscAddressResponse_def
    reportSmsMemoryStatusResponse_def reportStkServiceIsRunningResponse_def
    acknowledgeIncomingGsmSmsWithPduResponse_def setCellInfoListRateResponse_def setInitialAttachApnResponse_def
    iccCloseLogicalChannelResponse_def nvWriteItemResponse_def nvWriteCdmaPrlResponse_def nvResetConfigResponse_def
    setUiccSubscriptionResponse_def setDataAllowedResponse_def setDataProfileResponse_def requestShutdownResponse_def
    setIndicationFilterResponse_def setCarrierInfoForImsiEncryptionResponse_def startNetworkScanResponse_def
    stopNetworkScanResponse_def stopKeepaliveResponse_def)

lemma fits_string: "n \<in> set string_requests \<Longrightarrow> n \<noteq> 1 \<Longrightarrow> fits n resp \<Longrightarrow> convertCharPtrToHidlString (fst resp) \<noteq> None"
  by (simp add: fits_def)

lemma fits_int: "n \<in> set int_requests \<Longrightarrow> n \<noteq> 1 \<Longrightarrow> n \<notin> set string_requests \<Longrightarrow> fits n resp \<Longrightarrow> snd resp = 4 \<Longrightarrow>
    fst resp = PNull \<or> read_int (fst resp) \<noteq> None"
  by (simp add: fits_def)

lemma string_answers:
  shows "answers (fits 11) {(Radio, ''getIMSIForAppResponse'')} getIMSIForAppResponse"
  and "answers (fits 51) {(Radio, ''getBasebandVersionResponse'')} getBasebandVersionResponse"
  and "answers (fits 69) {(Radio, ''sendEnvelopeResponse'')} sendEnvelopeResponse"
  and "answers (fits 100) {(Radio, ''getSmscAddressResponse'')} getSmscAddressResponse"
  and "answers (fits 105) {(Radio, ''requestIsimAuthenticationResponse'')} requestIsimAuthenticationResponse"
  and "answers (fits 118) {(Radio, ''nvReadItemResponse'')} nvReadItemResponse"
  unfolding
    getIMSIForAppResponse_def getBasebandVersionResponse_def sendEnvelopeResponse_def getSmscAddressResponse_def
    requestIsimAuthenticationResponse_def nvReadItemResponse_def
  by (rule answers_string, rule fits_string, simp_all add: string_requests_def)+

lemma int_answers:
  shows "answers (fits 2) {(Radio, ''supplyIccPinForAppResponse'')} supplyIccPinForAppResponse"
  and "answers (fits 3) {(Radio, ''supplyIccPukForAppResponse'')} supplyIccPukForAppResponse"
  and "answers (fits 4) {(Radio, ''supplyIccPin2ForAppResponse'')} supplyIccPin2ForAppResponse"
  and "answers (fits 5) {(Radio, ''supplyIccPuk2ForAppResponse'')} supplyIccPuk2ForAppResponse"
  and "answers (fits 6) {(Radio, ''changeIccPinForAppResponse'')} changeIccPinForAppResponse"
  and "answers (fits 7) {(Radio, ''changeIccPin2ForAppResponse'')} changeIccPin2ForAppResponse"
  and "answers (fits 8) {(Radio, ''supplyNetworkDepersonalizationResponse'')} supplyNetworkDepersonalizationResponse"
  and "answers (fits 42) {(Radio, ''getFacilityLockForAppResponse'')} getFacilityLockForAppResponse"
  and "answers (fits 43) {(Radio, ''setFacilityLockForAppResponse'')} setFacilityLockForAppResponse"
  and "answers (fits 55) {(Radio, ''getClipResponse'')} getClipResponse"
  and "answers (fits 63) {(Radio, ''writeSmsToSimResponse'')} writeSmsToSimResponse"
  and "answers (fits 74) {(Radio, ''getPreferredNetworkTypeResponse'')} getPreferredNetworkTypeResponse"
  and "answers (fits 79) {(Radio, ''getCdmaRoamingPreferenceResponse'')} getCdmaRoamingPreferenceResponse"
  and "answers (fits 81) {(Radio, ''getTTYModeResponse'')} getTTYModeResponse"
  and "answers (fits 96) {(Radio, ''writeSmsToRuimResponse'')} writeSmsToRuimResponse"
  and "answers (fits 104) {(Radio, ''getCdmaSubscriptionSourceResponse'')} getCdmaSubscriptionSourceResponse"
  and "answers (fits 108) {(Radio, ''getVoiceRadioTechnologyResponse'')} getVoiceRadioTechnologyResponse"
  and "answers (fits 136) {(Radio, ''setAllowedCarriersResponse'')} setAllowedCarriersResponse"
  unfolding
    supplyIccPinForAppResponse_def supplyIccPukForAppResponse_def supplyIccPin2ForAppResponse_def
    supplyIccPuk2ForAppResponse_def changeIccPinForAppResponse_def changeIccPin2ForAppResponse_def
    supplyNetworkDepersonalizationResponse_def getFacilityLockForAppResponse_def setFacilityLockForAppResponse_def
    getClipResponse_def writeSmsToSimResponse_def getPreferredNetworkTypeResponse_def
    getCdmaRoamingPreferenceResponse_def getTTYModeResponse_def writeSmsToRuimResponse_def
    getCdmaSubscriptionSourceResponse_def getVoiceRadioTechnologyResponse_def setAllowedCarriersResponse_def
  by ((rule answers_int)+, (erule (1) fits_int [rotated 3], simp_all add: string_requests_def int_requests_def))+

lemma card_answers: "answers (fits 1) {(Radio, ''getIccCardStatusResponse'')} getIccCardStatusResponse"
  using answers_card by (simp add: answers_def fits_def)

lemma power_answers:
  "answers ok {(Radio, ''setSimCardPowerResponse''), (RadioV11, ''setSimCardPowerResponse_1_1'')} setSimCardPowerResponse"
  unfolding answers_def
proof (intro allI impI)
  fix slotId rt serial e resp and S :: ril_core
  let ?R = "{(Radio, ''setSimCardPowerResponse''), (RadioV11, ''setSimCardPowerResponse_1_1'')}"
  define i where "i = (if available RadioV11 slotId S then RadioV11 else Radio)"
  define nm where "nm = (if available RadioV11 slotId S then ''setSimCardPowerResponse_1_1'' else ''setSimCardPowerResponse'')"
  have "answers (\<lambda>_. True) {(i, nm)} (plain_response i nm)" by (rule answers_plain)
  then obtain S' where "plain_response i nm slotId rt serial e resp S = Some S'" "gives_answer i slotId serial nm S S'"
    unfolding answers_def by blast
  moreover have "setSimCardPowerResponse slotId rt serial e resp S = plain_response i nm slotId rt serial e resp S"
    by (simp add: setSimCardPowerResponse_def i_def nm_def)
  moreover have "(i, nm) \<in> ?R" by (simp add: i_def nm_def)
  ultimately show "\<exists>S' j n. setSimCardPowerResponse slotId rt serial e resp S = Some S' \<and> (j, n) \<in> ?R \<and>
    gives_answer j slotId serial n S S'" by auto
qed

lemmas table_answers = plain_answers string_answers int_answers card_answers power_answers answers_data

lemma entries_answer:
  "\<forall>e\<in>set (s_commands C). case snd e of None \<Rightarrow> True | Some f \<Rightarrow> \<exists>R. answers (fits (fst e)) R f"
  unfolding s_commands_def list.set
  by (simp only: ball_simps fst_conv snd_conv option.case request_numbers)
    ((intro conjI TrueI; rule exI, rule table_answers)+)

lemma s_commands_nth: "n < length (s_commands C) \<Longrightarrow> fst (s_commands C ! n) = n"
  using s_commands_numbers [of C] by (metis add.left_neutral length_map nth_map nth_upt s_commands_length)

lemma s_commands_answers:
  assumes "n < length (s_commands C)" "snd (s_commands C ! n) = Some f"
  shows "\<exists>R. answers (fits n) R f"
  using bspec [OF entries_answer nth_mem [OF assms(1)]] assms(2) s_commands_nth [OF assms(1)] by simp

interpretation table: command_table "s_commands C" for C
  by unfold_locales (rule s_commands_answers)

lemma table_rows:
  shows "(RIL_REQUEST_GET_SIM_STATUS, Some getIccCardStatusResponse) \<in> set (s_commands C)"
  and "(RIL_REQUEST_ENTER_SIM_PIN, Some supplyIccPinForAppResponse) \<in> set (s_commands C)"
  and "(RIL_REQUEST_ENTER_SIM_PUK, Some supplyIccPukForAppResponse) \<in> set (s_commands C)"
  and "(RIL_REQUEST_ENTER_SIM_PIN2, Some supplyIccPin2ForAppResponse) \<in> set (s_commands C)"
  and "(RIL_REQUEST_ENTER_SIM_PUK2, Some supplyIccPuk2ForAppResponse) \<in> set (s_commands C)"
  and "(RIL_REQUEST_CHANGE_SIM_PIN, Some changeIccPinForAppResponse) \<in> set (s_commands C)"
  and "(RIL_REQUEST_CHANGE_SIM_PIN2, Some changeIccPin2ForAppResponse) \<in> set (s_commands C)"
  and "(RIL_REQUEST_ENTER_NETWORK_DEPERSONALIZATION, Some supplyNetworkDepersonalizationResponse) \<in> set (s_commands C)"
  and "(RIL_REQUEST_GET_CURRENT_CALLS, Some (data_response C Radio ''getCurrentCallsResponse'')) \<in> set (s_commands C)"
  and "(RIL_REQUEST_DIAL, Some dialResponse) \<in> set (s_commands C)"
  and "(RIL_REQUEST_GET_IMSI, Some getIMSIForAppResponse) \<in> set (s_commands C)"
  and "(RIL_REQUEST_HANGUP, Some hangupConnectionResponse) \<in> set (s_commands C)"
  and "(RIL_REQUEST_HANGUP_WAITING_OR_BACKGROUND, Some hangupWaitingOrBackgroundResponse) \<in> set (s_commands C)"
  and "(RIL_REQUEST_HANGUP_FOREGROUND_RESUME_BACKGROUND, Some hangupForegroundResumeBackgroundResponse) \<in> set (s_commands C)"
  and "(RIL_REQUEST_SWITCH_WAITING_OR_HOLDING_AND_ACTIVE, Some switchWaitingOrHoldingAndActiveResponse) \<in> set (s_commands C)"
  and "(RIL_REQUEST_CONFERENCE, Some conferenceResponse) \<in> set (s_commands C)"
  and "(RIL_REQUEST_UDUB, Some rejectCallResponse) \<in> set (s_commands C)"
  and "(RIL_REQUEST_LAST_CALL_FAIL_CAUSE, Some (data_response C Radio ''getLastCallFailCauseResponse'')) \<in> set (s_commands C)"
  and "(RIL_REQUEST_SIGNAL_STRENGTH, Some (data_response C Radio ''getSignalStrengthResponse'')) \<in> set (s_commands C)"
  and "(RIL_REQUEST_VOICE_REGISTRATION_STATE, Some (data_response C Radio ''getVoiceRegistrationStateResponse'')) \<in> set (s_commands C)"
  and "(RIL_REQUEST_DATA_REGISTRATION_STATE, Some (data_response C Radio ''getDataRegistrationStateResponse'')) \<in> set (s_commands C)"
  and "(RIL_REQUEST_OPERATOR, Some (data_response C Radio ''getOperatorResponse'')) \<in> set (s_commands C)"
  and "(RIL_REQUEST_RADIO_POWER, Some setRadioPowerResponse) \<in> set (s_commands C)"
  and "(RIL_REQUEST_DTMF, Some sendDtmfResponse) \<in> set (s_commands C)"
  and "(RIL_REQUEST_SEND_SMS, Some (data_response C Radio ''sendSmsResponse'')) \<in> set (s_commands C)"
  and "(RIL_REQUEST_SEND_SMS_EXPECT_MORE, Some (data_response C Radio ''sendSMSExpectMoreResponse'')) \<in> set (s_commands C)"
  and "(RIL_REQUEST_SETUP_DATA_CALL, Some (data_response C Radio ''setupDataCallResponse'')) \<in> set (s_commands C)"
  and "(RIL_REQUEST_SIM_IO, Some (data_response C Radio ''iccIOForAppResponse'')) \<in> set (s_commands C)"
  and "(RIL_REQUEST_SEND_USSD, Some sendUssdResponse) \<in> set (s_commands C)"
  and "(RIL_REQUEST_CANCEL_USSD, Some cancelPendingUssdResponse) \<in> set (s_commands C)"
  and "(RIL_REQUEST_GET_CLIR, Some (data_response C Radio ''getClirResponse'')) \<in> set (s_commands C)"
  and "(RIL_REQUEST_SET_CLIR, Some setClirResponse) \<in> set (s_commands C)"
  and "(RIL_REQUEST_QUERY_CALL_FORWARD_STATUS, Some (data_response C Radio ''getCallForwardStatusResponse'')) \<in> set (s_commands C)"
  and "(RIL_REQUEST_SET_CALL_FORWARD, Some setCallForwardResponse) \<in> set (s_commands C)"
  and "(RIL_REQUEST_QUERY_CALL_WAITING, Some (data_response C Radio ''getCallWaitingResponse'')) \<in> set (s_commands C)"
  and "(RIL_REQUEST_SET_CALL_WAITING, Some setCallWaitingResponse) \<in> set (s_commands C)"
  and "(RIL_REQUEST_SMS_ACKNOWLEDGE, Some acknowledgeLastIncomingGsmSmsResponse) \<in> set (s_commands C)"
  and "(RIL_REQUEST_ANSWER, Some acceptCallResponse) \<in> set (s_commands C)"
  and "(RIL_REQUEST_DEACTIVATE_DATA_CALL, Some deactivateDataCallResponse) \<in> set (s_commands C)"
  and "(RIL_REQUEST_QUERY_FACILITY_LOCK, Some getFacilityLockForAppResponse) \<in> set (s_commands C)"
  and "(RIL_REQUEST_SET_FACILITY_LOCK, Some setFacilityLockForAppResponse) \<in> set (s_commands C)"
  and "(RIL_REQUEST_CHANGE_BARRING_PASSWORD, Some setBarringPasswordResponse) \<in> set (s_commands C)"
  and "(RIL_REQUEST_QUERY_NETWORK_SELECTION_MODE, Some (data_response C Radio ''getNetworkSelectionModeResponse'')) \<in> set (s_commands C)"
  and "(RIL_REQUEST_SET_NETWORK_SELECTION_AUTOMATIC, Some setNetworkSelectionModeAutomaticResponse) \<in> set (s_commands C)"
  and "(RIL_REQUEST_SET_NETWORK_SELECTION_MANUAL, Some setNetworkSelectionModeManualResponse) \<in> set (s_commands C)"
  and "(RIL_REQUEST_QUERY_AVAILABLE_NETWORKS, Some (data_response C Radio ''getAvailableNetworksResponse'')) \<in> set (s_commands C)"
  and "(RIL_REQUEST_DTMF_START, Some startDtmfResponse) \<in> set (s_commands C)"
  and "(RIL_REQUEST_DTMF_STOP, Some stopDtmfResponse) \<in> set (s_commands C)"
  and "(RIL_REQUEST_BASEBAND_VERSION, Some getBasebandVersionResponse) \<in> set (s_commands C)"
  and "(RIL_REQUEST_SEPARATE_CONNECTION, Some separateConnectionResponse) \<in> set (s_commands C)"
  and "(RIL_REQUEST_SET_MUTE, Some setMuteResponse) \<in> set (s_commands C)"
  and "(RIL_REQUEST_GET_MUTE, Some (data_response C Radio ''getMuteResponse'')) \<in> set (s_commands C)"
  and "(RIL_REQUEST_QUERY_CLIP, Some getClipResponse) \<in> set (s_commands C)"
  and "(RIL_REQUEST_DATA_CALL_LIST, Some (data_response C Radio ''getDataCallListResponse'')) \<in> set (s_commands C)"
  and "(RIL_REQUEST_OEM_HOOK_RAW, Some (data_response C OemHook ''sendRequestRawResponse'')) \<in> set (s_commands C)"
  and "(RIL_REQUEST_OEM_HOOK_STRINGS, Some (data_response C OemHook ''sendRequestStringsResponse'')) \<in> set (s_commands C)"
  and "(RIL_REQUEST_SCREEN_STATE, Some sendDeviceStateResponse) \<in> set (s_commands C)"
  and "(RIL_REQUEST_SET_SUPP_SVC_NOTIFICATION, Some setSuppServiceNotificationsResponse) \<in> set (s_commands C)"
  and "(RIL_REQUEST_WRITE_SMS_TO_SIM, Some writeSmsToSimResponse) \<in> set (s_commands C)"
  and "(RIL_REQUEST_DELETE_SMS_ON_SIM, Some deleteSmsOnSimResponse) \<in> set (s_commands C)"
  and "(RIL_REQUEST_SET_BAND_MODE, Some setBandModeResponse) \<in> set (s_commands C)"
  and "(RIL_REQUEST_QUERY_AVAILABLE_BAND_MODE, Some (data_response C Radio ''getAvailableBandModesResponse'')) \<in> set (s_commands C)"
  and "(RIL_REQUEST_STK_SEND_ENVELOPE_COMMAND, Some sendEnvelopeResponse) \<in> set (s_commands C)"
  and "(RIL_REQUEST_STK_SEND_TERMINAL_RESPONSE, Some sendTerminalResponseToSimResponse) \<in> set (s_commands C)"
  and "(RIL_REQUEST_STK_HANDLE_CALL_SETUP_REQUESTED_FROM_SIM, Some handleStkCallSetupRequestFromSimResponse) \<in> set (s_commands C)"
  and "(RIL_REQUEST_EXPLICIT_CALL_TRANSFER, Some explicitCallTransferResponse) \<in> set (s_commands C)"
  and "(RIL_REQUEST_SET_PREFERRED_NETWORK_TYPE, Some setPreferredNetworkTypeResponse) \<in> set (s_commands C)"
  and "(RIL_REQUEST_GET_PREFERRED_NETWORK_TYPE, Some getPreferredNetworkTypeResponse) \<in> set (s_commands C)"
  and "(RIL_REQUEST_GET_NEIGHBORING_CELL_IDS, Some (data_response C Radio ''getNeighboringCidsResponse'')) \<in> set (s_commands C)"
  and "(RIL_REQUEST_SET_LOCATION_UPDATES, Some setLocationUpdatesResponse) \<in> set (s_commands C)"
  and "(RIL_REQUEST_CDMA_SET_SUBSCRIPTION_SOURCE, Some setCdmaSubscriptionSourceResponse) \<in> set (s_commands C)"
  and "(RIL_REQUEST_CDMA_SET_ROAMING_PREFERENCE, Some setCdmaRoamingPreferenceResponse) \<in> set (s_commands C)"
  and "(RIL_REQUEST_CDMA_QUERY_ROAMING_PREFERENCE, Some getCdmaRoamingPreferenceResponse) \<in> set (s_commands C)"
  and "(RIL_REQUEST_SET_TTY_MODE, Some setTTYModeResponse) \<in> set (s_commands C)"
  and "(RIL_REQUEST_QUERY_TTY_MODE, Some getTTYModeResponse) \<in> set (s_commands C)"
  and "(RIL_REQUEST_CDMA_SET_PREFERRED_VOICE_PRIVACY_MODE, Some setPreferredVoicePrivacyResponse) \<in> set (s_commands C)"
  and "(RIL_REQUEST_CDMA_QUERY_PREFERRED_VOICE_PRIVACY_MODE, Some (data_response C Radio ''getPreferredVoicePrivacyResponse'')) \<in> set (s_commands C)"
  and "(RIL_REQUEST_CDMA_FLASH, Some sendCDMAFeatureCodeResponse) \<in> set (s_commands C)"
  and "(RIL_REQUEST_CDMA_BURST_DTMF, Some sendBurstDtmfResponse) \<in> set (s_commands C)"
  and "(RIL_REQUEST_CDMA_SEND_SMS, Some (data_response C Radio ''sendCdmaSmsResponse'')) \<in> set (s_commands C)"
  and "(RIL_REQUEST_CDMA_SMS_ACKNOWLEDGE, Some acknowledgeLastIncomingCdmaSmsResponse) \<in> set (s_commands C)"
  and "(RIL_REQUEST_GSM_GET_BROADCAST_SMS_CONFIG, Some (data_response C Radio ''getGsmBroadcastConfigResponse'')) \<in> set (s_commands C)"
  and "(RIL_REQUEST_GSM_SET_BROADCAST_SMS_CONFIG, Some setGsmBroadcastConfigResponse) \<in> set (s_commands C)"
  and "(RIL_REQUEST_GSM_SMS_BROADCAST_ACTIVATION, Some setGsmBroadcastActivationResponse) \<in> set (s_commands C)"
  and "(RIL_REQUEST_CDMA_GET_BROADCAST_SMS_CONFIG, Some (data_response C Radio ''getCdmaBroadcastConfigResponse'')) \<in> set (s_commands C)"
  and "(RIL_REQUEST_CDMA_SET_BROADCAST_SMS_CONFIG, Some setCdmaBroadcastConfigResponse) \<in> set (s_commands C)"
  and "(RIL_REQUEST_CDMA_SMS_BROADCAST_ACTIVATION, Some setCdmaBroadcastActivationResponse) \<in> set (s_commands C)"
  and "(RIL_REQUEST_CDMA_SUBSCRIPTION, Some (data_response C Radio ''getCDMASubscriptionResponse'')) \<in> set (s_commands C)"
  and "(RIL_REQUEST_CDMA_WRITE_SMS_TO_RUIM, Some writeSmsToRuimResponse) \<in> set (s_commands C)"
  and "(RIL_REQUEST_CDMA_DELETE_SMS_ON_RUIM, Some deleteSmsOnRuimResponse) \<in> set (s_commands C)"
  and "(RIL_REQUEST_DEVICE_IDENTITY, Some (data_response C Radio ''getDeviceIdentityResponse'')) \<in> set (s_commands C)"
  and "(RIL_REQUEST_EXIT_EMERGENCY_CALLBACK_MODE, Some exitEmergencyCallbackModeResponse) \<in> set (s_commands C)"
  and "(RIL_REQUEST_GET_SMSC_ADDRESS, Some getSmscAddressResponse) \<in> set (s_commands C)"
  and "(RIL_REQUEST_SET_SMSC_ADDRESS, Some setSmscAddressResponse) \<in> set (s_commands C)"
  and "(RIL_REQUEST_REPORT_SMS_MEMORY_STATUS, Some reportSmsMemoryStatusResponse) \<in> set (s_commands C)"
  and "(RIL_REQUEST_REPORT_STK_SERVICE_IS_RUNNING, Some reportStkServiceIsRunningResponse) \<in> set (s_commands C)"
  and "(RIL_REQUEST_CDMA_GET_SUBSCRIPTION_SOURCE, Some getCdmaSubscriptionSourceResponse) \<in> set (s_commands C)"
  and "(RIL_REQUEST_ISIM_AUTHENTICATION, Some requestIsimAuthenticationResponse) \<in> set (s_commands C)"
  and "(RIL_REQUEST_ACKNOWLEDGE_INCOMING_GSM_SMS_WITH_PDU, Some acknowledgeIncomingGsmSmsWithPduResponse) \<in> set (s_commands C)"
  and "(RIL_REQUEST_STK_SEND_ENVELOPE_WITH_STATUS, Some (data_response C Radio ''sendEnvelopeWithStatusResponse'')) \<in> set (s_commands C)"
  and "(RIL_REQUEST_VOICE_RADIO_TECH, Some getVoiceRadioTechnologyResponse) \<in> set (s_commands C)"
  and "(RIL_REQUEST_GET_CELL_INFO_LIST, Some (data_response C Radio ''getCellInfoListResponse'')) \<in> set (s_commands C)"
  and "(RIL_REQUEST_SET_UNSOL_CELL_INFO_LIST_RATE, Some setCellInfoListRateResponse) \<in> set (s_commands C)"
  and "(RIL_REQUEST_SET_INITIAL_ATTACH_APN, Some setInitialAttachApnResponse) \<in> set (s_commands C)"
  and "(RIL_REQUEST_IMS_REGISTRATION_STATE, Some (data_response C Radio ''getImsRegistrationStateResponse'')) \<in> set (s_commands C)"
  and "(RIL_REQUEST_IMS_SEND_SMS, Some (data_response C Radio ''sendImsSmsResponse'')) \<in> set (s_commands C)"
  and "(RIL_REQUEST_SIM_TRANSMIT_APDU_BASIC, Some (data_response C Radio ''iccTransmitApduBasicChannelResponse'')) \<in> set (s_commands C)"
  and "(RIL_REQUEST_SIM_OPEN_CHANNEL, Some (data_response C Radio ''iccOpenLogicalChannelResponse'')) \<in> set (s_commands C)"
  and "(RIL_REQUEST_SIM_CLOSE_CHANNEL, Some iccCloseLogicalChannelResponse) \<in> set (s_commands C)"
  and "(RIL_REQUEST_SIM_TRANSMIT_APDU_CHANNEL, Some (data_response C Radio ''iccTransmitApduLogicalChannelResponse'')) \<in> set (s_commands C)"
  and "(RIL_REQUEST_NV_READ_ITEM, Some nvReadItemResponse) \<in> set (s_commands C)"
  and "(RIL_REQUEST_NV_WRITE_ITEM, Some nvWriteItemResponse) \<in> set (s_commands C)"
  and "(RIL_REQUEST_NV_WRITE_CDMA_PRL, Some nvWriteCdmaPrlResponse) \<in> set (s_commands C)"
  and "(RIL_REQUEST_NV_RESET_CONFIG, Some nvResetConfigResponse) \<in> set (s_commands C)"
  and "(RIL_REQUEST_SET_UICC_SUBSCRIPTION, Some setUiccSubscriptionResponse) \<in> set (s_commands C)"
  and "(RIL_REQUEST_ALLOW_DATA, Some setDataAllowedResponse) \<in> set (s_commands C)"
  and "(RIL_REQUEST_GET_HARDWARE_CONFIG, Some (data_response C Radio ''getHardwareConfigResponse'')) \<in> set (s_commands C)"
  and "(RIL_REQUEST_SIM_AUTHENTICATION, Some (data_response C Radio ''requestIccSimAuthenticationResponse'')) \<in> set (s_commands C)"
  and "(RIL_REQUEST_SET_DATA_PROFILE, Some setDataProfileResponse) \<in> set (s_commands C)"
  and "(RIL_REQUEST_SHUTDOWN, Some requestShutdownResponse) \<in> set (s_commands C)"
  and "(RIL_REQUEST_GET_RADIO_CAPABILITY, Some (data_response C Radio ''getRadioCapabilityResponse'')) \<in> set (s_commands C)"
  and "(RIL_REQUEST_SET_RADIO_CAPABILITY, Some (data_response C Radio ''setRadioCapabilityResponse'')) \<in> set (s_commands C)"
  and "(RIL_REQUEST_START_LCE, Some (data_response C Radio ''startLceServiceResponse'')) \<in> set (s_commands C)"
  and "(RIL_REQUEST_STOP_LCE, Some (data_response C Radio ''stopLceServiceResponse'')) \<in> set (s_commands C)"
  and "(RIL_REQUEST_PULL_LCEDATA, Some (data_response C Radio ''pullLceDataResponse'')) \<in> set (s_commands C)"
  and "(RIL_REQUEST_GET_ACTIVITY_INFO, Some (data_response C Radio ''getModemActivityInfoResponse'')) \<in> set (s_commands C)"
  and "(RIL_REQUEST_SET_CARRIER_RESTRICTIONS, Some setAllowedCarriersResponse) \<in> set (s_commands C)"
  and "(RIL_REQUEST_GET_CARRIER_RESTRICTIONS, Some (data_response C Radio ''getAllowedCarriersResponse'')) \<in> set (s_commands C)"
  and "(RIL_REQUEST_SEND_DEVICE_STATE, Some sendDeviceStateResponse) \<in> set (s_commands C)"
  and "(RIL_REQUEST_SET_UNSOLICITED_RESPONSE_FILTER, Some setIndicationFilterResponse) \<in> set (s_commands C)"
  and "(RIL_REQUEST_SET_SIM_CARD_POWER, Some setSimCardPowerResponse) \<in> set (s_commands C)"
  and "(RIL_REQUEST_SET_CARRIER_INFO_IMSI_ENCRYPTION, Some setCarrierInfoForImsiEncryptionResponse) \<in> set (s_commands C)"
  and "(RIL_REQUEST_START_NETWORK_SCAN, Some startNetworkScanResponse) \<in> set (s_commands C)"
  and "(RIL_REQUEST_STOP_NETWORK_SCAN, Some stopNetworkScanResponse) \<in> set (s_commands C)"
  and "(RIL_REQUEST_START_KEEPALIVE, Some (data_response C RadioV11 ''startKeepaliveResponse'')) \<in> set (s_commands C)"
  and "(RIL_REQUEST_STOP_KEEPALIVE, Some stopKeepaliveResponse) \<in> set (s_commands C)"
  by (simp_all only: s_commands_def list.set insert_iff simp_thms)

lemma s_commands_row:
  assumes "(n, f) \<in> set (s_commands C)"
  shows "n < length (s_commands C)" "s_commands C ! n = (n, f)"
proof -
  obtain k where k: "k < length (s_commands C)" "s_commands C ! k = (n, f)" using assms by (auto simp: in_set_conv_nth)
  then have "k = n" using s_commands_nth [OF k(1)] by simp
  with k show "n < length (s_commands C)" "s_commands C ! n = (n, f)" by simp_all
qed

end
