(* ===== verification/Ril_Struct.thy ===== *)
theory Ril_Struct
  imports Ril_Commands
begin

text \<open>
  The methods of \<open>IRadio\<close> in \<open>libril/ril_service.cpp\<close> that fill a structure for the vendor, check their
  arguments, or depend on the version of the vendor library. Enumerations of the HIDL interface whose numbers the
  repository does not hold are datatypes with the names the code uses, or their numbers where the code only
  casts them. The integers of a structure are listed in the order the code sets them, arrays with their length.
\<close>

subsection \<open>Arguments\<close>

type_synonym radio_call = "commands \<Rightarrow> vendor \<Rightarrow> int \<Rightarrow> int \<Rightarrow> ril_core \<Rightarrow> ril_core mem"

definition ignore :: "(ril_core \<times> bool) mem \<Rightarrow> ril_core mem" where
  "ignore r = map_option fst r"

definition BOOL_TO_INT :: "bool \<Rightarrow> int" where
  "BOOL_TO_INT b = (if b then 1 else 0)"

text \<open>\<open>std::to_string\<close> of an integer.\<close>

fun nat_digits :: "nat \<Rightarrow> string" where
  "nat_digits n = (if n < 10 then [char_of (48 + n)] else nat_digits (n div 10) @ [char_of (48 + n mod 10)])"

declare nat_digits.simps [simp del]

definition to_string :: "int \<Rightarrow> string" where
  "to_string i = (if i < 0 then CHR ''-'' # nat_digits (nat (- i)) else nat_digits (nat i))"

definition RIL_E_REQUEST_NOT_SUPPORTED :: int where "RIL_E_REQUEST_NOT_SUPPORTED = 6"
definition RIL_E_INVALID_ARGUMENTS :: int where "RIL_E_INVALID_ARGUMENTS = 44"

text \<open>A request that is added only to be refused.\<close>

definition refuseRequest :: "commands \<Rightarrow> vendor \<Rightarrow> int \<Rightarrow> int \<Rightarrow> nat \<Rightarrow> int \<Rightarrow> ril_core \<Rightarrow> (ril_core \<times> bool) mem" where
  "refuseRequest cmds V serial slotId request e S = dispatchStruct cmds V serial slotId request 0 [] [] [] [] (Some e) S"

text \<open>A structure with integers only.\<close>

definition dispatchPlain :: "commands \<Rightarrow> vendor \<Rightarrow> int \<Rightarrow> int \<Rightarrow> nat \<Rightarrow> string \<Rightarrow> int list \<Rightarrow> ril_core \<Rightarrow> (ril_core \<times> bool) mem" where
  "dispatchPlain cmds V serial slotId request nm is S = dispatchStruct cmds V serial slotId request 0 nm is [] [] None S"

subsection \<open>Calls\<close>

record dial_args =
  dial_address :: hidl_string
  dial_clir :: int
  dial_uusInfo :: "(int \<times> int \<times> hidl_string) list"

definition dial :: "dial_args \<Rightarrow> radio_call" where
  "dial dialInfo cmds V mSlotId serial S =
    ignore (dispatchStruct cmds V serial mSlotId RIL_REQUEST_DIAL 0 ''RIL_Dial''
      (dial_clir dialInfo # (case dial_uusInfo dialInfo of [] \<Rightarrow> [] | (t, d, u) # _ \<Rightarrow> [t, d, int (hs_size u)]))
      ((False, dial_address dialInfo) # (case dial_uusInfo dialInfo of [] \<Rightarrow> [] | (_, _, u) # _ \<Rightarrow> [(False, u)]))
      [] None S)"

definition setRadioPower :: "bool \<Rightarrow> radio_call" where
  "setRadioPower on_state cmds V mSlotId serial S =
    ignore (dispatchInts cmds V serial mSlotId RIL_REQUEST_RADIO_POWER [BOOL_TO_INT on_state] S)"

text \<open>Without \<open>OLD_MNC_FORMAT\<close>.\<close>

definition setNetworkSelectionModeManual :: "hidl_string \<Rightarrow> radio_call" where
  "setNetworkSelectionModeManual operatorNumeric cmds V mSlotId serial S =
    ignore (dispatchStrings cmds V serial mSlotId RIL_REQUEST_SET_NETWORK_SELECTION_MANUAL True [hs_chars operatorNumeric] S)"

subsection \<open>Data connections\<close>

datatype mvno_type = MVNO_IMSI | MVNO_GID | MVNO_SPN | MVNO_NONE | MVNO_OTHER int

fun convertMvnoTypeToString :: "mvno_type \<Rightarrow> string option" where
  "convertMvnoTypeToString MVNO_IMSI = Some ''imsi''"
| "convertMvnoTypeToString MVNO_GID = Some ''gid''"
| "convertMvnoTypeToString MVNO_SPN = Some ''spn''"
| "convertMvnoTypeToString MVNO_NONE = Some ''''"
| "convertMvnoTypeToString (MVNO_OTHER _) = None"

record data_profile =
  dp_profileId :: int
  dp_apn :: hidl_string
  dp_protocol :: hidl_string
  dp_roamingProtocol :: hidl_string
  dp_authType :: int
  dp_user :: hidl_string
  dp_password :: hidl_string
  dp_type :: int
  dp_maxConnsTime :: int
  dp_maxConns :: int
  dp_waitTime :: int
  dp_enabled :: bool
  dp_supportedApnTypesBitmap :: int
  dp_bearerBitmap :: int
  dp_mtu :: int
  dp_mvnoType :: mvno_type
  dp_mvnoMatchData :: hidl_string

definition setupDataCall :: "int \<Rightarrow> data_profile \<Rightarrow> bool \<Rightarrow> bool \<Rightarrow> bool \<Rightarrow> radio_call" where
  "setupDataCall radioTechnology dp modemCognitive roamingAllowed isRoaming cmds V mSlotId serial S =
    (if 4 \<le> version S \<and> version S \<le> 14 then
       ignore (dispatchStrings cmds V serial mSlotId RIL_REQUEST_SETUP_DATA_CALL True
         [to_string (radioTechnology + 2), to_string (dp_profileId dp), hs_chars (dp_apn dp), hs_chars (dp_user dp),
          hs_chars (dp_password dp), to_string (dp_authType dp),
          hs_chars (if isRoaming then dp_roamingProtocol dp else dp_protocol dp)] S)
     else if version S \<ge> 15 then
       (case convertMvnoTypeToString (dp_mvnoType dp) of
          None \<Rightarrow> ignore (refuseRequest cmds V serial mSlotId RIL_REQUEST_SETUP_DATA_CALL RIL_E_INVALID_ARGUMENTS S)
        | Some mvno \<Rightarrow>
            ignore (dispatchStrings cmds V serial mSlotId RIL_REQUEST_SETUP_DATA_CALL True
              [to_string (radioTechnology + 2), to_string (dp_profileId dp), hs_chars (dp_apn dp), hs_chars (dp_user dp),
               hs_chars (dp_password dp), to_string (dp_authType dp), hs_chars (dp_protocol dp),
               hs_chars (dp_roamingProtocol dp), to_string (dp_supportedApnTypesBitmap dp),
               to_string (dp_bearerBitmap dp), if modemCognitive then ''1'' else ''0'', to_string (dp_mtu dp), mvno,
               hs_chars (dp_mvnoMatchData dp), if roamingAllowed then ''1'' else ''0''] S))
     else ignore (refuseRequest cmds V serial mSlotId RIL_REQUEST_SETUP_DATA_CALL RIL_E_REQUEST_NOT_SUPPORTED S))"

definition setInitialAttachApn :: "data_profile \<Rightarrow> bool \<Rightarrow> bool \<Rightarrow> radio_call" where
  "setInitialAttachApn dp modemCognitive isRoaming cmds V mSlotId serial S =
    (if version S \<le> 14 then
       ignore (dispatchStruct cmds V serial mSlotId RIL_REQUEST_SET_INITIAL_ATTACH_APN 0 ''RIL_InitialAttachApn''
         [dp_authType dp]
         [(True, dp_apn dp), (False, if isRoaming then dp_roamingProtocol dp else dp_protocol dp), (False, dp_user dp),
          (False, dp_password dp)] [] None S)
     else
       (let ints = [dp_authType dp, dp_supportedApnTypesBitmap dp, dp_bearerBitmap dp, BOOL_TO_INT modemCognitive, dp_mtu dp];
            strs = [(True, dp_apn dp), (False, dp_protocol dp), (False, dp_roamingProtocol dp), (False, dp_user dp),
              (False, dp_password dp)] in
        case convertMvnoTypeToString (dp_mvnoType dp) of
          None \<Rightarrow> ignore (dispatchStruct cmds V serial mSlotId RIL_REQUEST_SET_INITIAL_ATTACH_APN 0 ''RIL_InitialAttachApn_v15''
            ints strs [] (Some RIL_E_INVALID_ARGUMENTS) S)
        | Some mvno \<Rightarrow> ignore (dispatchStruct cmds V serial mSlotId RIL_REQUEST_SET_INITIAL_ATTACH_APN 0 ''RIL_InitialAttachApn_v15''
            ints (strs @ [(False, dp_mvnoMatchData dp)]) [mvno] None S)))"

text \<open>
  The profiles of \<open>setDataProfile\<close>: the strings that are copied before an invalid profile stops the loop, the strings
  of the types, which are not copied, and whether all are valid.
\<close>

definition profile_strings :: "bool \<Rightarrow> data_profile \<Rightarrow> (bool \<times> hidl_string) list" where
  "profile_strings isRoaming p =
    [(True, dp_apn p), (True, if isRoaming then dp_roamingProtocol p else dp_protocol p), (True, dp_user p), (True, dp_password p)]"

definition profile_strings_v15 :: "data_profile \<Rightarrow> (bool \<times> hidl_string) list" where
  "profile_strings_v15 p =
    [(True, dp_apn p), (False, dp_protocol p), (True, dp_roamingProtocol p), (True, dp_user p), (True, dp_password p),
     (True, dp_mvnoMatchData p)]"

fun profiles_v15 :: "data_profile list \<Rightarrow> (bool \<times> hidl_string) list \<times> string list \<times> bool" where
  "profiles_v15 [] = ([], [], True)"
| "profiles_v15 (p # ps) =
    (case convertMvnoTypeToString (dp_mvnoType p) of
       None \<Rightarrow> (profile_strings_v15 p, [], False)
     | Some mvno \<Rightarrow> (case profiles_v15 ps of (ss, ls, ok) \<Rightarrow> (profile_strings_v15 p @ ss, mvno # ls, ok)))"

definition profile_ints :: "data_profile \<Rightarrow> int list" where
  "profile_ints p = [dp_profileId p, dp_authType p, dp_type p, dp_maxConnsTime p, dp_maxConns p, dp_waitTime p,
     BOOL_TO_INT (dp_enabled p)]"

definition setDataProfile :: "data_profile list \<Rightarrow> bool \<Rightarrow> radio_call" where
  "setDataProfile profiles isRoaming cmds V mSlotId serial S =
    (if version S \<le> 14 then
       ignore (dispatchStruct cmds V serial mSlotId RIL_REQUEST_SET_DATA_PROFILE 2 ''RIL_DataProfileInfo''
         (concat (map profile_ints profiles)) (concat (map (profile_strings isRoaming) profiles)) [] None S)
     else
       (case profiles_v15 profiles of (ss, ls, ok) \<Rightarrow>
          ignore (dispatchStruct cmds V serial mSlotId RIL_REQUEST_SET_DATA_PROFILE 2 ''RIL_DataProfileInfo_v15''
            (concat (map (\<lambda>p. profile_ints p @ [dp_supportedApnTypesBitmap p, dp_bearerBitmap p, dp_mtu p]) profiles))
            ss ls (if ok then None else Some RIL_E_INVALID_ARGUMENTS) S)))"

subsection \<open>The SIM card\<close>

record icc_io =
  io_command :: int
  io_fileId :: int
  io_path :: hidl_string
  io_p1 :: int
  io_p2 :: int
  io_p3 :: int
  io_data :: hidl_string
  io_pin2 :: hidl_string
  io_aid :: hidl_string

definition iccIOForApp :: "icc_io \<Rightarrow> radio_call" where
  "iccIOForApp iccIo cmds V mSlotId serial S =
    ignore (dispatchStruct cmds V serial mSlotId RIL_REQUEST_SIM_IO 0 ''RIL_SIM_IO_v6''
      [io_command iccIo, io_fileId iccIo, io_p1 iccIo, io_p2 iccIo, io_p3 iccIo]
      [(False, io_path iccIo), (False, io_data iccIo), (False, io_pin2 iccIo), (False, io_aid iccIo)] [] None S)"

definition iccOpenLogicalChannel :: "hidl_string \<Rightarrow> int \<Rightarrow> radio_call" where
  "iccOpenLogicalChannel aid p2 cmds V mSlotId serial S =
    (if version S < 15 then ignore (dispatchString cmds V serial mSlotId RIL_REQUEST_SIM_OPEN_CHANNEL (hs_chars aid) S)
     else ignore (dispatchStruct cmds V serial mSlotId RIL_REQUEST_SIM_OPEN_CHANNEL 0 ''RIL_OpenChannelParams''
       [p2] [(False, aid)] [] None S))"

record select_uicc_sub =
  us_slot :: int
  us_appIndex :: int
  us_subType :: int
  us_actStatus :: int

definition setUiccSubscription :: "select_uicc_sub \<Rightarrow> radio_call" where
  "setUiccSubscription uiccSub cmds V mSlotId serial S =
    ignore (dispatchPlain cmds V serial mSlotId RIL_REQUEST_SET_UICC_SUBSCRIPTION ''RIL_SelectUiccSub''
      [us_slot uiccSub, us_appIndex uiccSub, us_subType uiccSub, us_actStatus uiccSub] S)"

definition requestIccSimAuthentication :: "int \<Rightarrow> hidl_string \<Rightarrow> hidl_string \<Rightarrow> radio_call" where
  "requestIccSimAuthentication authContext authData aid cmds V mSlotId serial S =
    ignore (dispatchStruct cmds V serial mSlotId RIL_REQUEST_SIM_AUTHENTICATION 0 ''RIL_SimAuthentication''
      [authContext] [(False, authData), (False, aid)] [] None S)"

subsection \<open>Short messages\<close>

record gsm_sms_message =
  smscPdu :: hidl_string
  pdu :: hidl_string

record sms_write_args =
  sw_status :: int
  sw_pdu :: hidl_string
  sw_smsc :: hidl_string

definition writeSmsToSim :: "sms_write_args \<Rightarrow> radio_call" where
  "writeSmsToSim a cmds V mSlotId serial S =
    ignore (dispatchStruct cmds V serial mSlotId RIL_REQUEST_WRITE_SMS_TO_SIM 0 ''RIL_SMS_WriteArgs''
      [sw_status a] [(False, sw_pdu a), (False, sw_smsc a)] [] None S)"

record cdma_sms_message =
  cs_teleserviceId :: int
  cs_isServicePresent :: bool
  cs_serviceCategory :: int
  cs_digitMode :: int
  cs_numberMode :: int
  cs_numberType :: int
  cs_numberPlan :: int
  cs_digits :: "int list"
  cs_subaddressType :: int
  cs_odd :: bool
  cs_subDigits :: "int list"
  cs_bearerData :: "int list"

definition RIL_CDMA_SMS_ADDRESS_MAX :: nat where "RIL_CDMA_SMS_ADDRESS_MAX = 36"
definition RIL_CDMA_SMS_SUBADDRESS_MAX :: nat where "RIL_CDMA_SMS_SUBADDRESS_MAX = 36"
definition RIL_CDMA_SMS_BEARER_DATA_MAX :: nat where "RIL_CDMA_SMS_BEARER_DATA_MAX = 255"

text \<open>
  An array that is filled from a list: the number given, and the elements up to the limit, the rest zeros. The numbers
  of digits are unsigned bytes.
\<close>

definition fill_array :: "nat \<Rightarrow> nat \<Rightarrow> int list \<Rightarrow> int list" where
  "fill_array n limit xs = int n # take (min n limit) xs @ replicate (limit - min n limit) 0"

definition constructCdmaSms :: "cdma_sms_message \<Rightarrow> int list" where
  "constructCdmaSms sms =
    [cs_teleserviceId sms, BOOL_TO_INT (cs_isServicePresent sms), cs_serviceCategory sms, cs_digitMode sms,
     cs_numberMode sms, cs_numberType sms, cs_numberPlan sms] @
    fill_array (length (cs_digits sms) mod 256) RIL_CDMA_SMS_ADDRESS_MAX (cs_digits sms) @
    [cs_subaddressType sms, BOOL_TO_INT (cs_odd sms)] @
    fill_array (length (cs_subDigits sms) mod 256) RIL_CDMA_SMS_SUBADDRESS_MAX (cs_subDigits sms) @
    fill_array (length (cs_bearerData sms)) RIL_CDMA_SMS_BEARER_DATA_MAX (cs_bearerData sms)"

definition sendCdmaSms :: "cdma_sms_message \<Rightarrow> radio_call" where
  "sendCdmaSms sms cmds V mSlotId serial S =
    ignore (dispatchPlain cmds V serial mSlotId RIL_REQUEST_CDMA_SEND_SMS ''RIL_CDMA_SMS_Message'' (constructCdmaSms sms) S)"

definition acknowledgeLastIncomingCdmaSms :: "int \<Rightarrow> int \<Rightarrow> radio_call" where
  "acknowledgeLastIncomingCdmaSms errorClass smsCauseCode cmds V mSlotId serial S =
    ignore (dispatchPlain cmds V serial mSlotId RIL_REQUEST_CDMA_SMS_ACKNOWLEDGE ''RIL_CDMA_SMS_Ack'' [errorClass, smsCauseCode] S)"

definition writeSmsToRuim :: "int \<Rightarrow> cdma_sms_message \<Rightarrow> radio_call" where
  "writeSmsToRuim status sms cmds V mSlotId serial S =
    ignore (dispatchPlain cmds V serial mSlotId RIL_REQUEST_CDMA_WRITE_SMS_TO_RUIM ''RIL_CDMA_SMS_WriteArgs''
      (status # constructCdmaSms sms) S)"

datatype tech_family = THREE_GPP | THREE_GPP2 | OTHER_TECH int

record ims_sms_message =
  im_tech :: tech_family
  im_retry :: bool
  im_messageRef :: int
  im_cdmaMessage :: "cdma_sms_message list"
  im_gsmMessage :: "gsm_sms_message list"

definition dispatchImsGsmSms :: "ims_sms_message \<Rightarrow> commands \<Rightarrow> vendor \<Rightarrow> int \<Rightarrow> int \<Rightarrow> ril_core \<Rightarrow> (ril_core \<times> bool) mem" where
  "dispatchImsGsmSms message cmds V mSlotId serial S =
    (case im_gsmMessage message of
       [g] \<Rightarrow> dispatchStruct cmds V serial mSlotId RIL_REQUEST_IMS_SEND_SMS 1 ''RIL_IMS_SMS_Message''
         [1, BOOL_TO_INT (im_retry message), im_messageRef message] [(False, smscPdu g), (False, pdu g)] [] None S
     | _ \<Rightarrow> refuseRequest cmds V serial mSlotId RIL_REQUEST_IMS_SEND_SMS RIL_E_INVALID_ARGUMENTS S)"

definition dispatchImsCdmaSms :: "ims_sms_message \<Rightarrow> commands \<Rightarrow> vendor \<Rightarrow> int \<Rightarrow> int \<Rightarrow> ril_core \<Rightarrow> (ril_core \<times> bool) mem" where
  "dispatchImsCdmaSms message cmds V mSlotId serial S =
    (case im_cdmaMessage message of
       [c] \<Rightarrow> dispatchPlain cmds V serial mSlotId RIL_REQUEST_IMS_SEND_SMS ''ImsCdmaSms''
         ([2, BOOL_TO_INT (im_retry message), im_messageRef message] @ constructCdmaSms c) S
     | _ \<Rightarrow> refuseRequest cmds V serial mSlotId RIL_REQUEST_IMS_SEND_SMS RIL_E_INVALID_ARGUMENTS S)"

definition sendImsSms :: "ims_sms_message \<Rightarrow> radio_call" where
  "sendImsSms message cmds V mSlotId serial S =
    (case im_tech message of
       THREE_GPP \<Rightarrow> ignore (dispatchImsGsmSms message cmds V mSlotId serial S)
     | THREE_GPP2 \<Rightarrow> ignore (dispatchImsCdmaSms message cmds V mSlotId serial S)
     | OTHER_TECH _ \<Rightarrow> ignore (refuseRequest cmds V serial mSlotId RIL_REQUEST_IMS_SEND_SMS RIL_E_INVALID_ARGUMENTS S))"

definition MAX_BROADCAST_SMS_CONFIG_INFO :: nat where "MAX_BROADCAST_SMS_CONFIG_INFO = 25"

record gsm_broadcast_config =
  gb_fromServiceId :: int
  gb_toServiceId :: int
  gb_fromCodeScheme :: int
  gb_toCodeScheme :: int
  gb_selected :: bool

definition setGsmBroadcastConfig :: "gsm_broadcast_config list \<Rightarrow> radio_call" where
  "setGsmBroadcastConfig configInfo cmds V mSlotId serial S =
    ignore (if length configInfo > MAX_BROADCAST_SMS_CONFIG_INFO
       then refuseRequest cmds V serial mSlotId RIL_REQUEST_GSM_SET_BROADCAST_SMS_CONFIG RIL_E_INVALID_ARGUMENTS S
       else dispatchPlain cmds V serial mSlotId RIL_REQUEST_GSM_SET_BROADCAST_SMS_CONFIG ''RIL_GSM_BroadcastSmsConfigInfo''
         (concat (map (\<lambda>c. [gb_fromServiceId c, gb_toServiceId c, gb_fromCodeScheme c, gb_toCodeScheme c,
            BOOL_TO_INT (gb_selected c)]) configInfo)) S)"

record cdma_broadcast_config =
  cb_serviceCategory :: int
  cb_language :: int
  cb_selected :: bool

definition setCdmaBroadcastConfig :: "cdma_broadcast_config list \<Rightarrow> radio_call" where
  "setCdmaBroadcastConfig configInfo cmds V mSlotId serial S =
    ignore (if length configInfo > MAX_BROADCAST_SMS_CONFIG_INFO
       then refuseRequest cmds V serial mSlotId RIL_REQUEST_CDMA_SET_BROADCAST_SMS_CONFIG RIL_E_INVALID_ARGUMENTS S
       else dispatchPlain cmds V serial mSlotId RIL_REQUEST_CDMA_SET_BROADCAST_SMS_CONFIG ''RIL_CDMA_BroadcastSmsConfigInfo''
         (concat (map (\<lambda>c. [cb_serviceCategory c, cb_language c, BOOL_TO_INT (cb_selected c)]) configInfo)) S)"

subsection \<open>Network scans and keepalives\<close>

definition MAX_RADIO_ACCESS_NETWORKS :: nat where "MAX_RADIO_ACCESS_NETWORKS = 8"
definition MAX_BANDS :: nat where "MAX_BANDS = 8"
definition MAX_CHANNELS :: nat where "MAX_CHANNELS = 32"

datatype access_network = GERAN | UTRAN | EUTRAN | OTHER_NETWORK int

record access_specifier =
  as_network :: access_network
  as_geranBands :: "int list"
  as_utranBands :: "int list"
  as_eutranBands :: "int list"
  as_channels :: "int list"

text \<open>A specifier, without the network's number; \<open>None\<close> when it is invalid.\<close>

definition scan_specifier :: "access_specifier \<Rightarrow> int list option" where
  "scan_specifier a =
    (if length (as_geranBands a) > MAX_BANDS \<or> length (as_utranBands a) > MAX_BANDS \<or>
        length (as_eutranBands a) > MAX_BANDS \<or> length (as_channels a) > MAX_CHANNELS then None
     else (let spec = (\<lambda>bands. int (length (as_channels a)) # as_channels a @ int (length bands) # bands) in
           case as_network a of
             GERAN \<Rightarrow> Some (spec (as_geranBands a))
           | UTRAN \<Rightarrow> Some (spec (as_utranBands a))
           | EUTRAN \<Rightarrow> Some (spec (as_eutranBands a))
           | OTHER_NETWORK _ \<Rightarrow> None))"

fun scan_specifiers :: "(access_network \<Rightarrow> int) \<Rightarrow> access_specifier list \<Rightarrow> int list option" where
  "scan_specifiers num [] = Some []"
| "scan_specifiers num (a # as) =
    (case scan_specifier a of
       None \<Rightarrow> None
     | Some i \<Rightarrow> map_option (\<lambda>is. (num (as_network a) # i) @ is) (scan_specifiers num as))"

definition startNetworkScan :: "(access_network \<Rightarrow> int) \<Rightarrow> int \<Rightarrow> int \<Rightarrow> access_specifier list \<Rightarrow> radio_call" where
  "startNetworkScan num scan_type interval specifiers cmds V mSlotId serial S =
    ignore (if length specifiers > MAX_RADIO_ACCESS_NETWORKS
       then refuseRequest cmds V serial mSlotId RIL_REQUEST_START_NETWORK_SCAN RIL_E_INVALID_ARGUMENTS S
       else (case scan_specifiers num specifiers of
               None \<Rightarrow> refuseRequest cmds V serial mSlotId RIL_REQUEST_START_NETWORK_SCAN RIL_E_INVALID_ARGUMENTS S
             | Some is \<Rightarrow> dispatchPlain cmds V serial mSlotId RIL_REQUEST_START_NETWORK_SCAN ''RIL_NetworkScanRequest''
                 ([scan_type, interval, int (length specifiers)] @ is) S))"

record keepalive_request =
  ka_type :: int
  ka_sourceAddress :: "int list"
  ka_sourcePort :: int
  ka_destinationAddress :: "int list"
  ka_destinationPort :: int
  ka_maxKeepaliveIntervalMillis :: int
  ka_cid :: int

definition keepalive_valid :: "keepalive_request \<Rightarrow> bool" where
  "keepalive_valid k \<longleftrightarrow>
    (if ka_type k = 0 then length (ka_sourceAddress k) = 4 \<and> length (ka_destinationAddress k) = 4
     else if ka_type k = 1 then length (ka_sourceAddress k) = 16 \<and> length (ka_destinationAddress k) = 16
     else False)"

definition startKeepalive :: "keepalive_request \<Rightarrow> radio_call" where
  "startKeepalive k cmds V mSlotId serial S =
    ignore (if keepalive_valid k
       then dispatchPlain cmds V serial mSlotId RIL_REQUEST_START_KEEPALIVE ''RIL_KeepaliveRequest''
         ([ka_type k] @ ka_sourceAddress k @ [ka_sourcePort k] @ ka_destinationAddress k @
          [ka_destinationPort k, ka_maxKeepaliveIntervalMillis k, ka_cid k]) S
       else refuseRequest cmds V serial mSlotId RIL_REQUEST_START_KEEPALIVE RIL_E_INVALID_ARGUMENTS S)"

definition stopKeepalive :: "int \<Rightarrow> radio_call" where
  "stopKeepalive sessionHandle cmds V mSlotId serial S =
    ignore (dispatchPlain cmds V serial mSlotId RIL_REQUEST_STOP_KEEPALIVE ''int'' [sessionHandle] S)"

subsection \<open>Settings of the modem\<close>

definition nvReadItem :: "int \<Rightarrow> radio_call" where
  "nvReadItem itemId cmds V mSlotId serial S =
    ignore (dispatchPlain cmds V serial mSlotId RIL_REQUEST_NV_READ_ITEM ''RIL_NV_ReadItem'' [itemId] S)"

definition nvWriteItem :: "int \<Rightarrow> hidl_string \<Rightarrow> radio_call" where
  "nvWriteItem itemId val cmds V mSlotId serial S =
    ignore (dispatchStruct cmds V serial mSlotId RIL_REQUEST_NV_WRITE_ITEM 0 ''RIL_NV_WriteItem'' [itemId] [(False, val)] [] None S)"

datatype reset_nv_type = RELOAD | ERASE | FACTORY_RESET | OTHER_RESET int

definition nvResetConfig :: "reset_nv_type \<Rightarrow> radio_call" where
  "nvResetConfig resetType cmds V mSlotId serial S =
    ignore (dispatchInts cmds V serial mSlotId RIL_REQUEST_NV_RESET_CONFIG
      [case resetType of RELOAD \<Rightarrow> 1 | ERASE \<Rightarrow> 2 | FACTORY_RESET \<Rightarrow> 3 | OTHER_RESET _ \<Rightarrow> -1] S)"

definition MAX_UUID_LENGTH :: nat where "MAX_UUID_LENGTH = 64"

record radio_capability =
  rc_session :: int
  rc_phase :: int
  rc_raf :: int
  rc_status :: int
  rc_logicalModemUuid :: hidl_string

definition setRadioCapability :: "radio_capability \<Rightarrow> radio_call" where
  "setRadioCapability rc cmds V mSlotId serial S =
    ignore (dispatchStruct cmds V serial mSlotId RIL_REQUEST_SET_RADIO_CAPABILITY 0 ''RIL_RadioCapability''
      [rc_session rc, rc_phase rc, rc_raf rc, rc_status rc] []
      [take (MAX_UUID_LENGTH - 1) (hs_chars (rc_logicalModemUuid rc))] None S)"

record carrier =
  ca_mcc :: hidl_string
  ca_mnc :: hidl_string
  ca_matchType :: int
  ca_matchData :: hidl_string

definition carrier_strings :: "carrier \<Rightarrow> string list" where
  "carrier_strings c = [hs_chars (ca_mcc c), hs_chars (ca_mnc c), hs_chars (ca_matchData c)]"

definition setAllowedCarriers :: "carrier list \<Rightarrow> carrier list \<Rightarrow> radio_call" where
  "setAllowedCarriers allowedCarriers excludedCarriers cmds V mSlotId serial S =
    ignore (dispatchStruct cmds V serial mSlotId RIL_REQUEST_SET_CARRIER_RESTRICTIONS 2 ''RIL_CarrierRestrictions''
      ([int (length allowedCarriers), int (length excludedCarriers)] @ map ca_matchType (allowedCarriers @ excludedCarriers))
      [] (concat (map carrier_strings (allowedCarriers @ excludedCarriers))) None S)"

text \<open>
  Two methods answer themselves when the vendor library is old, without a check that the request could be
  added: an error answer to a null request is undefined. \<open>low\<close> is the number of \<open>LOW_DATA_EXPECTED\<close>.
\<close>

definition refuseUnchecked :: "commands \<Rightarrow> int \<Rightarrow> int \<Rightarrow> nat \<Rightarrow> int \<Rightarrow> ril_core \<Rightarrow> ril_core mem" where
  "refuseUnchecked cmds serial slotId request e S =
    (case addRequestToList (length cmds) serial slotId request S of
       (S1, None) \<Rightarrow> None
     | (S1, Some pRI) \<Rightarrow> sendErrorResponse cmds pRI e S1)"

definition sendDeviceState :: "int \<Rightarrow> int \<Rightarrow> bool \<Rightarrow> radio_call" where
  "sendDeviceState low deviceStateType state cmds V mSlotId serial S =
    (if version S < 15 then
       (if deviceStateType = low
        then ignore (dispatchInts cmds V serial mSlotId RIL_REQUEST_SCREEN_STATE [BOOL_TO_INT (\<not> state)] S)
        else refuseUnchecked cmds serial mSlotId RIL_REQUEST_SEND_DEVICE_STATE RIL_E_REQUEST_NOT_SUPPORTED S)
     else ignore (dispatchInts cmds V serial mSlotId RIL_REQUEST_SEND_DEVICE_STATE [deviceStateType, BOOL_TO_INT state] S))"

definition setIndicationFilter :: "int \<Rightarrow> radio_call" where
  "setIndicationFilter indicationFilter cmds V mSlotId serial S =
    (if version S < 15
     then refuseUnchecked cmds serial mSlotId RIL_REQUEST_SET_UNSOLICITED_RESPONSE_FILTER RIL_E_REQUEST_NOT_SUPPORTED S
     else ignore (dispatchInts cmds V serial mSlotId RIL_REQUEST_SET_UNSOLICITED_RESPONSE_FILTER [indicationFilter] S))"

text \<open>The strings of this structure are not freed after the call.\<close>

record imsi_encryption_info =
  ie_mcc :: hidl_string
  ie_mnc :: hidl_string
  ie_carrierKey :: "int list"
  ie_keyIdentifier :: hidl_string
  ie_expirationTime :: int

definition setCarrierInfoForImsiEncryption :: "imsi_encryption_info \<Rightarrow> radio_call" where
  "setCarrierInfoForImsiEncryption a cmds V mSlotId serial S =
    (case addRequestToList (length cmds) serial mSlotId RIL_REQUEST_SET_CARRIER_INFO_IMSI_ENCRYPTION S of
       (S1, None) \<Rightarrow> Some S1
     | (S1, Some pRI) \<Rightarrow>
         (case copy_each cmds pRI [(False, ie_mnc a), (False, ie_mcc a), (False, ie_keyIdentifier a)] [] S1 of
            None \<Rightarrow> None
          | Some (S2, None) \<Rightarrow> Some S2
          | Some (S2, Some ps) \<Rightarrow>
              CALL_ONREQUEST cmds V RIL_REQUEST_SET_CARRIER_INFO_IMSI_ENCRYPTION
                (PStruct ''RIL_CarrierInfoForImsiEncryption''
                  ([int (length (ie_carrierKey a))] @ ie_carrierKey a @ [ie_expirationTime a]) ps) pRI mSlotId S2))"

definition responseAcknowledgement :: "ril_core \<Rightarrow> ril_core" where
  "responseAcknowledgement S = releaseWakeLock S"

lemmas struct_dispatch =
  refuseRequest_def dispatchPlain_def dispatchImsGsmSms_def dispatchImsCdmaSms_def

end
