(* ===== verification/Ril_Radio.thy ===== *)
theory Ril_Radio
  imports Ril_Struct
begin

text \<open>
  The methods of \<open>IRadio\<close> and \<open>IOemHook\<close> in \<open>libril/ril_service.cpp\<close> that hand a request of the client to one of the
  dispatch functions, and the method of the client that is to get the answer. The result of a dispatch
  function is not used. Enumerations are their numbers.
\<close>

subsection \<open>Methods\<close>

definition getIccCardStatus :: "radio_call" where
  "getIccCardStatus cmds V mSlotId serial S =
    ignore (dispatchVoid cmds V serial mSlotId RIL_REQUEST_GET_SIM_STATUS S)"

definition supplyIccPinForApp :: "hidl_string \<Rightarrow> hidl_string \<Rightarrow> radio_call" where
  "supplyIccPinForApp pin aid cmds V mSlotId serial S =
    ignore (dispatchStrings cmds V serial mSlotId RIL_REQUEST_ENTER_SIM_PIN True [hs_chars pin, hs_chars aid] S)"

definition supplyIccPukForApp :: "hidl_string \<Rightarrow> hidl_string \<Rightarrow> hidl_string \<Rightarrow> radio_call" where
  "supplyIccPukForApp puk pin aid cmds V mSlotId serial S =
    ignore (dispatchStrings cmds V serial mSlotId RIL_REQUEST_ENTER_SIM_PUK True [hs_chars puk, hs_chars pin, hs_chars aid] S)"

definition supplyIccPin2ForApp :: "hidl_string \<Rightarrow> hidl_string \<Rightarrow> radio_call" where
  "supplyIccPin2ForApp pin2_code aid cmds V mSlotId serial S =
    ignore (dispatchStrings cmds V serial mSlotId RIL_REQUEST_ENTER_SIM_PIN2 True [hs_chars pin2_code, hs_chars aid] S)"

definition supplyIccPuk2ForApp :: "hidl_string \<Rightarrow> hidl_string \<Rightarrow> hidl_string \<Rightarrow> radio_call" where
  "supplyIccPuk2ForApp puk2 pin2_code aid cmds V mSlotId serial S =
    ignore (dispatchStrings cmds V serial mSlotId RIL_REQUEST_ENTER_SIM_PUK2 True [hs_chars puk2, hs_chars pin2_code, hs_chars aid] S)"

definition changeIccPinForApp :: "hidl_string \<Rightarrow> hidl_string \<Rightarrow> hidl_string \<Rightarrow> radio_call" where
  "changeIccPinForApp oldPin newPin aid cmds V mSlotId serial S =
    ignore (dispatchStrings cmds V serial mSlotId RIL_REQUEST_CHANGE_SIM_PIN True [hs_chars oldPin, hs_chars newPin, hs_chars aid] S)"

definition changeIccPin2ForApp :: "hidl_string \<Rightarrow> hidl_string \<Rightarrow> hidl_string \<Rightarrow> radio_call" where
  "changeIccPin2ForApp oldPin2 newPin2 aid cmds V mSlotId serial S =
    ignore (dispatchStrings cmds V serial mSlotId RIL_REQUEST_CHANGE_SIM_PIN2 True [hs_chars oldPin2, hs_chars newPin2, hs_chars aid] S)"

definition supplyNetworkDepersonalization :: "hidl_string \<Rightarrow> radio_call" where
  "supplyNetworkDepersonalization netPin cmds V mSlotId serial S =
    ignore (dispatchStrings cmds V serial mSlotId RIL_REQUEST_ENTER_NETWORK_DEPERSONALIZATION True [hs_chars netPin] S)"

definition getCurrentCalls :: "radio_call" where
  "getCurrentCalls cmds V mSlotId serial S =
    ignore (dispatchVoid cmds V serial mSlotId RIL_REQUEST_GET_CURRENT_CALLS S)"

definition getImsiForApp :: "hidl_string \<Rightarrow> radio_call" where
  "getImsiForApp aid cmds V mSlotId serial S =
    ignore (dispatchStrings cmds V serial mSlotId RIL_REQUEST_GET_IMSI False [hs_chars aid] S)"

definition hangup :: "int \<Rightarrow> radio_call" where
  "hangup gsmIndex cmds V mSlotId serial S =
    ignore (dispatchInts cmds V serial mSlotId RIL_REQUEST_HANGUP [gsmIndex] S)"

definition hangupWaitingOrBackground :: "radio_call" where
  "hangupWaitingOrBackground cmds V mSlotId serial S =
    ignore (dispatchVoid cmds V serial mSlotId RIL_REQUEST_HANGUP_WAITING_OR_BACKGROUND S)"

definition hangupForegroundResumeBackground :: "radio_call" where
  "hangupForegroundResumeBackground cmds V mSlotId serial S =
    ignore (dispatchVoid cmds V serial mSlotId RIL_REQUEST_HANGUP_FOREGROUND_RESUME_BACKGROUND S)"

definition switchWaitingOrHoldingAndActive :: "radio_call" where
  "switchWaitingOrHoldingAndActive cmds V mSlotId serial S =
    ignore (dispatchVoid cmds V serial mSlotId RIL_REQUEST_SWITCH_WAITING_OR_HOLDING_AND_ACTIVE S)"

definition conference :: "radio_call" where
  "conference cmds V mSlotId serial S =
    ignore (dispatchVoid cmds V serial mSlotId RIL_REQUEST_CONFERENCE S)"

definition rejectCall :: "radio_call" where
  "rejectCall cmds V mSlotId serial S =
    ignore (dispatchVoid cmds V serial mSlotId RIL_REQUEST_UDUB S)"

definition getLastCallFailCause :: "radio_call" where
  "getLastCallFailCause cmds V mSlotId serial S =
    ignore (dispatchVoid cmds V serial mSlotId RIL_REQUEST_LAST_CALL_FAIL_CAUSE S)"

definition getSignalStrength :: "radio_call" where
  "getSignalStrength cmds V mSlotId serial S =
    ignore (dispatchVoid cmds V serial mSlotId RIL_REQUEST_SIGNAL_STRENGTH S)"

definition getVoiceRegistrationState :: "radio_call" where
  "getVoiceRegistrationState cmds V mSlotId serial S =
    ignore (dispatchVoid cmds V serial mSlotId RIL_REQUEST_VOICE_REGISTRATION_STATE S)"

definition getDataRegistrationState :: "radio_call" where
  "getDataRegistrationState cmds V mSlotId serial S =
    ignore (dispatchVoid cmds V serial mSlotId RIL_REQUEST_DATA_REGISTRATION_STATE S)"

definition getOperator :: "radio_call" where
  "getOperator cmds V mSlotId serial S =
    ignore (dispatchVoid cmds V serial mSlotId RIL_REQUEST_OPERATOR S)"

definition sendDtmf :: "hidl_string \<Rightarrow> radio_call" where
  "sendDtmf s cmds V mSlotId serial S =
    ignore (dispatchString cmds V serial mSlotId RIL_REQUEST_DTMF (hs_chars s) S)"

definition sendSms :: "gsm_sms_message \<Rightarrow> radio_call" where
  "sendSms message cmds V mSlotId serial S =
    ignore (dispatchStrings cmds V serial mSlotId RIL_REQUEST_SEND_SMS False [hs_chars (smscPdu message), hs_chars (pdu message)] S)"

definition sendSMSExpectMore :: "gsm_sms_message \<Rightarrow> radio_call" where
  "sendSMSExpectMore message cmds V mSlotId serial S =
    ignore (dispatchStrings cmds V serial mSlotId RIL_REQUEST_SEND_SMS_EXPECT_MORE False [hs_chars (smscPdu message), hs_chars (pdu message)] S)"

definition sendUssd :: "hidl_string \<Rightarrow> radio_call" where
  "sendUssd ussd cmds V mSlotId serial S =
    ignore (dispatchString cmds V serial mSlotId RIL_REQUEST_SEND_USSD (hs_chars ussd) S)"

definition cancelPendingUssd :: "radio_call" where
  "cancelPendingUssd cmds V mSlotId serial S =
    ignore (dispatchVoid cmds V serial mSlotId RIL_REQUEST_CANCEL_USSD S)"

definition getClir :: "radio_call" where
  "getClir cmds V mSlotId serial S =
    ignore (dispatchVoid cmds V serial mSlotId RIL_REQUEST_GET_CLIR S)"

definition setClir :: "int \<Rightarrow> radio_call" where
  "setClir status cmds V mSlotId serial S =
    ignore (dispatchInts cmds V serial mSlotId RIL_REQUEST_SET_CLIR [status] S)"

definition getCallForwardStatus :: "call_forward_info \<Rightarrow> radio_call" where
  "getCallForwardStatus callInfo cmds V mSlotId serial S =
    ignore (dispatchCallForwardStatus cmds V serial mSlotId RIL_REQUEST_QUERY_CALL_FORWARD_STATUS callInfo S)"

definition setCallForward :: "call_forward_info \<Rightarrow> radio_call" where
  "setCallForward callInfo cmds V mSlotId serial S =
    ignore (dispatchCallForwardStatus cmds V serial mSlotId RIL_REQUEST_SET_CALL_FORWARD callInfo S)"

definition getCallWaiting :: "int \<Rightarrow> radio_call" where
  "getCallWaiting serviceClass cmds V mSlotId serial S =
    ignore (dispatchInts cmds V serial mSlotId RIL_REQUEST_QUERY_CALL_WAITING [serviceClass] S)"

definition setCallWaiting :: "bool \<Rightarrow> int \<Rightarrow> radio_call" where
  "setCallWaiting enable serviceClass cmds V mSlotId serial S =
    ignore (dispatchInts cmds V serial mSlotId RIL_REQUEST_SET_CALL_WAITING [BOOL_TO_INT enable, serviceClass] S)"

definition acknowledgeLastIncomingGsmSms :: "bool \<Rightarrow> int \<Rightarrow> radio_call" where
  "acknowledgeLastIncomingGsmSms success cause cmds V mSlotId serial S =
    ignore (dispatchInts cmds V serial mSlotId RIL_REQUEST_SMS_ACKNOWLEDGE [BOOL_TO_INT success, cause] S)"

definition acceptCall :: "radio_call" where
  "acceptCall cmds V mSlotId serial S =
    ignore (dispatchVoid cmds V serial mSlotId RIL_REQUEST_ANSWER S)"

definition deactivateDataCall :: "int \<Rightarrow> bool \<Rightarrow> radio_call" where
  "deactivateDataCall cid reasonRadioShutDown cmds V mSlotId serial S =
    ignore (dispatchStrings cmds V serial mSlotId RIL_REQUEST_DEACTIVATE_DATA_CALL False [to_string cid, if reasonRadioShutDown then ''1'' else ''0''] S)"

definition getFacilityLockForApp :: "hidl_string \<Rightarrow> hidl_string \<Rightarrow> int \<Rightarrow> hidl_string \<Rightarrow> radio_call" where
  "getFacilityLockForApp facility password serviceClass appId cmds V mSlotId serial S =
    ignore (dispatchStrings cmds V serial mSlotId RIL_REQUEST_QUERY_FACILITY_LOCK True [hs_chars facility, hs_chars password, to_string serviceClass, hs_chars appId] S)"

definition setFacilityLockForApp :: "hidl_string \<Rightarrow> bool \<Rightarrow> hidl_string \<Rightarrow> int \<Rightarrow> hidl_string \<Rightarrow> radio_call" where
  "setFacilityLockForApp facility lockState password serviceClass appId cmds V mSlotId serial S =
    ignore (dispatchStrings cmds V serial mSlotId RIL_REQUEST_SET_FACILITY_LOCK True [hs_chars facility, if lockState then ''1'' else ''0'', hs_chars password, to_string serviceClass, hs_chars appId] S)"

definition setBarringPassword :: "hidl_string \<Rightarrow> hidl_string \<Rightarrow> hidl_string \<Rightarrow> radio_call" where
  "setBarringPassword facility oldPassword newPassword cmds V mSlotId serial S =
    ignore (dispatchStrings cmds V serial mSlotId RIL_REQUEST_CHANGE_BARRING_PASSWORD True [hs_chars facility, hs_chars oldPassword, hs_chars newPassword] S)"

definition getNetworkSelectionMode :: "radio_call" where
  "getNetworkSelectionMode cmds V mSlotId serial S =
    ignore (dispatchVoid cmds V serial mSlotId RIL_REQUEST_QUERY_NETWORK_SELECTION_MODE S)"

definition getAvailableNetworks :: "radio_call" where
  "getAvailableNetworks cmds V mSlotId serial S =
    ignore (dispatchVoid cmds V serial mSlotId RIL_REQUEST_QUERY_AVAILABLE_NETWORKS S)"

definition stopNetworkScan :: "radio_call" where
  "stopNetworkScan cmds V mSlotId serial S =
    ignore (dispatchVoid cmds V serial mSlotId RIL_REQUEST_STOP_NETWORK_SCAN S)"

definition startDtmf :: "hidl_string \<Rightarrow> radio_call" where
  "startDtmf s cmds V mSlotId serial S =
    ignore (dispatchString cmds V serial mSlotId RIL_REQUEST_DTMF_START (hs_chars s) S)"

definition stopDtmf :: "radio_call" where
  "stopDtmf cmds V mSlotId serial S =
    ignore (dispatchVoid cmds V serial mSlotId RIL_REQUEST_DTMF_STOP S)"

definition getBasebandVersion :: "radio_call" where
  "getBasebandVersion cmds V mSlotId serial S =
    ignore (dispatchVoid cmds V serial mSlotId RIL_REQUEST_BASEBAND_VERSION S)"

definition separateConnection :: "int \<Rightarrow> radio_call" where
  "separateConnection gsmIndex cmds V mSlotId serial S =
    ignore (dispatchInts cmds V serial mSlotId RIL_REQUEST_SEPARATE_CONNECTION [gsmIndex] S)"

definition setMute :: "bool \<Rightarrow> radio_call" where
  "setMute enable cmds V mSlotId serial S =
    ignore (dispatchInts cmds V serial mSlotId RIL_REQUEST_SET_MUTE [BOOL_TO_INT enable] S)"

definition getMute :: "radio_call" where
  "getMute cmds V mSlotId serial S =
    ignore (dispatchVoid cmds V serial mSlotId RIL_REQUEST_GET_MUTE S)"

definition getClip :: "radio_call" where
  "getClip cmds V mSlotId serial S =
    ignore (dispatchVoid cmds V serial mSlotId RIL_REQUEST_QUERY_CLIP S)"

definition getDataCallList :: "radio_call" where
  "getDataCallList cmds V mSlotId serial S =
    ignore (dispatchVoid cmds V serial mSlotId RIL_REQUEST_DATA_CALL_LIST S)"

definition setSuppServiceNotifications :: "bool \<Rightarrow> radio_call" where
  "setSuppServiceNotifications enable cmds V mSlotId serial S =
    ignore (dispatchInts cmds V serial mSlotId RIL_REQUEST_SET_SUPP_SVC_NOTIFICATION [BOOL_TO_INT enable] S)"

definition deleteSmsOnSim :: "int \<Rightarrow> radio_call" where
  "deleteSmsOnSim index cmds V mSlotId serial S =
    ignore (dispatchInts cmds V serial mSlotId RIL_REQUEST_DELETE_SMS_ON_SIM [index] S)"

definition setBandMode :: "int \<Rightarrow> radio_call" where
  "setBandMode mode cmds V mSlotId serial S =
    ignore (dispatchInts cmds V serial mSlotId RIL_REQUEST_SET_BAND_MODE [mode] S)"

definition getAvailableBandModes :: "radio_call" where
  "getAvailableBandModes cmds V mSlotId serial S =
    ignore (dispatchVoid cmds V serial mSlotId RIL_REQUEST_QUERY_AVAILABLE_BAND_MODE S)"

definition sendEnvelope :: "hidl_string \<Rightarrow> radio_call" where
  "sendEnvelope command cmds V mSlotId serial S =
    ignore (dispatchString cmds V serial mSlotId RIL_REQUEST_STK_SEND_ENVELOPE_COMMAND (hs_chars command) S)"

definition sendTerminalResponseToSim :: "hidl_string \<Rightarrow> radio_call" where
  "sendTerminalResponseToSim commandResponse cmds V mSlotId serial S =
    ignore (dispatchString cmds V serial mSlotId RIL_REQUEST_STK_SEND_TERMINAL_RESPONSE (hs_chars commandResponse) S)"

definition handleStkCallSetupRequestFromSim :: "bool \<Rightarrow> radio_call" where
  "handleStkCallSetupRequestFromSim accept cmds V mSlotId serial S =
    ignore (dispatchInts cmds V serial mSlotId RIL_REQUEST_STK_HANDLE_CALL_SETUP_REQUESTED_FROM_SIM [BOOL_TO_INT accept] S)"

definition explicitCallTransfer :: "radio_call" where
  "explicitCallTransfer cmds V mSlotId serial S =
    ignore (dispatchVoid cmds V serial mSlotId RIL_REQUEST_EXPLICIT_CALL_TRANSFER S)"

definition setPreferredNetworkType :: "int \<Rightarrow> radio_call" where
  "setPreferredNetworkType nwType cmds V mSlotId serial S =
    ignore (dispatchInts cmds V serial mSlotId RIL_REQUEST_SET_PREFERRED_NETWORK_TYPE [nwType] S)"

definition getPreferredNetworkType :: "radio_call" where
  "getPreferredNetworkType cmds V mSlotId serial S =
    ignore (dispatchVoid cmds V serial mSlotId RIL_REQUEST_GET_PREFERRED_NETWORK_TYPE S)"

definition getNeighboringCids :: "radio_call" where
  "getNeighboringCids cmds V mSlotId serial S =
    ignore (dispatchVoid cmds V serial mSlotId RIL_REQUEST_GET_NEIGHBORING_CELL_IDS S)"

definition setLocationUpdates :: "bool \<Rightarrow> radio_call" where
  "setLocationUpdates enable cmds V mSlotId serial S =
    ignore (dispatchInts cmds V serial mSlotId RIL_REQUEST_SET_LOCATION_UPDATES [BOOL_TO_INT enable] S)"

definition setCdmaSubscriptionSource :: "int \<Rightarrow> radio_call" where
  "setCdmaSubscriptionSource cdmaSub cmds V mSlotId serial S =
    ignore (dispatchInts cmds V serial mSlotId RIL_REQUEST_CDMA_SET_SUBSCRIPTION_SOURCE [cdmaSub] S)"

definition setCdmaRoamingPreference :: "int \<Rightarrow> radio_call" where
  "setCdmaRoamingPreference ctype cmds V mSlotId serial S =
    ignore (dispatchInts cmds V serial mSlotId RIL_REQUEST_CDMA_SET_ROAMING_PREFERENCE [ctype] S)"

definition getCdmaRoamingPreference :: "radio_call" where
  "getCdmaRoamingPreference cmds V mSlotId serial S =
    ignore (dispatchVoid cmds V serial mSlotId RIL_REQUEST_CDMA_QUERY_ROAMING_PREFERENCE S)"

definition setTTYMode :: "int \<Rightarrow> radio_call" where
  "setTTYMode mode cmds V mSlotId serial S =
    ignore (dispatchInts cmds V serial mSlotId RIL_REQUEST_SET_TTY_MODE [mode] S)"

definition getTTYMode :: "radio_call" where
  "getTTYMode cmds V mSlotId serial S =
    ignore (dispatchVoid cmds V serial mSlotId RIL_REQUEST_QUERY_TTY_MODE S)"

definition setPreferredVoicePrivacy :: "bool \<Rightarrow> radio_call" where
  "setPreferredVoicePrivacy enable cmds V mSlotId serial S =
    ignore (dispatchInts cmds V serial mSlotId RIL_REQUEST_CDMA_SET_PREFERRED_VOICE_PRIVACY_MODE [BOOL_TO_INT enable] S)"

definition getPreferredVoicePrivacy :: "radio_call" where
  "getPreferredVoicePrivacy cmds V mSlotId serial S =
    ignore (dispatchVoid cmds V serial mSlotId RIL_REQUEST_CDMA_QUERY_PREFERRED_VOICE_PRIVACY_MODE S)"

definition sendCDMAFeatureCode :: "hidl_string \<Rightarrow> radio_call" where
  "sendCDMAFeatureCode featureCode cmds V mSlotId serial S =
    ignore (dispatchString cmds V serial mSlotId RIL_REQUEST_CDMA_FLASH (hs_chars featureCode) S)"

definition sendBurstDtmf :: "hidl_string \<Rightarrow> int \<Rightarrow> int \<Rightarrow> radio_call" where
  "sendBurstDtmf dtmf on_ms off_ms cmds V mSlotId serial S =
    ignore (dispatchStrings cmds V serial mSlotId RIL_REQUEST_CDMA_BURST_DTMF False [hs_chars dtmf, to_string on_ms, to_string off_ms] S)"

definition getGsmBroadcastConfig :: "radio_call" where
  "getGsmBroadcastConfig cmds V mSlotId serial S =
    ignore (dispatchVoid cmds V serial mSlotId RIL_REQUEST_GSM_GET_BROADCAST_SMS_CONFIG S)"

definition setGsmBroadcastActivation :: "bool \<Rightarrow> radio_call" where
  "setGsmBroadcastActivation activate cmds V mSlotId serial S =
    ignore (dispatchInts cmds V serial mSlotId RIL_REQUEST_GSM_SMS_BROADCAST_ACTIVATION [BOOL_TO_INT (\<not> activate)] S)"

definition getCdmaBroadcastConfig :: "radio_call" where
  "getCdmaBroadcastConfig cmds V mSlotId serial S =
    ignore (dispatchVoid cmds V serial mSlotId RIL_REQUEST_CDMA_GET_BROADCAST_SMS_CONFIG S)"

definition setCdmaBroadcastActivation :: "bool \<Rightarrow> radio_call" where
  "setCdmaBroadcastActivation activate cmds V mSlotId serial S =
    ignore (dispatchInts cmds V serial mSlotId RIL_REQUEST_CDMA_SMS_BROADCAST_ACTIVATION [BOOL_TO_INT (\<not> activate)] S)"

definition getCDMASubscription :: "radio_call" where
  "getCDMASubscription cmds V mSlotId serial S =
    ignore (dispatchVoid cmds V serial mSlotId RIL_REQUEST_CDMA_SUBSCRIPTION S)"

definition deleteSmsOnRuim :: "int \<Rightarrow> radio_call" where
  "deleteSmsOnRuim index cmds V mSlotId serial S =
    ignore (dispatchInts cmds V serial mSlotId RIL_REQUEST_CDMA_DELETE_SMS_ON_RUIM [index] S)"

definition getDeviceIdentity :: "radio_call" where
  "getDeviceIdentity cmds V mSlotId serial S =
    ignore (dispatchVoid cmds V serial mSlotId RIL_REQUEST_DEVICE_IDENTITY S)"

definition exitEmergencyCallbackMode :: "radio_call" where
  "exitEmergencyCallbackMode cmds V mSlotId serial S =
    ignore (dispatchVoid cmds V serial mSlotId RIL_REQUEST_EXIT_EMERGENCY_CALLBACK_MODE S)"

definition getSmscAddress :: "radio_call" where
  "getSmscAddress cmds V mSlotId serial S =
    ignore (dispatchVoid cmds V serial mSlotId RIL_REQUEST_GET_SMSC_ADDRESS S)"

definition setSmscAddress :: "hidl_string \<Rightarrow> radio_call" where
  "setSmscAddress smsc cmds V mSlotId serial S =
    ignore (dispatchString cmds V serial mSlotId RIL_REQUEST_SET_SMSC_ADDRESS (hs_chars smsc) S)"

definition reportSmsMemoryStatus :: "bool \<Rightarrow> radio_call" where
  "reportSmsMemoryStatus has_memory cmds V mSlotId serial S =
    ignore (dispatchInts cmds V serial mSlotId RIL_REQUEST_REPORT_SMS_MEMORY_STATUS [BOOL_TO_INT has_memory] S)"

definition reportStkServiceIsRunning :: "radio_call" where
  "reportStkServiceIsRunning cmds V mSlotId serial S =
    ignore (dispatchVoid cmds V serial mSlotId RIL_REQUEST_REPORT_STK_SERVICE_IS_RUNNING S)"

definition getCdmaSubscriptionSource :: "radio_call" where
  "getCdmaSubscriptionSource cmds V mSlotId serial S =
    ignore (dispatchVoid cmds V serial mSlotId RIL_REQUEST_CDMA_GET_SUBSCRIPTION_SOURCE S)"

definition requestIsimAuthentication :: "hidl_string \<Rightarrow> radio_call" where
  "requestIsimAuthentication challenge cmds V mSlotId serial S =
    ignore (dispatchString cmds V serial mSlotId RIL_REQUEST_ISIM_AUTHENTICATION (hs_chars challenge) S)"

definition acknowledgeIncomingGsmSmsWithPdu :: "bool \<Rightarrow> hidl_string \<Rightarrow> radio_call" where
  "acknowledgeIncomingGsmSmsWithPdu success ackPdu cmds V mSlotId serial S =
    ignore (dispatchStrings cmds V serial mSlotId RIL_REQUEST_ACKNOWLEDGE_INCOMING_GSM_SMS_WITH_PDU False [if success then ''1'' else ''0'', hs_chars ackPdu] S)"

definition sendEnvelopeWithStatus :: "hidl_string \<Rightarrow> radio_call" where
  "sendEnvelopeWithStatus contents cmds V mSlotId serial S =
    ignore (dispatchString cmds V serial mSlotId RIL_REQUEST_STK_SEND_ENVELOPE_WITH_STATUS (hs_chars contents) S)"

definition getVoiceRadioTechnology :: "radio_call" where
  "getVoiceRadioTechnology cmds V mSlotId serial S =
    ignore (dispatchVoid cmds V serial mSlotId RIL_REQUEST_VOICE_RADIO_TECH S)"

definition getCellInfoList :: "radio_call" where
  "getCellInfoList cmds V mSlotId serial S =
    ignore (dispatchVoid cmds V serial mSlotId RIL_REQUEST_GET_CELL_INFO_LIST S)"

definition setCellInfoListRate :: "int \<Rightarrow> radio_call" where
  "setCellInfoListRate rate cmds V mSlotId serial S =
    ignore (dispatchInts cmds V serial mSlotId RIL_REQUEST_SET_UNSOL_CELL_INFO_LIST_RATE [rate] S)"

definition getImsRegistrationState :: "radio_call" where
  "getImsRegistrationState cmds V mSlotId serial S =
    ignore (dispatchVoid cmds V serial mSlotId RIL_REQUEST_IMS_REGISTRATION_STATE S)"

definition iccTransmitApduBasicChannel :: "sim_apdu \<Rightarrow> radio_call" where
  "iccTransmitApduBasicChannel message cmds V mSlotId serial S =
    ignore (dispatchIccApdu cmds V serial mSlotId RIL_REQUEST_SIM_TRANSMIT_APDU_BASIC message S)"

definition iccCloseLogicalChannel :: "int \<Rightarrow> radio_call" where
  "iccCloseLogicalChannel channelId cmds V mSlotId serial S =
    ignore (dispatchInts cmds V serial mSlotId RIL_REQUEST_SIM_CLOSE_CHANNEL [channelId] S)"

definition iccTransmitApduLogicalChannel :: "sim_apdu \<Rightarrow> radio_call" where
  "iccTransmitApduLogicalChannel message cmds V mSlotId serial S =
    ignore (dispatchIccApdu cmds V serial mSlotId RIL_REQUEST_SIM_TRANSMIT_APDU_CHANNEL message S)"

definition nvWriteCdmaPrl :: "(nat list) \<Rightarrow> radio_call" where
  "nvWriteCdmaPrl prl cmds V mSlotId serial S =
    ignore (dispatchRaw cmds V serial mSlotId RIL_REQUEST_NV_WRITE_CDMA_PRL prl S)"

definition setDataAllowed :: "bool \<Rightarrow> radio_call" where
  "setDataAllowed allow cmds V mSlotId serial S =
    ignore (dispatchInts cmds V serial mSlotId RIL_REQUEST_ALLOW_DATA [BOOL_TO_INT allow] S)"

definition getHardwareConfig :: "radio_call" where
  "getHardwareConfig cmds V mSlotId serial S =
    ignore (dispatchVoid cmds V serial mSlotId RIL_REQUEST_GET_HARDWARE_CONFIG S)"

definition requestShutdown :: "radio_call" where
  "requestShutdown cmds V mSlotId serial S =
    ignore (dispatchVoid cmds V serial mSlotId RIL_REQUEST_SHUTDOWN S)"

definition getRadioCapability :: "radio_call" where
  "getRadioCapability cmds V mSlotId serial S =
    ignore (dispatchVoid cmds V serial mSlotId RIL_REQUEST_GET_RADIO_CAPABILITY S)"

definition startLceService :: "int \<Rightarrow> bool \<Rightarrow> radio_call" where
  "startLceService reportInterval pullMode cmds V mSlotId serial S =
    ignore (dispatchInts cmds V serial mSlotId RIL_REQUEST_START_LCE [reportInterval, BOOL_TO_INT pullMode] S)"

definition stopLceService :: "radio_call" where
  "stopLceService cmds V mSlotId serial S =
    ignore (dispatchVoid cmds V serial mSlotId RIL_REQUEST_STOP_LCE S)"

definition pullLceData :: "radio_call" where
  "pullLceData cmds V mSlotId serial S =
    ignore (dispatchVoid cmds V serial mSlotId RIL_REQUEST_PULL_LCEDATA S)"

definition getModemActivityInfo :: "radio_call" where
  "getModemActivityInfo cmds V mSlotId serial S =
    ignore (dispatchVoid cmds V serial mSlotId RIL_REQUEST_GET_ACTIVITY_INFO S)"

definition getAllowedCarriers :: "radio_call" where
  "getAllowedCarriers cmds V mSlotId serial S =
    ignore (dispatchVoid cmds V serial mSlotId RIL_REQUEST_GET_CARRIER_RESTRICTIONS S)"

definition setSimCardPower :: "bool \<Rightarrow> radio_call" where
  "setSimCardPower powerUp cmds V mSlotId serial S =
    ignore (dispatchInts cmds V serial mSlotId RIL_REQUEST_SET_SIM_CARD_POWER [BOOL_TO_INT powerUp] S)"

definition setSimCardPower_1_1 :: "int \<Rightarrow> radio_call" where
  "setSimCardPower_1_1 power_state cmds V mSlotId serial S =
    ignore (dispatchInts cmds V serial mSlotId RIL_REQUEST_SET_SIM_CARD_POWER [power_state] S)"

definition sendRequestRaw :: "(nat list) \<Rightarrow> radio_call" where
  "sendRequestRaw data cmds V mSlotId serial S =
    ignore (dispatchRaw cmds V serial mSlotId RIL_REQUEST_OEM_HOOK_RAW data S)"

definition sendRequestStrings :: "(hidl_string list) \<Rightarrow> radio_call" where
  "sendRequestStrings data cmds V mSlotId serial S =
    ignore (dispatchStringVec cmds V serial mSlotId RIL_REQUEST_OEM_HOOK_STRINGS data S)"

lemmas radio_methods =
  getIccCardStatus_def supplyIccPinForApp_def supplyIccPukForApp_def supplyIccPin2ForApp_def supplyIccPuk2ForApp_def
  changeIccPinForApp_def changeIccPin2ForApp_def supplyNetworkDepersonalization_def getCurrentCalls_def
  getImsiForApp_def hangup_def hangupWaitingOrBackground_def hangupForegroundResumeBackground_def
  switchWaitingOrHoldingAndActive_def conference_def rejectCall_def getLastCallFailCause_def getSignalStrength_def
  getVoiceRegistrationState_def getDataRegistrationState_def getOperator_def sendDtmf_def sendSms_def
  sendSMSExpectMore_def sendUssd_def cancelPendingUssd_def getClir_def setClir_def getCallForwardStatus_def
  setCallForward_def getCallWaiting_def setCallWaiting_def acknowledgeLastIncomingGsmSms_def acceptCall_def
  deactivateDataCall_def getFacilityLockForApp_def setFacilityLockForApp_def setBarringPassword_def
  getNetworkSelectionMode_def getAvailableNetworks_def stopNetworkScan_def startDtmf_def stopDtmf_def
  getBasebandVersion_def separateConnection_def setMute_def getMute_def getClip_def getDataCallList_def
  setSuppServiceNotifications_def deleteSmsOnSim_def setBandMode_def getAvailableBandModes_def sendEnvelope_def
  sendTerminalResponseToSim_def handleStkCallSetupRequestFromSim_def explicitCallTransfer_def
  setPreferredNetworkType_def getPreferredNetworkType_def getNeighboringCids_def setLocationUpdates_def
  setCdmaSubscriptionSource_def setCdmaRoamingPreference_def getCdmaRoamingPreference_def setTTYMode_def
  getTTYMode_def setPreferredVoicePrivacy_def getPreferredVoicePrivacy_def sendCDMAFeatureCode_def sendBurstDtmf_def
  getGsmBroadcastConfig_def setGsmBroadcastActivation_def getCdmaBroadcastConfig_def setCdmaBroadcastActivation_def
  getCDMASubscription_def deleteSmsOnRuim_def getDeviceIdentity_def exitEmergencyCallbackMode_def getSmscAddress_def
  setSmscAddress_def reportSmsMemoryStatus_def reportStkServiceIsRunning_def getCdmaSubscriptionSource_def
  requestIsimAuthentication_def acknowledgeIncomingGsmSmsWithPdu_def sendEnvelopeWithStatus_def
  getVoiceRadioTechnology_def getCellInfoList_def setCellInfoListRate_def getImsRegistrationState_def
  iccTransmitApduBasicChannel_def iccCloseLogicalChannel_def iccTransmitApduLogicalChannel_def nvWriteCdmaPrl_def
  setDataAllowed_def getHardwareConfig_def requestShutdown_def getRadioCapability_def startLceService_def
  stopLceService_def pullLceData_def getModemActivityInfo_def getAllowedCarriers_def setSimCardPower_def
  setSimCardPower_1_1_def sendRequestRaw_def sendRequestStrings_def

text \<open>
  A method, with its arguments, its request number and the method of the client that answers it. Left out are
  \<open>hangupForegroundResumeBackground\<close>, whose answer goes astray, the two methods for the power of the SIM card,
  which have two answers, the manual selection of the network, which the dispatcher answers itself, and the three
  methods with defects, \<open>sendDeviceState\<close>, \<open>setIndicationFilter\<close> and \<open>setCarrierInfoForImsiEncryption\<close>.
\<close>

inductive radio_method :: "radio_call \<Rightarrow> nat \<Rightarrow> string \<Rightarrow> bool" where
  "radio_method getIccCardStatus RIL_REQUEST_GET_SIM_STATUS ''getIccCardStatusResponse''"
| "radio_method (supplyIccPinForApp pin aid) RIL_REQUEST_ENTER_SIM_PIN ''supplyIccPinForAppResponse''"
| "radio_method (supplyIccPukForApp puk pin aid) RIL_REQUEST_ENTER_SIM_PUK ''supplyIccPukForAppResponse''"
| "radio_method (supplyIccPin2ForApp pin2_code aid) RIL_REQUEST_ENTER_SIM_PIN2 ''supplyIccPin2ForAppResponse''"
| "radio_method (supplyIccPuk2ForApp puk2 pin2_code aid) RIL_REQUEST_ENTER_SIM_PUK2 ''supplyIccPuk2ForAppResponse''"
| "radio_method (changeIccPinForApp oldPin newPin aid) RIL_REQUEST_CHANGE_SIM_PIN ''changeIccPinForAppResponse''"
| "radio_method (changeIccPin2ForApp oldPin2 newPin2 aid) RIL_REQUEST_CHANGE_SIM_PIN2 ''changeIccPin2ForAppResponse''"
| "radio_method (supplyNetworkDepersonalization netPin) RIL_REQUEST_ENTER_NETWORK_DEPERSONALIZATION ''supplyNetworkDepersonalizationResponse''"
| "radio_method getCurrentCalls RIL_REQUEST_GET_CURRENT_CALLS ''getCurrentCallsResponse''"
| "radio_method (getImsiForApp aid) RIL_REQUEST_GET_IMSI ''getIMSIForAppResponse''"
| "radio_method (hangup gsmIndex) RIL_REQUEST_HANGUP ''hangupConnectionResponse''"
| "radio_method hangupWaitingOrBackground RIL_REQUEST_HANGUP_WAITING_OR_BACKGROUND ''hangupWaitingOrBackgroundResponse''"
| "radio_method switchWaitingOrHoldingAndActive RIL_REQUEST_SWITCH_WAITING_OR_HOLDING_AND_ACTIVE ''switchWaitingOrHoldingAndActiveResponse''"
| "radio_method conference RIL_REQUEST_CONFERENCE ''conferenceResponse''"
| "radio_method rejectCall RIL_REQUEST_UDUB ''rejectCallResponse''"
| "radio_method getLastCallFailCause RIL_REQUEST_LAST_CALL_FAIL_CAUSE ''getLastCallFailCauseResponse''"
| "radio_method getSignalStrength RIL_REQUEST_SIGNAL_STRENGTH ''getSignalStrengthResponse''"
| "radio_method getVoiceRegistrationState RIL_REQUEST_VOICE_REGISTRATION_STATE ''getVoiceRegistrationStateResponse''"
| "radio_method getDataRegistrationState RIL_REQUEST_DATA_REGISTRATION_STATE ''getDataRegistrationStateResponse''"
| "radio_method getOperator RIL_REQUEST_OPERATOR ''getOperatorResponse''"
| "radio_method (sendDtmf s) RIL_REQUEST_DTMF ''sendDtmfResponse''"
| "radio_method (sendSms message) RIL_REQUEST_SEND_SMS ''sendSmsResponse''"
| "radio_method (sendSMSExpectMore message) RIL_REQUEST_SEND_SMS_EXPECT_MORE ''sendSMSExpectMoreResponse''"
| "radio_method (sendUssd ussd) RIL_REQUEST_SEND_USSD ''sendUssdResponse''"
| "radio_method cancelPendingUssd RIL_REQUEST_CANCEL_USSD ''cancelPendingUssdResponse''"
| "radio_method getClir RIL_REQUEST_GET_CLIR ''getClirResponse''"
| "radio_method (setClir status) RIL_REQUEST_SET_CLIR ''setClirResponse''"
| "radio_method (getCallForwardStatus callInfo) RIL_REQUEST_QUERY_CALL_FORWARD_STATUS ''getCallForwardStatusResponse''"
| "radio_method (setCallForward callInfo) RIL_REQUEST_SET_CALL_FORWARD ''setCallForwardResponse''"
| "radio_method (getCallWaiting serviceClass) RIL_REQUEST_QUERY_CALL_WAITING ''getCallWaitingResponse''"
| "radio_method (setCallWaiting enable serviceClass) RIL_REQUEST_SET_CALL_WAITING ''setCallWaitingResponse''"
| "radio_method (acknowledgeLastIncomingGsmSms success cause) RIL_REQUEST_SMS_ACKNOWLEDGE ''acknowledgeLastIncomingGsmSmsResponse''"
| "radio_method acceptCall RIL_REQUEST_ANSWER ''acceptCallResponse''"
| "radio_method (deactivateDataCall cid reasonRadioShutDown) RIL_REQUEST_DEACTIVATE_DATA_CALL ''deactivateDataCallResponse''"
| "radio_method (getFacilityLockForApp facility password serviceClass appId) RIL_REQUEST_QUERY_FACILITY_LOCK ''getFacilityLockForAppResponse''"
| "radio_method (setFacilityLockForApp facility lockState password serviceClass appId) RIL_REQUEST_SET_FACILITY_LOCK ''setFacilityLockForAppResponse''"
| "radio_method (setBarringPassword facility oldPassword newPassword) RIL_REQUEST_CHANGE_BARRING_PASSWORD ''setBarringPasswordResponse''"
| "radio_method getNetworkSelectionMode RIL_REQUEST_QUERY_NETWORK_SELECTION_MODE ''getNetworkSelectionModeResponse''"
| "radio_method getAvailableNetworks RIL_REQUEST_QUERY_AVAILABLE_NETWORKS ''getAvailableNetworksResponse''"
| "radio_method stopNetworkScan RIL_REQUEST_STOP_NETWORK_SCAN ''stopNetworkScanResponse''"
| "radio_method (startDtmf s) RIL_REQUEST_DTMF_START ''startDtmfResponse''"
| "radio_method stopDtmf RIL_REQUEST_DTMF_STOP ''stopDtmfResponse''"
| "radio_method getBasebandVersion RIL_REQUEST_BASEBAND_VERSION ''getBasebandVersionResponse''"
| "radio_method (separateConnection gsmIndex) RIL_REQUEST_SEPARATE_CONNECTION ''separateConnectionResponse''"
| "radio_method (setMute enable) RIL_REQUEST_SET_MUTE ''setMuteResponse''"
| "radio_method getMute RIL_REQUEST_GET_MUTE ''getMuteResponse''"
| "radio_method getClip RIL_REQUEST_QUERY_CLIP ''getClipResponse''"
| "radio_method getDataCallList RIL_REQUEST_DATA_CALL_LIST ''getDataCallListResponse''"
| "radio_method (setSuppServiceNotifications enable) RIL_REQUEST_SET_SUPP_SVC_NOTIFICATION ''setSuppServiceNotificationsResponse''"
| "radio_method (deleteSmsOnSim index) RIL_REQUEST_DELETE_SMS_ON_SIM ''deleteSmsOnSimResponse''"
| "radio_method (setBandMode mode) RIL_REQUEST_SET_BAND_MODE ''setBandModeResponse''"
| "radio_method getAvailableBandModes RIL_REQUEST_QUERY_AVAILABLE_BAND_MODE ''getAvailableBandModesResponse''"
| "radio_method (sendEnvelope command) RIL_REQUEST_STK_SEND_ENVELOPE_COMMAND ''sendEnvelopeResponse''"
| "radio_method (sendTerminalResponseToSim commandResponse) RIL_REQUEST_STK_SEND_TERMINAL_RESPONSE ''sendTerminalResponseToSimResponse''"
| "radio_method (handleStkCallSetupRequestFromSim accept) RIL_REQUEST_STK_HANDLE_CALL_SETUP_REQUESTED_FROM_SIM ''handleStkCallSetupRequestFromSimResponse''"
| "radio_method explicitCallTransfer RIL_REQUEST_EXPLICIT_CALL_TRANSFER ''explicitCallTransferResponse''"
| "radio_method (setPreferredNetworkType nwType) RIL_REQUEST_SET_PREFERRED_NETWORK_TYPE ''setPreferredNetworkTypeResponse''"
| "radio_method getPreferredNetworkType RIL_REQUEST_GET_PREFERRED_NETWORK_TYPE ''getPreferredNetworkTypeResponse''"
| "radio_method getNeighboringCids RIL_REQUEST_GET_NEIGHBORING_CELL_IDS ''getNeighboringCidsResponse''"
| "radio_method (setLocationUpdates enable) RIL_REQUEST_SET_LOCATION_UPDATES ''setLocationUpdatesResponse''"
| "radio_method (setCdmaSubscriptionSource cdmaSub) RIL_REQUEST_CDMA_SET_SUBSCRIPTION_SOURCE ''setCdmaSubscriptionSourceResponse''"
| "radio_method (setCdmaRoamingPreference ctype) RIL_REQUEST_CDMA_SET_ROAMING_PREFERENCE ''setCdmaRoamingPreferenceResponse''"
| "radio_method getCdmaRoamingPreference RIL_REQUEST_CDMA_QUERY_ROAMING_PREFERENCE ''getCdmaRoamingPreferenceResponse''"
| "radio_method (setTTYMode mode) RIL_REQUEST_SET_TTY_MODE ''setTTYModeResponse''"
| "radio_method getTTYMode RIL_REQUEST_QUERY_TTY_MODE ''getTTYModeResponse''"
| "radio_method (setPreferredVoicePrivacy enable) RIL_REQUEST_CDMA_SET_PREFERRED_VOICE_PRIVACY_MODE ''setPreferredVoicePrivacyResponse''"
| "radio_method getPreferredVoicePrivacy RIL_REQUEST_CDMA_QUERY_PREFERRED_VOICE_PRIVACY_MODE ''getPreferredVoicePrivacyResponse''"
| "radio_method (sendCDMAFeatureCode featureCode) RIL_REQUEST_CDMA_FLASH ''sendCDMAFeatureCodeResponse''"
| "radio_method (sendBurstDtmf dtmf on_ms off_ms) RIL_REQUEST_CDMA_BURST_DTMF ''sendBurstDtmfResponse''"
| "radio_method getGsmBroadcastConfig RIL_REQUEST_GSM_GET_BROADCAST_SMS_CONFIG ''getGsmBroadcastConfigResponse''"
| "radio_method (setGsmBroadcastActivation activate) RIL_REQUEST_GSM_SMS_BROADCAST_ACTIVATION ''setGsmBroadcastActivationResponse''"
| "radio_method getCdmaBroadcastConfig RIL_REQUEST_CDMA_GET_BROADCAST_SMS_CONFIG ''getCdmaBroadcastConfigResponse''"
| "radio_method (setCdmaBroadcastActivation activate) RIL_REQUEST_CDMA_SMS_BROADCAST_ACTIVATION ''setCdmaBroadcastActivationResponse''"
| "radio_method getCDMASubscription RIL_REQUEST_CDMA_SUBSCRIPTION ''getCDMASubscriptionResponse''"
| "radio_method (deleteSmsOnRuim index) RIL_REQUEST_CDMA_DELETE_SMS_ON_RUIM ''deleteSmsOnRuimResponse''"
| "radio_method getDeviceIdentity RIL_REQUEST_DEVICE_IDENTITY ''getDeviceIdentityResponse''"
| "radio_method exitEmergencyCallbackMode RIL_REQUEST_EXIT_EMERGENCY_CALLBACK_MODE ''exitEmergencyCallbackModeResponse''"
| "radio_method getSmscAddress RIL_REQUEST_GET_SMSC_ADDRESS ''getSmscAddressResponse''"
| "radio_method (setSmscAddress smsc) RIL_REQUEST_SET_SMSC_ADDRESS ''setSmscAddressResponse''"
| "radio_method (reportSmsMemoryStatus has_memory) RIL_REQUEST_REPORT_SMS_MEMORY_STATUS ''reportSmsMemoryStatusResponse''"
| "radio_method reportStkServiceIsRunning RIL_REQUEST_REPORT_STK_SERVICE_IS_RUNNING ''reportStkServiceIsRunningResponse''"
| "radio_method getCdmaSubscriptionSource RIL_REQUEST_CDMA_GET_SUBSCRIPTION_SOURCE ''getCdmaSubscriptionSourceResponse''"
| "radio_method (requestIsimAuthentication challenge) RIL_REQUEST_ISIM_AUTHENTICATION ''requestIsimAuthenticationResponse''"
| "radio_method (acknowledgeIncomingGsmSmsWithPdu success ackPdu) RIL_REQUEST_ACKNOWLEDGE_INCOMING_GSM_SMS_WITH_PDU ''acknowledgeIncomingGsmSmsWithPduResponse''"
| "radio_method (sendEnvelopeWithStatus contents) RIL_REQUEST_STK_SEND_ENVELOPE_WITH_STATUS ''sendEnvelopeWithStatusResponse''"
| "radio_method getVoiceRadioTechnology RIL_REQUEST_VOICE_RADIO_TECH ''getVoiceRadioTechnologyResponse''"
| "radio_method getCellInfoList RIL_REQUEST_GET_CELL_INFO_LIST ''getCellInfoListResponse''"
| "radio_method (setCellInfoListRate rate) RIL_REQUEST_SET_UNSOL_CELL_INFO_LIST_RATE ''setCellInfoListRateResponse''"
| "radio_method getImsRegistrationState RIL_REQUEST_IMS_REGISTRATION_STATE ''getImsRegistrationStateResponse''"
| "radio_method (iccTransmitApduBasicChannel message) RIL_REQUEST_SIM_TRANSMIT_APDU_BASIC ''iccTransmitApduBasicChannelResponse''"
| "radio_method (iccCloseLogicalChannel channelId) RIL_REQUEST_SIM_CLOSE_CHANNEL ''iccCloseLogicalChannelResponse''"
| "radio_method (iccTransmitApduLogicalChannel message) RIL_REQUEST_SIM_TRANSMIT_APDU_CHANNEL ''iccTransmitApduLogicalChannelResponse''"
| "radio_method (nvWriteCdmaPrl prl) RIL_REQUEST_NV_WRITE_CDMA_PRL ''nvWriteCdmaPrlResponse''"
| "radio_method (setDataAllowed allow) RIL_REQUEST_ALLOW_DATA ''setDataAllowedResponse''"
| "radio_method getHardwareConfig RIL_REQUEST_GET_HARDWARE_CONFIG ''getHardwareConfigResponse''"
| "radio_method requestShutdown RIL_REQUEST_SHUTDOWN ''requestShutdownResponse''"
| "radio_method getRadioCapability RIL_REQUEST_GET_RADIO_CAPABILITY ''getRadioCapabilityResponse''"
| "radio_method (startLceService reportInterval pullMode) RIL_REQUEST_START_LCE ''startLceServiceResponse''"
| "radio_method stopLceService RIL_REQUEST_STOP_LCE ''stopLceServiceResponse''"
| "radio_method pullLceData RIL_REQUEST_PULL_LCEDATA ''pullLceDataResponse''"
| "radio_method getModemActivityInfo RIL_REQUEST_GET_ACTIVITY_INFO ''getModemActivityInfoResponse''"
| "radio_method getAllowedCarriers RIL_REQUEST_GET_CARRIER_RESTRICTIONS ''getAllowedCarriersResponse''"
| "radio_method (sendRequestRaw data) RIL_REQUEST_OEM_HOOK_RAW ''sendRequestRawResponse''"
| "radio_method (sendRequestStrings data) RIL_REQUEST_OEM_HOOK_STRINGS ''sendRequestStringsResponse''"

text \<open>The methods that fill a structure or depend on the version.\<close>

inductive struct_method :: "radio_call \<Rightarrow> nat \<Rightarrow> string \<Rightarrow> bool" where
  "struct_method (dial dialInfo) RIL_REQUEST_DIAL ''dialResponse''"
| "struct_method (setRadioPower on_state) RIL_REQUEST_RADIO_POWER ''setRadioPowerResponse''"
| "struct_method (setupDataCall radioTechnology dp modemCognitive roamingAllowed isRoaming) RIL_REQUEST_SETUP_DATA_CALL ''setupDataCallResponse''"
| "struct_method (setInitialAttachApn dp modemCognitive isRoaming) RIL_REQUEST_SET_INITIAL_ATTACH_APN ''setInitialAttachApnResponse''"
| "struct_method (setDataProfile profiles isRoaming) RIL_REQUEST_SET_DATA_PROFILE ''setDataProfileResponse''"
| "struct_method (iccIOForApp iccIo) RIL_REQUEST_SIM_IO ''iccIOForAppResponse''"
| "struct_method (iccOpenLogicalChannel aid p2) RIL_REQUEST_SIM_OPEN_CHANNEL ''iccOpenLogicalChannelResponse''"
| "struct_method (setUiccSubscription uiccSub) RIL_REQUEST_SET_UICC_SUBSCRIPTION ''setUiccSubscriptionResponse''"
| "struct_method (requestIccSimAuthentication authContext authData aid) RIL_REQUEST_SIM_AUTHENTICATION ''requestIccSimAuthenticationResponse''"
| "struct_method (writeSmsToSim args) RIL_REQUEST_WRITE_SMS_TO_SIM ''writeSmsToSimResponse''"
| "struct_method (sendCdmaSms sms) RIL_REQUEST_CDMA_SEND_SMS ''sendCdmaSmsResponse''"
| "struct_method (acknowledgeLastIncomingCdmaSms errorClass smsCauseCode) RIL_REQUEST_CDMA_SMS_ACKNOWLEDGE ''acknowledgeLastIncomingCdmaSmsResponse''"
| "struct_method (writeSmsToRuim status sms) RIL_REQUEST_CDMA_WRITE_SMS_TO_RUIM ''writeSmsToRuimResponse''"
| "struct_method (sendImsSms message) RIL_REQUEST_IMS_SEND_SMS ''sendImsSmsResponse''"
| "struct_method (setGsmBroadcastConfig gsmConfig) RIL_REQUEST_GSM_SET_BROADCAST_SMS_CONFIG ''setGsmBroadcastConfigResponse''"
| "struct_method (setCdmaBroadcastConfig cdmaConfig) RIL_REQUEST_CDMA_SET_BROADCAST_SMS_CONFIG ''setCdmaBroadcastConfigResponse''"
| "struct_method (startNetworkScan num scan_type interval specifiers) RIL_REQUEST_START_NETWORK_SCAN ''startNetworkScanResponse''"
| "struct_method (startKeepalive k) RIL_REQUEST_START_KEEPALIVE ''startKeepaliveResponse''"
| "struct_method (stopKeepalive sessionHandle) RIL_REQUEST_STOP_KEEPALIVE ''stopKeepaliveResponse''"
| "struct_method (nvReadItem itemId) RIL_REQUEST_NV_READ_ITEM ''nvReadItemResponse''"
| "struct_method (nvWriteItem itemId val) RIL_REQUEST_NV_WRITE_ITEM ''nvWriteItemResponse''"
| "struct_method (nvResetConfig resetType) RIL_REQUEST_NV_RESET_CONFIG ''nvResetConfigResponse''"
| "struct_method (setRadioCapability rc) RIL_REQUEST_SET_RADIO_CAPABILITY ''setRadioCapabilityResponse''"
| "struct_method (setAllowedCarriers allowedCarriers excludedCarriers) RIL_REQUEST_SET_CARRIER_RESTRICTIONS ''setAllowedCarriersResponse''"

end
