(* ===== verification/Ril_Radio_Props.thy ===== *)
theory Ril_Radio_Props
  imports Ril_Radio
begin

text \<open>
  The properties of the request path. How the methods, the request numbers and the response functions are wired; runs of the daemon
  under any requests, any schedule of the vendor and any failures of memory and of the client; what a dispatch does; what
  the client is answered; and the defects of the path, each on the input that shows it.
\<close>

subsection \<open>Wiring\<close>

lemma row_usable: "(n, Some f) \<in> set (s_commands C) \<Longrightarrow> usable (s_commands C) n"
  by (simp add: usable_def s_commands_row(2))


text \<open>
  Every method is a request of one number, whose arguments may depend on the version of the vendor library, and the
  number's response function calls the method of the client that belongs to it.
\<close>

definition is_request :: "radio_call \<Rightarrow> nat \<Rightarrow> bool" where
  "is_request M n \<longleftrightarrow> (\<exists>rq. \<forall>cmds V mSlotId serial S. M cmds V mSlotId serial S =
    ignore (dispatch cmds V serial mSlotId n (rq (version S)) S))"

lemma is_requestI:
  assumes "M = (\<lambda>cmds V mSlotId serial S. ignore (dispatch cmds V serial mSlotId n rq S))"
  shows "is_request M n"
  unfolding is_request_def assms by (rule exI [of _ "\<lambda>_. rq"]) simp

lemma is_request_if:
  assumes "is_request A n" "is_request B n"
  shows "is_request (\<lambda>cmds V mSlotId serial S. if P (version S) then A cmds V mSlotId serial S else B cmds V mSlotId serial S) n"
proof -
  obtain a b where a: "\<And>cmds V mSlotId serial S. A cmds V mSlotId serial S = ignore (dispatch cmds V serial mSlotId n (a (version S)) S)"
    and b: "\<And>cmds V mSlotId serial S. B cmds V mSlotId serial S = ignore (dispatch cmds V serial mSlotId n (b (version S)) S)"
    using assms by (auto simp: is_request_def)
  show ?thesis unfolding is_request_def
    by (rule exI [of _ "\<lambda>v. if P v then a v else b v"]) (simp add: a b)
qed

lemma is_request_check:
  assumes "is_request (\<lambda>cmds V mSlotId serial S. ignore (A cmds V mSlotId serial S)) n"
    "is_request (\<lambda>cmds V mSlotId serial S. ignore (B cmds V mSlotId serial S)) n"
  shows "is_request (\<lambda>cmds V mSlotId serial S. ignore (if c then A cmds V mSlotId serial S else B cmds V mSlotId serial S)) n"
  using assms by (cases c) simp_all

lemma is_request_case:
  assumes "is_request A n" "\<And>m. is_request (B m) n"
  shows "is_request (\<lambda>cmds V mSlotId serial S. case x of None \<Rightarrow> A cmds V mSlotId serial S | Some m \<Rightarrow> B m cmds V mSlotId serial S) n"
  using assms by (cases x) simp_all

lemma simple_request:
  assumes "radio_method M n nm"
  shows "is_request M n"
proof -
  have "\<exists>rq. M = (\<lambda>cmds V mSlotId serial S. ignore (dispatch cmds V serial mSlotId n rq S))"
    using assms
    by cases (auto simp: fun_eq_iff radio_methods dispatch.simps [symmetric] simp del: dispatch.simps)
  then show ?thesis using is_requestI by blast
qed

lemmas as_dispatch = dispatch.simps [symmetric]

lemma request_shapes:
  "is_request (\<lambda>cmds V mSlotId serial S. ignore (dispatchInts cmds V serial mSlotId n is S)) n"
  "is_request (\<lambda>cmds V mSlotId serial S. ignore (dispatchString cmds V serial mSlotId n s S)) n"
  "is_request (\<lambda>cmds V mSlotId serial S. ignore (dispatchStrings cmds V serial mSlotId n ae ss S)) n"
  "is_request (\<lambda>cmds V mSlotId serial S. ignore (dispatchStruct cmds V serial mSlotId n k nm is strs ls e S)) n"
  by (rule is_requestI, simp only: as_dispatch)+

lemma direct_requests:
  "is_request (dial d) RIL_REQUEST_DIAL"
  "is_request (setRadioPower b) RIL_REQUEST_RADIO_POWER"
  "is_request (iccIOForApp io) RIL_REQUEST_SIM_IO"
  "is_request (setUiccSubscription u) RIL_REQUEST_SET_UICC_SUBSCRIPTION"
  "is_request (requestIccSimAuthentication c h1 h2) RIL_REQUEST_SIM_AUTHENTICATION"
  "is_request (writeSmsToSim w) RIL_REQUEST_WRITE_SMS_TO_SIM"
  "is_request (sendCdmaSms m) RIL_REQUEST_CDMA_SEND_SMS"
  "is_request (acknowledgeLastIncomingCdmaSms i1 i2) RIL_REQUEST_CDMA_SMS_ACKNOWLEDGE"
  "is_request (writeSmsToRuim i1 m) RIL_REQUEST_CDMA_WRITE_SMS_TO_RUIM"
  "is_request (stopKeepalive i1) RIL_REQUEST_STOP_KEEPALIVE"
  "is_request (nvReadItem i1) RIL_REQUEST_NV_READ_ITEM"
  "is_request (nvWriteItem i1 h1) RIL_REQUEST_NV_WRITE_ITEM"
  "is_request (nvResetConfig t) RIL_REQUEST_NV_RESET_CONFIG"
  "is_request (setRadioCapability rc) RIL_REQUEST_SET_RADIO_CAPABILITY"
  "is_request (setAllowedCarriers c1 c2) RIL_REQUEST_SET_CARRIER_RESTRICTIONS"
  unfolding dial_def [abs_def] setRadioPower_def [abs_def] iccIOForApp_def [abs_def] setUiccSubscription_def [abs_def]
    requestIccSimAuthentication_def [abs_def] writeSmsToSim_def [abs_def] sendCdmaSms_def [abs_def]
    acknowledgeLastIncomingCdmaSms_def [abs_def] writeSmsToRuim_def [abs_def] stopKeepalive_def [abs_def]
    nvReadItem_def [abs_def] nvWriteItem_def [abs_def] nvResetConfig_def [abs_def] setRadioCapability_def [abs_def]
    setAllowedCarriers_def [abs_def] dispatchPlain_def
  by (rule request_shapes)+

lemma checked_requests:
  "is_request (setGsmBroadcastConfig g) RIL_REQUEST_GSM_SET_BROADCAST_SMS_CONFIG"
  "is_request (setCdmaBroadcastConfig c) RIL_REQUEST_CDMA_SET_BROADCAST_SMS_CONFIG"
  "is_request (startKeepalive k) RIL_REQUEST_START_KEEPALIVE"
  unfolding setGsmBroadcastConfig_def [abs_def] setCdmaBroadcastConfig_def [abs_def] startKeepalive_def [abs_def] struct_dispatch
  by (rule is_request_check request_shapes)+

lemma scan_request: "is_request (startNetworkScan num t i sp) RIL_REQUEST_START_NETWORK_SCAN"
  unfolding startNetworkScan_def [abs_def] struct_dispatch
  by (rule is_request_check, rule request_shapes) (cases "scan_specifiers num sp"; simp add: request_shapes)

lemma ims_request: "is_request (sendImsSms m) RIL_REQUEST_IMS_SEND_SMS"
  unfolding sendImsSms_def [abs_def] struct_dispatch
  by (cases "im_tech m"; cases "im_gsmMessage m"; cases "tl (im_gsmMessage m)"; cases "im_cdmaMessage m";
      cases "tl (im_cdmaMessage m)"; simp add: request_shapes)

lemma setupDataCall_request: "is_request (setupDataCall t dp a b c) RIL_REQUEST_SETUP_DATA_CALL"
  unfolding setupDataCall_def [abs_def] struct_dispatch
  by (rule is_request_if is_request_case request_shapes)+

lemma setInitialAttachApn_request: "is_request (setInitialAttachApn dp a b) RIL_REQUEST_SET_INITIAL_ATTACH_APN"
  unfolding setInitialAttachApn_def [abs_def] Let_def
  by (rule is_request_if is_request_case request_shapes)+

lemma setDataProfile_request: "is_request (setDataProfile ps a) RIL_REQUEST_SET_DATA_PROFILE"
proof -
  obtain ss ls ok where "profiles_v15 ps = (ss, ls, ok)" by (cases "profiles_v15 ps")
  then show ?thesis unfolding setDataProfile_def [abs_def] by (simp only: prod.case) (rule is_request_if request_shapes)+
qed

lemma iccOpenLogicalChannel_request: "is_request (iccOpenLogicalChannel aid p) RIL_REQUEST_SIM_OPEN_CHANNEL"
  unfolding iccOpenLogicalChannel_def [abs_def] by (rule is_request_if request_shapes)+

lemma struct_request:
  assumes "struct_method M n nm"
  shows "is_request M n"
  using assms
  by cases (simp_all only: direct_requests checked_requests scan_request ims_request setupDataCall_request
    setInitialAttachApn_request setDataProfile_request iccOpenLogicalChannel_request)

definition wired :: "(string \<Rightarrow> response \<Rightarrow> payload option) \<Rightarrow> nat \<Rightarrow> string \<Rightarrow> bool" where
  "wired C n nm \<longleftrightarrow> (\<exists>f i. (n, Some f) \<in> set (s_commands C) \<and> answers (fits n) {(i, nm)} f)"

lemma wiredI: "(n, Some f) \<in> set (s_commands C) \<Longrightarrow> answers (fits n) {(i, nm)} f \<Longrightarrow> wired C n nm"
  unfolding wired_def by blast

lemma radio_method_wired:
  assumes "radio_method M n nm"
  shows "wired C n nm"
  using assms
  apply cases
  apply (simp_all only:)
  apply ((rule wiredI, rule table_rows, simp only: request_numbers, rule table_answers)+)
  done

lemma struct_method_wired:
  assumes "struct_method M n nm"
  shows "wired C n nm"
  using assms
  apply cases
  apply (simp_all only:)
  apply ((rule wiredI, rule table_rows, simp only: request_numbers, rule table_answers)+)
  done

lemma method_number:
  "radio_method M n nm \<Longrightarrow> n \<noteq> RIL_REQUEST_SET_NETWORK_SELECTION_MANUAL"
  "struct_method M n nm \<Longrightarrow> n \<noteq> RIL_REQUEST_SET_NETWORK_SELECTION_MANUAL"
  by (erule radio_method.cases struct_method.cases, simp_all add: request_numbers)+


subsection \<open>Runs\<close>

text \<open>
  What can happen to the daemon, in any order: requests of the client, acts of the vendor, activations and wake
  lock timers that come due, acknowledgements of the client, and clients that register, die and come back.
\<close>

datatype ril_act =
    Client int int nat client_request
  | Vendor vendor_act
  | Activation nat
  | Timeout nat
  | Acknowledged
  | Registered client_iface int bool
  | Dead client_iface int bool

fun ril_step :: "commands \<Rightarrow> vendor \<Rightarrow> ril_act \<Rightarrow> ril_core \<Rightarrow> ril_core mem" where
  "ril_step cmds V (Client slotId serial request rq) S = ignore (dispatch cmds V serial slotId request rq S)"
| "ril_step cmds V (Vendor a) S = vendor_try cmds a S"
| "ril_step cmds V (Activation n) S = activation_step cmds V n S"
| "ril_step cmds V (Timeout t) S = Some (wakeTimeoutCallback t S)"
| "ril_step cmds V Acknowledged S = Some (releaseWakeLock S)"
| "ril_step cmds V (Registered i slotId b) S = Some (S\<lparr>has_client := (has_client S)(i := (has_client S i)(slotId := b))\<rparr>)"
| "ril_step cmds V (Dead i slotId b) S = Some (S\<lparr>client_dead := (client_dead S)(i := (client_dead S i)(slotId := b))\<rparr>)"

text \<open>A call of the vendor that activates the subscription of a slot.\<close>

definition is_activation :: "int \<Rightarrow> vendor_call \<Rightarrow> bool" where
  "is_activation slotId c \<longleftrightarrow>
    (case c of (_, PStruct nm is _, _, s) \<Rightarrow> nm = ''RIL_SelectUiccSub'' \<and> s = slotId | _ \<Rightarrow> False)"

text \<open>
  Requests of the client have a response function. How often a step asks for a serial number, and for the
  activation of a slot's subscription.
\<close>

fun allowed :: "commands \<Rightarrow> ril_act \<Rightarrow> bool" where
  "allowed cmds (Client _ _ request _) = usable cmds request"
| "allowed cmds _ = True"

fun asked :: "int \<Rightarrow> ril_act \<Rightarrow> nat" where
  "asked s (Client _ serial _ _) = (if serial = s then 1 else 0)"
| "asked s _ = 0"

fun sub_asked :: "int \<Rightarrow> ril_act \<Rightarrow> nat" where
  "sub_asked n (Client slotId _ request rq) = (if is_activation n (request, request_data rq, 0, slotId) then 1 else 0)"
| "sub_asked n _ = 0"

definition ril_start :: "nat \<Rightarrow> int \<Rightarrow> (nat \<Rightarrow> bool) \<Rightarrow> bool \<Rightarrow> ril_core" where
  "ril_start n v mem oem = \<lparr>sims = n, version = v, infos = (\<lambda>_. None), pending = (\<lambda>_. []), next_info = 0, mem_oracle = mem,
     allocs = 0, temps = 0, has_client = (\<lambda>_ _. False), client_dead = (\<lambda>_ _. False), oem_enabled = oem,
     sub_activated = (\<lambda>_. False), act_threads = [], vendor_calls = [], client_events = [], wakelock_held = False,
     wakelock_count = 0, wake_timers = (\<lambda>_. False), next_timer = 0, last_timer = None\<rparr>"

text \<open>The activations there were, and those that can be.\<close>

definition activations :: "int \<Rightarrow> ril_core \<Rightarrow> nat" where
  "activations slotId S = length (filter (is_activation slotId) (vendor_calls S))"

definition budget :: "int \<Rightarrow> ril_core \<Rightarrow> nat" where
  "budget n S = act_budget (act_threads S) (sub_activated S) n"

definition moved :: "commands \<Rightarrow> (int \<Rightarrow> nat) \<Rightarrow> (int \<Rightarrow> nat) \<Rightarrow> ril_core \<Rightarrow> ril_core \<Rightarrow> bool" where
  "moved cmds k l S S' \<longleftrightarrow> core_inv cmds S' \<and> temps S' = temps S \<and> sims S' = sims S \<and> next_info S \<le> next_info S' \<and>
    (\<forall>s. potential s S' + budget (-100 - s) S' \<le> potential s S + budget (-100 - s) S + k s) \<and>
    (\<forall>n. activations n S' + budget n S' \<le> activations n S + budget n S + l n) \<and>
    (\<forall>t. t \<notin> handed S \<longrightarrow> t < next_info S \<longrightarrow> infos S' t = infos S t \<and> t \<notin> handed S')"

lemma moved_refl: "core_inv cmds S \<Longrightarrow> moved cmds (\<lambda>_. 0) (\<lambda>_. 0) S S"
  by (simp add: moved_def)

lemma moved_trans:
  assumes "moved cmds k l S S1" "moved cmds k' l' S1 S2"
  shows "moved cmds (\<lambda>s. k s + k' s) (\<lambda>n. l n + l' n) S S2"
proof -
  have "potential s S2 + budget (-100 - s) S2 \<le> potential s S + budget (-100 - s) S + (k s + k' s)" for s
  proof -
    have "potential s S2 + budget (-100 - s) S2 \<le> potential s S1 + budget (-100 - s) S1 + k' s" using assms(2) by (simp add: moved_def)
    moreover have "potential s S1 + budget (-100 - s) S1 \<le> potential s S + budget (-100 - s) S + k s" using assms(1) by (simp add: moved_def)
    ultimately show ?thesis by linarith
  qed
  moreover have "activations n S2 + budget n S2 \<le> activations n S + budget n S + (l n + l' n)" for n
  proof -
    have "activations n S2 + budget n S2 \<le> activations n S1 + budget n S1 + l' n" using assms(2) by (simp add: moved_def)
    moreover have "activations n S1 + budget n S1 \<le> activations n S + budget n S + l n" using assms(1) by (simp add: moved_def)
    ultimately show ?thesis by linarith
  qed
  ultimately show ?thesis using assms by (auto simp: moved_def)
qed

lemma budget_less: "act_less S S' \<Longrightarrow> budget n S' \<le> budget n S"
  by (simp add: act_less_def budget_def)

lemma kept_moved:
  assumes "kept cmds S S'"
  shows "moved cmds (\<lambda>_. 0) (\<lambda>_. 0) S S'"
proof -
  have "handed S' = handed S" "activations n S' = activations n S" for n
    using assms by (simp_all add: kept_def handed_def activations_def)
  moreover have "budget n S' \<le> budget n S" for n using assms by (intro budget_less) (simp add: kept_def)
  moreover have "potential s S' \<le> potential s S" for s using assms by (simp add: kept_def)
  ultimately show ?thesis using assms add_mono by (simp add: moved_def kept_def) blast
qed

lemma dispatch_moved:
  assumes d: "dispatch_spec cmds V serial c S S' ok" and c: "c = (request, data, next_info S, slotId)"
  shows "moved cmds (\<lambda>s. if s = serial then 1 else 0) (\<lambda>n. if is_activation n c then 1 else 0) S S'"
proof -
  have v: "vendor_calls S' = vendor_calls S @ (if ok then [c] else [])" using d by (simp add: dispatch_spec_def)
  have h: "handed S' = handed S \<union> (if ok then {next_info S} else {})" by (simp add: handed_def v c)
  have a: "activations m S' \<le> activations m S + (if is_activation m c then 1 else 0)" for m by (simp add: v activations_def)
  have b: "budget m S' \<le> budget m S" for m using d by (intro budget_less) (simp add: dispatch_spec_def)
  have p: "potential s S' \<le> potential s S + (if s = serial then 1 else 0)" for s using d by (simp add: dispatch_spec_def)
  have "potential s S' + budget (-100 - s) S' \<le> potential s S + budget (-100 - s) S + (if s = serial then 1 else 0)" for s
    using p [of s] b [of "-100 - s"] by linarith
  moreover have "activations m S' + budget m S' \<le> activations m S + budget m S + (if is_activation m c then 1 else 0)" for m
    using a [of m] b [of m] by linarith
  moreover have "t \<notin> handed S'" if "t \<notin> handed S" "t < next_info S" for t using h that by simp
  ultimately show ?thesis using d by (simp add: moved_def dispatch_spec_def)
qed

lemma same_moved:
  assumes "core_inv cmds S" "same_core S S'" "temps S' = temps S" "client_events S' = client_events S"
  shows "moved cmds (\<lambda>_. 0) (\<lambda>_. 0) S S'"
  by (rule kept_moved [OF kept_same [OF assms]])

text \<open>The thread of an activation leaves the sleepers and makes its request.\<close>

lemma filter_remove_nth:
  "i < length xs \<Longrightarrow> length (filter P (take i xs @ drop (Suc i) xs)) + (if P (xs ! i) then 1 else 0) = length (filter P xs)"
  by (subst (3) id_take_nth_drop [of i xs]) auto

lemma activation_moved:
  assumes inv: "core_inv (s_commands C) S"
  shows "\<exists>S'. activation_step (s_commands C) V n S = Some S' \<and> moved (s_commands C) (\<lambda>_. 0) (\<lambda>_. 0) S S'"
proof (cases "n < length (act_threads S)")
  case False
  then show ?thesis using moved_refl [OF inv] by (simp add: activation_step_def)
next
  case True
  define S0 where "S0 = S\<lparr>act_threads := take n (act_threads S) @ drop (Suc n) (act_threads S)\<rparr>"
  obtain slotId app where a: "act_threads S ! n = (slotId, app)" by fastforce
  have inv0: "core_inv (s_commands C) S0" using inv by (simp add: S0_def core_inv_def handed_def)
  have b: "budget m S0 + (if m = slotId then 1 else 0) = budget m S" for m
    using filter_remove_nth [OF True, of "\<lambda>(s, _). s = m"] a by (auto simp: budget_def act_budget_def S0_def)
  have e: "potential s S0 = potential s S" "activations m S0 = activations m S" "handed S0 = handed S" "next_info S0 = next_info S"
    "infos S0 = infos S" "temps S0 = temps S" "sims S0 = sims S" for s m
    by (simp_all add: S0_def potential_def answered_def with_vendor_def handed_def activations_def)
  have u: "usable (s_commands C) RIL_REQUEST_SET_UICC_SUBSCRIPTION"
    using s_commands_row(2) [of RIL_REQUEST_SET_UICC_SUBSCRIPTION "Some setUiccSubscriptionResponse" C, OF table_rows(115)]
    by (simp add: usable_def)
  let ?c = "(RIL_REQUEST_SET_UICC_SUBSCRIPTION,
      PStruct ''RIL_SelectUiccSub'' [slotId, app, slotId, RIL_UICC_SUBSCRIPTION_ACTIVATE] [], next_info S0, slotId)"
  obtain S' ok where S': "subActivateThread (s_commands C) V (slotId, app) S0 = Some S'"
    "dispatch_spec (s_commands C) V (-100 - slotId) ?c S0 S' ok"
    using table.subActivateThread_ok [OF inv0 u, of V slotId app] by blast
  have v: "vendor_calls S' = vendor_calls S0 @ (if ok then [?c] else [])" using S'(2) by (simp add: dispatch_spec_def)
  have h: "handed S' = handed S \<union> (if ok then {next_info S} else {})" by (simp add: handed_def v e(4)) (simp add: S0_def)
  have b': "budget m S' \<le> budget m S0" for m using S'(2) by (intro budget_less) (simp add: dispatch_spec_def)
  have p: "potential s S' \<le> potential s S + (if s = -100 - slotId then 1 else 0)" for s
    using S'(2) by (simp add: dispatch_spec_def e(1))
  have "potential s S' + budget (-100 - s) S' \<le> potential s S + budget (-100 - s) S" for s
    using p [of s] b [of "-100 - s"] b' [of "-100 - s"] by (auto split: if_splits)
  moreover have "activations m S' + budget m S' \<le> activations m S + budget m S" for m
  proof -
    have "activations m S' \<le> activations m S + (if m = slotId then 1 else 0)"
      using e(2) [of m] by (simp add: activations_def v is_activation_def)
    then show ?thesis using b [of m] b' [of m] by linarith
  qed
  moreover have "infos S' t = infos S t \<and> t \<notin> handed S'" if "t \<notin> handed S" "t < next_info S" for t
    using S'(2) h that by (simp add: dispatch_spec_def e)
  ultimately have "moved (s_commands C) (\<lambda>_. 0) (\<lambda>_. 0) S S'"
    using S'(2) by (simp add: moved_def) (simp add: dispatch_spec_def e)
  moreover have "activation_step (s_commands C) V n S = Some S'" using S'(1) True a by (simp add: activation_step_def S0_def)
  ultimately show ?thesis by blast
qed

lemma wake_timeout_core: "same_core S (wakeTimeoutCallback t S)" "temps (wakeTimeoutCallback t S) = temps S"
  "client_events (wakeTimeoutCallback t S) = client_events S"
  by (auto simp: wakeTimeoutCallback_def) (simp_all add: same_core_def)

lemma ril_step_ok:
  assumes inv: "core_inv (s_commands C) S" and V: "sims S < 2 \<or> quiet V" and a: "allowed (s_commands C) st"
  shows "\<exists>S'. ril_step (s_commands C) V st S = Some S' \<and> moved (s_commands C) (\<lambda>s. asked s st) (\<lambda>n. sub_asked n st) S S'"
proof (cases st)
  case (Client slotId serial request rq)
  obtain S' ok where S': "dispatch (s_commands C) V serial slotId request rq S = Some (S', ok)"
    "dispatch_spec (s_commands C) V serial (request, request_data rq, next_info S, slotId) S S' ok"
    using table.dispatch_ok [OF inv] a V Client by (metis allowed.simps(1))
  have "moved (s_commands C) (\<lambda>s. if s = serial then 1 else 0)
      (\<lambda>n. if is_activation n (request, request_data rq, next_info S, slotId) then 1 else 0) S S'"
    by (rule dispatch_moved [OF S'(2) refl])
  moreover have "(\<lambda>s. if s = serial then 1 else 0) = (\<lambda>s. asked s st)"
    "(\<lambda>n. if is_activation n (request, request_data rq, next_info S, slotId) then 1 else 0) = (\<lambda>n. sub_asked n st)"
    by (auto simp: Client fun_eq_iff is_activation_def)
  ultimately show ?thesis using S'(1) by (simp add: Client ignore_def)
next
  case (Vendor b)
  then show ?thesis using table.vendor_try_ok [OF inv, of b] kept_moved by fastforce
next
  case (Activation n)
  then show ?thesis using activation_moved [OF inv] by simp
next
  case (Timeout t)
  then show ?thesis using same_moved [OF inv wake_timeout_core] by simp
next
  case Acknowledged
  then show ?thesis using same_moved [OF inv same_core_release(1,3,2)] by simp
next
  case (Registered i n b)
  have "moved (s_commands C) (\<lambda>_. 0) (\<lambda>_. 0) S (S\<lparr>has_client := (has_client S)(i := (has_client S i)(n := b))\<rparr>)"
    by (rule same_moved [OF inv]) (simp_all add: same_core_def)
  then show ?thesis by (simp add: Registered)
next
  case (Dead i n b)
  have "moved (s_commands C) (\<lambda>_. 0) (\<lambda>_. 0) S (S\<lparr>client_dead := (client_dead S)(i := (client_dead S i)(n := b))\<rparr>)"
    by (rule same_moved [OF inv]) (simp_all add: same_core_def act_less_def)
  then show ?thesis by (simp add: Dead)
qed

lemma ril_run_ok:
  assumes "core_inv (s_commands C) S" "sims S < 2 \<or> quiet V" "\<forall>st\<in>set steps. allowed (s_commands C) st"
  shows "\<exists>S'. run_steps (ril_step (s_commands C) V) steps S = Some S' \<and>
    moved (s_commands C) (\<lambda>s. sum_list (map (asked s) steps)) (\<lambda>n. sum_list (map (sub_asked n) steps)) S S'"
  using assms
proof (induction steps arbitrary: S)
  case Nil
  then show ?case using moved_refl by simp
next
  case (Cons st steps)
  obtain S1 where S1: "ril_step (s_commands C) V st S = Some S1" "moved (s_commands C) (\<lambda>s. asked s st) (\<lambda>n. sub_asked n st) S S1"
    using ril_step_ok [OF Cons.prems(1,2)] Cons.prems(3) by auto
  then have "core_inv (s_commands C) S1" "sims S1 = sims S" by (simp_all add: moved_def)
  with Cons.IH [of S1] Cons.prems obtain S2 where S2: "run_steps (ril_step (s_commands C) V) steps S1 = Some S2"
    "moved (s_commands C) (\<lambda>s. sum_list (map (asked s) steps)) (\<lambda>n. sum_list (map (sub_asked n) steps)) S1 S2" by auto
  show ?case using S1(1) S2(1) moved_trans [OF S1(2) S2(2)] by simp
qed

subsection \<open>Properties of runs\<close>

lemma ril_start_inv: "core_inv (s_commands C) (ril_start n v mem oem)"
  by (simp add: ril_start_def core_inv_def handed_def)

lemma ril_start_zero: "potential s (ril_start n v mem oem) = 0" "budget k (ril_start n v mem oem) = 1"
  "activations k (ril_start n v mem oem) = 0" "temps (ril_start n v mem oem) = 0" "sims (ril_start n v mem oem) = n"
  by (simp_all add: ril_start_def potential_def answered_def with_vendor_def handed_def budget_def act_budget_def activations_def)

lemma budget_used: "(if sub_activated S n then 0 else 1) \<le> budget n S"
  by (simp add: budget_def act_budget_def)



subsection \<open>Properties of a request\<close>


text \<open>
  A request that was added and then refused is never removed: whatever happens later, its \<open>RequestInfo\<close> stays allocated and in
  the list of pending requests.
\<close>

theorem refused_leaks:
  assumes "core_inv (s_commands C) S" "usable (s_commands C) request" "sims S < 2 \<or> quiet V"
    and "dispatch (s_commands C) V serial slotId request rq S = Some (S1, False)" "infos S1 (next_info S) \<noteq> None"
    and "\<forall>st\<in>set steps. allowed (s_commands C) st"
  shows "\<exists>S2 r. run_steps (ril_step (s_commands C) V) steps S1 = Some S2 \<and> infos S2 (next_info S) = Some r \<and>
    next_info S \<in> set (pending S2 (hook (sims S) (socket_id r)))"
proof -
  let ?t = "next_info S"
  have spec: "dispatch_spec (s_commands C) V serial (request, request_data rq, ?t, slotId) S S1 False"
    using table.dispatch_ok [OF assms(1,2), of V serial slotId rq] assms(3,4) by auto
  obtain r where r: "infos S1 ?t = Some r" using assms(5) by blast
  have i1: "core_inv (s_commands C) S1" "sims S1 = sims S" "vendor_calls S1 = vendor_calls S" using spec by (simp_all add: dispatch_spec_def)
  have t: "?t < next_info S1" by (rule core_inv_info(1) [OF i1(1) r])
  have "?t \<notin> handed S" using assms(1) by (auto simp: core_inv_def)
  then have h: "?t \<notin> handed S1" by (simp add: handed_def i1(3))
  obtain S2 where S2: "run_steps (ril_step (s_commands C) V) steps S1 = Some S2"
    "moved (s_commands C) (\<lambda>s. sum_list (map (asked s) steps)) (\<lambda>n. sum_list (map (sub_asked n) steps)) S1 S2"
    using ril_run_ok [OF i1(1) _ assms(6)] assms(3) i1(2) by auto
  have r2: "infos S2 ?t = Some r" "core_inv (s_commands C) S2" "sims S2 = sims S"
    using S2(2) h t r i1(2) by (simp_all add: moved_def)
  show ?thesis using S2(1) r2 core_inv_info(2) [OF r2(2,1)] by auto
qed

text \<open>The answer to a request that waits, once the vendor completes it.\<close>

lemma completion:
  assumes inv: "core_inv (s_commands C) S" and w: "wired C n nm" and ok: "fits n resp" and r: "infos S t = Some r" "cmd r = n"
    "\<not> cancelled r" "\<not> local_req r" "\<not> wasAckSent r" and reach: "all_reachable (socket_id r) S"
  shows "\<exists>S' info v. RIL_onRequestComplete (s_commands C) t e resp S = Some S' \<and>
    client_events S' = client_events S @ [Response (socket_id r) nm info v] \<and> ri_serial info = token r"
proof -
  obtain f i where f: "(n, Some f) \<in> set (s_commands C)" "answers (fits n) {(i, nm)} f" using w by (auto simp: wired_def)
  define S1 where "S1 = S\<lparr>pending := (pending S)(hook (sims S) (socket_id r) := remove1 t (pending S (hook (sims S) (socket_id r))))\<rparr>"
  have d: "checkAndDequeueRequestInfoIfAck t False S = Some (S1, True)" unfolding S1_def by (rule dequeued(1) [OF inv r(1)])
  obtain S3 where S3: "f (socket_id r) RESPONSE_SOLICITED (token r) e resp S1 = Some S3" "gives_answer i (socket_id r) (token r) nm S1 S3"
    using f(2) ok unfolding answers_def by blast
  have "reachable i (socket_id r) S1" using reach by (simp add: all_reachable_def reachable_def available_def S1_def)
  then obtain info v where "client_events S3 = client_events S @ [Response (socket_id r) nm info v]" "ri_serial info = token r"
    using S3(2) by (auto simp: gives_answer_def S1_def)
  moreover have "RIL_onRequestComplete (s_commands C) t e resp S = Some (free_info t S3)"
    using S3(1) r s_commands_row(2) [OF f(1)]
    by (simp add: RIL_onRequestComplete_def d respond_def Let_def) (simp add: S1_def respond_def)
  ultimately show ?thesis by (simp add: free_info_def)
qed

lemma request_answered:
  assumes m: "is_request M n" "wired C n nm" "n \<noteq> RIL_REQUEST_SET_NETWORK_SELECTION_MANUAL" and inv: "core_inv (s_commands C) S"
  shows "\<exists>S'. M (s_commands C) (\<lambda>_. []) slotId serial S = Some S' \<and>
    (vendor_calls S' = vendor_calls S \<or>
     (\<exists>data t. vendor_calls S' = vendor_calls S @ [(n, data, t, slotId)] \<and>
       (\<forall>e resp. all_reachable slotId S \<and> fits n resp \<longrightarrow>
         (\<exists>S'' info v. RIL_onRequestComplete (s_commands C) t e resp S' = Some S'' \<and>
           client_events S'' = client_events S @ [Response slotId nm info v] \<and> ri_serial info = serial))))"
proof -
  obtain rq where rq: "M (s_commands C) (\<lambda>_. []) slotId serial S = ignore (dispatch (s_commands C) (\<lambda>_. []) serial slotId n rq S)"
    using m(1) by (auto simp: is_request_def)
  have u: "usable (s_commands C) n" using m(2) s_commands_row(2) by (force simp: wired_def usable_def)
  have q: "quiet (\<lambda>_. [])" by (simp add: quiet_def)
  obtain S' ok where S': "dispatch (s_commands C) (\<lambda>_. []) serial slotId n rq S = Some (S', ok)"
    "dispatch_spec (s_commands C) (\<lambda>_. []) serial (n, request_data rq, next_info S, slotId) S S' ok"
    using table.dispatch_ok [OF inv u] q by blast
  have M: "M (s_commands C) (\<lambda>_. []) slotId serial S = Some S'" using rq S'(1) by (simp add: ignore_def)
  show ?thesis
  proof (cases ok)
    case False
    then show ?thesis using M S'(2) by (simp add: dispatch_spec_def)
  next
    case True
    then have v: "vendor_calls S' = vendor_calls S @ [(n, request_data rq, next_info S, slotId)]" and inv': "core_inv (s_commands C) S'"
      and w: "waiting serial (n, request_data rq, next_info S, slotId) S S'"
      using S'(2) m(3) by (simp_all add: dispatch_spec_def)
    obtain r where r: "infos S' (next_info S) = Some r" "token r = serial" "cmd r = n" "socket_id r = slotId" "\<not> cancelled r"
      "\<not> local_req r" "\<not> wasAckSent r" using w by (auto simp: waiting_def)
    have e: "client_events S' = client_events S" "all_reachable slotId S' = all_reachable slotId S"
      using w by (auto simp: waiting_def all_reachable_def)
    show ?thesis using M v completion [OF inv' m(2) _ r(1,3,5,6,7)] r(2,4) e by auto
  qed
qed


text \<open>
  The answer to \<open>hangupForegroundResumeBackground\<close> comes back to the client's method for another request,
  \<open>hangupWaitingOrBackgroundResponse\<close>.
\<close>

theorem hangup_misrouted:
  assumes "core_inv (s_commands C) S"
  shows "\<exists>S'. hangupForegroundResumeBackground (s_commands C) (\<lambda>_. []) slotId serial S = Some S' \<and>
    (vendor_calls S' = vendor_calls S \<or>
     (\<exists>data t. vendor_calls S' = vendor_calls S @ [(RIL_REQUEST_HANGUP_FOREGROUND_RESUME_BACKGROUND, data, t, slotId)] \<and>
       (\<forall>e resp. all_reachable slotId S \<and> fits RIL_REQUEST_HANGUP_FOREGROUND_RESUME_BACKGROUND resp \<longrightarrow>
         (\<exists>S'' info v. RIL_onRequestComplete (s_commands C) t e resp S' = Some S'' \<and>
           client_events S'' = client_events S @ [Response slotId ''hangupWaitingOrBackgroundResponse'' info v] \<and>
           ri_serial info = serial))))"
proof (rule request_answered [OF _ _ _ assms])
  show "is_request hangupForegroundResumeBackground RIL_REQUEST_HANGUP_FOREGROUND_RESUME_BACKGROUND"
    unfolding hangupForegroundResumeBackground_def [abs_def] by (rule is_requestI, simp only: as_dispatch)
  show "wired C RIL_REQUEST_HANGUP_FOREGROUND_RESUME_BACKGROUND ''hangupWaitingOrBackgroundResponse''"
    by (rule wiredI, rule table_rows, simp only: request_numbers, rule table_answers)
  show "RIL_REQUEST_HANGUP_FOREGROUND_RESUME_BACKGROUND \<noteq> RIL_REQUEST_SET_NETWORK_SELECTION_MANUAL" by (simp add: request_numbers)
qed


subsection \<open>Defects\<close>

lemma all_memory:
  assumes "\<forall>k. mem_oracle S k"
  shows "\<exists>S1. addRequestToList (length (s_commands C)) serial slotId request S =
      (if request \<ge> length (s_commands C) then (S, None) else (S1, Some (next_info S))) \<and> (\<forall>k. mem_oracle S1 k)"
  using assms by (auto simp: addRequestToList_def try_alloc_def Let_def)

lemma core_inv_call:
  assumes "core_inv cmds S" "t < next_info S"
  shows "core_inv cmds (S\<lparr>vendor_calls := vendor_calls S @ [(q, d, t, sl)]\<rparr>)"
proof -
  have "handed (S\<lparr>vendor_calls := vendor_calls S @ [(q, d, t, sl)]\<rparr>) = insert t (handed S)" by (simp add: handed_def)
  then show ?thesis using assms by (simp add: core_inv_def)
qed

lemma completed_freed:
  assumes "core_inv cmds S" "infos S t = Some r" "RIL_onRequestComplete cmds' t e resp S = Some S'"
  shows "infos S' t = None"
  using assms(3) unfolding RIL_onRequestComplete_def dequeued(1) [OF assms(1,2)]
  using assms(2) by (auto simp: free_info_def Let_def split: if_splits)

lemma completed_in_call:
  assumes r: "added (s_commands C) serial slotId q S S1 r" and p: "prepared S1 S2 n"
    and c: "CALL_ONREQUEST (s_commands C) (\<lambda>(_, _, t, _). [VComplete t RIL_E_SUCCESS (PNull, 0)]) q data (next_info S) slotId S2 = Some S3"
  shows "infos S3 (next_info S) = None"
proof -
  let ?Sc = "S2\<lparr>vendor_calls := vendor_calls S2 @ [(q, data, next_info S, slotId)]\<rparr>"
  have "vendor_try (s_commands C) (VComplete (next_info S) RIL_E_SUCCESS (PNull, 0)) ?Sc = Some S3"
    using c by (simp add: CALL_ONREQUEST_def Let_def split: bind_splits)
  moreover have "vendor_ok (VComplete (next_info S) RIL_E_SUCCESS (PNull, 0)) ?Sc"
    using p r by (auto simp: prepared_def same_core_def added_def handed_def)
  ultimately have d: "RIL_onRequestComplete (s_commands C) (next_info S) RIL_E_SUCCESS (PNull, 0) ?Sc = Some S3"
    by (simp add: vendor_try_def)
  have "core_inv (s_commands C) S2" "infos S2 (next_info S) = Some r"
    using table.prepared_inv [OF p table.added_info(1,2) [OF r]] by simp_all
  then have "core_inv (s_commands C) ?Sc" "infos ?Sc (next_info S) = Some r"
    using core_inv_call [of "s_commands C" S2 "next_info S" q data slotId] core_inv_info(1) [of "s_commands C" S2] by simp_all
  then show ?thesis by (rule completed_freed [OF _ _ d])
qed

lemma one_string_buffered:
  assumes add: "addRequestToList (length (s_commands C)) serial slotId q S = (S1, Some (next_info S))"
    and r: "added (s_commands C) serial slotId q S S1 r" and mem: "\<forall>k. mem_oracle S1 k"
    and q: "q = RIL_REQUEST_SET_NETWORK_SELECTION_MANUAL"
    and ps_def: "ps = map (copied True) (map hidl_of [s])"
  shows "\<exists>S2. prepared S1 S2 (1 + live ps) \<and> dispatchStrings (s_commands C) V serial slotId q True [s] S =
      (case CALL_ONREQUEST (s_commands C) V q (PStrings ps) (next_info S) slotId S2 of
         None \<Rightarrow> None
       | Some S4 \<Rightarrow> map_option (\<lambda>S6. (S6, True)) (RIL_onRequestComplete (s_commands C) (next_info S) RIL_E_SUCCESS (PNull, 0)
           (free_temp (memsetAndFreeStrings ps S4))))"
  using r
proof (cases rule: table.strings_cases [where ae = True and ss = "map hidl_of [s]"])
  case (refused S2)
  have "(case new_temp S1 of
      (False, S2) \<Rightarrow> map_option (\<lambda>S3. (S3, False)) (sendErrorResponse (s_commands C) (next_info S) RIL_E_NO_MEMORY S2)
    | (True, S2) \<Rightarrow> (case copy_strings (s_commands C) (next_info S) True (map hidl_of [s]) [] S2 of
        None \<Rightarrow> None | Some (S3, None) \<Rightarrow> Some (free_temp S3, False) | Some (S3, Some ps) \<Rightarrow> None)) = None"
    using mem by (simp add: new_temp_def try_alloc_def copy_strings_def copyHidlStringToRil_def hidl_of_def)
  with refused(1) [of "\<lambda>_ _. None"] show ?thesis by simp
next
  case (buffer S2)
  show ?thesis
  proof (rule exI [of _ S2], rule conjI)
    show "prepared S1 S2 (1 + live ps)" using buffer(2) by (simp only: ps_def)
    show "dispatchStrings (s_commands C) V serial slotId q True [s] S =
      (case CALL_ONREQUEST (s_commands C) V q (PStrings ps) (next_info S) slotId S2 of
         None \<Rightarrow> None
       | Some S4 \<Rightarrow> map_option (\<lambda>S6. (S6, True)) (RIL_onRequestComplete (s_commands C) (next_info S) RIL_E_SUCCESS (PNull, 0)
           (free_temp (memsetAndFreeStrings ps S4))))"
      by (simp only: dispatchStrings_def add [unfolded q] prod.case option.case buffer(1) q ps_def Let_def simp_thms if_True)
  qed
qed

text \<open>
  C32. With two SIM cards the manual selection of a network reads a freed request when the vendor does complete it at once:
  the dispatcher answers it a second time.
\<close>

theorem fake_success_reads_freed:
  assumes "core_inv (s_commands C) S" "2 \<le> sims S" "\<forall>k. mem_oracle S k"
    and "V = (\<lambda>(_, _, t, _). [VComplete t RIL_E_SUCCESS (PNull, 0)])"
  shows "setNetworkSelectionModeManual operatorNumeric (s_commands C) V slotId serial S = None"
proof -
  let ?q = RIL_REQUEST_SET_NETWORK_SELECTION_MANUAL
  let ?op = "hs_chars operatorNumeric"
  obtain S1 where add: "addRequestToList (length (s_commands C)) serial slotId ?q S = (S1, Some (next_info S))" and mem: "\<forall>k. mem_oracle S1 k"
    using all_memory [OF assms(3), of C serial slotId ?q]
    by (auto simp: s_commands_length RIL_REQUEST_SET_NETWORK_SELECTION_MANUAL_def)
  have row: "(?q, Some setNetworkSelectionModeManualResponse) \<in> set (s_commands C)" by (rule table_rows)
  then have u: "usable (s_commands C) ?q" using s_commands_row(2) [OF row] by (simp add: usable_def)
  obtain r where r: "added (s_commands C) serial slotId ?q S S1 r" using request_added(2) [OF add assms(1) u] by blast
  let ?ps = "map (copied True) (map hidl_of [?op])"
  obtain S2 where S2: "prepared S1 S2 (1 + live ?ps)" "dispatchStrings (s_commands C) V serial slotId ?q True [?op] S =
      (case CALL_ONREQUEST (s_commands C) V ?q (PStrings ?ps) (next_info S) slotId S2 of
         None \<Rightarrow> None
       | Some S4 \<Rightarrow> map_option (\<lambda>S6. (S6, True)) (RIL_onRequestComplete (s_commands C) (next_info S) RIL_E_SUCCESS (PNull, 0)
           (free_temp (memsetAndFreeStrings ?ps S4))))"
    using one_string_buffered [OF add r mem refl refl, of ?op V] by blast
  obtain S3 where S3: "CALL_ONREQUEST (s_commands C) V ?q (PStrings ?ps) (next_info S) slotId S2 = Some S3"
    "core_inv (s_commands C) S3" "sims S3 = sims S" "next_info S \<in> handed S3"
    using table.call_ok [OF r S2(1), where V = V and data = "PStrings ?ps"] by blast
  have "infos S3 (next_info S) = None" using completed_in_call [OF r S2(1)] S3(1) assms(4) by blast
  then have "RIL_onRequestComplete (s_commands C) (next_info S) RIL_E_SUCCESS (PNull, 0) (free_temp (memsetAndFreeStrings ?ps S3)) = None"
    using S3(3) assms(2) by (simp add: RIL_onRequestComplete_def checkAndDequeueRequestInfoIfAck_def free_temp_def)
  then show ?thesis using S2(2) S3(1) by (simp add: setNetworkSelectionModeManual_def ignore_def)
qed

text \<open>
  Every request to set the key for the encryption of the IMSI leaks the copies of its strings that are not empty.
\<close>

theorem imsi_encryption_leaks:
  assumes "core_inv (s_commands C) S" "\<forall>k. mem_oracle S k"
    and "ie_mnc a = hidl_of mnc" "ie_mcc a = hidl_of mcc" "ie_keyIdentifier a = hidl_of key"
  shows "\<exists>S'. setCarrierInfoForImsiEncryption a (s_commands C) V slotId serial S = Some S' \<and>
    temps S' = temps S + live [copied False (hidl_of mnc), copied False (hidl_of mcc), copied False (hidl_of key)]"
proof -
  let ?q = RIL_REQUEST_SET_CARRIER_INFO_IMSI_ENCRYPTION
  obtain S1 where add: "addRequestToList (length (s_commands C)) serial slotId ?q S = (S1, Some (next_info S))" and mem: "\<forall>k. mem_oracle S1 k"
    using all_memory [OF assms(2), of C serial slotId ?q] by (auto simp: s_commands_length request_numbers)
  have row: "(?q, Some setCarrierInfoForImsiEncryptionResponse) \<in> set (s_commands C)" by (rule table_rows)
  then have u: "usable (s_commands C) ?q" using s_commands_row(2) [OF row] by (simp add: usable_def)
  obtain r where r: "added (s_commands C) serial slotId ?q S S1 r" using request_added(2) [OF add assms(1) u] by blast
  let ?ss = "[(False, hidl_of mnc), (False, hidl_of mcc), (False, hidl_of key)]"
  obtain S2 res where c: "copy_each (s_commands C) (next_info S) ?ss [] S1 = Some (S2, res)"
    "case res of Some qs \<Rightarrow> qs = [] @ map (\<lambda>(ae, s). copied ae s) ?ss \<and> prepared S1 S2 (live qs - live [])
       | None \<Rightarrow> refused (socket_id r) (token r) S1 S2 (- live [])"
    using table.copy_each_ok [OF table.added_info(1,2) [OF r], of ?ss "[]"] by blast
  have "res \<noteq> None" using c(1) mem
    by (auto simp: copyHidlStringToRil_def hidl_of_def new_temp_def try_alloc_def split: if_splits)
  then obtain qs where qs: "res = Some qs" by blast
  have q: "qs = [copied False (hidl_of mnc), copied False (hidl_of mcc), copied False (hidl_of key)]" "prepared S1 S2 (live qs)"
    using c(2) [unfolded qs option.case] by auto
  let ?data = "PStruct ''RIL_CarrierInfoForImsiEncryption'' ([int (length (ie_carrierKey a))] @ ie_carrierKey a @ [ie_expirationTime a]) qs"
  obtain S3 where S3: "CALL_ONREQUEST (s_commands C) V ?q ?data (next_info S) slotId S2 = Some S3"
    "dispatch_spec (s_commands C) V serial (?q, ?data, next_info S, slotId) S (S3\<lparr>temps := temps S3 - live qs\<rparr>) True"
    using table.call_ok [OF r q(2), where V = V and data = ?data] by blast
  have "temps S3 = temps S + live qs" using S3(2) by (simp add: dispatch_spec_def)
  moreover have "setCarrierInfoForImsiEncryption a (s_commands C) V slotId serial S = Some S3"
    using S3(1) c(1) by (simp add: setCarrierInfoForImsiEncryption_def add assms(3-5) qs)
  ultimately show ?thesis using q(1) by simp
qed

subsection \<open>Concrete runs\<close>

text \<open>No response is converted, the vendor waits, and all memory is there.\<close>

abbreviation no_conversion :: "string \<Rightarrow> response \<Rightarrow> payload option" where "no_conversion \<equiv> \<lambda>_ _. None"
abbreviation lazy_vendor :: vendor where "lazy_vendor \<equiv> \<lambda>_. []"
abbreviation one_sim :: ril_core where "one_sim \<equiv> ril_start 1 15 (\<lambda>_. True) True"

definition mute_run :: "ril_act list" where
  "mute_run = [Registered Radio 0 True, Client 0 7 RIL_REQUEST_SET_MUTE (ReqInts [1]), Vendor (VComplete 0 0 (PNull, 0))]"

lemma lazy_quiet: "quiet lazy_vendor"
  by (simp add: quiet_def)

lemma mute_usable: "usable (s_commands C) RIL_REQUEST_SET_MUTE" "usable (s_commands C) RIL_REQUEST_SET_CARRIER_INFO_IMSI_ENCRYPTION"
  by (rule row_usable, rule table_rows)+

lemma mute_allowed: "\<forall>st\<in>set mute_run. allowed (s_commands C) st"
  by (simp add: mute_run_def mute_usable)




lemma mute_refused:
  "\<exists>S1. dispatch (s_commands C) lazy_vendor 7 0 RIL_REQUEST_SET_MUTE (ReqInts [1]) (ril_start 1 15 (\<lambda>k. k = 0) True) =
     Some (S1, False) \<and> infos S1 0 \<noteq> None"
proof -
  have r: "s_commands C ! RIL_REQUEST_SET_MUTE = (RIL_REQUEST_SET_MUTE, Some setMuteResponse)"
    by (rule s_commands_row(2), rule table_rows)
  show ?thesis
    by (simp add: dispatchInts_def addRequestToList_def s_commands_length RIL_REQUEST_SET_MUTE_def ril_start_def try_alloc_def new_temp_def
      sendErrorResponse_def respond_def r [unfolded request_numbers] setMuteResponse_def plain_response_def available_def Let_def)
qed

theorem refused_leaks_witness:
  "\<exists>S1 S2. dispatch (s_commands no_conversion) lazy_vendor 7 0 RIL_REQUEST_SET_MUTE (ReqInts [1]) (ril_start 1 15 (\<lambda>k. k = 0) True) =
       Some (S1, False) \<and>
     run_steps (ril_step (s_commands no_conversion) lazy_vendor) mute_run S1 = Some S2 \<and> infos S2 0 \<noteq> None"
proof -
  let ?S = "ril_start 1 15 (\<lambda>k. k = 0) True"
  obtain S1 where S1: "dispatch (s_commands no_conversion) lazy_vendor 7 0 RIL_REQUEST_SET_MUTE (ReqInts [1]) ?S = Some (S1, False)"
    "infos S1 (next_info ?S) \<noteq> None" using mute_refused [of no_conversion] by (auto simp: ril_start_def)
  have "next_info ?S = 0" by (simp add: ril_start_def)
  then show ?thesis
    using S1(1) refused_leaks [OF ril_start_inv mute_usable(1) disjI2 [OF lazy_quiet] S1 mute_allowed] by auto
qed


theorem hangup_misrouted_witness:
  "\<exists>S'. hangupForegroundResumeBackground (s_commands no_conversion) lazy_vendor 0 7 one_sim = Some S'"
  using hangup_misrouted [OF ril_start_inv, of no_conversion 0 7 1 15 "\<lambda>_. True" True] by blast


theorem fake_success_reads_freed_witness:
  "setNetworkSelectionModeManual (hidl_of ''26201'') (s_commands no_conversion) (\<lambda>(_, _, t, _). [VComplete t RIL_E_SUCCESS (PNull, 0)]) 0 7
     (ril_start 2 15 (\<lambda>_. True) True) = None"
  by (rule fake_success_reads_freed [OF ril_start_inv]) (simp_all add: ril_start_def hidl_of_def)

theorem imsi_encryption_leaks_witness:
  "\<exists>S'. setCarrierInfoForImsiEncryption \<lparr>ie_mcc = hidl_of ''262'', ie_mnc = hidl_of ''01'', ie_carrierKey = [1, 2],
       ie_keyIdentifier = hidl_of ''k'', ie_expirationTime = 9\<rparr> (s_commands no_conversion) lazy_vendor 0 7 one_sim = Some S' \<and> temps S' = 3"
  using imsi_encryption_leaks [OF ril_start_inv, of 1 15 "\<lambda>_. True" True
      "\<lparr>ie_mcc = hidl_of ''262'', ie_mnc = hidl_of ''01'', ie_carrierKey = [1, 2], ie_keyIdentifier = hidl_of ''k'', ie_expirationTime = 9\<rparr>"
      "''01''" "''262''" "''k''" no_conversion lazy_vendor 0 7]
  by (simp add: ril_start_def copied_def hidl_of_def)

end
