(* ===== verification/Fm_Queue.thy ===== *)
theory Fm_Queue
  imports Prelude
begin

text \<open>
  The queue of pending events that \<open>fmradio/fm_hci.c\<close> and \<open>fmradio/fm_uart.c\<close> both keep: an array of eight slots with a
  head and a count, which overwrites the oldest event when it is full, and its contract as a bounded first-in
  first-out list. The two files differ in the size of a slot, \<open>sz\<close>.
\<close>

type_synonym byte = "8 word"

subsection \<open>The array\<close>

record event_queue =
  slots :: "byte list list"
  queue_head :: nat
  queue_count :: nat

definition EVENT_QUEUE_MAX :: nat where "EVENT_QUEUE_MAX = 8"

definition no_events :: event_queue where
  "no_events = \<lparr>slots = replicate EVENT_QUEUE_MAX [], queue_head = 0, queue_count = 0\<rparr>"

definition queue_push :: "nat \<Rightarrow> byte list \<Rightarrow> event_queue \<Rightarrow> event_queue" where
  "queue_push sz evt q =
    (let q1 = (if queue_count q = EVENT_QUEUE_MAX
               then q\<lparr>queue_head := (queue_head q + 1) mod EVENT_QUEUE_MAX, queue_count := queue_count q - 1\<rparr> else q);
         idx = (queue_head q1 + queue_count q1) mod EVENT_QUEUE_MAX
     in q1\<lparr>slots := (slots q1)[idx := take sz evt], queue_count := queue_count q1 + 1\<rparr>)"

definition queue_pop :: "nat \<Rightarrow> event_queue \<Rightarrow> event_queue \<times> byte list option" where
  "queue_pop outsz q =
    (if queue_count q = 0 then (q, None)
     else (q\<lparr>queue_head := (queue_head q + 1) mod EVENT_QUEUE_MAX, queue_count := queue_count q - 1\<rparr>,
           Some (take outsz (slots q ! queue_head q))))"

subsection \<open>The contract\<close>

text \<open>A list that keeps its last \<open>cap\<close> elements.\<close>

definition keep_last :: "nat \<Rightarrow> 'a list \<Rightarrow> 'a list" where
  "keep_last cap xs = drop (length xs - cap) xs"

lemma keep_last_short [simp]: "length xs \<le> cap \<Longrightarrow> keep_last cap xs = xs"
  by (simp add: keep_last_def)

lemma keep_last_full: "length xs = cap \<Longrightarrow> 0 < cap \<Longrightarrow> keep_last cap (xs @ [x]) = tl xs @ [x]"
  by (simp add: keep_last_def drop_Suc)

lemma length_keep_last: "length (keep_last cap xs) = min cap (length xs)"
  by (simp add: keep_last_def)

lemma keep_last_snoc: "keep_last cap (keep_last cap xs @ [x]) = keep_last cap (xs @ [x])"
proof (cases "length xs \<le> cap")
  case False
  then have "length xs - cap + (Suc cap - cap) = Suc (length xs) - cap" by simp
  with False show ?thesis by (simp add: keep_last_def)
qed simp

lemma keep_last_append: "keep_last cap (keep_last cap xs @ ys) = keep_last cap (xs @ ys)"
proof (induction ys rule: rev_induct)
  case (snoc y ys)
  have "keep_last cap (keep_last cap xs @ ys @ [y]) = keep_last cap (keep_last cap (keep_last cap xs @ ys) @ [y])"
    using keep_last_snoc [of cap "keep_last cap xs @ ys" y] by simp
  also have "\<dots> = keep_last cap (xs @ ys @ [y])" using keep_last_snoc [of cap "xs @ ys" y] by (simp add: snoc.IH)
  finally show ?case .
qed (simp add: keep_last_def)

text \<open>The results of popping \<open>k\<close> times.\<close>

fun pops :: "('q \<Rightarrow> 'q \<times> 'o option) \<Rightarrow> nat \<Rightarrow> 'q \<Rightarrow> 'o option list" where
  "pops pop 0 q = []"
| "pops pop (Suc k) q = snd (pop q) # pops pop k (fst (pop q))"

locale lossy_queue =
  fixes push :: "'e \<Rightarrow> 'q \<Rightarrow> 'q" and pop :: "nat \<Rightarrow> 'q \<Rightarrow> 'q \<times> 'o option" and empty :: 'q
    and items :: "'q \<Rightarrow> 'e list" and inv :: "'q \<Rightarrow> bool" and cap :: nat and store :: "'e \<Rightarrow> 'e" and out :: "nat \<Rightarrow> 'e \<Rightarrow> 'o"
  assumes inv_empty: "inv empty" and items_empty: "items empty = []"
    and inv_push: "inv q \<Longrightarrow> inv (push e q)"
    and items_push: "inv q \<Longrightarrow> items (push e q) = keep_last cap (items q @ [store e])"
    and inv_pop: "inv q \<Longrightarrow> inv (fst (pop n q))"
    and items_pop: "inv q \<Longrightarrow> items (fst (pop n q)) = tl (items q)"
    and result_pop: "inv q \<Longrightarrow> snd (pop n q) = (case items q of [] \<Rightarrow> None | e # _ \<Rightarrow> Some (out n e))"
begin

lemma pushes:
  assumes "inv q" "length (items q) \<le> cap"
  shows "inv (fold push es q) \<and> items (fold push es q) = keep_last cap (items q @ map store es)"
  using assms
proof (induction es arbitrary: q)
  case (Cons e es)
  have i: "inv (push e q)" "items (push e q) = keep_last cap (items q @ [store e])"
    by (simp_all add: inv_push items_push Cons.prems)
  show ?case using Cons.IH [OF i(1)] i keep_last_append [of cap "items q @ [store e]" "map store es"]
    by (simp add: length_keep_last)
qed simp

lemma pops_all:
  assumes "inv q" "k = length (items q)"
  shows "pops (pop n) k q = map (\<lambda>e. Some (out n e)) (items q)"
  using assms
proof (induction k arbitrary: q)
  case (Suc k)
  then obtain e es where e: "items q = e # es" by (cases "items q") auto
  then have "items (fst (pop n q)) = es" "snd (pop n q) = Some (out n e)"
    using items_pop [OF Suc.prems(1)] result_pop [OF Suc.prems(1)] by simp_all
  moreover have "pops (pop n) k (fst (pop n q)) = map (\<lambda>e. Some (out n e)) (items (fst (pop n q)))"
    by (rule Suc.IH) (use Suc.prems e calculation in \<open>simp_all add: inv_pop\<close>)
  ultimately show ?case by (simp add: e)
qed simp

lemma last_events:
  assumes "length es \<ge> cap"
  shows "pops (pop n) cap (fold push es empty) = map (\<lambda>e. Some (out n (store e))) (drop (length es - cap) es)"
proof -
  have f: "inv (fold push es empty)" "items (fold push es empty) = keep_last cap (map store es)"
    using pushes [OF inv_empty, of es] by (simp_all add: items_empty)
  show ?thesis using pops_all [OF f(1), of cap n] assms by (simp add: f(2) keep_last_def drop_map)
qed

end

subsection \<open>The array implements the contract\<close>

definition queue_inv :: "event_queue \<Rightarrow> bool" where
  "queue_inv q \<longleftrightarrow> length (slots q) = EVENT_QUEUE_MAX \<and> queue_head q < EVENT_QUEUE_MAX \<and> queue_count q \<le> EVENT_QUEUE_MAX"

definition events :: "event_queue \<Rightarrow> byte list list" where
  "events q = map (\<lambda>i. slots q ! ((queue_head q + i) mod EVENT_QUEUE_MAX)) [0..<queue_count q]"

lemma length_events [simp]: "length (events q) = queue_count q"
  by (simp add: events_def)

lemma nth_events: "i < queue_count q \<Longrightarrow> events q ! i = slots q ! ((queue_head q + i) mod EVENT_QUEUE_MAX)"
  by (simp add: events_def)

lemma next_slot: "(Suc h mod EVENT_QUEUE_MAX + i) mod EVENT_QUEUE_MAX = Suc (h + i) mod EVENT_QUEUE_MAX"
  by (metis add_Suc mod_add_left_eq)

lemma events_pop: "events (fst (queue_pop n q)) = tl (events q)"
proof (cases "queue_count q = 0")
  case False
  then have c: "queue_count (fst (queue_pop n q)) = queue_count q - 1" by (simp add: queue_pop_def)
  show ?thesis
  proof (rule nth_equalityI)
    fix i assume "i < length (events (fst (queue_pop n q)))"
    then have i: "i < queue_count q - 1" by (simp add: c)
    then have "tl (events q) ! i = slots q ! ((queue_head q + Suc i) mod EVENT_QUEUE_MAX)" by (simp add: nth_tl nth_events)
    moreover have "events (fst (queue_pop n q)) ! i = slots q ! ((Suc (queue_head q) mod EVENT_QUEUE_MAX + i) mod EVENT_QUEUE_MAX)"
      using i c False by (simp add: nth_events) (simp add: queue_pop_def)
    ultimately show "events (fst (queue_pop n q)) ! i = tl (events q) ! i" by (simp add: next_slot)
  qed (simp add: c)
qed (simp add: queue_pop_def events_def)

lemma other_slot:
  assumes "i < c" "c < EVENT_QUEUE_MAX"
  shows "(h + i) mod EVENT_QUEUE_MAX \<noteq> (h + c) mod EVENT_QUEUE_MAX"
proof
  assume "(h + i) mod EVENT_QUEUE_MAX = (h + c) mod EVENT_QUEUE_MAX"
  then have "EVENT_QUEUE_MAX dvd (h + c) - (h + i)" using assms(1) by (metis mod_eq_dvd_iff_nat add_le_mono less_imp_le order_refl)
  then have "EVENT_QUEUE_MAX dvd c - i" by simp
  then show False using assms by (meson diff_le_self le_trans not_less nat_dvd_not_less zero_less_diff less_le_trans)
qed

lemma events_push:
  assumes "queue_inv q"
  shows "events (queue_push sz e q) = keep_last EVENT_QUEUE_MAX (events q @ [take sz e])"
proof -
  define q1 where "q1 = (if queue_count q = EVENT_QUEUE_MAX then fst (queue_pop 0 q) else q)"
  have c: "queue_count q1 < EVENT_QUEUE_MAX" "queue_inv q1" using assms by (auto simp: q1_def queue_pop_def queue_inv_def EVENT_QUEUE_MAX_def)
  have k: "keep_last EVENT_QUEUE_MAX (events q @ [take sz e]) = events q1 @ [take sz e]"
    using assms by (auto simp: q1_def events_pop keep_last_full EVENT_QUEUE_MAX_def queue_inv_def)
  have p: "queue_push sz e q = q1\<lparr>slots := (slots q1)[(queue_head q1 + queue_count q1) mod EVENT_QUEUE_MAX := take sz e],
      queue_count := queue_count q1 + 1\<rparr>" by (auto simp: queue_push_def q1_def queue_pop_def EVENT_QUEUE_MAX_def Let_def)
  have d: "(queue_head q1 + i) mod EVENT_QUEUE_MAX \<noteq> (queue_head q1 + queue_count q1) mod EVENT_QUEUE_MAX" if "i < queue_count q1" for i
    by (rule other_slot [OF that c(1)])
  show ?thesis unfolding k p
  proof (rule nth_equalityI)
    fix i assume "i < length (events (q1\<lparr>slots := (slots q1)[(queue_head q1 + queue_count q1) mod EVENT_QUEUE_MAX := take sz e],
      queue_count := queue_count q1 + 1\<rparr>))"
    then have i: "i < queue_count q1 \<or> i = queue_count q1" by auto
    then show "events (q1\<lparr>slots := (slots q1)[(queue_head q1 + queue_count q1) mod EVENT_QUEUE_MAX := take sz e],
      queue_count := queue_count q1 + 1\<rparr>) ! i = (events q1 @ [take sz e]) ! i"
      using c d [of i] by (auto simp: nth_events nth_append queue_inv_def)
  qed simp
qed

lemma queue_inv_push: "queue_inv q \<Longrightarrow> queue_inv (queue_push sz e q)"
  by (auto simp: queue_push_def queue_inv_def Let_def EVENT_QUEUE_MAX_def)

lemma queue_inv_pop: "queue_inv q \<Longrightarrow> queue_inv (fst (queue_pop n q))"
  by (auto simp: queue_pop_def queue_inv_def EVENT_QUEUE_MAX_def)

lemma no_events_inv: "queue_inv no_events" "events no_events = []"
  by (simp_all add: queue_inv_def no_events_def events_def EVENT_QUEUE_MAX_def)

lemma queue_pop_result: "queue_inv q \<Longrightarrow> snd (queue_pop n q) = (case events q of [] \<Rightarrow> None | e # _ \<Rightarrow> Some (take n e))"
  by (cases "queue_count q") (auto simp: queue_pop_def events_def queue_inv_def upt_conv_Cons simp del: upt_Suc)

interpretation ring: lossy_queue "queue_push sz" queue_pop no_events events queue_inv EVENT_QUEUE_MAX "take sz" take for sz
  by unfold_locales
    (simp_all add: no_events_inv queue_inv_push events_push queue_inv_pop events_pop queue_pop_result)

text \<open>
  When more than eight events arrive before they are read, the last eight are read, in the order of their arrival,
  each cut to the size of a slot and of the reader's buffer.
\<close>

theorem queue_keeps_last:
  assumes "EVENT_QUEUE_MAX \<le> length es"
  shows "pops (queue_pop n) EVENT_QUEUE_MAX (fold (queue_push sz) es no_events) =
    map (\<lambda>e. Some (take n (take sz e))) (drop (length es - EVENT_QUEUE_MAX) es)"
  by (rule ring.last_events [OF assms])

theorem queue_keeps_last_witness:
  "pops (queue_pop 300) EVENT_QUEUE_MAX (fold (queue_push 260) (map (\<lambda>i. [word_of_nat i]) [0..<9]) no_events) =
    map (\<lambda>i. Some [word_of_nat i]) [1..<9]"
  using queue_keeps_last [of "map (\<lambda>i. [word_of_nat i]) [0..<9]" 300 260]
  by (simp add: EVENT_QUEUE_MAX_def drop_map comp_def del: upt_Suc)

end
