(* ===== verification/Fm_Proto.thy ===== *)
theory Fm_Proto
  imports Fm_Queue
begin

text \<open>
  The register protocol of the FM receiver, \<open>fmradio/fm_proto.c\<close> and \<open>fm_proto.h\<close>: reading and writing registers through a transport,
  and what the daemon does with them. A transport is a pair of functions on a state \<open>'s\<close>, which holds the input still
  to come, time-outs included; a result that C returns as a negative number is \<open>None\<close>, or \<open>False\<close> where only
  success is reported. The delays are left out. A loop that does not return is \<open>None\<close> of the outer option.
\<close>

unbundle bit_operations_syntax

subsection \<open>Registers\<close>

definition FM_VSC_OPCODE :: "16 word" where "FM_VSC_OPCODE = 0xfc15"
definition FM_VSE_SUBCODE :: byte where "FM_VSE_SUBCODE = 0x08"

definition FM_REG_RDS_SYS :: byte where "FM_REG_RDS_SYS = 0x00"
definition FM_REG_FM_CTRL :: byte where "FM_REG_FM_CTRL = 0x01"
definition FM_REG_AUD_CTL0 :: byte where "FM_REG_AUD_CTL0 = 0x05"
definition FM_REG_SCH_CTL0 :: byte where "FM_REG_SCH_CTL0 = 0x07"
definition FM_REG_SCH_TUNE :: byte where "FM_REG_SCH_TUNE = 0x09"
definition FM_REG_FM_FREQ :: byte where "FM_REG_FM_FREQ = 0x0a"
definition FM_REG_RSSI :: byte where "FM_REG_RSSI = 0x0f"
definition FM_REG_FM_RDS_MSK :: byte where "FM_REG_FM_RDS_MSK = 0x10"
definition FM_REG_FM_RDS_FLAG :: byte where "FM_REG_FM_RDS_FLAG = 0x12"
definition FM_REG_RDS_DATA :: byte where "FM_REG_RDS_DATA = 0x80"
definition FM_REG_SNR :: byte where "FM_REG_SNR = 0xdf"
definition FM_REG_VOLUME_CTRL :: byte where "FM_REG_VOLUME_CTRL = 0xf8"
definition FM_REG_SEARCH_BOUND :: byte where "FM_REG_SEARCH_BOUND = 0xfb"
definition FM_REG_SEARCH_METH :: byte where "FM_REG_SEARCH_METH = 0xfc"
definition FM_REG_SCH_STEP :: byte where "FM_REG_SCH_STEP = 0xfd"
definition FM_REG_PRESET_MAX :: byte where "FM_REG_PRESET_MAX = 0xfe"

definition FM_REG_RD :: byte where "FM_REG_RD = 0x01"
definition FM_REG_WR :: byte where "FM_REG_WR = 0x00"

definition FM_SYS_OFF :: byte where "FM_SYS_OFF = 0x00"
definition FM_SYS_ON :: byte where "FM_SYS_ON = 0x01"
definition FM_SYS_RDS_ON :: byte where "FM_SYS_RDS_ON = 0x02"

definition FM_CTRL_BAND_WEST :: byte where "FM_CTRL_BAND_WEST = 0x00"
definition FM_CTRL_STEREO_AUTO :: byte where "FM_CTRL_STEREO_AUTO = 0x02"

definition FM_AUD_MANUAL_MUTE :: "16 word" where "FM_AUD_MANUAL_MUTE = 0x0002"
definition FM_AUD_ZMUTE_L_OFF :: "16 word" where "FM_AUD_ZMUTE_L_OFF = 0x0004"
definition FM_AUD_ZMUTE_R_OFF :: "16 word" where "FM_AUD_ZMUTE_R_OFF = 0x0008"
definition FM_AUD_DAC_ON :: "16 word" where "FM_AUD_DAC_ON = 0x0010"
definition FM_AUD_I2S_ON :: "16 word" where "FM_AUD_I2S_ON = 0x0020"

definition FM_TUNE_MODE_PRESET :: byte where "FM_TUNE_MODE_PRESET = 0x01"
definition FM_TUNE_MODE_SEEK :: byte where "FM_TUNE_MODE_SEEK = 0x02"
definition FM_SCAN_UP :: byte where "FM_SCAN_UP = 0x80"

definition FM_MASK_TUNE_CMPL :: "16 word" where "FM_MASK_TUNE_CMPL = 0x0001"
definition FM_MASK_TUNE_FAIL :: "16 word" where "FM_MASK_TUNE_FAIL = 0x0002"

definition FM_STEP_100KHZ :: byte where "FM_STEP_100KHZ = 0x00"

definition FM_SCAN_METHOD_NORMAL :: byte where "FM_SCAN_METHOD_NORMAL = 0x00"
definition FM_SCAN_DIRECT_MASK :: byte where "FM_SCAN_DIRECT_MASK = 0xf0"
definition FM_DEFAULT_RSSI_THRESH :: byte where "FM_DEFAULT_RSSI_THRESH = 105"

text \<open>Two bytes of a register, low byte first.\<close>

definition le16 :: "byte \<Rightarrow> byte \<Rightarrow> 16 word" where
  "le16 a b = ucast a OR push_bit 8 (ucast b)"

definition bytes16 :: "16 word \<Rightarrow> byte list" where
  "bytes16 v = [ucast (v AND 0xff), ucast (drop_bit 8 v)]"

definition fm_khz_to_reg :: "32 word \<Rightarrow> 16 word" where
  "fm_khz_to_reg khz = ucast (khz - 64000)"

definition fm_reg_to_khz :: "16 word \<Rightarrow> 32 word" where
  "fm_reg_to_khz reg = ucast reg + 64000"

subsection \<open>The transport\<close>

record 's fm_transport =
  vsc :: "byte list \<Rightarrow> nat \<Rightarrow> 's \<Rightarrow> 's \<times> byte list option"
  wait_event :: "nat \<Rightarrow> 's \<Rightarrow> 's \<times> byte list option"

definition fm_reg_write :: "'s fm_transport \<Rightarrow> byte \<Rightarrow> byte list \<Rightarrow> 's \<Rightarrow> 's \<times> bool" where
  "fm_reg_write t reg val s =
    (if length val > 62 then (s, False)
     else (case vsc t (reg # FM_REG_WR # val) 64 s of
             (s1, None) \<Rightarrow> (s1, False)
           | (s1, Some resp) \<Rightarrow> (s1, \<not> (length resp < 1 \<or> resp ! 0 \<noteq> 0))))"

definition fm_reg_write8 :: "'s fm_transport \<Rightarrow> byte \<Rightarrow> byte \<Rightarrow> 's \<Rightarrow> 's \<times> bool" where
  "fm_reg_write8 t reg val = fm_reg_write t reg [val]"

definition fm_reg_write16 :: "'s fm_transport \<Rightarrow> byte \<Rightarrow> 16 word \<Rightarrow> 's \<Rightarrow> 's \<times> bool" where
  "fm_reg_write16 t reg val = fm_reg_write t reg (bytes16 val)"

definition fm_reg_read :: "'s fm_transport \<Rightarrow> byte \<Rightarrow> byte \<Rightarrow> nat \<Rightarrow> 's \<Rightarrow> 's \<times> byte list option" where
  "fm_reg_read t reg len outsz s =
    (case vsc t [reg, FM_REG_RD, len] 128 s of
       (s1, None) \<Rightarrow> (s1, None)
     | (s1, Some resp) \<Rightarrow>
         (s1, if length resp < 3 \<or> resp ! 0 \<noteq> 0 then None else Some (take outsz (drop 3 resp))))"

text \<open>A register of one byte, and of two; shorter answers are refused.\<close>

definition read_reg8 :: "'s fm_transport \<Rightarrow> byte \<Rightarrow> 's \<Rightarrow> 's \<times> byte option" where
  "read_reg8 t reg s =
    (case fm_reg_read t reg 1 1 s of
       (s1, None) \<Rightarrow> (s1, None)
     | (s1, Some b) \<Rightarrow> (s1, if length b < 1 then None else Some (b ! 0)))"

definition read_reg16 :: "'s fm_transport \<Rightarrow> byte \<Rightarrow> 's \<Rightarrow> 's \<times> 16 word option" where
  "read_reg16 t reg s =
    (case fm_reg_read t reg 2 2 s of
       (s1, None) \<Rightarrow> (s1, None)
     | (s1, Some b) \<Rightarrow> (s1, if length b < 2 then None else Some (le16 (b ! 0) (b ! 1))))"

text \<open>\<open>if (f < 0) return -1;\<close> before the rest of a function.\<close>

definition then_do :: "'s \<times> bool \<Rightarrow> ('s \<Rightarrow> 's \<times> bool) \<Rightarrow> 's \<times> bool" where
  "then_do r k = (case r of (s, ok) \<Rightarrow> if ok then k s else (s, False))"

definition then_try :: "'s \<times> bool \<Rightarrow> ('s \<Rightarrow> ('s \<times> 'r option) mem) \<Rightarrow> ('s \<times> 'r option) mem" where
  "then_try r k = (case r of (s, ok) \<Rightarrow> if ok then k s else Some (s, None))"

subsection \<open>Settings\<close>

definition fm_set_mute :: "'s fm_transport \<Rightarrow> bool \<Rightarrow> 's \<Rightarrow> 's \<times> bool" where
  "fm_set_mute t mute s =
    (case read_reg16 t FM_REG_AUD_CTL0 s of
       (s1, None) \<Rightarrow> (s1, False)
     | (s1, Some ctl) \<Rightarrow>
         fm_reg_write16 t FM_REG_AUD_CTL0
           (if mute then ctl OR FM_AUD_MANUAL_MUTE else ctl AND NOT FM_AUD_MANUAL_MUTE) s1)"

definition fm_enable :: "'s fm_transport \<Rightarrow> bool \<Rightarrow> 's \<Rightarrow> 's \<times> bool" where
  "fm_enable t rds s = fm_reg_write8 t FM_REG_RDS_SYS (if rds then FM_SYS_ON OR FM_SYS_RDS_ON else FM_SYS_ON) s"

definition fm_disable :: "'s fm_transport \<Rightarrow> 's \<Rightarrow> 's \<times> bool" where
  "fm_disable t s = fm_reg_write8 t FM_REG_RDS_SYS FM_SYS_OFF (fst (fm_set_mute t True s))"

definition fm_set_band_europe :: "'s fm_transport \<Rightarrow> 's \<Rightarrow> 's \<times> bool" where
  "fm_set_band_europe t s =
    then_do (fm_reg_write16 t FM_REG_SEARCH_BOUND 0 s) (\<lambda>s1.
    then_do (fm_reg_write8 t FM_REG_FM_CTRL (FM_CTRL_STEREO_AUTO OR FM_CTRL_BAND_WEST) s1) (\<lambda>s2.
    fm_reg_write8 t FM_REG_SCH_STEP FM_STEP_100KHZ s2))"

definition fm_set_audio :: "'s fm_transport \<Rightarrow> bool \<Rightarrow> bool \<Rightarrow> bool \<Rightarrow> 's \<Rightarrow> 's \<times> bool" where
  "fm_set_audio t i2s dac muted s =
    fm_reg_write16 t FM_REG_AUD_CTL0
      (FM_AUD_ZMUTE_L_OFF OR FM_AUD_ZMUTE_R_OFF OR (if i2s then FM_AUD_I2S_ON else 0) OR
       (if dac then FM_AUD_DAC_ON else 0) OR (if muted then FM_AUD_MANUAL_MUTE else 0)) s"

definition fm_set_volume :: "'s fm_transport \<Rightarrow> byte \<Rightarrow> 's \<Rightarrow> 's \<times> bool" where
  "fm_set_volume t vol = fm_reg_write8 t FM_REG_VOLUME_CTRL vol"

definition fm_get_frequency :: "'s fm_transport \<Rightarrow> 's \<Rightarrow> 's \<times> 32 word option" where
  "fm_get_frequency t s = (case read_reg16 t FM_REG_FM_FREQ s of (s1, r) \<Rightarrow> (s1, map_option fm_reg_to_khz r))"

definition fm_get_rssi :: "'s fm_transport \<Rightarrow> 's \<Rightarrow> 's \<times> int option" where
  "fm_get_rssi t s = (case read_reg8 t FM_REG_RSSI s of (s1, r) \<Rightarrow> (s1, map_option sint r))"

definition fm_get_snr :: "'s fm_transport \<Rightarrow> 's \<Rightarrow> 's \<times> int option" where
  "fm_get_snr t s = (case read_reg8 t FM_REG_SNR s of (s1, r) \<Rightarrow> (s1, map_option uint r))"

definition fm_read_flags :: "'s fm_transport \<Rightarrow> 's \<Rightarrow> 's \<times> 16 word option" where
  "fm_read_flags t = read_reg16 t FM_REG_FM_RDS_FLAG"

definition fm_enable_rds :: "'s fm_transport \<Rightarrow> bool \<Rightarrow> 's \<Rightarrow> 's \<times> bool" where
  "fm_enable_rds t on_state s =
    (case read_reg8 t FM_REG_RDS_SYS s of
       (s1, None) \<Rightarrow> (s1, False)
     | (s1, Some cur) \<Rightarrow>
         fm_reg_write8 t FM_REG_RDS_SYS (if on_state then cur OR FM_SYS_RDS_ON else cur AND NOT FM_SYS_RDS_ON) s1)"

definition fm_read_rds :: "'s fm_transport \<Rightarrow> nat \<Rightarrow> 's \<Rightarrow> 's \<times> byte list option" where
  "fm_read_rds t bufsz = fm_reg_read t FM_REG_RDS_DATA (if bufsz > 255 then 255 else word_of_nat bufsz) bufsz"

subsection \<open>Tuning and seeking\<close>

text \<open>The loop waits for the event of the receiver; other events are dropped.\<close>

partial_function (option) fm_wait_loop :: "'s fm_transport \<Rightarrow> 's \<Rightarrow> ('s \<times> bool) option" where
  "fm_wait_loop t s =
    (case wait_event t 300 s of
       (s1, None) \<Rightarrow> Some (s1, False)
     | (s1, Some evt) \<Rightarrow>
         if length evt > 2 \<and> evt ! 0 = 0xff \<and> evt ! 2 = FM_VSE_SUBCODE then Some (s1, True) else fm_wait_loop t s1)"

declare fm_wait_loop.simps [code]

definition fm_wait_tune :: "'s fm_transport \<Rightarrow> 's \<Rightarrow> ('s \<times> 16 word option) mem" where
  "fm_wait_tune t s =
    (case fm_wait_loop t s of
       None \<Rightarrow> None
     | Some (s1, False) \<Rightarrow> Some (s1, None)
     | Some (s1, True) \<Rightarrow> Some (fm_read_flags t s1))"

definition fm_tune :: "'s fm_transport \<Rightarrow> 32 word \<Rightarrow> 's \<Rightarrow> ('s \<times> unit option) mem" where
  "fm_tune t khz s =
    then_try (fm_reg_write16 t FM_REG_FM_FREQ (fm_khz_to_reg khz) s) (\<lambda>s1.
    then_try (fm_reg_write16 t FM_REG_FM_RDS_MSK (FM_MASK_TUNE_CMPL OR FM_MASK_TUNE_FAIL) s1) (\<lambda>s2.
    then_try (fm_reg_write8 t FM_REG_SCH_TUNE FM_TUNE_MODE_PRESET s2) (\<lambda>s3.
    (case fm_wait_tune t s3 of
       None \<Rightarrow> None
     | Some (s4, None) \<Rightarrow> Some (s4, None)
     | Some (s4, Some flags) \<Rightarrow> Some (s4, if flags AND FM_MASK_TUNE_FAIL \<noteq> 0 then None else Some ())))))"

definition fm_seek :: "'s fm_transport \<Rightarrow> 32 word \<Rightarrow> bool \<Rightarrow> 's \<Rightarrow> ('s \<times> 32 word option) mem" where
  "fm_seek t start_khz up s =
    then_try (fm_reg_write8 t FM_REG_SEARCH_METH FM_SCAN_METHOD_NORMAL s) (\<lambda>s1.
    then_try (fm_reg_write8 t FM_REG_PRESET_MAX 0 s1) (\<lambda>s2.
    then_try (fm_reg_write8 t FM_REG_SCH_CTL0
      (FM_DEFAULT_RSSI_THRESH OR ((if up then FM_SCAN_UP else 0) AND FM_SCAN_DIRECT_MASK)) s2) (\<lambda>s3.
    then_try (fm_reg_write16 t FM_REG_FM_FREQ (fm_khz_to_reg start_khz) s3) (\<lambda>s4.
    then_try (fm_reg_write16 t FM_REG_FM_RDS_MSK (FM_MASK_TUNE_CMPL OR FM_MASK_TUNE_FAIL) s4) (\<lambda>s5.
    then_try (fm_reg_write8 t FM_REG_SCH_TUNE FM_TUNE_MODE_SEEK s5) (\<lambda>s6.
    (case fm_wait_tune t s6 of
       None \<Rightarrow> None
     | Some (s7, None) \<Rightarrow> Some (s7, None)
     | Some (s7, Some flags) \<Rightarrow>
         if flags AND FM_MASK_TUNE_FAIL \<noteq> 0 then Some (s7, None) else Some (fm_get_frequency t s7))))))))"

end
