(* ===== verification/Fm_Hci.thy ===== *)
theory Fm_Hci
  imports Fm_Proto
begin

text \<open>
  The transport through the Bluetooth stack, \<open>fmradio/fm_hci.c\<close>: messages on a socket that keeps their boundaries. What the peer will
  send is a list, in which \<open>None\<close> is a time-out or an error of \<open>poll\<close> and \<open>recv\<close>; after its end \<open>poll\<close> times out. Whether
  a message can be sent is an oracle over the number of messages sent.
\<close>

subsection \<open>Messages\<close>

definition OP_ACQUIRE :: byte where "OP_ACQUIRE = 0x01"
definition OP_RELEASE :: byte where "OP_RELEASE = 0x02"
definition OP_COMMAND :: byte where "OP_COMMAND = 0x03"
definition OP_EVENT :: byte where "OP_EVENT = 0x04"
definition OP_ACQUIRE_DONE :: byte where "OP_ACQUIRE_DONE = 0x81"
definition STATUS_OK :: byte where "STATUS_OK = 0x00"
definition EVT_CMD_COMPLETE :: byte where "EVT_CMD_COMPLETE = 0x0e"
definition EVT_VENDOR :: byte where "EVT_VENDOR = 0xff"
definition MAX_MESSAGE :: nat where "MAX_MESSAGE = 260"

record fm_hci =
  incoming :: "byte list option list"
  sent :: "byte list list"
  send_oracle :: "nat \<Rightarrow> bool"
  hci_queue :: event_queue

definition recv_message :: "nat \<Rightarrow> fm_hci \<Rightarrow> fm_hci \<times> byte list option" where
  "recv_message msgsz h =
    (case incoming h of
       [] \<Rightarrow> (h, None)
     | None # xs \<Rightarrow> (h\<lparr>incoming := xs\<rparr>, None)
     | Some m # xs \<Rightarrow> (h\<lparr>incoming := xs\<rparr>, if take msgsz m = [] then None else Some (take msgsz m)))"

definition send_message :: "byte list \<Rightarrow> fm_hci \<Rightarrow> fm_hci \<times> bool" where
  "send_message msg h = (if send_oracle h (length (sent h)) then (h\<lparr>sent := sent h @ [msg]\<rparr>, True) else (h, False))"

text \<open>The loop of \<open>recv_event\<close> reads messages until one is an event; each message is read once, so it ends.\<close>

lemma recv_message_less:
  "recv_message n h = (h1, Some m) \<Longrightarrow> length (incoming h1) < length (incoming h)"
  by (auto simp: recv_message_def split: list.splits option.splits if_splits)

function recv_event :: "nat \<Rightarrow> fm_hci \<Rightarrow> fm_hci \<times> byte list option" where
  "recv_event evtsz h =
    (case recv_message MAX_MESSAGE h of
       (h1, None) \<Rightarrow> (h1, None)
     | (h1, Some msg) \<Rightarrow>
         if length msg < 2 then (h1, None)
         else if msg ! 0 \<noteq> OP_EVENT then recv_event evtsz h1
         else (h1, Some (take evtsz (tl msg))))"
  by pat_completeness auto
termination by (relation "measure (\<lambda>(_, h). length (incoming h))") (auto dest: recv_message_less [OF sym])

declare recv_event.simps [simp del]

subsection \<open>Commands\<close>

definition complete_opcode :: "byte list \<Rightarrow> 16 word" where
  "complete_opcode evt = le16 (evt ! 3) (evt ! 4)"

fun vsc_tries :: "nat \<Rightarrow> nat \<Rightarrow> fm_hci \<Rightarrow> fm_hci \<times> byte list option" where
  "vsc_tries 0 respsz h = (h, None)"
| "vsc_tries (Suc tries) respsz h =
    (case recv_event MAX_MESSAGE h of
       (h1, None) \<Rightarrow> (h1, None)
     | (h1, Some evt) \<Rightarrow>
         if evt ! 0 = EVT_CMD_COMPLETE \<and> length evt \<ge> 5 then
           (if complete_opcode evt \<noteq> FM_VSC_OPCODE then vsc_tries tries respsz h1
            else (h1, Some (take respsz (drop 5 evt))))
         else vsc_tries tries respsz
           (if evt ! 0 = EVT_VENDOR then h1\<lparr>hci_queue := queue_push MAX_MESSAGE evt (hci_queue h1)\<rparr> else h1))"

definition vsc_message :: "byte list \<Rightarrow> byte list" where
  "vsc_message cmd =
    OP_COMMAND # ucast (FM_VSC_OPCODE AND 0xff) # ucast (drop_bit 8 FM_VSC_OPCODE) # word_of_nat (length cmd) # cmd"

definition hci_vsc :: "byte list \<Rightarrow> nat \<Rightarrow> fm_hci \<Rightarrow> fm_hci \<times> byte list option" where
  "hci_vsc cmd respsz h =
    (case send_message (vsc_message cmd) h of
       (h1, False) \<Rightarrow> (h1, None)
     | (h1, True) \<Rightarrow> vsc_tries 16 respsz h1)"

definition hci_wait_event :: "nat \<Rightarrow> fm_hci \<Rightarrow> fm_hci \<times> byte list option" where
  "hci_wait_event evtsz h =
    (case queue_pop evtsz (hci_queue h) of
       (q, r) \<Rightarrow> (let h1 = h\<lparr>hci_queue := q\<rparr> in
         case r of
           Some (b # bs) \<Rightarrow> (h1, Some (b # bs))
         | _ \<Rightarrow> recv_event evtsz h1))"

definition hci_transport :: "fm_hci fm_transport" where
  "hci_transport = \<lparr>vsc = hci_vsc, wait_event = hci_wait_event\<rparr>"

subsection \<open>Opening and closing\<close>

text \<open>\<open>connected\<close> says whether memory, socket and connection are there; the result is the state of an open transport.\<close>

definition fm_hci_open :: "bool \<Rightarrow> byte list option list \<Rightarrow> (nat \<Rightarrow> bool) \<Rightarrow> fm_hci option" where
  "fm_hci_open connected inp oracle =
    (if \<not> connected then None
     else (case send_message [OP_ACQUIRE] \<lparr>incoming = inp, sent = [], send_oracle = oracle, hci_queue = no_events\<rparr> of
             (h, False) \<Rightarrow> None
           | (h, True) \<Rightarrow>
               (case recv_message 2 h of
                  (h1, None) \<Rightarrow> None
                | (h1, Some msg) \<Rightarrow>
                    if length msg \<noteq> 2 then None
                    else if msg ! 0 \<noteq> OP_ACQUIRE_DONE \<or> msg ! 1 \<noteq> STATUS_OK then None
                    else Some h1)))"

definition fm_hci_close :: "fm_hci \<Rightarrow> fm_hci" where
  "fm_hci_close h =
    (case send_message [OP_RELEASE] h of
       (h1, False) \<Rightarrow> h1
     | (h1, True) \<Rightarrow> fst (recv_message 2 h1))"

end
