(* ===== verification/Fm_Uart.thy ===== *)
theory Fm_Uart
  imports Fm_Hci
begin

text \<open>
  The transport over the serial line, \<open>fmradio/fm_uart.c\<close>: HCI packets on a stream of bytes, and the download of the firmware. The bytes
  to come are a list, in which \<open>None\<close> is a time-out or an error of \<open>poll\<close> and \<open>read\<close>; after its end \<open>poll\<close> times out.
  In how many pieces the bytes arrive makes no difference to \<open>read_exact\<close>.
\<close>

definition HCI_COMMAND_PKT :: byte where "HCI_COMMAND_PKT = 0x01"
definition HCI_EVENT_PKT :: byte where "HCI_EVENT_PKT = 0x04"
definition HCI_RESET :: "16 word" where "HCI_RESET = 0x0c03"
definition HCI_READ_LOCAL_NAME :: "16 word" where "HCI_READ_LOCAL_NAME = 0x0c14"
definition HCI_VSC_DOWNLOAD_MINIDRV :: "16 word" where "HCI_VSC_DOWNLOAD_MINIDRV = 0xfc2e"

record fm_uart =
  line_in :: "byte option list"
  line_out :: "byte list list"
  write_oracle :: "nat \<Rightarrow> bool"
  uart_queue :: event_queue
  chip_name :: "byte list"

subsection \<open>Packets\<close>

fun read_bytes :: "nat \<Rightarrow> byte option list \<Rightarrow> byte option list \<times> byte list option" where
  "read_bytes 0 xs = (xs, Some [])"
| "read_bytes (Suc n) [] = ([], None)"
| "read_bytes (Suc n) (None # xs) = (xs, None)"
| "read_bytes (Suc n) (Some b # xs) = (case read_bytes n xs of (ys, r) \<Rightarrow> (ys, map_option (Cons b) r))"

definition read_exact :: "nat \<Rightarrow> fm_uart \<Rightarrow> fm_uart \<times> byte list option" where
  "read_exact n u = (case read_bytes n (line_in u) of (xs, r) \<Rightarrow> (u\<lparr>line_in := xs\<rparr>, r))"

definition hci_packet :: "16 word \<Rightarrow> byte list \<Rightarrow> byte list" where
  "hci_packet opcode param =
    HCI_COMMAND_PKT # ucast (opcode AND 0xff) # ucast (drop_bit 8 opcode) # word_of_nat (length param) # param"

definition hci_send :: "16 word \<Rightarrow> byte list \<Rightarrow> fm_uart \<Rightarrow> fm_uart \<times> bool" where
  "hci_send opcode param u =
    (if write_oracle u (length (line_out u)) then (u\<lparr>line_out := line_out u @ [hci_packet opcode param]\<rparr>, True) else (u, False))"

text \<open>Bytes before the start of an event packet are skipped.\<close>

fun skip_to_event :: "byte option list \<Rightarrow> byte option list \<times> bool" where
  "skip_to_event [] = ([], False)"
| "skip_to_event (None # xs) = (xs, False)"
| "skip_to_event (Some b # xs) = (if b = HCI_EVENT_PKT then (xs, True) else skip_to_event xs)"

definition hci_recv :: "nat \<Rightarrow> fm_uart \<Rightarrow> fm_uart \<times> byte list option" where
  "hci_recv evtsz u =
    (case skip_to_event (line_in u) of
       (xs, False) \<Rightarrow> (u\<lparr>line_in := xs\<rparr>, None)
     | (xs, True) \<Rightarrow>
         (case read_exact 2 (u\<lparr>line_in := xs\<rparr>) of
            (u1, None) \<Rightarrow> (u1, None)
          | (u1, Some hdr) \<Rightarrow>
              if int (unat (hdr ! 1)) > int evtsz - 2 then (u1, None)
              else (case read_exact (unat (hdr ! 1)) u1 of
                      (u2, None) \<Rightarrow> (u2, None)
                    | (u2, Some bs) \<Rightarrow> (u2, Some (hdr @ bs)))))"

fun command_tries :: "nat \<Rightarrow> 16 word \<Rightarrow> nat \<Rightarrow> fm_uart \<Rightarrow> fm_uart \<times> byte list option" where
  "command_tries 0 opcode respsz u = (u, None)"
| "command_tries (Suc tries) opcode respsz u =
    (case hci_recv 300 u of
       (u1, None) \<Rightarrow> (u1, None)
     | (u1, Some evt) \<Rightarrow>
         if evt ! 0 = EVT_CMD_COMPLETE \<and> length evt \<ge> 5 then
           (if complete_opcode evt \<noteq> opcode then command_tries tries opcode respsz u1
            else (u1, Some (take respsz (drop 5 evt))))
         else command_tries tries opcode respsz
           (if evt ! 0 = EVT_VENDOR then u1\<lparr>uart_queue := queue_push 300 evt (uart_queue u1)\<rparr> else u1))"

definition hci_command :: "16 word \<Rightarrow> byte list \<Rightarrow> nat \<Rightarrow> fm_uart \<Rightarrow> fm_uart \<times> byte list option" where
  "hci_command opcode param respsz u =
    (case hci_send opcode param u of
       (u1, False) \<Rightarrow> (u1, None)
     | (u1, True) \<Rightarrow> command_tries 16 opcode respsz u1)"

definition uart_wait_event :: "nat \<Rightarrow> fm_uart \<Rightarrow> fm_uart \<times> byte list option" where
  "uart_wait_event evtsz u =
    (case queue_pop evtsz (uart_queue u) of
       (q, r) \<Rightarrow> (let u1 = u\<lparr>uart_queue := q\<rparr> in
         case r of
           Some (b # bs) \<Rightarrow> (u1, Some (b # bs))
         | _ \<Rightarrow> hci_recv evtsz u1))"

definition uart_transport :: "fm_uart fm_transport" where
  "uart_transport = \<lparr>vsc = hci_command FM_VSC_OPCODE, wait_event = uart_wait_event\<rparr>"

subsection \<open>The firmware\<close>

text \<open>
  The records of the firmware file: opcode, length, parameters. The loop ends at the end of the file, and also at a record that
  is cut off; the count says how many records were sent.
\<close>

function download_records :: "byte list \<Rightarrow> nat \<Rightarrow> fm_uart \<Rightarrow> fm_uart \<times> nat option" where
  "download_records file n u =
    (if length file < 3 then (u, Some n)
     else (let op = le16 (file ! 0) (file ! 1); len = unat (file ! 2); rest = drop 3 file in
           if length rest < len then (u, Some n)
           else (case hci_command op (take len rest) 64 u of
                   (u1, None) \<Rightarrow> (u1, None)
                 | (u1, Some _) \<Rightarrow> download_records (drop len rest) (n + 1) u1)))"
  by pat_completeness auto
termination by (relation "measure (\<lambda>(file, _, _). length file)") auto

declare download_records.simps [simp del]

definition download_firmware :: "byte list option \<Rightarrow> fm_uart \<Rightarrow> fm_uart \<times> bool" where
  "download_firmware firmware u =
    (case firmware of
       None \<Rightarrow> (u, False)
     | Some file \<Rightarrow>
         (case hci_command HCI_VSC_DOWNLOAD_MINIDRV [] 64 u of
            (u1, None) \<Rightarrow> (u1, False)
          | (u1, Some _) \<Rightarrow>
              (case download_records file 0 u1 of
                 (u2, None) \<Rightarrow> (u2, False)
               | (u2, Some n) \<Rightarrow>
                   if n = 0 then (u2, False)
                   else (case hci_command HCI_RESET [] 64 u2 of (u3, r) \<Rightarrow> (u3, r \<noteq> None)))))"

subsection \<open>Opening\<close>

text \<open>
  \<open>prepared\<close> says whether memory, the power switch, the terminal and its configuration are there. The name of the chip is cut so
  that its terminating zero fits.
\<close>

definition fm_uart_open :: "bool \<Rightarrow> byte list option \<Rightarrow> byte option list \<Rightarrow> (nat \<Rightarrow> bool) \<Rightarrow> fm_uart option" where
  "fm_uart_open prepared firmware inp oracle =
    (if \<not> prepared then None
     else (case hci_command HCI_RESET [] 260
             \<lparr>line_in = inp, line_out = [], write_oracle = oracle, uart_queue = no_events, chip_name = []\<rparr> of
             (u, None) \<Rightarrow> None
           | (u, Some _) \<Rightarrow>
               (case download_firmware firmware u of
                  (u1, False) \<Rightarrow> None
                | (u1, True) \<Rightarrow>
                    (case hci_command HCI_READ_LOCAL_NAME [] 260 u1 of
                       (u2, None) \<Rightarrow> Some u2
                     | (u2, Some resp) \<Rightarrow>
                         Some (if length resp > 1 then u2\<lparr>chip_name := take 63 (drop 1 resp)\<rparr> else u2)))))"

text \<open>The name up to its zero, as the daemon prints it into a buffer of \<open>outsz\<close> bytes.\<close>

definition fm_uart_chip_name :: "nat \<Rightarrow> fm_uart \<Rightarrow> byte list" where
  "fm_uart_chip_name outsz u = take (outsz - 1) (takeWhile (\<lambda>b. b \<noteq> 0) (chip_name u))"

end
