(* ===== verification/Fm_Link.thy ===== *)
theory Fm_Link
  imports Fm_Uart
begin

text \<open>
  What the register protocol relies on in a transport, as a contract: a command is sent at most once, answers and events fit the
  reader's buffer, and every event that is read uses up input, so that waiting ends when the input does. Both transports keep it.
\<close>

subsection \<open>The contract\<close>

text \<open>Some of the commands \<open>cs\<close> were sent, from the first one on; all of them, if the operation succeeded.\<close>

definition transfers :: "('s \<Rightarrow> bool) \<Rightarrow> ('s \<Rightarrow> nat) \<Rightarrow> ('s \<Rightarrow> byte list list) \<Rightarrow> byte list list \<Rightarrow> bool \<Rightarrow> 's \<Rightarrow> 's \<Rightarrow> bool" where
  "transfers valid left cmds cs ok s s1 \<longleftrightarrow>
    valid s1 \<and> left s1 \<le> left s \<and> (\<exists>k. cmds s1 = cmds s @ take k cs) \<and> (ok \<longrightarrow> cmds s1 = cmds s @ cs)"

definition tune_commands :: "32 word \<Rightarrow> byte list list" where
  "tune_commands khz =
    [FM_REG_FM_FREQ # FM_REG_WR # bytes16 (fm_khz_to_reg khz),
     FM_REG_FM_RDS_MSK # FM_REG_WR # bytes16 (FM_MASK_TUNE_CMPL OR FM_MASK_TUNE_FAIL),
     [FM_REG_SCH_TUNE, FM_REG_WR, FM_TUNE_MODE_PRESET],
     [FM_REG_FM_RDS_FLAG, FM_REG_RD, 2]]"

definition seek_commands :: "32 word \<Rightarrow> bool \<Rightarrow> byte list list" where
  "seek_commands khz up =
    [[FM_REG_SEARCH_METH, FM_REG_WR, FM_SCAN_METHOD_NORMAL],
     [FM_REG_PRESET_MAX, FM_REG_WR, 0],
     [FM_REG_SCH_CTL0, FM_REG_WR, FM_DEFAULT_RSSI_THRESH OR ((if up then FM_SCAN_UP else 0) AND FM_SCAN_DIRECT_MASK)],
     FM_REG_FM_FREQ # FM_REG_WR # bytes16 (fm_khz_to_reg khz),
     FM_REG_FM_RDS_MSK # FM_REG_WR # bytes16 (FM_MASK_TUNE_CMPL OR FM_MASK_TUNE_FAIL),
     [FM_REG_SCH_TUNE, FM_REG_WR, FM_TUNE_MODE_SEEK],
     [FM_REG_FM_RDS_FLAG, FM_REG_RD, 2]]"

locale fm_link =
  fixes t :: "'s fm_transport" and left :: "'s \<Rightarrow> nat" and cmds :: "'s \<Rightarrow> byte list list" and valid :: "'s \<Rightarrow> bool"
  assumes vsc_valid: "valid s \<Longrightarrow> length cmd \<le> 255 \<Longrightarrow> valid (fst (vsc t cmd n s)) \<and> left (fst (vsc t cmd n s)) \<le> left s"
    and vsc_sent: "valid s \<Longrightarrow> length cmd \<le> 255 \<Longrightarrow> cmds (fst (vsc t cmd n s)) = cmds s @ [cmd] \<or>
      cmds (fst (vsc t cmd n s)) = cmds s \<and> snd (vsc t cmd n s) = None"
    and vsc_answer: "valid s \<Longrightarrow> snd (vsc t cmd n s) = Some r \<Longrightarrow> length r \<le> n"
    and wait_valid: "valid s \<Longrightarrow> valid (fst (wait_event t n s)) \<and> cmds (fst (wait_event t n s)) = cmds s \<and>
      left (fst (wait_event t n s)) \<le> left s"
    and wait_event: "valid s \<Longrightarrow> snd (wait_event t n s) = Some e \<Longrightarrow> length e \<le> n \<and> left (fst (wait_event t n s)) < left s"
begin

abbreviation sends :: "byte list list \<Rightarrow> bool \<Rightarrow> 's \<Rightarrow> 's \<Rightarrow> bool" where
  "sends \<equiv> transfers valid left cmds"

lemmas sends_def = transfers_def [of valid left cmds]

lemma sendsI:
  assumes "valid s1" "left s1 \<le> left s" "cmds s1 = cmds s @ take k cs" "ok \<Longrightarrow> cmds s1 = cmds s @ cs"
  shows "sends cs ok s s1"
  using assms unfolding sends_def by blast

lemma sends_refl: "valid s \<Longrightarrow> sends [] ok s s"
  by (simp add: sends_def)

lemma sends_none: "valid s \<Longrightarrow> sends cs False s s"
  by (auto simp: sends_def intro: exI [of _ 0])

lemma sends_all: "valid s1 \<Longrightarrow> left s1 \<le> left s \<Longrightarrow> cmds s1 = cmds s @ cs \<Longrightarrow> sends cs ok s s1"
  by (auto simp: sends_def intro: exI [of _ "length cs"])

lemma sends_weaken: "sends cs ok s s1 \<Longrightarrow> (ok' \<Longrightarrow> ok) \<Longrightarrow> sends cs ok' s s1"
  by (auto simp: sends_def)

lemma sends_fail:
  assumes "sends cs ok s s1"
  shows "sends (cs @ ds) False s s1"
proof -
  obtain k where "cmds s1 = cmds s @ take k cs" using assms by (auto simp: sends_def)
  moreover have "take (min k (length cs)) (cs @ ds) = take k cs" by (simp add: min_def)
  ultimately have "cmds s1 = cmds s @ take (min k (length cs)) (cs @ ds)" by simp
  from sendsI [OF _ _ this] show ?thesis using assms by (simp add: sends_def)
qed

lemma sends_trans:
  assumes "sends cs True s s1" "sends ds ok s1 s2"
  shows "sends (cs @ ds) ok s s2"
proof -
  obtain k where "cmds s2 = cmds s1 @ take k ds" using assms(2) by (auto simp: sends_def)
  moreover have "take (length cs + k) (cs @ ds) = cs @ take k ds" by simp
  ultimately have "cmds s2 = cmds s @ take (length cs + k) (cs @ ds)" using assms(1) by (simp add: sends_def)
  from sendsI [OF _ _ this] show ?thesis using assms by (simp add: sends_def)
qed

lemma reg_write_sends:
  assumes "valid s" "fm_reg_write t reg val s = (s1, ok)"
  shows "sends [reg # FM_REG_WR # val] ok s s1"
proof (cases "length val > 62")
  case True
  with assms show ?thesis by (simp add: fm_reg_write_def sends_none)
next
  case False
  let ?c = "reg # FM_REG_WR # val"
  have l: "length ?c \<le> 255" using False by simp
  obtain r where v: "vsc t ?c 64 s = (s1, r)" "ok \<longrightarrow> r \<noteq> None"
    using assms(2) False by (auto simp: fm_reg_write_def split: prod.splits option.splits)
  then show ?thesis using vsc_valid [OF assms(1) l, of 64] vsc_sent [OF assms(1) l, of 64]
    by (auto simp: sends_def intro: exI [of _ 0] exI [of _ 1])
qed

lemma reg_read_sends:
  assumes "valid s" "fm_reg_read t reg len outsz s = (s1, r)"
  shows "sends [[reg, FM_REG_RD, len]] (r \<noteq> None) s s1" "r = Some bs \<Longrightarrow> length bs \<le> outsz"
proof -
  let ?c = "[reg, FM_REG_RD, len]"
  have l: "length ?c \<le> 255" by simp
  obtain q where v: "vsc t ?c 128 s = (s1, q)" "r \<noteq> None \<longrightarrow> q \<noteq> None"
    using assms(2) by (auto simp: fm_reg_read_def split: prod.splits option.splits)
  then show "sends [?c] (r \<noteq> None) s s1" using vsc_valid [OF assms(1) l, of 128] vsc_sent [OF assms(1) l, of 128]
    by (auto simp: sends_def intro: exI [of _ 0] exI [of _ 1])
  show "r = Some bs \<Longrightarrow> length bs \<le> outsz"
    using assms(2) by (auto simp: fm_reg_read_def split: prod.splits option.splits if_splits)
qed

lemma read16_sends:
  assumes "valid s" "read_reg16 t reg s = (s1, r)"
  shows "sends [[reg, FM_REG_RD, 2]] (r \<noteq> None) s s1"
proof -
  obtain q where q: "fm_reg_read t reg 2 2 s = (s1, q)" "r \<noteq> None \<longrightarrow> q \<noteq> None"
    using assms(2) by (auto simp: read_reg16_def split: prod.splits option.splits)
  show ?thesis using reg_read_sends(1) [OF assms(1) q(1)] q(2) by (auto simp: sends_def)
qed

subsection \<open>Waiting ends\<close>

lemma wait_loop_ends:
  assumes "valid s"
  shows "\<exists>s1 ok. fm_wait_loop t s = Some (s1, ok) \<and> sends [] ok s s1"
  using assms
proof (induction "left s" arbitrary: s rule: less_induct)
  case less
  obtain s1 r where w: "wait_event t 300 s = (s1, r)" by fastforce
  have v: "valid s1" "cmds s1 = cmds s" "left s1 \<le> left s" using wait_valid [OF less.prems, of 300] w by simp_all
  show ?case
  proof (cases r)
    case None
    then show ?thesis using v w by (intro exI [of _ s1] exI [of _ False]) (simp add: fm_wait_loop.simps [of t s] sends_def)
  next
    case (Some e)
    then have "left s1 < left s" using wait_event [OF less.prems, of 300] w by simp
    from less.hyps [OF this v(1)] Some w v show ?thesis
      by (auto simp: fm_wait_loop.simps [of t s] sends_def)
  qed
qed

lemma wait_tune_ends:
  assumes "valid s"
  shows "\<exists>s1 r. fm_wait_tune t s = Some (s1, r) \<and> sends [[FM_REG_FM_RDS_FLAG, FM_REG_RD, 2]] (r \<noteq> None) s s1"
proof -
  obtain s1 ok where w: "fm_wait_loop t s = Some (s1, ok)" "sends [] ok s s1" using wait_loop_ends [OF assms] by blast
  show ?thesis
  proof (cases ok)
    case False
    with w sends_fail [OF w(2), of "[[FM_REG_FM_RDS_FLAG, FM_REG_RD, 2]]"] show ?thesis by (simp add: fm_wait_tune_def)
  next
    case True
    obtain s2 r where f: "fm_read_flags t s1 = (s2, r)" by fastforce
    have v: "valid s1" using w(2) by (simp add: sends_def)
    have "sends ([] @ [[FM_REG_FM_RDS_FLAG, FM_REG_RD, 2]]) (r \<noteq> None) s s2"
      by (rule sends_trans [OF _ read16_sends [OF v f [unfolded fm_read_flags_def]]]) (use w(2) True in simp)
    with w(1) True f show ?thesis by (simp add: fm_wait_tune_def)
  qed
qed

text \<open>Chains of checked writes.\<close>

lemma then_try_sends:
  assumes "valid s" "fm_reg_write t reg val s = (s1, ok)"
    and "\<And>s2. valid s2 \<Longrightarrow> \<exists>s3 r. k s2 = Some (s3, r) \<and> sends ds (r \<noteq> None) s2 s3"
  shows "\<exists>s3 r. then_try (s1, ok) k = Some (s3, r) \<and> sends ((reg # FM_REG_WR # val) # ds) (r \<noteq> None) s s3"
proof (cases ok)
  case False
  with sends_fail [OF reg_write_sends [OF assms(1,2)], of ds] show ?thesis by (simp add: then_try_def)
next
  case True
  have w: "sends [reg # FM_REG_WR # val] True s s1" using reg_write_sends [OF assms(1,2)] True by simp
  then have "valid s1" by (simp add: sends_def)
  then obtain s3 r where "k s1 = Some (s3, r)" "sends ds (r \<noteq> None) s1 s3" using assms(3) by blast
  with sends_trans [OF w, of ds] True show ?thesis by (simp add: then_try_def)
qed

lemma then_try_write:
  assumes "valid s" "\<And>s2. valid s2 \<Longrightarrow> \<exists>s3 r. k s2 = Some (s3, r) \<and> sends ds (r \<noteq> None) s2 s3"
  shows "\<exists>s3 r. then_try (fm_reg_write t reg val s) k = Some (s3, r) \<and> sends ((reg # FM_REG_WR # val) # ds) (r \<noteq> None) s s3"
proof (cases "fm_reg_write t reg val s")
  case (Pair s1 ok)
  from then_try_sends [OF assms(1) Pair assms(2)] show ?thesis unfolding Pair .
qed

lemma tune_sends:
  assumes "valid s"
  shows "\<exists>s1 r. fm_tune t khz s = Some (s1, r) \<and> sends (tune_commands khz) (r \<noteq> None) s s1"
  unfolding fm_tune_def fm_reg_write16_def fm_reg_write8_def tune_commands_def
proof (rule then_try_write [OF assms], rule then_try_write, assumption, rule then_try_write, assumption)
  fix s assume "valid s"
  then obtain s1 r where "fm_wait_tune t s = Some (s1, r)" "sends [[FM_REG_FM_RDS_FLAG, FM_REG_RD, 2]] (r \<noteq> None) s s1"
    using wait_tune_ends by blast
  then show "\<exists>s3 r. (case fm_wait_tune t s of None \<Rightarrow> None | Some (s4, None) \<Rightarrow> Some (s4, None)
       | Some (s4, Some flags) \<Rightarrow> Some (s4, if flags AND FM_MASK_TUNE_FAIL \<noteq> 0 then None else Some ())) = Some (s3, r) \<and>
     sends [[FM_REG_FM_RDS_FLAG, FM_REG_RD, 2]] (r \<noteq> None) s s3"
    by (cases r) (auto elim: sends_weaken)
qed

lemma seek_sends:
  assumes "valid s"
  shows "\<exists>s1 r. fm_seek t khz up s = Some (s1, r) \<and>
    sends (seek_commands khz up @ [[FM_REG_FM_FREQ, FM_REG_RD, 2]]) (r \<noteq> None) s s1"
  unfolding fm_seek_def fm_reg_write16_def fm_reg_write8_def seek_commands_def append_Cons append_Nil
proof (rule then_try_write [OF assms], (rule then_try_write, assumption)+)
  fix s assume v: "valid s"
  let ?l = "[FM_REG_FM_RDS_FLAG, FM_REG_RD, 2]" and ?f = "[FM_REG_FM_FREQ, FM_REG_RD, 2]"
  obtain s1 r where w: "fm_wait_tune t s = Some (s1, r)" "sends [?l] (r \<noteq> None) s s1" using wait_tune_ends [OF v] by blast
  show "\<exists>s3 r. (case fm_wait_tune t s of None \<Rightarrow> None | Some (s7, None) \<Rightarrow> Some (s7, None)
       | Some (s7, Some flags) \<Rightarrow>
         if flags AND FM_MASK_TUNE_FAIL \<noteq> 0 then Some (s7, None) else Some (fm_get_frequency t s7)) = Some (s3, r) \<and>
     sends [?l, ?f] (r \<noteq> None) s s3"
  proof (cases "\<exists>flags. r = Some flags \<and> flags AND FM_MASK_TUNE_FAIL = 0")
    case False
    with w(1) sends_fail [OF w(2), of "[?f]"] show ?thesis by (cases r) auto
  next
    case True
    then have s1: "sends [?l] True s s1" "valid s1" using w(2) by (auto simp: sends_def)
    obtain s2 q where q: "read_reg16 t FM_REG_FM_FREQ s1 = (s2, q)" by fastforce
    from sends_trans [OF s1(1) read16_sends [OF s1(2) q]] have "sends [?l, ?f] (q \<noteq> None) s s2" by simp
    with w(1) True q show ?thesis by (auto simp: fm_get_frequency_def elim: sends_weaken)
  qed
qed

end

subsection \<open>The Bluetooth stack keeps the contract\<close>

definition hci_left :: "fm_hci \<Rightarrow> nat" where
  "hci_left h = length (incoming h) + queue_count (hci_queue h)"

definition hci_cmds :: "fm_hci \<Rightarrow> byte list list" where
  "hci_cmds h = map (drop 4) (filter (\<lambda>m. take 1 m = [OP_COMMAND]) (sent h))"

definition hci_valid :: "fm_hci \<Rightarrow> bool" where
  "hci_valid h \<longleftrightarrow> queue_inv (hci_queue h)"

lemma recv_message_frame:
  "sent (fst (recv_message n h)) = sent h" "hci_queue (fst (recv_message n h)) = hci_queue h"
  "length (incoming (fst (recv_message n h))) \<le> length (incoming h)"
  by (auto simp: recv_message_def split: list.splits option.splits)

lemma recv_event_frame:
  "sent (fst (recv_event n h)) = sent h \<and> hci_queue (fst (recv_event n h)) = hci_queue h \<and>
    length (incoming (fst (recv_event n h))) \<le> length (incoming h) \<and>
    (\<forall>e. snd (recv_event n h) = Some e \<longrightarrow> length e \<le> n \<and> e = take n e \<and> length (incoming (fst (recv_event n h))) < length (incoming h))"
proof (induction n h rule: recv_event.induct)
  case (1 n h)
  obtain h1 r where m: "recv_message MAX_MESSAGE h = (h1, r)" by fastforce
  have f: "sent h1 = sent h" "hci_queue h1 = hci_queue h" "length (incoming h1) \<le> length (incoming h)"
    using recv_message_frame [of MAX_MESSAGE h] m by simp_all
  show ?case
  proof (cases r)
    case None
    then show ?thesis using m f by (simp add: recv_event.simps [of n h])
  next
    case (Some msg)
    then have l: "length (incoming h1) < length (incoming h)" using recv_message_less m by simp
    show ?thesis
    proof (cases "\<not> length msg < 2 \<and> msg ! 0 \<noteq> OP_EVENT")
      case True
      then have "recv_event n h = recv_event n h1" using m Some by (simp add: recv_event.simps [of n h])
      with "1.IH" [OF m [symmetric] Some] True f l show ?thesis by auto
    next
      case False
      then show ?thesis using m Some f l by (auto simp: recv_event.simps [of n h])
    qed
  qed
qed

lemma queue_pop_count: "queue_count (fst (queue_pop n q)) \<le> queue_count q"
  "snd (queue_pop n q) = Some e \<Longrightarrow> queue_count (fst (queue_pop n q)) < queue_count q \<and> length e \<le> n"
  by (auto simp: queue_pop_def split: if_splits)

lemma queue_push_count: "queue_inv q \<Longrightarrow> queue_count (queue_push sz e q) \<le> queue_count q + 1"
  by (auto simp: queue_push_def Let_def queue_inv_def)

lemma vsc_tries_frame:
  assumes "hci_valid h"
  shows "hci_valid (fst (vsc_tries k n h)) \<and> hci_left (fst (vsc_tries k n h)) \<le> hci_left h \<and> sent (fst (vsc_tries k n h)) = sent h \<and>
    (\<forall>r. snd (vsc_tries k n h) = Some r \<longrightarrow> length r \<le> n)"
  using assms
proof (induction k arbitrary: h)
  case (Suc k)
  obtain h1 r where m: "recv_event MAX_MESSAGE h = (h1, r)" by fastforce
  have f: "sent h1 = sent h" "hci_queue h1 = hci_queue h" "length (incoming h1) \<le> length (incoming h)"
    "\<And>e. r = Some e \<Longrightarrow> length (incoming h1) < length (incoming h)"
    using recv_event_frame [of MAX_MESSAGE h] m by auto
  show ?case
  proof (cases r)
    case None
    then show ?thesis using m f Suc.prems by (simp add: hci_valid_def hci_left_def)
  next
    case (Some evt)
    define h2 where "h2 = (if evt ! 0 = EVT_VENDOR then h1\<lparr>hci_queue := queue_push MAX_MESSAGE evt (hci_queue h1)\<rparr> else h1)"
    have v: "hci_valid h1" "hci_left h1 \<le> hci_left h" "hci_valid h2" "hci_left h2 \<le> hci_left h" "sent h2 = sent h"
      using f Some Suc.prems queue_push_count [of "hci_queue h" MAX_MESSAGE evt]
      by (auto simp: h2_def hci_valid_def hci_left_def queue_inv_push)
    show ?thesis using Suc.IH [OF v(1)] Suc.IH [OF v(3)] v m Some f(1) by (auto simp: h2_def [symmetric])
  qed
qed simp

lemma hci_wait_frame:
  assumes "hci_valid h"
  shows "hci_valid (fst (hci_wait_event n h)) \<and> hci_left (fst (hci_wait_event n h)) \<le> hci_left h \<and>
    sent (fst (hci_wait_event n h)) = sent h \<and>
    (\<forall>e. snd (hci_wait_event n h) = Some e \<longrightarrow> length e \<le> n \<and> hci_left (fst (hci_wait_event n h)) < hci_left h)"
proof -
  obtain q r where p: "queue_pop n (hci_queue h) = (q, r)" by fastforce
  define h1 where "h1 = h\<lparr>hci_queue := q\<rparr>"
  have q: "queue_inv q" "queue_count q \<le> queue_count (hci_queue h)"
    "\<And>e. r = Some e \<Longrightarrow> queue_count q < queue_count (hci_queue h) \<and> length e \<le> n"
    using queue_inv_pop [of "hci_queue h" n] queue_pop_count [of n "hci_queue h"] p assms by (auto simp: hci_valid_def)
  show ?thesis
  proof (cases "\<exists>b bs. r = Some (b # bs)")
    case True
    then show ?thesis using p q by (auto simp: hci_wait_event_def hci_valid_def hci_left_def Let_def)
  next
    case False
    then have "hci_wait_event n h = recv_event n h1"
      using p by (auto simp: hci_wait_event_def h1_def Let_def split: option.splits list.splits)
    then show ?thesis using recv_event_frame [of n h1] q by (auto simp: hci_valid_def hci_left_def h1_def)
  qed
qed

lemma hci_vsc_frame:
  assumes "hci_valid h"
  shows "hci_valid (fst (hci_vsc cmd n h)) \<and> hci_left (fst (hci_vsc cmd n h)) \<le> hci_left h"
    "hci_cmds (fst (hci_vsc cmd n h)) = hci_cmds h @ [cmd] \<or> hci_cmds (fst (hci_vsc cmd n h)) = hci_cmds h \<and> snd (hci_vsc cmd n h) = None"
    "snd (hci_vsc cmd n h) = Some r \<Longrightarrow> length r \<le> n"
proof -
  define h1 where "h1 = h\<lparr>sent := sent h @ [vsc_message cmd]\<rparr>"
  have h1: "hci_valid h1" "hci_left h1 = hci_left h" "hci_cmds h1 = hci_cmds h @ [cmd]"
    using assms by (simp_all add: h1_def hci_valid_def hci_left_def hci_cmds_def vsc_message_def)
  have v: "hci_vsc cmd n h = (if send_oracle h (length (sent h)) then vsc_tries 16 n h1 else (h, None))"
    by (simp add: hci_vsc_def send_message_def h1_def)
  have c: "hci_cmds (fst (vsc_tries 16 n h1)) = hci_cmds h1" using vsc_tries_frame [OF h1(1), of 16 n] by (simp add: hci_cmds_def)
  note f = vsc_tries_frame [OF h1(1), of 16 n]
  show "hci_valid (fst (hci_vsc cmd n h)) \<and> hci_left (fst (hci_vsc cmd n h)) \<le> hci_left h" using f h1(2) assms by (simp add: v)
  show "hci_cmds (fst (hci_vsc cmd n h)) = hci_cmds h @ [cmd] \<or> hci_cmds (fst (hci_vsc cmd n h)) = hci_cmds h \<and> snd (hci_vsc cmd n h) = None"
    using c h1(3) by (simp add: v)
  show "snd (hci_vsc cmd n h) = Some r \<Longrightarrow> length r \<le> n" using f by (simp add: v split: if_splits)
qed

interpretation hci: fm_link hci_transport hci_left hci_cmds hci_valid
  by unfold_locales
    (simp_all add: hci_transport_def hci_vsc_frame hci_wait_frame hci_cmds_def [of "fst (hci_wait_event _ _)"],
     simp_all add: hci_cmds_def)

subsection \<open>The serial line keeps the contract\<close>

definition uart_left :: "fm_uart \<Rightarrow> nat" where
  "uart_left u = length (line_in u) + queue_count (uart_queue u)"

definition uart_cmds :: "fm_uart \<Rightarrow> byte list list" where
  "uart_cmds u = map (drop 4) (filter (\<lambda>m. take 3 m = take 3 (hci_packet FM_VSC_OPCODE [])) (line_out u))"

definition uart_valid :: "fm_uart \<Rightarrow> bool" where
  "uart_valid u \<longleftrightarrow> queue_inv (uart_queue u)"

lemma read_bytes_frame:
  "length (fst (read_bytes n xs)) \<le> length xs \<and>
    (\<forall>bs. snd (read_bytes n xs) = Some bs \<longrightarrow> length bs = n \<and> length (fst (read_bytes n xs)) + n = length xs)"
  by (induction n xs rule: read_bytes.induct) (auto split: prod.splits)

lemma skip_to_event_frame:
  "length (fst (skip_to_event xs)) \<le> length xs \<and> (snd (skip_to_event xs) \<longrightarrow> length (fst (skip_to_event xs)) < length xs)"
  by (induction xs rule: skip_to_event.induct) auto

lemma hci_recv_frame:
  "line_out (fst (hci_recv n u)) = line_out u \<and> uart_queue (fst (hci_recv n u)) = uart_queue u \<and> chip_name (fst (hci_recv n u)) = chip_name u \<and>
    length (line_in (fst (hci_recv n u))) \<le> length (line_in u) \<and>
    (\<forall>e. snd (hci_recv n u) = Some e \<longrightarrow> 2 \<le> length e \<and> length e \<le> n \<and> length (line_in (fst (hci_recv n u))) < length (line_in u))"
proof -
  obtain xs b where s: "skip_to_event (line_in u) = (xs, b)" by fastforce
  have l: "length xs \<le> length (line_in u)" "b \<Longrightarrow> length xs < length (line_in u)"
    using skip_to_event_frame [of "line_in u"] s by simp_all
  show ?thesis
  proof (cases b)
    case False
    then show ?thesis using s l by (simp add: hci_recv_def)
  next
    case True
    obtain ys r where h: "read_bytes 2 xs = (ys, r)" by fastforce
    have ly: "length ys \<le> length xs" "\<And>hdr. r = Some hdr \<Longrightarrow> length hdr = 2" using read_bytes_frame [of 2 xs] h by auto
    show ?thesis
    proof (cases "\<exists>hdr. r = Some hdr \<and> \<not> int (unat (hdr ! 1)) > int n - 2")
      case False
      then have "hci_recv n u = (u\<lparr>line_in := ys\<rparr>, None)"
        using s True h by (auto simp: hci_recv_def read_exact_def split: option.splits)
      then show ?thesis using ly(1) l(1) by simp
    next
      case hdr: True
      then obtain hdr where hd: "r = Some hdr" "int (unat (hdr ! 1)) \<le> int n - 2" by auto
      define k where "k = unat (hdr ! 1)"
      have k: "k + 2 \<le> n" using hd(2) unfolding k_def [symmetric] by linarith
      obtain zs q where z: "read_bytes k ys = (zs, q)" by fastforce
      have lz: "length zs \<le> length ys" "\<And>bs. q = Some bs \<Longrightarrow> length bs = k"
        using read_bytes_frame [of k ys] z by auto
      have "hci_recv n u = (u\<lparr>line_in := zs\<rparr>, map_option ((@) hdr) q)"
        using s True h z hd by (cases q) (simp_all add: hci_recv_def read_exact_def k_def)
      then show ?thesis using lz ly l True hd(1) k by auto
    qed
  qed
qed

lemma command_tries_frame:
  assumes "uart_valid u"
  shows "uart_valid (fst (command_tries k op n u)) \<and> uart_left (fst (command_tries k op n u)) \<le> uart_left u \<and>
    line_out (fst (command_tries k op n u)) = line_out u \<and> (\<forall>r. snd (command_tries k op n u) = Some r \<longrightarrow> length r \<le> n)"
  using assms
proof (induction k arbitrary: u)
  case (Suc k)
  obtain u1 r where m: "hci_recv 300 u = (u1, r)" by fastforce
  have f: "line_out u1 = line_out u" "uart_queue u1 = uart_queue u" "length (line_in u1) \<le> length (line_in u)"
    "\<And>e. r = Some e \<Longrightarrow> length (line_in u1) < length (line_in u)"
    using hci_recv_frame [of 300 u] m by auto
  show ?case
  proof (cases r)
    case None
    then show ?thesis using m f Suc.prems by (simp add: uart_valid_def uart_left_def)
  next
    case (Some evt)
    define u2 where "u2 = (if evt ! 0 = EVT_VENDOR then u1\<lparr>uart_queue := queue_push 300 evt (uart_queue u1)\<rparr> else u1)"
    have v: "uart_valid u1" "uart_left u1 \<le> uart_left u" "uart_valid u2" "uart_left u2 \<le> uart_left u" "line_out u2 = line_out u"
      using f Some Suc.prems queue_push_count [of "uart_queue u" 300 evt]
      by (auto simp: u2_def uart_valid_def uart_left_def queue_inv_push)
    show ?thesis using Suc.IH [OF v(1)] Suc.IH [OF v(3)] v m Some f(1) by (auto simp: u2_def [symmetric])
  qed
qed simp

lemma uart_wait_frame:
  assumes "uart_valid u"
  shows "uart_valid (fst (uart_wait_event n u)) \<and> uart_left (fst (uart_wait_event n u)) \<le> uart_left u \<and>
    line_out (fst (uart_wait_event n u)) = line_out u \<and>
    (\<forall>e. snd (uart_wait_event n u) = Some e \<longrightarrow> length e \<le> n \<and> uart_left (fst (uart_wait_event n u)) < uart_left u)"
proof -
  obtain q r where p: "queue_pop n (uart_queue u) = (q, r)" by fastforce
  define u1 where "u1 = u\<lparr>uart_queue := q\<rparr>"
  have q: "queue_inv q" "queue_count q \<le> queue_count (uart_queue u)"
    "\<And>e. r = Some e \<Longrightarrow> queue_count q < queue_count (uart_queue u) \<and> length e \<le> n"
    using queue_inv_pop [of "uart_queue u" n] queue_pop_count [of n "uart_queue u"] p assms by (auto simp: uart_valid_def)
  show ?thesis
  proof (cases "\<exists>b bs. r = Some (b # bs)")
    case True
    then show ?thesis using p q by (auto simp: uart_wait_event_def uart_valid_def uart_left_def Let_def)
  next
    case False
    then have "uart_wait_event n u = hci_recv n u1"
      using p by (auto simp: uart_wait_event_def u1_def Let_def split: option.splits list.splits)
    then show ?thesis using hci_recv_frame [of n u1] q by (auto simp: uart_valid_def uart_left_def u1_def)
  qed
qed

lemma hci_command_frame:
  assumes "uart_valid u"
  shows "uart_valid (fst (hci_command op cmd n u)) \<and> uart_left (fst (hci_command op cmd n u)) \<le> uart_left u"
    "line_out (fst (hci_command op cmd n u)) = line_out u @ [hci_packet op cmd] \<or>
      line_out (fst (hci_command op cmd n u)) = line_out u \<and> snd (hci_command op cmd n u) = None"
    "snd (hci_command op cmd n u) = Some r \<Longrightarrow> length r \<le> n"
proof -
  define u1 where "u1 = u\<lparr>line_out := line_out u @ [hci_packet op cmd]\<rparr>"
  have u1: "uart_valid u1" "uart_left u1 = uart_left u" using assms by (simp_all add: u1_def uart_valid_def uart_left_def)
  have v: "hci_command op cmd n u = (if write_oracle u (length (line_out u)) then command_tries 16 op n u1 else (u, None))"
    by (simp add: hci_command_def hci_send_def u1_def)
  note f = command_tries_frame [OF u1(1), of 16 op n]
  show "uart_valid (fst (hci_command op cmd n u)) \<and> uart_left (fst (hci_command op cmd n u)) \<le> uart_left u"
    using f u1(2) assms by (simp add: v)
  show "line_out (fst (hci_command op cmd n u)) = line_out u @ [hci_packet op cmd] \<or>
      line_out (fst (hci_command op cmd n u)) = line_out u \<and> snd (hci_command op cmd n u) = None" using f by (simp add: v u1_def)
  show "snd (hci_command op cmd n u) = Some r \<Longrightarrow> length r \<le> n" using f by (simp add: v split: if_splits)
qed

lemma uart_vsc_sent:
  assumes "uart_valid u"
  shows "uart_cmds (fst (hci_command FM_VSC_OPCODE cmd n u)) = uart_cmds u @ [cmd] \<or>
    uart_cmds (fst (hci_command FM_VSC_OPCODE cmd n u)) = uart_cmds u \<and> snd (hci_command FM_VSC_OPCODE cmd n u) = None"
  using hci_command_frame(2) [OF assms, of FM_VSC_OPCODE cmd n] by (auto simp: uart_cmds_def hci_packet_def)

interpretation uart: fm_link uart_transport uart_left uart_cmds uart_valid
  by unfold_locales
    (simp_all add: uart_transport_def hci_command_frame uart_vsc_sent uart_wait_frame uart_cmds_def [of "fst (uart_wait_event _ _)"],
     simp_all add: uart_cmds_def)

subsection \<open>Frequencies\<close>

lemma bytes16_le16: "le16 (bytes16 v ! 0) (bytes16 v ! 1) = v"
proof -
  have m: "(0xff :: 16 word) = mask 8" by (simp add: mask_eq_exp_minus_1)
  have b: "bytes16 v = [ucast (take_bit 8 v), ucast (drop_bit 8 v)]" by (simp only: bytes16_def m take_bit_eq_mask)
  show ?thesis unfolding le16_def b by (intro bit_word_eqI) (auto simp: bit_simps)
qed

lemma khz_roundtrip:
  assumes "64000 \<le> uint khz" "uint khz < 129536"
  shows "fm_reg_to_khz (fm_khz_to_reg khz) = khz"
proof -
  have "uint (khz - 64000) = uint khz - 64000" using assms by (simp add: uint_sub_if')
  moreover have "uint (fm_khz_to_reg khz) = uint (khz - 64000) mod 65536"
    by (simp add: fm_khz_to_reg_def unsigned_ucast_eq take_bit_eq_mod)
  ultimately have "uint (fm_khz_to_reg khz) = uint khz - 64000" using assms by simp
  then have "uint (fm_reg_to_khz (fm_khz_to_reg khz)) = uint khz"
    using assms by (simp add: fm_reg_to_khz_def unsigned_ucast_eq take_bit_eq_mod uint_plus_if_size word_size)
  then show ?thesis by (simp only: word_uint_eq_iff)
qed

end
