(* ===== verification/Fmd.thy ===== *)
theory Fmd
  imports Fm_Link Loc_Cfg
begin

text \<open>
  The FM daemon, \<open>fmradio/fmd.c\<close>: it opens one of the two transports, keeps the receiver powered for its client, and answers
  lines of text. What each opening of a transport finds is given by the environment, one after the other. Strings of the code are
  lists of characters without the terminating zero; using the transport while none is open dereferences a null pointer.
\<close>

subsection \<open>The open transport\<close>

datatype link = Hci fm_hci | Uart fm_uart

fun link_vsc :: "byte list \<Rightarrow> nat \<Rightarrow> link \<Rightarrow> link \<times> byte list option" where
  "link_vsc cmd n (Hci h) = (case vsc hci_transport cmd n h of (h1, r) \<Rightarrow> (Hci h1, r))"
| "link_vsc cmd n (Uart u) = (case vsc uart_transport cmd n u of (u1, r) \<Rightarrow> (Uart u1, r))"

fun link_wait_event :: "nat \<Rightarrow> link \<Rightarrow> link \<times> byte list option" where
  "link_wait_event n (Hci h) = (case wait_event hci_transport n h of (h1, r) \<Rightarrow> (Hci h1, r))"
| "link_wait_event n (Uart u) = (case wait_event uart_transport n u of (u1, r) \<Rightarrow> (Uart u1, r))"

definition tp :: "link fm_transport" where
  "tp = \<lparr>vsc = link_vsc, wait_event = link_wait_event\<rparr>"

record open_env =
  bt_hal :: bool
  hci_connected :: bool
  hci_input :: "byte list option list"
  uart_prepared :: bool
  uart_firmware :: "byte list option"
  uart_input :: "byte option list"
  out_oracle :: "nat \<Rightarrow> bool"

definition open_link :: "open_env \<Rightarrow> link option" where
  "open_link e =
    (if bt_hal e then map_option Hci (fm_hci_open (hci_connected e) (hci_input e) (out_oracle e))
     else map_option Uart (fm_uart_open (uart_prepared e) (uart_firmware e) (uart_input e) (out_oracle e)))"

fun close_link :: "link \<Rightarrow> link" where
  "close_link (Hci h) = Hci (fm_hci_close h)"
| "close_link (Uart u) = Uart u"

subsection \<open>State\<close>

record fmd_state =
  device :: "link option"
  freq_khz :: "32 word"
  powered :: bool
  rds_on :: "32 word"
  env :: "nat \<Rightarrow> open_env"
  opened :: nat
  closed_links :: "link list"
  replies :: "string list"

definition BAND_LOW_KHZ :: "32 word" where "BAND_LOW_KHZ = 87500"
definition BAND_HIGH_KHZ :: "32 word" where "BAND_HIGH_KHZ = 108000"
definition DEFAULT_KHZ :: "32 word" where "DEFAULT_KHZ = 100000"

definition reply :: "string \<Rightarrow> fmd_state \<Rightarrow> fmd_state" where
  "reply txt s = s\<lparr>replies := replies s @ [txt @ [CHR 0x0A]]\<rparr>"

definition fm_transport_close :: "fmd_state \<Rightarrow> fmd_state" where
  "fm_transport_close s =
    s\<lparr>device := None, closed_links := closed_links s @ (case device s of None \<Rightarrow> [] | Some l \<Rightarrow> [close_link l])\<rparr>"

definition fm_transport_open :: "fmd_state \<Rightarrow> fmd_state \<times> bool" where
  "fm_transport_open s =
    (case open_link (env s (opened s)) of
       None \<Rightarrow> (s\<lparr>opened := opened s + 1\<rparr>, False)
     | Some l \<Rightarrow> (s\<lparr>opened := opened s + 1, device := Some l\<rparr>, True))"

text \<open>An operation of the register protocol on the open transport.\<close>

definition on_tp :: "(link \<Rightarrow> (link \<times> 'r) mem) \<Rightarrow> fmd_state \<Rightarrow> (fmd_state \<times> 'r) mem" where
  "on_tp f s =
    (case device s of
       None \<Rightarrow> None
     | Some l \<Rightarrow> map_option (\<lambda>(l1, r). (s\<lparr>device := Some l1\<rparr>, r)) (f l))"

definition set_up :: "link \<Rightarrow> link \<times> bool" where
  "set_up l =
    then_do (fm_enable tp True l) (\<lambda>l1.
    then_do (fm_set_band_europe tp l1) (\<lambda>l2.
    fm_set_audio tp True False False l2))"

definition fm_power_up :: "fmd_state \<Rightarrow> (fmd_state \<times> bool) mem" where
  "fm_power_up s =
    (if powered s then Some (s, True)
     else (case fm_transport_open s of
             (s1, False) \<Rightarrow> Some (s1, False)
           | (s1, True) \<Rightarrow>
               (case on_tp (\<lambda>l. Some (set_up l)) s1 of
                  None \<Rightarrow> None
                | Some (s2, False) \<Rightarrow> Some (fm_transport_close s2, False)
                | Some (s2, True) \<Rightarrow> Some (s2\<lparr>powered := True, rds_on := 1\<rparr>, True))))"

definition fm_power_down :: "fmd_state \<Rightarrow> fmd_state mem" where
  "fm_power_down s =
    (if \<not> powered s then Some s
     else map_option (\<lambda>(s1, _). (fm_transport_close s1)\<lparr>powered := False\<rparr>) (on_tp (\<lambda>l. Some (fm_disable tp l)) s))"

definition valid_freq :: "32 word \<Rightarrow> bool" where
  "valid_freq khz \<longleftrightarrow> khz \<ge> BAND_LOW_KHZ \<and> khz \<le> BAND_HIGH_KHZ"

subsection \<open>Text\<close>

text \<open>The tokens \<open>strtok\<close> finds with the delimiters blank and tab.\<close>

definition blank :: "char \<Rightarrow> bool" where
  "blank c \<longleftrightarrow> c = CHR '' '' \<or> c = CHR 0x09"

function tokens :: "string \<Rightarrow> string list" where
  "tokens s =
    (let s1 = dropWhile blank s in
     if s1 = [] then [] else takeWhile (\<lambda>c. \<not> blank c) s1 # tokens (dropWhile (\<lambda>c. \<not> blank c) s1))"
  by pat_completeness auto
termination
proof (relation "measure length", simp)
  fix s s1 assume s1: "s1 = dropWhile blank s" "s1 \<noteq> []"
  then have h: "\<not> blank (hd s1)" using hd_dropWhile [of blank s] by simp
  then have "length (dropWhile (\<lambda>c. \<not> blank c) s1) < length s1" using s1(2)
    by (cases s1) (auto simp: le_imp_less_Suc length_dropWhile_le)
  also have "\<dots> \<le> length s" by (simp add: s1 length_dropWhile_le)
  finally show "(dropWhile (\<lambda>c. \<not> blank c) s1, s) \<in> measure length" by simp
qed

declare tokens.simps [simp del]

text \<open>\<open>strtoul\<close> for a 64-bit \<open>unsigned long\<close>, whose result the code casts to an unsigned integer.\<close>

definition strtoul :: "string \<Rightarrow> 32 word" where
  "strtoul s =
    (let (neg, s1) = split_sign (dropWhile isspace s); v = digits_val 10 s1
     in word_of_int (if v > 2 ^ 64 - 1 then 2 ^ 64 - 1 else if neg then - v else v))"

definition fmt_u :: "32 word \<Rightarrow> string" where
  "fmt_u w = show_nat (uint w)"

text \<open>\<open>%04x\<close> of 16 bits.\<close>

definition hex_lower :: "nat \<Rightarrow> char" where
  "hex_lower n = (if n < 10 then char_of (48 + n) else char_of (87 + n))"

definition fmt_04x :: "16 word \<Rightarrow> string" where
  "fmt_04x w = map (\<lambda>k. hex_lower (unat w div 16 ^ k mod 16)) [3, 2, 1, 0]"

subsection \<open>Commands\<close>

definition device_name :: "fmd_state \<Rightarrow> string" where
  "device_name s =
    (case device s of
       Some (Uart u) \<Rightarrow> map (\<lambda>b. char_of (unat b)) (fm_uart_chip_name 64 u)
     | _ \<Rightarrow> ''bluetooth-hal'')"

definition reply_result :: "string option \<Rightarrow> fmd_state \<Rightarrow> fmd_state" where
  "reply_result r s = reply (case r of None \<Rightarrow> ''err'' | Some txt \<Rightarrow> ''ok'' @ txt) s"

definition cmd_open :: "fmd_state \<Rightarrow> fmd_state mem" where
  "cmd_open s =
    map_option (\<lambda>(s1, ok). if ok then reply (''ok '' @ device_name s1) s1 else reply ''err power-up failed'' s1) (fm_power_up s)"

definition cmd_tune :: "32 word \<Rightarrow> fmd_state \<Rightarrow> fmd_state mem" where
  "cmd_tune khz s =
    (if \<not> valid_freq khz then Some (reply ''err bad-freq'' s)
     else map_option (\<lambda>(s1, r). if r = None then reply ''err tune-failed'' s1
            else reply (''ok '' @ fmt_u khz) (s1\<lparr>freq_khz := khz\<rparr>)) (on_tp (fm_tune tp khz) s))"

definition cmd_seek :: "bool \<Rightarrow> 32 word \<Rightarrow> fmd_state \<Rightarrow> fmd_state mem" where
  "cmd_seek up start s =
    map_option (\<lambda>(s1, r). case r of
        None \<Rightarrow> reply ''err seek-failed'' s1
      | Some found \<Rightarrow> reply (''ok '' @ fmt_u found) (s1\<lparr>freq_khz := found\<rparr>))
      (on_tp (fm_seek tp (if valid_freq start then start else DEFAULT_KHZ) up) s)"

definition cmd_smtune :: "32 word \<Rightarrow> fmd_state \<Rightarrow> fmd_state mem" where
  "cmd_smtune khz s =
    (if \<not> valid_freq khz then Some (reply ''err bad-freq'' s)
     else (case on_tp (fm_tune tp khz) s of
             None \<Rightarrow> None
           | Some (s1, None) \<Rightarrow> Some (reply ''err tune-failed'' s1)
           | Some (s1, Some _) \<Rightarrow>
               (case on_tp (\<lambda>l. Some (fm_get_rssi tp l)) (s1\<lparr>freq_khz := khz\<rparr>) of
                  None \<Rightarrow> None
                | Some (s2, None) \<Rightarrow> Some (reply ''err'' s2)
                | Some (s2, Some rssi) \<Rightarrow>
                    map_option (\<lambda>(s3, r). reply (''ok '' @ fmt_u khz @ '' '' @ fmt_d 0 rssi @ '' '' @
                        fmt_d 0 (case r of None \<Rightarrow> 0 | Some snr \<Rightarrow> snr)) s3)
                      (on_tp (\<lambda>l. Some (fm_get_snr tp l)) s2))))"

text \<open>A command that only reads or sets something.\<close>

definition cmd_value :: "(link \<Rightarrow> link \<times> 'r option) \<Rightarrow> ('r \<Rightarrow> string) \<Rightarrow> fmd_state \<Rightarrow> fmd_state mem" where
  "cmd_value f pr s = map_option (\<lambda>(s1, r). reply_result (map_option (\<lambda>v. '' '' @ pr v) r) s1) (on_tp (\<lambda>l. Some (f l)) s)"

definition cmd_set :: "(link \<Rightarrow> link \<times> bool) \<Rightarrow> fmd_state \<Rightarrow> fmd_state mem" where
  "cmd_set f s = map_option (\<lambda>(s1, ok). reply_result (if ok then Some [] else None) s1) (on_tp (\<lambda>l. Some (f l)) s)"

definition cmd_rds :: "32 word \<Rightarrow> fmd_state \<Rightarrow> fmd_state mem" where
  "cmd_rds v s =
    map_option (\<lambda>(s1, ok). if ok then reply ''ok'' (s1\<lparr>rds_on := v\<rparr>) else reply ''err'' s1)
      (on_tp (\<lambda>l. Some (fm_enable_rds tp (v \<noteq> 0) l)) s)"

definition clamp_volume :: "32 word \<Rightarrow> byte" where
  "clamp_volume vol = (if sint vol < 0 then 0 else if sint vol > 255 then 255 else ucast vol)"

definition handle_command :: "string \<Rightarrow> fmd_state \<Rightarrow> fmd_state mem" where
  "handle_command line s =
    (case tokens line of
       [] \<Rightarrow> Some s
     | cmd # args \<Rightarrow>
         (let arg1 = (case args of [] \<Rightarrow> None | a # _ \<Rightarrow> Some a);
              arg2 = (case args of _ # b # _ \<Rightarrow> Some b | _ \<Rightarrow> None);
              num = (\<lambda>a d. case a of None \<Rightarrow> d | Some x \<Rightarrow> atoi x);
              khz = (\<lambda>a d. case a of None \<Rightarrow> d | Some x \<Rightarrow> strtoul x) in
          if cmd = ''open'' then cmd_open s
          else if cmd = ''close'' then map_option (reply ''ok'') (fm_power_down s)
          else if \<not> powered s then Some (reply ''err not-open'' s)
          else if cmd = ''tune'' then cmd_tune (khz arg1 DEFAULT_KHZ) s
          else if cmd = ''seek'' then cmd_seek (arg1 = None \<or> arg1 = Some ''up'') (khz arg2 (freq_khz s)) s
          else if cmd = ''smtune'' then cmd_smtune (khz arg1 0) s
          else if cmd = ''freq'' then cmd_value (fm_get_frequency tp) fmt_u s
          else if cmd = ''rssi'' then cmd_value (fm_get_rssi tp) (fmt_d 0) s
          else if cmd = ''snr'' then cmd_value (fm_get_snr tp) (fmt_d 0) s
          else if cmd = ''mute'' then cmd_set (fm_set_mute tp (num arg1 1 \<noteq> 0)) s
          else if cmd = ''volume'' then cmd_set (fm_set_volume tp (clamp_volume (num arg1 128))) s
          else if cmd = ''rds'' then cmd_rds (num arg1 1) s
          else if cmd = ''audio'' then
            cmd_set (fm_set_audio tp (arg1 = None \<or> arg1 = Some ''i2s'' \<or> arg1 = Some ''both'')
              (arg1 = Some ''dac'' \<or> arg1 = Some ''both'') False) s
          else if cmd = ''flags'' then cmd_value (fm_read_flags tp) (\<lambda>w. ''0x'' @ fmt_04x w) s
          else if cmd = ''status'' then
            Some (reply (''ok on '' @ fmt_u (freq_khz s) @ '' rds '' @ fmt_d 0 (sint (rds_on s))) s)
          else Some (reply ''err unknown-command'' s)))"

subsection \<open>Clients\<close>

text \<open>
  The loop over the lines in the buffer: a line ends at a newline before the first zero of the buffer, and a carriage return before
  it is dropped. The result is the rest of the buffer, or \<open>None\<close> when the client quits.
\<close>

definition c_string :: "string \<Rightarrow> string" where
  "c_string s = takeWhile (\<lambda>c. c \<noteq> CHR 0x00) s"

definition strip_cr :: "string \<Rightarrow> string" where
  "strip_cr line = (if line \<noteq> [] \<and> last line = CHR 0x0D then butlast line else line)"

definition next_line :: "string \<Rightarrow> (string \<times> string) option" where
  "next_line buf =
    (if CHR 0x0A \<in> set (c_string buf)
     then (let line = takeWhile (\<lambda>c. c \<noteq> CHR 0x0A) buf in Some (line, drop (length line + 1) buf)) else None)"

lemma next_line_shorter: "next_line buf = Some (line, rest) \<Longrightarrow> length rest < length buf"
  by (cases buf) (auto simp: next_line_def c_string_def Let_def split: if_splits)

function lines_loop :: "(string \<Rightarrow> 's \<Rightarrow> 's mem) \<Rightarrow> string \<Rightarrow> 's \<Rightarrow> ('s \<times> string option) mem" where
  "lines_loop h buf s =
    (case next_line buf of
       None \<Rightarrow> Some (s, Some buf)
     | Some (line, rest) \<Rightarrow>
         if strip_cr line = ''quit'' then Some (s, None)
         else (case h (strip_cr line) s of None \<Rightarrow> None | Some s1 \<Rightarrow> lines_loop h rest s1))"
  by pat_completeness auto
termination by (relation "measure (\<lambda>(_, buf, _). length buf)") (auto dest: next_line_shorter)

declare lines_loop.simps [simp del]

text \<open>
  What the client sends arrives in pieces; \<open>read\<close> takes as much of a piece as the buffer of 512 bytes has room for, and a full buffer
  without a newline is dropped.
\<close>

function serve_client :: "(string \<Rightarrow> 's \<Rightarrow> 's mem) \<Rightarrow> string list \<Rightarrow> string \<Rightarrow> 's \<Rightarrow> 's mem" where
  "serve_client h [] buf s = Some s"
| "serve_client h (c # cs) buf s =
    (let room = 511 - length buf; piece = take room c; left = drop room c in
     if piece = [] then Some s
     else (case lines_loop h (buf @ piece) s of
             None \<Rightarrow> None
           | Some (s1, None) \<Rightarrow> Some s1
           | Some (s1, Some buf1) \<Rightarrow>
               serve_client h (if left = [] then cs else left # cs) (if length buf1 \<ge> 511 then [] else buf1) s1))"
  by pat_completeness auto
termination
proof (relation "measure (\<lambda>(_, cs, _, _). sum_list (map length cs) + length cs)", simp, goal_cases)
  case (1 h c cs buf s room piece left x s1 buf0 buf1)
  then have "length left < length c" by (cases c) auto
  then show ?case by simp
qed

fun fmd_main :: "string list list \<Rightarrow> fmd_state \<Rightarrow> fmd_state mem" where
  "fmd_main [] s = Some s"
| "fmd_main (c # cs) s = Option.bind (Option.bind (serve_client handle_command c [] s) fm_power_down) (fmd_main cs)"

definition fmd_start :: "(nat \<Rightarrow> open_env) \<Rightarrow> fmd_state" where
  "fmd_start e = \<lparr>device = None, freq_khz = DEFAULT_KHZ, powered = False, rds_on = 0, env = e, opened = 0, closed_links = [], replies = []\<rparr>"

end
