(* ===== verification/Fmr.thy ===== *)
theory Fmr
  imports Fmd
begin

text \<open>
  The client side, \<open>fmradio/jni/fmr_brcm.cpp\<close>: the functions of the radio application, each a line to the daemon and its reply. The
  connection holds the peer and the pieces it sent that were not read yet; \<open>None\<close> is a time-out or an error of \<open>poll\<close> and
  \<open>read\<close>. What the peer answers to a line is a parameter, \<open>talk\<close>, and \<open>None\<close> when the line cannot be written.
\<close>

subsection \<open>Requests\<close>

record 'p fmd_conn =
  peer :: 'p
  inbox :: "string option list"

type_synonym 'p talk = "string \<Rightarrow> 'p \<Rightarrow> ('p \<times> string option list) option"

text \<open>The reply is complete at a newline, or when the buffer is full.\<close>

function read_reply :: "nat \<Rightarrow> string option list \<Rightarrow> string \<Rightarrow> string option list \<times> string option" where
  "read_reply sz [] got = ([], None)"
| "read_reply sz (None # ps) got = (ps, None)"
| "read_reply sz (Some p # ps) got =
    (let room = sz - length got - 1; piece = take room p; ps1 = (if drop room p = [] then ps else Some (drop room p) # ps);
         got1 = got @ piece in
     if piece = [] then (ps1, None)
     else if CHR 0x0A \<in> set (c_string got1) \<or> length got1 \<ge> sz - 1 then (ps1, Some got1)
     else read_reply sz ps1 got1)"
  by pat_completeness auto
termination
  by (relation "measure (\<lambda>(_, ps, _). length ps + sum_list (map (\<lambda>p. case p of None \<Rightarrow> 0 | Some s \<Rightarrow> length s) ps))")
    (auto split: if_splits)

declare read_reply.simps(3) [simp del]

definition fmd_request :: "'p talk \<Rightarrow> string \<Rightarrow> nat \<Rightarrow> 'p fmd_conn \<Rightarrow> 'p fmd_conn \<times> string option" where
  "fmd_request talk cmd replysz c =
    (case talk (cmd @ [CHR 0x0A]) (peer c) of
       None \<Rightarrow> (c, None)
     | Some (p, out) \<Rightarrow>
         (case read_reply replysz (inbox c @ out) [] of
            (ps, None) \<Rightarrow> (\<lparr>peer = p, inbox = ps\<rparr>, None)
          | (ps, Some r) \<Rightarrow> (\<lparr>peer = p, inbox = ps\<rparr>, if take 2 (c_string r) \<noteq> ''ok'' then None else Some (c_string r))))"

definition fmd_simple :: "'p talk \<Rightarrow> string \<Rightarrow> 'p fmd_conn \<Rightarrow> 'p fmd_conn \<times> bool" where
  "fmd_simple talk cmd c = (case fmd_request talk cmd 256 c of (c1, r) \<Rightarrow> (c1, r \<noteq> None))"

subsection \<open>The functions of the radio\<close>

text \<open>\<open>conn\<close> is the connection, if the socket could be connected.\<close>

definition brcm_open_dev :: "'p talk \<Rightarrow> 'p fmd_conn option \<Rightarrow> 'p fmd_conn option" where
  "brcm_open_dev talk conn =
    (case conn of
       None \<Rightarrow> None
     | Some c \<Rightarrow> (case fmd_simple talk ''open'' c of (c1, ok) \<Rightarrow> if ok then Some c1 else None))"

definition brcm_close_dev :: "'p talk \<Rightarrow> 'p fmd_conn \<Rightarrow> 'p fmd_conn" where
  "brcm_close_dev talk c = fst (fmd_simple talk ''close'' c)"

definition brcm_tune :: "'p talk \<Rightarrow> 32 word \<Rightarrow> 'p fmd_conn \<Rightarrow> 'p fmd_conn \<times> bool" where
  "brcm_tune talk freq = fmd_simple talk (''tune '' @ fmt_d 0 (sint (freq * 100)))"

definition brcm_pwr_up :: "'p talk \<Rightarrow> 32 word \<Rightarrow> 'p fmd_conn \<Rightarrow> 'p fmd_conn \<times> bool" where
  "brcm_pwr_up talk freq = fmd_simple talk (''tune '' @ fmt_d 0 (sint (freq * 100)))"

definition brcm_pwr_down :: "'p talk \<Rightarrow> 'p fmd_conn \<Rightarrow> 'p fmd_conn \<times> bool" where
  "brcm_pwr_down talk = fmd_simple talk ''mute 1''"

definition brcm_set_mute :: "'p talk \<Rightarrow> bool \<Rightarrow> 'p fmd_conn \<Rightarrow> 'p fmd_conn \<times> bool" where
  "brcm_set_mute talk mute = fmd_simple talk (''mute '' @ fmt_d 0 (if mute then 1 else 0))"

definition brcm_turn_on_off_rds :: "'p talk \<Rightarrow> bool \<Rightarrow> 'p fmd_conn \<Rightarrow> 'p fmd_conn \<times> bool" where
  "brcm_turn_on_off_rds talk onoff = fmd_simple talk (''rds '' @ fmt_d 0 (if onoff then 1 else 0))"

definition brcm_seek :: "'p talk \<Rightarrow> 32 word \<Rightarrow> bool \<Rightarrow> 'p fmd_conn \<Rightarrow> 'p fmd_conn \<times> 32 word option" where
  "brcm_seek talk freq dir c =
    (case fmd_request talk (''seek '' @ (if dir then ''up'' else ''down'') @ '' '' @ fmt_d 0 (sint (freq * 100))) 256 c of
       (c1, r) \<Rightarrow> (c1, map_option (\<lambda>txt. word_of_int (cdiv (strtol 10 (drop 2 txt)) 100)) r))"

text \<open>The stations found so far are in the order they were found.\<close>

function scan_loop :: "'p talk \<Rightarrow> int \<Rightarrow> 32 word \<Rightarrow> 32 word list \<Rightarrow> 'p fmd_conn \<Rightarrow> 'p fmd_conn \<times> 32 word list" where
  "scan_loop talk num freq found c =
    (if int (length found) < num \<and> sint freq < 1080 then
       (case brcm_seek talk freq True c of
          (c1, None) \<Rightarrow> (c1, found)
        | (c1, Some cur) \<Rightarrow> if sint cur \<le> sint freq then (c1, found) else scan_loop talk num cur (found @ [cur]) c1)
     else (c, found))"
  by pat_completeness auto
termination by (relation "measure (\<lambda>(_, _, freq, _, _). nat (1080 - sint freq))") auto

declare scan_loop.simps [simp del]

definition brcm_scan :: "'p talk \<Rightarrow> int \<Rightarrow> 'p fmd_conn \<Rightarrow> 'p fmd_conn \<times> 16 word list" where
  "brcm_scan talk num c = (case scan_loop talk num 875 [] c of (c1, found) \<Rightarrow> (c1, map ucast found))"

definition FMD_VALID_RSSI_DBM :: int where "FMD_VALID_RSSI_DBM = -103"

text \<open>The signal strength read from the reply, and whether it is good enough.\<close>

definition brcm_soft_mute_tune :: "'p talk \<Rightarrow> 32 word \<Rightarrow> 'p fmd_conn \<Rightarrow> 'p fmd_conn \<times> (32 word \<times> bool) option" where
  "brcm_soft_mute_tune talk freq c =
    (case fmd_request talk (''smtune '' @ fmt_d 0 (sint (freq * 10))) 256 c of
       (c1, None) \<Rightarrow> (c1, None)
     | (c1, Some txt) \<Rightarrow>
         (c1, let rest = dropWhile (\<lambda>ch. ch \<noteq> CHR '' '') (drop 2 txt) in
              if rest = [] then None
              else (let rssi = strtol 10 (tl rest) in Some (word_of_int rssi, rssi \<ge> FMD_VALID_RSSI_DBM))))"

subsection \<open>The daemon as the peer\<close>

definition fmd_talk :: "fmd_state talk" where
  "fmd_talk line s =
    (case lines_loop handle_command line s of
       None \<Rightarrow> None
     | Some (s1, _) \<Rightarrow> Some (s1, map Some (drop (length (replies s)) (replies s1))))"

end
