(* ===== verification/Fmd_Props.thy ===== *)
theory Fmd_Props
  imports Fmr Loc_Cfg_Props
begin

text \<open>
  The FM daemon and its client: the daemon never uses a transport that is not open and closes what it opens; in which
  pieces a client sends its lines makes no difference; tuning, the download of the firmware and the scan; and what the
  client reads from the daemon's replies.
\<close>

subsection \<open>The open transport\<close>

fun link_left :: "link \<Rightarrow> nat" where
  "link_left (Hci h) = hci_left h"
| "link_left (Uart u) = uart_left u"

fun link_cmds :: "link \<Rightarrow> byte list list" where
  "link_cmds (Hci h) = hci_cmds h"
| "link_cmds (Uart u) = uart_cmds u"

fun link_valid :: "link \<Rightarrow> bool" where
  "link_valid (Hci h) = hci_valid h"
| "link_valid (Uart u) = uart_valid u"

interpretation link: fm_link tp link_left link_cmds link_valid
proof (unfold_locales, goal_cases)
  case (1 s cmd n)
  then show ?case using hci.vsc_valid [of _ cmd n] uart.vsc_valid [of _ cmd n] by (cases s) (simp_all add: tp_def split_beta)
next
  case (2 s cmd n)
  then show ?case using hci.vsc_sent [of _ cmd n] uart.vsc_sent [of _ cmd n]
    by (cases s) (simp_all add: tp_def split_beta)
next
  case (3 s cmd n r)
  then show ?case using hci.vsc_answer [of _ cmd n r] uart.vsc_answer [of _ cmd n r]
    by (cases s) (simp_all add: tp_def split_beta)
next
  case (4 s n)
  then show ?case using hci.wait_valid [of _ n] uart.wait_valid [of _ n] by (cases s) (simp_all add: tp_def split_beta)
next
  case (5 s n e)
  then show ?case using hci.wait_event [of _ n e] uart.wait_event [of _ n e] by (cases s) (simp_all add: tp_def split_beta)
qed

lemma hci_open_valid: "fm_hci_open b inp orc = Some h \<Longrightarrow> hci_valid h"
  by (auto simp: fm_hci_open_def send_message_def recv_message_def hci_valid_def no_events_inv split: prod.splits bool.splits
      option.splits if_splits list.splits)

lemma command_valid: "hci_command op cmd n u = (u1, r) \<Longrightarrow> uart_valid u \<Longrightarrow> uart_valid u1"
  using hci_command_frame(1) [of u op cmd n] by simp

lemma download_records_valid: "uart_valid u \<Longrightarrow> uart_valid (fst (download_records fw n u))"
proof (induction fw n u rule: download_records.induct)
  case (1 fw n u)
  show ?case
  proof (cases "length fw < 3 \<or> length (drop 3 fw) < unat (fw ! 2)")
    case True
    then show ?thesis using "1.prems" by (subst download_records.simps) (auto simp: Let_def)
  next
    case False
    obtain u1 r where c: "hci_command (le16 (fw ! 0) (fw ! 1)) (take (unat (fw ! 2)) (drop 3 fw)) 64 u = (u1, r)" by fastforce
    have "uart_valid u1" by (rule command_valid [OF c "1.prems"])
    with "1.IH" [OF _ refl refl refl _ c [symmetric]] False c show ?thesis
      by (subst download_records.simps) (auto simp: Let_def split: option.splits)
  qed
qed

lemma uart_open_valid:
  assumes "fm_uart_open b fw inp orc = Some u"
  shows "uart_valid u"
proof -
  let ?u0 = "\<lparr>line_in = inp, line_out = [], write_oracle = orc, uart_queue = no_events, chip_name = []\<rparr>"
  have v0: "uart_valid ?u0" by (simp add: uart_valid_def no_events_inv)
  obtain u1 r1 where c1: "hci_command HCI_RESET [] 260 ?u0 = (u1, r1)" by fastforce
  note v1 = command_valid [OF c1 v0]
  obtain u2 ok where c2: "download_firmware fw u1 = (u2, ok)" by fastforce
  have v2: "uart_valid u2"
  proof (cases fw)
    case None
    then show ?thesis using c2 v1 by (simp add: download_firmware_def)
  next
    case (Some bs)
    obtain a ra where a: "hci_command HCI_VSC_DOWNLOAD_MINIDRV [] 64 u1 = (a, ra)" by fastforce
    obtain b rb where b: "download_records bs 0 a = (b, rb)" by fastforce
    obtain d rd where d: "hci_command HCI_RESET [] 64 b = (d, rd)" by fastforce
    have va: "uart_valid a" by (rule command_valid [OF a v1])
    have vb: "uart_valid b" using download_records_valid [OF va, of bs 0] b by simp
    have vd: "uart_valid d" by (rule command_valid [OF d vb])
    show ?thesis using c2 Some a b d va vb vd by (auto simp: download_firmware_def split: option.splits if_splits)
  qed
  obtain u3 r3 where c3: "hci_command HCI_READ_LOCAL_NAME [] 260 u2 = (u3, r3)" by fastforce
  note v3 = command_valid [OF c3 v2]
  show ?thesis using assms c1 c2 c3 v2 v3
    by (auto simp: fm_uart_open_def uart_valid_def split: if_splits option.splits bool.splits)
qed

lemma open_link_valid: "open_link e = Some l \<Longrightarrow> link_valid l"
  using hci_open_valid uart_open_valid by (auto simp: open_link_def split: if_splits)

subsection \<open>The daemon is safe\<close>

text \<open>
  The receiver is powered exactly when a transport is open, which keeps its contract, and all others that were opened are closed.
\<close>

definition fmd_inv :: "(nat \<Rightarrow> open_env) \<Rightarrow> fmd_state \<Rightarrow> bool" where
  "fmd_inv e s \<longleftrightarrow> (powered s \<longleftrightarrow> device s \<noteq> None) \<and> (\<forall>l. device s = Some l \<longrightarrow> link_valid l) \<and> env s = e \<and>
    length (closed_links s) + (if device s = None then 0 else 1) = length (filter (\<lambda>i. open_link (e i) \<noteq> None) [0..<opened s])"

lemma fmd_inv_frame [simp]: "fmd_inv e (reply txt s) = fmd_inv e s" "fmd_inv e (reply_result r s) = fmd_inv e s"
  "fmd_inv e (s\<lparr>freq_khz := k\<rparr>) = fmd_inv e s" "fmd_inv e (s\<lparr>rds_on := w\<rparr>) = fmd_inv e s"
  by (simp_all add: fmd_inv_def reply_def reply_result_def)

text \<open>An operation of the protocol that always returns and keeps the transport's state.\<close>

definition sound :: "(link \<Rightarrow> (link \<times> 'r) mem) \<Rightarrow> bool" where
  "sound f \<longleftrightarrow> (\<forall>l. link_valid l \<longrightarrow> (\<exists>l1 r. f l = Some (l1, r) \<and> link_valid l1))"

lemma sound_total: "(\<And>l. link_valid l \<Longrightarrow> link_valid (fst (f l))) \<Longrightarrow> sound (\<lambda>l. Some (f l))"
  by (metis sound_def prod.collapse)

lemma on_tp_sound:
  assumes "fmd_inv e s" "powered s" "sound f"
  shows "\<exists>s1 r. on_tp f s = Some (s1, r) \<and> fmd_inv e s1 \<and> powered s1"
proof -
  obtain l where l: "device s = Some l" "link_valid l" using assms(1,2) by (auto simp: fmd_inv_def)
  obtain l1 r where "f l = Some (l1, r)" "link_valid l1" using assms(3) l(2) by (auto simp: sound_def)
  then show ?thesis using l assms(1,2) by (auto simp: on_tp_def fmd_inv_def)
qed

named_theorems keeps \<open>operations of the protocol keep the transport's state valid\<close>

lemma write_keeps [keeps]: "link_valid l \<Longrightarrow> link_valid (fst (fm_reg_write tp reg val l))"
  by (cases "fm_reg_write tp reg val l") (auto dest: link.reg_write_sends simp: link.sends_def)

lemma read_keeps [keeps]: "link_valid l \<Longrightarrow> link_valid (fst (fm_reg_read tp reg k n l))"
  by (cases "fm_reg_read tp reg k n l") (auto dest: link.reg_read_sends simp: link.sends_def)

lemma then_do_keeps [keeps]:
  "link_valid (fst r) \<Longrightarrow> (\<And>l. link_valid l \<Longrightarrow> link_valid (fst (k l))) \<Longrightarrow> link_valid (fst (then_do r k))"
  by (cases r) (simp add: then_do_def)

lemma read8_keeps [keeps]: "link_valid l \<Longrightarrow> link_valid (fst (read_reg8 tp reg l))"
  using read_keeps [of l reg 1 1] unfolding read_reg8_def split_beta by (simp split: option.split)

lemma read16_keeps [keeps]: "link_valid l \<Longrightarrow> link_valid (fst (read_reg16 tp reg l))"
  using read_keeps [of l reg 2 2] unfolding read_reg16_def split_beta by (simp split: option.split)

lemma set_mute_keeps [keeps]: "link_valid l \<Longrightarrow> link_valid (fst (fm_set_mute tp b l))"
  using read16_keeps [of l FM_REG_AUD_CTL0] unfolding fm_set_mute_def split_beta
  by (simp add: fm_reg_write16_def keeps split: option.split)

lemma enable_rds_keeps [keeps]: "link_valid l \<Longrightarrow> link_valid (fst (fm_enable_rds tp b l))"
  using read8_keeps [of l FM_REG_RDS_SYS] unfolding fm_enable_rds_def split_beta
  by (simp add: fm_reg_write8_def keeps split: option.split)

lemma settings_keep [keeps]:
  "link_valid l \<Longrightarrow> link_valid (fst (fm_enable tp b l))" "link_valid l \<Longrightarrow> link_valid (fst (fm_disable tp l))"
  "link_valid l \<Longrightarrow> link_valid (fst (fm_set_band_europe tp l))" "link_valid l \<Longrightarrow> link_valid (fst (fm_set_audio tp i d m l))"
  "link_valid l \<Longrightarrow> link_valid (fst (fm_set_volume tp v l))"
  by (simp_all add: fm_enable_def fm_disable_def fm_set_band_europe_def fm_set_audio_def fm_set_volume_def
      fm_reg_write8_def fm_reg_write16_def keeps)

lemma gets_keep [keeps]:
  "link_valid l \<Longrightarrow> link_valid (fst (fm_get_frequency tp l))" "link_valid l \<Longrightarrow> link_valid (fst (fm_get_rssi tp l))"
  "link_valid l \<Longrightarrow> link_valid (fst (fm_get_snr tp l))" "link_valid l \<Longrightarrow> link_valid (fst (fm_read_flags tp l))"
  using read8_keeps [of l] read16_keeps [of l]
  by (simp_all add: fm_get_frequency_def fm_get_rssi_def fm_get_snr_def fm_read_flags_def split_beta)

lemma set_up_keeps [keeps]: "link_valid l \<Longrightarrow> link_valid (fst (set_up l))"
  by (simp add: set_up_def keeps)

lemma tune_sound: "sound (fm_tune tp khz)" "sound (fm_seek tp khz up)"
  unfolding sound_def using link.tune_sends link.seek_sends by (fastforce simp: link.sends_def)+

text \<open>The commands.\<close>

definition answers_safely :: "(fmd_state \<Rightarrow> fmd_state mem) \<Rightarrow> bool" where
  "answers_safely c \<longleftrightarrow> (\<forall>e s. fmd_inv e s \<and> powered s \<longrightarrow> (\<exists>s1. c s = Some s1 \<and> fmd_inv e s1))"

lemma safe_on_tp:
  assumes "sound f" "\<And>e s r. fmd_inv e s \<Longrightarrow> fmd_inv e (k s r)"
  shows "answers_safely (\<lambda>s. map_option (\<lambda>(s1, r). k s1 r) (on_tp f s))"
  unfolding answers_safely_def
proof (intro allI impI, elim conjE)
  fix e s assume "fmd_inv e s" "powered s"
  then obtain s1 r where "on_tp f s = Some (s1, r)" "fmd_inv e s1" using on_tp_sound [OF _ _ assms(1)] by blast
  then show "\<exists>s1. map_option (\<lambda>(s1, r). k s1 r) (on_tp f s) = Some s1 \<and> fmd_inv e s1" using assms(2) by simp
qed

lemma commands_safe:
  "answers_safely (cmd_tune khz)" "answers_safely (cmd_seek up start)"
  "(\<And>l. link_valid l \<Longrightarrow> link_valid (fst (f l))) \<Longrightarrow> answers_safely (cmd_value f pr)"
  "(\<And>l. link_valid l \<Longrightarrow> link_valid (fst (g l))) \<Longrightarrow> answers_safely (cmd_set g)"
  "answers_safely (cmd_rds v)"
proof -
  have t: "answers_safely (\<lambda>s. map_option (\<lambda>(s1, r). if r = None then reply ''err tune-failed'' s1
      else reply (''ok '' @ fmt_u khz) (s1\<lparr>freq_khz := khz\<rparr>)) (on_tp (fm_tune tp khz) s))"
    by (rule safe_on_tp [OF tune_sound(1)]) simp
  show "answers_safely (cmd_tune khz)" using t by (auto simp: answers_safely_def cmd_tune_def)
  show "answers_safely (cmd_seek up start)" unfolding cmd_seek_def [abs_def]
    by (rule safe_on_tp [OF tune_sound(2)]) (simp split: option.split)
  show "(\<And>l. link_valid l \<Longrightarrow> link_valid (fst (f l))) \<Longrightarrow> answers_safely (cmd_value f pr)" unfolding cmd_value_def [abs_def]
    by (rule safe_on_tp [OF sound_total]) simp_all
  show "(\<And>l. link_valid l \<Longrightarrow> link_valid (fst (g l))) \<Longrightarrow> answers_safely (cmd_set g)" unfolding cmd_set_def [abs_def]
    by (rule safe_on_tp [OF sound_total]) simp_all
  show "answers_safely (cmd_rds v)" unfolding cmd_rds_def [abs_def]
    by (rule safe_on_tp [OF sound_total]) (simp_all add: keeps)
qed

lemma smtune_safe: "answers_safely (cmd_smtune khz)"
  unfolding answers_safely_def
proof (intro allI impI, elim conjE)
  fix e s assume s: "fmd_inv e s" "powered s"
  obtain s1 r where a: "on_tp (fm_tune tp khz) s = Some (s1, r)" "fmd_inv e s1" "powered s1"
    using on_tp_sound [OF s tune_sound(1)] by blast
  have f: "fmd_inv e (s1\<lparr>freq_khz := khz\<rparr>)" "powered (s1\<lparr>freq_khz := khz\<rparr>)" using a by simp_all
  obtain s2 q where b: "on_tp (\<lambda>l. Some (fm_get_rssi tp l)) (s1\<lparr>freq_khz := khz\<rparr>) = Some (s2, q)" "fmd_inv e s2" "powered s2"
    using on_tp_sound [OF f sound_total [of "fm_get_rssi tp", OF gets_keep(2)]] by blast
  obtain s3 p where c: "on_tp (\<lambda>l. Some (fm_get_snr tp l)) s2 = Some (s3, p)" "fmd_inv e s3"
    using on_tp_sound [OF b(2,3) sound_total [of "fm_get_snr tp", OF gets_keep(3)]] by blast
  show "\<exists>s1. cmd_smtune khz s = Some s1 \<and> fmd_inv e s1"
    using s a b c by (cases r; cases q) (auto simp: cmd_smtune_def)
qed

lemma power_down_safe: "fmd_inv e s \<Longrightarrow> \<exists>s1. fm_power_down s = Some s1 \<and> fmd_inv e s1 \<and> \<not> powered s1"
proof (cases "powered s")
  case True
  assume s: "fmd_inv e s"
  obtain s1 r where d: "on_tp (\<lambda>l. Some (fm_disable tp l)) s = Some (s1, r)" "fmd_inv e s1" "powered s1"
    using on_tp_sound [OF s True sound_total [of "fm_disable tp", OF settings_keep(2)]] by blast
  then show ?thesis using True
    by (auto simp: fm_power_down_def fm_transport_close_def fmd_inv_def split: option.splits)
qed (auto simp: fm_power_down_def)

lemma power_up_safe:
  assumes "fmd_inv e s"
  shows "\<exists>s1 ok. fm_power_up s = Some (s1, ok) \<and> fmd_inv e s1"
proof (cases "powered s")
  case False
  then have d: "device s = None" "env s = e" "length (closed_links s) = length (filter (\<lambda>i. open_link (e i) \<noteq> None) [0..<opened s])"
    using assms by (auto simp: fmd_inv_def)
  show ?thesis
  proof (cases "open_link (env s (opened s))")
    case None
    then show ?thesis using False assms d by (auto simp: fm_power_up_def fm_transport_open_def fmd_inv_def)
  next
    case (Some l)
    obtain l1 ok where u: "set_up l = (l1, ok)" by fastforce
    have "link_valid l1" using set_up_keeps [OF open_link_valid [OF Some]] u by simp
    then show ?thesis using Some False d u
      by (cases ok) (auto simp: fm_power_up_def fm_transport_open_def on_tp_def fm_transport_close_def fmd_inv_def)
  qed
qed (use assms in \<open>auto simp: fm_power_up_def\<close>)

lemma if_safe:
  assumes "c \<Longrightarrow> \<exists>x. a = Some x \<and> P x" "\<not> c \<Longrightarrow> \<exists>x. b = Some x \<and> P x"
  shows "\<exists>x. (if c then a else b) = Some x \<and> P x"
  using assms by simp

lemma handle_command_safe:
  assumes "fmd_inv e s"
  shows "\<exists>s1. handle_command line s = Some s1 \<and> fmd_inv e s1"
proof -
  have p: "answers_safely c \<Longrightarrow> powered s \<Longrightarrow> \<exists>s1. c s = Some s1 \<and> fmd_inv e s1" for c
    using assms by (simp add: answers_safely_def)
  have o: "\<exists>s1. cmd_open s = Some s1 \<and> fmd_inv e s1" 
  proof -
    obtain s1 ok where "fm_power_up s = Some (s1, ok)" "fmd_inv e s1" using power_up_safe [OF assms] by blast
    then show ?thesis by (cases ok) (simp_all add: cmd_open_def)
  qed
  show ?thesis
  proof (cases "tokens line")
    case (Cons cmd args)
    have c: "\<exists>s1. map_option (reply ''ok'') (fm_power_down s) = Some s1 \<and> fmd_inv e s1" using power_down_safe [OF assms] by fastforce
    have r: "\<exists>s1. Some (reply w s) = Some s1 \<and> fmd_inv e s1" for w using assms by simp
    show ?thesis unfolding handle_command_def Let_def Cons list.case
    proof (rule if_safe [OF o], rule if_safe [OF c], rule if_safe [OF r], goal_cases)
      case 1
      then have q: "answers_safely f \<Longrightarrow> \<exists>s1. f s = Some s1 \<and> fmd_inv e s1" for f using p by simp
      note qs = commands_safe(1,2,5) [THEN q] smtune_safe [THEN q]
      note vs = commands_safe(3) [OF gets_keep(1), THEN q] commands_safe(3) [OF gets_keep(2), THEN q]
        commands_safe(3) [OF gets_keep(3), THEN q] commands_safe(3) [OF gets_keep(4), THEN q]
      note ss = commands_safe(4) [OF set_mute_keeps, THEN q] commands_safe(4) [OF settings_keep(4), THEN q]
        commands_safe(4) [OF settings_keep(5), THEN q]
      show ?case
        by (intro if_safe) (rule qs r | (rule vs ss, assumption))+
    qed
  qed (use assms in \<open>simp add: handle_command_def\<close>)
qed

interpretation fmd: safe_system handle_command "fmd_inv e" for e
  by unfold_locales (rule handle_command_safe)

lemma lines_loop_safe: "fmd_inv e s \<Longrightarrow> \<exists>s1 r. lines_loop handle_command buf s = Some (s1, r) \<and> fmd_inv e s1"
proof (induction "length buf" arbitrary: buf s rule: less_induct)
  case less
  show ?case
  proof (cases "next_line buf")
    case None
    then show ?thesis using less.prems by (simp add: lines_loop.simps [of _ buf])
  next
    case (Some lr)
    obtain line rest where lr: "lr = (line, rest)" by fastforce
    obtain s1 where "handle_command (strip_cr line) s = Some s1" "fmd_inv e s1" using fmd.step_safe [OF less.prems] by blast
    with less.hyps [OF next_line_shorter [OF Some [unfolded lr]], of s1] Some lr less.prems show ?thesis
      by (auto simp: lines_loop.simps [of _ buf])
  qed
qed

lemma serve_client_safe: "fmd_inv e s \<Longrightarrow> \<exists>s1. serve_client handle_command cs buf s = Some s1 \<and> fmd_inv e s1"
proof (induction "sum_list (map length cs) + length cs" arbitrary: cs buf s rule: less_induct)
  case less
  show ?case
  proof (cases cs)
    case (Cons c rest)
    obtain s1 r where l: "lines_loop handle_command (buf @ take (511 - length buf) c) s = Some (s1, r)" "fmd_inv e s1"
      using lines_loop_safe [OF less.prems] by blast
    show ?thesis
    proof (cases "take (511 - length buf) c = [] \<or> r = None")
      case True
      then show ?thesis using Cons l less.prems by (auto simp: Let_def)
    next
      case False
      define cs1 where "cs1 = (if drop (511 - length buf) c = [] then rest else drop (511 - length buf) c # rest)"
      have "sum_list (map length cs1) + length cs1 < sum_list (map length cs) + length cs"
        using False Cons by (cases c) (auto simp: cs1_def)
      from less.hyps [OF this l(2)] False Cons l(1) show ?thesis by (auto simp: Let_def cs1_def)
    qed
  qed (use less.prems in simp)
qed

lemma main_safe: "fmd_inv e s \<Longrightarrow> \<exists>s1. fmd_main clients s = Some s1 \<and> fmd_inv e s1 \<and> (clients \<noteq> [] \<longrightarrow> \<not> powered s1)"
proof (induction clients arbitrary: s)
  case (Cons c cs)
  obtain s1 where s1: "serve_client handle_command c [] s = Some s1" "fmd_inv e s1" using serve_client_safe [OF Cons.prems] by blast
  obtain s2 where s2: "fm_power_down s1 = Some s2" "fmd_inv e s2" "\<not> powered s2" using power_down_safe [OF s1(2)] by blast
  from Cons.IH [OF s2(2)] s1(1) s2 show ?case by (cases cs) auto
qed simp

text \<open>
  C33. Whatever clients send, in whatever pieces, and whatever the receiver does, the daemon returns from every client without using a
  transport that is not open; afterwards no transport is open, and each one that was opened was closed.
\<close>

theorem fmd_safe:
  "\<exists>s. fmd_main clients (fmd_start e) = Some s \<and> device s = None \<and> \<not> powered s \<and>
     length (closed_links s) = length (filter (\<lambda>i. open_link (e i) \<noteq> None) [0..<opened s])"
proof -
  have i: "fmd_inv e (fmd_start e)" by (simp add: fmd_inv_def fmd_start_def)
  obtain s where s: "fmd_main clients (fmd_start e) = Some s" "fmd_inv e s" "clients \<noteq> [] \<longrightarrow> \<not> powered s" using main_safe [OF i] by blast
  then have "\<not> powered s" by (cases clients) (auto simp: fmd_start_def)
  with s show ?thesis by (auto simp: fmd_inv_def)
qed

subsection \<open>In which pieces the lines arrive\<close>

text \<open>No line, the unfinished last one included, is longer than \<open>k\<close> for the first and 510 for the others.\<close>

primrec short_lines :: "nat \<Rightarrow> string \<Rightarrow> bool" where
  "short_lines k [] \<longleftrightarrow> True"
| "short_lines k (c # cs) \<longleftrightarrow> (if c = CHR 0x0A then short_lines 510 cs else k > 0 \<and> short_lines (k - 1) cs)"

lemma short_lines_plain: "CHR 0x0A \<notin> set a \<Longrightarrow> short_lines k (a @ b) \<longleftrightarrow> length a \<le> k \<and> short_lines (k - length a) b"
proof (induction a arbitrary: k)
  case (Cons c a)
  from Cons.prems have c: "c \<noteq> CHR 0x0A" and a: "CHR 0x0A \<notin> set a" by auto
  show ?case using Cons.IH [OF a] by (cases k) (simp_all add: c)
qed simp

lemma next_line_append: "next_line a = Some (line, rest) \<Longrightarrow> next_line (a @ b) = Some (line, rest @ b)"
proof -
  assume "next_line a = Some (line, rest)"
  then have n: "CHR 0x0A \<in> set (c_string a)" "line = takeWhile (\<lambda>c. c \<noteq> CHR 0x0A) a" "rest = drop (length line + 1) a"
    by (auto simp: next_line_def Let_def split: if_splits)
  then have m: "CHR 0x0A \<in> set a" by (auto simp: c_string_def dest: set_takeWhileD)
  then have t: "takeWhile (\<lambda>c. c \<noteq> CHR 0x0A) (a @ b) = line" by (simp add: n(2))
  have "CHR 0x0A \<in> set (c_string (a @ b))"
  proof (cases "CHR 0x00 \<in> set a")
    case True
    then have "c_string (a @ b) = c_string a" by (simp add: c_string_def)
    with n(1) show ?thesis by simp
  next
    case False
    then have "c_string (a @ b) = a @ c_string b" unfolding c_string_def by (intro takeWhile_append2) auto
    with m show ?thesis by simp
  qed
  moreover have "length line < length a" using m unfolding n(2) by (induction a) auto
  ultimately show ?thesis using t n(3) by (simp add: next_line_def Let_def)
qed

lemma next_line_split: "next_line a = Some (line, rest) \<Longrightarrow> a = line @ CHR 0x0A # rest \<and> CHR 0x0A \<notin> set line"
proof -
  assume "next_line a = Some (line, rest)"
  then have n: "CHR 0x0A \<in> set a" "line = takeWhile (\<lambda>c. c \<noteq> CHR 0x0A) a" "rest = drop (length line + 1) a"
    by (auto simp: next_line_def Let_def c_string_def split: if_splits dest: set_takeWhileD)
  have "a = takeWhile (\<lambda>c. c \<noteq> CHR 0x0A) a @ CHR 0x0A # drop (length (takeWhile (\<lambda>c. c \<noteq> CHR 0x0A) a) + 1) a"
    using n(1) by (induction a) auto
  then show ?thesis using n(2,3) by (auto dest: set_takeWhileD)
qed

lemma lines_loop_append:
  "lines_loop h (a @ b) s =
    (case lines_loop h a s of
       None \<Rightarrow> None | Some (s1, None) \<Rightarrow> Some (s1, None) | Some (s1, Some rest) \<Rightarrow> lines_loop h (rest @ b) s1)"
proof (induction h a s rule: lines_loop.induct)
  case (1 h a s)
  show ?case
  proof (cases "next_line a")
    case None
    then show ?thesis by (simp add: lines_loop.simps [of h a])
  next
    case (Some lr)
    obtain line rest where lr: "lr = (line, rest)" by fastforce
    note n = Some [unfolded lr]
    show ?thesis
    proof (cases "h (strip_cr line) s")
      case None
      then show ?thesis by (simp add: lines_loop.simps [of h a] lines_loop.simps [of h "a @ b"] n next_line_append [OF n])
    next
      case h: (Some s1)
      show ?thesis using "1.IH" [OF Some lr [symmetric] _ h]
        by (simp add: lines_loop.simps [of h a] lines_loop.simps [of h "a @ b"] n next_line_append [OF n] h)
    qed
  qed
qed

lemma lines_loop_rest:
  "lines_loop h a s = Some (s1, Some rest) \<Longrightarrow> next_line rest = None \<and> set rest \<subseteq> set a \<and>
    (short_lines 510 (a @ b) \<longrightarrow> short_lines 510 (rest @ b))"
proof (induction h a s rule: lines_loop.induct)
  case (1 h a s)
  show ?case
  proof (cases "next_line a")
    case None
    then show ?thesis using "1.prems" by (auto simp: lines_loop.simps [of h a])
  next
    case (Some lr)
    obtain line r where lr: "lr = (line, r)" by fastforce
    note n = Some [unfolded lr]
    obtain s2 where s2: "strip_cr line \<noteq> ''quit''" "h (strip_cr line) s = Some s2" "lines_loop h r s2 = Some (s1, Some rest)"
      using "1.prems" n by (auto simp: lines_loop.simps [of h a] split: if_splits option.splits)
    have "short_lines 510 (r @ b)" if "short_lines 510 (a @ b)"
      using that next_line_split [OF n] short_lines_plain [of line] by auto
    then show ?thesis using "1.IH" [OF Some lr [symmetric] s2(1,2,3)] next_line_split [OF n] by auto
  qed
qed

lemma serve_client_lines:
  assumes "next_line buf = None" "CHR 0x00 \<notin> set (buf @ concat cs)" "[] \<notin> set cs" "short_lines 510 (buf @ concat cs)"
  shows "serve_client h cs buf s = map_option fst (lines_loop h (buf @ concat cs) s)"
  using assms
proof (induction h cs buf s rule: serve_client.induct)
  case (1 h buf s)
  then show ?case by (simp add: lines_loop.simps [of h buf])
next
  case (2 h c cs buf s)
  have plain: "length b \<le> 510" if "next_line b = None" "CHR 0x00 \<notin> set b" "short_lines 510 (b @ d)" for b d
  proof -
    have "c_string b = b" using that(2) unfolding c_string_def takeWhile_eq_all_conv by auto
    then have "CHR 0x0A \<notin> set b" using that(1) by (simp add: next_line_def Let_def split: if_splits)
    with that(3) short_lines_plain [of b 510 d] show ?thesis by simp
  qed
  let ?r = "511 - length buf"
  have piece: "take ?r c \<noteq> []" using plain [OF "2.prems"(1) _ "2.prems"(4)] "2.prems"(2,3) by (cases c) auto
  define b where "b = drop ?r c @ concat cs"
  have e: "buf @ concat (c # cs) = (buf @ take ?r c) @ b" by (simp add: b_def)
  show ?case
  proof (cases "lines_loop h (buf @ take ?r c) s")
    case None
    then show ?thesis using piece unfolding e lines_loop_append [of h "buf @ take ?r c"] by (simp add: Let_def)
  next
    case (Some sr)
    obtain s1 r where sr: "sr = (s1, r)" by fastforce
    show ?thesis
    proof (cases r)
      case None
      then show ?thesis using piece Some sr unfolding e lines_loop_append [of h "buf @ take ?r c"] by (simp add: Let_def)
    next
      case r: (Some rest)
      let ?cs = "if drop ?r c = [] then cs else drop ?r c # cs"
      have cs: "concat ?cs = b" by (simp add: b_def)
      note l = Some [unfolded sr r]
      from lines_loop_rest [OF l, of b] have n: "next_line rest = None" "set rest \<subseteq> set (buf @ take ?r c)" "short_lines 510 (rest @ b)"
        using "2.prems"(4) unfolding e by auto
      have z: "CHR 0x00 \<notin> set (rest @ b)" using n(2) "2.prems"(2) unfolding e by auto
      then have len: "length rest \<le> 510" using plain [OF n(1) _ n(3)] by simp
      have "serve_client h ?cs rest s1 = map_option fst (lines_loop h (rest @ concat ?cs) s1)"
        using "2.IH" [OF refl refl refl piece Some sr [symmetric] r] len n(1,3) z "2.prems"(3) cs by auto
      then show ?thesis using piece l len cs unfolding e lines_loop_append [of h "buf @ take ?r c"] by (simp add: Let_def)
    qed
  qed
qed

text \<open>
  C35. When a client sends no zero byte and no line longer than 510 characters, the pieces in which its bytes arrive make no
  difference: the daemon handles exactly the complete lines of the whole stream, in order, up to the first \<open>quit\<close>.
\<close>

theorem serve_client_pieces:
  assumes "CHR 0x00 \<notin> set (concat cs)" "[] \<notin> set cs" "short_lines 510 (concat cs)"
  shows "serve_client h cs [] s = map_option fst (lines_loop h (concat cs) s)"
  using serve_client_lines [of "[]" cs h s] assms by (simp add: next_line_def c_string_def)

lemma serve_client_pieces_witness:
  "serve_client (\<lambda>l s. Some (s @ [l])) [''st'', ''atus'' @ [CHR 0x0D, CHR 0x0A] @ ''fr'', ''eq'' @ [CHR 0x0A]] [] [] =
     Some [''status'', ''freq'']"
  by (subst serve_client_pieces) (simp_all add: lines_loop.simps next_line_def c_string_def strip_cr_def Let_def)

subsection \<open>Tuning\<close>

text \<open>
  Tuning an open receiver to a frequency of the band sends the four register commands of the protocol, or the first of them
  and an error reply, after which the frequency the daemon remembers is unchanged; the register value of the first
  command stands for the frequency asked for.
\<close>

theorem cmd_tune_exact:
  assumes "device s = Some l" "link_valid l" "valid_freq khz"
  shows "\<exists>s1 l1 k. cmd_tune khz s = Some s1 \<and> device s1 = Some l1 \<and> link_cmds l1 = link_cmds l @ take k (tune_commands khz) \<and>
    (replies s1 = replies s @ [''ok '' @ fmt_u khz @ [CHR 0x0A]] \<and> freq_khz s1 = khz \<and> k = 4 \<or>
     replies s1 = replies s @ [''err tune-failed'' @ [CHR 0x0A]] \<and> freq_khz s1 = freq_khz s) \<and>
    fm_reg_to_khz (le16 (tune_commands khz ! 0 ! 2) (tune_commands khz ! 0 ! 3)) = khz"
proof -
  obtain l1 r where t: "fm_tune tp khz l = Some (l1, r)" "link.sends (tune_commands khz) (r \<noteq> None) l l1"
    using link.tune_sends [OF assms(2)] by blast
  have f: "fm_reg_to_khz (fm_khz_to_reg khz) = khz"
    using assms(3) by (intro khz_roundtrip) (simp_all add: valid_freq_def BAND_LOW_KHZ_def BAND_HIGH_KHZ_def word_le_def)
  have e: "fm_reg_to_khz (le16 (tune_commands khz ! 0 ! 2) (tune_commands khz ! 0 ! 3)) = khz"
    using f bytes16_le16 [of "fm_khz_to_reg khz"] by (simp add: tune_commands_def)
  have o: "on_tp (fm_tune tp khz) s = Some (s\<lparr>device := Some l1\<rparr>, r)" using assms(1) t(1) by (simp add: on_tp_def)
  show ?thesis
  proof (cases r)
    case None
    obtain k where "link_cmds l1 = link_cmds l @ take k (tune_commands khz)" using t(2) by (auto simp: link.sends_def)
    then show ?thesis using None o e assms(3) by (auto simp: cmd_tune_def reply_def)
  next
    case (Some u)
    then have "link_cmds l1 = link_cmds l @ take 4 (tune_commands khz)" using t(2) by (simp add: link.sends_def tune_commands_def)
    then show ?thesis using Some o e assms(3) by (auto simp: cmd_tune_def reply_def)
  qed
qed

lemma cmd_tune_exact_witness:
  "\<exists>s1. cmd_tune 100000 ((fmd_start (\<lambda>_. \<lparr>bt_hal = True, hci_connected = True, hci_input = [], uart_prepared = False,
        uart_firmware = None, uart_input = [], out_oracle = \<lambda>_. True\<rparr>))\<lparr>device := Some (Hci \<lparr>incoming = [], sent = [], send_oracle = \<lambda>_. True, hci_queue = no_events\<rparr>),
      powered := True\<rparr>) = Some s1 \<and> replies s1 \<in> {[''ok 100000'' @ [CHR 0x0A]], [''err tune-failed'' @ [CHR 0x0A]]}"
proof -
  let ?l = "Hci \<lparr>incoming = [], sent = [], send_oracle = \<lambda>_. True, hci_queue = no_events\<rparr>"
  let ?e = "\<lambda>_. \<lparr>bt_hal = True, hci_connected = True, hci_input = [], uart_prepared = False, uart_firmware = None, uart_input = [],
        out_oracle = \<lambda>_. True\<rparr>"
  let ?s = "(fmd_start ?e)\<lparr>device := Some ?l, powered := True\<rparr>"
  have "device ?s = Some ?l" by simp
  moreover have "link_valid ?l" by (simp add: hci_valid_def no_events_inv)
  moreover have "valid_freq 100000" by (simp add: valid_freq_def BAND_LOW_KHZ_def BAND_HIGH_KHZ_def)
  moreover have "fmt_u 100000 = ''100000''" by (simp add: fmt_u_def show_nat.simps digit_def) code_simp
  ultimately show ?thesis using cmd_tune_exact [of ?s ?l 100000] by (auto simp: fmd_start_def)
qed

subsection \<open>The firmware\<close>

text \<open>A record of the firmware file.\<close>

definition fw_record :: "16 word \<times> byte list \<Rightarrow> byte list" where
  "fw_record r = bytes16 (fst r) @ word_of_nat (length (snd r)) # snd r"

lemma fw_record_read:
  assumes "length p \<le> 255"
  shows "download_records (fw_record (op, p) @ rest) n u =
    (case hci_command op p 64 u of (u1, None) \<Rightarrow> (u1, None) | (u1, Some _) \<Rightarrow> download_records rest (n + 1) u1)"
proof -
  have l: "unat (word_of_nat (length p) :: byte) = length p" using assms by (simp add: unat_of_nat)
  have b: "bytes16 op = [bytes16 op ! 0, bytes16 op ! 1]" by (simp add: bytes16_def)
  have f: "fw_record (op, p) @ rest = bytes16 op ! 0 # bytes16 op ! 1 # word_of_nat (length p) # p @ rest"
    using b by (simp add: fw_record_def)
  show ?thesis by (subst download_records.simps) (simp add: f l bytes16_le16 [unfolded One_nat_def] Let_def)
qed

text \<open>What is left of a record that is cut off.\<close>

definition cut_record :: "byte list \<Rightarrow> bool" where
  "cut_record j \<longleftrightarrow> length j < 3 \<or> length j < 3 + unat (j ! 2)"

text \<open>
  C36. A download that succeeds wrote the packets of all records of the firmware file, in order, and counted them; a record that is
  cut off at the end of the file is skipped without an error.
\<close>

theorem firmware_sent:
  assumes "\<forall>r\<in>set rs. length (snd r) \<le> 255" "cut_record j" "uart_valid u"
    and "download_records (concat (map fw_record rs) @ j) n u = (u1, Some m)"
  shows "m = n + length rs \<and> line_out u1 = line_out u @ map (\<lambda>(op, p). hci_packet op p) rs"
  using assms
proof (induction rs arbitrary: n u)
  case Nil
  have "download_records j n u = (u, Some n)"
    using Nil.prems(2) by (subst download_records.simps) (auto simp: cut_record_def Let_def)
  then show ?case using Nil.prems(4) by simp
next
  case (Cons r rs)
  obtain op p where r: "r = (op, p)" by fastforce
  obtain u2 q where c: "hci_command op p 64 u = (u2, q)" by fastforce
  have d: "download_records (concat (map fw_record (r # rs)) @ j) n u =
      (case q of None \<Rightarrow> (u2, None) | Some _ \<Rightarrow> download_records (concat (map fw_record rs) @ j) (n + 1) u2)"
    using fw_record_read [of p op "concat (map fw_record rs) @ j"] Cons.prems(1) by (simp add: r c split: option.split)
  then have q: "q \<noteq> None" using Cons.prems(4) by (auto split: option.splits)
  have "line_out u2 = line_out u @ [hci_packet op p]" using hci_command_frame(2) [OF Cons.prems(3), of op p 64] c q by simp
  moreover have "uart_valid u2" by (rule command_valid [OF c Cons.prems(3)])
  ultimately show ?case using Cons.IH [of u2 "n + 1"] Cons.prems d q r by (auto split: option.splits)
qed

lemma firmware_sent_witness:
  "\<exists>u1. download_records (concat (map fw_record [(0xfc4c, [1, 2])]) @ [0x4c, 0xfc, 9]) 0
     \<lparr>line_in = map Some [4, 0x0e, 4, 1, 0x4c, 0xfc, 0], line_out = [], write_oracle = \<lambda>_. True, uart_queue = no_events, chip_name = []\<rparr>
     = (u1, Some 1) \<and> line_out u1 = [hci_packet 0xfc4c [1, 2]]"
proof -
  let ?u = "\<lparr>line_in = map Some [4, 0x0e, 4, 1, 0x4c, 0xfc, 0], line_out = [], write_oracle = \<lambda>_. True, uart_queue = no_events,
    chip_name = []\<rparr>" and ?f = "concat (map fw_record [(0xfc4c, [1, 2])]) @ [0x4c, 0xfc, 9]"
  obtain u1 r where d: "download_records ?f 0 ?u = (u1, r)" by fastforce
  have "snd (download_records ?f 0 ?u) \<noteq> None" by code_simp
  then obtain m where m: "r = Some m" using d by auto
  have j: "cut_record [0x4c, 0xfc, 9]" by (simp add: cut_record_def)
  have v: "uart_valid ?u" by (simp add: uart_valid_def no_events_inv)
  show ?thesis using firmware_sent [OF _ j v d [unfolded m]] d m by simp
qed

end
