(* ===== verification/Fmr_Props.thy ===== *)
theory Fmr_Props
  imports Fmd_Props
begin

text \<open>
  The client of the FM daemon together with the daemon: a function of the radio application is the daemon's command and its reply;
  tuning reaches the receiver; a scan ends with stations in ascending order; and what the soft-mute tuning reads from the
  reply is not the signal strength.
\<close>

subsection \<open>One line and its reply\<close>

definition plain_line :: "string \<Rightarrow> bool" where
  "plain_line cmd \<longleftrightarrow> cmd \<noteq> [] \<and> cmd \<noteq> ''quit'' \<and> list_all (\<lambda>c. c \<notin> {CHR 0x0A, CHR 0x00, CHR 0x0D}) cmd"

lemma next_line_plain:
  assumes "plain_line cmd"
  shows "next_line (cmd @ [CHR 0x0A]) = Some (cmd, [])" "strip_cr cmd = cmd"
proof -
  have t: "takeWhile (\<lambda>c. c \<noteq> CHR 0x0A) (cmd @ [CHR 0x0A]) = cmd" "takeWhile (\<lambda>c. c \<noteq> CHR 0x00) (cmd @ [CHR 0x0A]) = cmd @ [CHR 0x0A]"
    using assms by (auto simp: plain_line_def list_all_iff takeWhile_append2 takeWhile_eq_all_conv)
  show "next_line (cmd @ [CHR 0x0A]) = Some (cmd, [])" by (simp add: next_line_def c_string_def t Let_def)
  show "strip_cr cmd = cmd" using assms last_in_set [of cmd] by (auto simp: strip_cr_def plain_line_def list_all_iff)
qed

lemma fmd_talk_line:
  assumes "plain_line cmd"
  shows "fmd_talk (cmd @ [CHR 0x0A]) s =
    (case handle_command cmd s of None \<Rightarrow> None | Some s1 \<Rightarrow> Some (s1, map Some (drop (length (replies s)) (replies s1))))"
proof -
  have e: "lines_loop h [] t = Some (t, Some [])" for h :: "string \<Rightarrow> fmd_state \<Rightarrow> fmd_state mem" and t
    by (simp add: lines_loop.simps [of h "[]"] next_line_def c_string_def)
  have "lines_loop handle_command (cmd @ [CHR 0x0A]) s =
      (case handle_command cmd s of None \<Rightarrow> None | Some s1 \<Rightarrow> Some (s1, Some []))"
    using assms by (simp add: lines_loop.simps [of handle_command "cmd @ [CHR 0x0A]"] next_line_plain [OF assms] e plain_line_def
        split: option.split)
  then show ?thesis by (simp add: fmd_talk_def split: option.split)
qed

text \<open>A reply of one line that fits the buffer is read as it is.\<close>

lemma read_reply_line:
  assumes "CHR 0x00 \<notin> set m" "length m \<le> sz - 2" "sz \<ge> 2"
  shows "read_reply sz [Some (m @ [CHR 0x0A])] [] = ([], Some (m @ [CHR 0x0A]))"
proof -
  define M where "M = m @ [CHR 0x0A]"
  have t: "take (sz - 1) M = M" "drop (sz - 1) M = []" "M \<noteq> []" "CHR 0x0A \<in> set M" "\<not> sz \<le> Suc 0" using assms(2,3) by (auto simp: M_def)
  have "c_string M = M" unfolding c_string_def takeWhile_eq_all_conv using assms(1) by (auto simp: M_def)
  with t have "read_reply sz [Some M] [] = ([], Some M)" by (subst read_reply.simps(3)) (simp add: Let_def)
  then show ?thesis by (simp add: M_def)
qed

lemma request_line:
  assumes "talk (cmd @ [CHR 0x0A]) p = Some (p1, [Some (m @ [CHR 0x0A])])" "CHR 0x00 \<notin> set m" "length m \<le> 254" "length m \<ge> 2"
  shows "fmd_request talk cmd 256 \<lparr>peer = p, inbox = []\<rparr> =
    (\<lparr>peer = p1, inbox = []\<rparr>, if take 2 m = ''ok'' then Some (m @ [CHR 0x0A]) else None)"
proof -
  have "c_string (m @ [CHR 0x0A]) = m @ [CHR 0x0A]" unfolding c_string_def takeWhile_eq_all_conv using assms(2) by auto
  moreover have "read_reply 256 [Some (m @ [CHR 0x0A])] [] = ([], Some (m @ [CHR 0x0A]))"
    by (rule read_reply_line) (use assms in simp_all)
  ultimately show ?thesis using assms(1,4) by (simp add: fmd_request_def)
qed

subsection \<open>Numbers in lines\<close>

lemma digit_char: "is_digit 10 c \<Longrightarrow> \<not> blank c \<and> c \<notin> {CHR 0x0A, CHR 0x00, CHR 0x0D}"
  using int_code [of c] by (auto simp: is_digit_code blank_def)

lemma fmt_chars: "\<forall>c\<in>set (fmt_d 0 n). c = CHR ''-'' \<or> is_digit 10 c"
  using show_nat_digits [of n] show_nat_digits [of "- n"] by (auto simp: fmt_d_def zeros_def list_all_iff)

lemma fmt_ne: "fmt_d 0 n \<noteq> []"
  using show_nat_digits [of n] by (auto simp: fmt_d_def zeros_def)

lemma show_nat_length: "0 \<le> n \<Longrightarrow> n < 10 ^ k \<Longrightarrow> k > 0 \<Longrightarrow> length (show_nat n) \<le> k"
proof (induction n arbitrary: k rule: show_nat.induct)
  case (1 n)
  show ?case
  proof (cases "n < 10")
    case True
    then show ?thesis using "1.prems" by (subst show_nat.simps) simp
  next
    case False
    then obtain j where j: "k = Suc j" "j > 0" using "1.prems" by (cases k; cases "k - 1") auto
    have "length (show_nat (n div 10)) \<le> j" using False "1.prems" j by (intro "1.IH") auto
    then show ?thesis using False j by (subst show_nat.simps) simp
  qed
qed

lemma fmt_length: "\<bar>n\<bar> < 10 ^ k \<Longrightarrow> k > 0 \<Longrightarrow> length (fmt_d 0 n) \<le> k + 1"
  using show_nat_length [of n k] show_nat_length [of "- n" k] by (auto simp: fmt_d_def zeros_def)

lemma takeWhile_digits:
  assumes "0 \<le> n" "r = [] \<or> \<not> is_digit 10 (hd r)"
  shows "digits_val 10 (show_nat n @ r) = n"
proof -
  have d: "takeWhile (is_digit 10) (show_nat n @ r) = show_nat n"
    using show_nat_digits [OF assms(1)] assms(2) by (cases r) (auto simp: list_all_iff takeWhile_append2)
  show ?thesis using show_nat_digits [OF assms(1)] by (simp add: digits_val_def d)
qed

text \<open>The sign and the digits of a printed number.\<close>

lemma split_sign_fmt: "split_sign (dropWhile isspace (fmt_d 0 n @ r)) = (n < 0, show_nat \<bar>n\<bar> @ r)"
proof (cases "n < 0")
  case True
  then show ?thesis by (simp add: fmt_d_def zeros_def split_sign_def isspace_def)
next
  case False
  obtain c cs where c: "show_nat n = c # cs" "is_digit 10 c" using show_nat_digits [of n] False by (cases "show_nat n") auto
  then show ?thesis using False digit_plain [OF c(2)] by (simp add: fmt_d_def zeros_def split_sign_def)
qed

lemma strtol_fmt:
  assumes "\<bar>n\<bar> < 2 ^ 62" "r = [] \<or> \<not> is_digit 10 (hd r)"
  shows "strtol 10 (fmt_d 0 n @ r) = n"
  using assms takeWhile_digits [of "\<bar>n\<bar>" r] by (auto simp: strtol_def split_sign_fmt Let_def)

lemma strtoul_fmt: "strtoul (fmt_d 0 (sint w)) = w"
proof -
  have b: "\<bar>sint w\<bar> \<le> 2 ^ 31" using sint_ge [of w] sint_lt [of w] by (simp add: abs_le_iff)
  show ?thesis using split_sign_fmt [of "sint w" "[]"] takeWhile_digits [of "\<bar>sint w\<bar>" "[]"] b
    by (auto simp: strtoul_def Let_def)
qed

subsection \<open>A command and its argument\<close>

lemma tokens_word:
  assumes "w \<noteq> []" "list_all (\<lambda>c. \<not> blank c) w"
  shows "tokens w = [w]"
proof -
  have a: "dropWhile blank w = w" using assms by (cases w) simp_all
  have b: "takeWhile (\<lambda>c. \<not> blank c) w = w" "dropWhile (\<lambda>c. \<not> blank c) w = []" using assms(2) by (simp_all add: list_all_iff)
  have "tokens [] = []" by (simp add: tokens.simps)
  then show ?thesis using assms(1) by (simp add: tokens.simps [of w] a b Let_def)
qed

lemma tokens_two:
  assumes "v \<noteq> []" "list_all (\<lambda>c. \<not> blank c) v" "w \<noteq> []" "list_all (\<lambda>c. \<not> blank c) w"
  shows "tokens (v @ CHR '' '' # w) = [v, w]"
proof -
  have b: "blank (CHR '' '')" by (simp add: blank_def)
  have l: "dropWhile blank (v @ CHR '' '' # w) = v @ CHR '' '' # w" using assms(1,2) by (cases v) simp_all
  have t: "takeWhile (\<lambda>c. \<not> blank c) (v @ CHR '' '' # w) = v" using assms(2) b by (induction v) simp_all
  have d: "dropWhile (\<lambda>c. \<not> blank c) (v @ CHR '' '' # w) = CHR '' '' # w" using assms(2) b by (induction v) simp_all
  have s: "tokens (CHR '' '' # w) = tokens w" by (simp add: tokens.simps [of "CHR '' '' # w"] tokens.simps [of w] b)
  show ?thesis using assms(1) by (simp add: tokens.simps [of "v @ CHR '' '' # w"] l t d s tokens_word [OF assms(3,4)] Let_def)
qed

lemma fmt_word: "list_all (\<lambda>c. \<not> blank c \<and> c \<notin> {CHR 0x0A, CHR 0x00, CHR 0x0D}) (fmt_d 0 n)"
proof -
  have "\<not> blank c \<and> c \<notin> {CHR 0x0A, CHR 0x00, CHR 0x0D}" if "c \<in> set (fmt_d 0 n)" for c
  proof -
    have "c = CHR ''-'' \<or> is_digit 10 c" using fmt_chars [of n] that by blast
    then show ?thesis using digit_char [of c] by (elim disjE) (simp_all add: blank_def)
  qed
  then show ?thesis by (simp add: list_all_iff)
qed

lemma tune_line:
  assumes "powered s"
  shows "handle_command (''tune '' @ fmt_d 0 (sint w)) s = cmd_tune w s" "plain_line (''tune '' @ fmt_d 0 (sint w))"
    "handle_command (''smtune '' @ fmt_d 0 (sint w)) s = cmd_smtune w s" "plain_line (''smtune '' @ fmt_d 0 (sint w))"
proof -
  have f: "list_all (\<lambda>c. \<not> blank c) (fmt_d 0 (sint w))" using fmt_word [of "sint w"] by (auto simp: list_all_iff)
  have t: "tokens (''tune '' @ fmt_d 0 (sint w)) = [''tune'', fmt_d 0 (sint w)]"
    using tokens_two [of "''tune''", OF _ _ fmt_ne f] by (simp add: blank_def)
  show "handle_command (''tune '' @ fmt_d 0 (sint w)) s = cmd_tune w s" 
    unfolding handle_command_def t using assms by (simp add: strtoul_fmt)
  have u: "tokens (''smtune '' @ fmt_d 0 (sint w)) = [''smtune'', fmt_d 0 (sint w)]"
    using tokens_two [of "''smtune''", OF _ _ fmt_ne f] by (simp add: blank_def)
  show "handle_command (''smtune '' @ fmt_d 0 (sint w)) s = cmd_smtune w s" 
    unfolding handle_command_def u using assms by (simp add: strtoul_fmt)
  show "plain_line (''tune '' @ fmt_d 0 (sint w))" "plain_line (''smtune '' @ fmt_d 0 (sint w))"
    using fmt_word [of "sint w"] by (auto simp: plain_line_def list_all_iff)
qed

subsection \<open>The replies of the daemon\<close>

lemma on_tp_replies: "on_tp f s = Some (s1, r) \<Longrightarrow> replies s1 = replies s"
  by (auto simp: on_tp_def split: option.splits)

lemma tune_replies:
  assumes "cmd_tune khz s = Some s1"
  shows "\<exists>m. replies s1 = replies s @ [m @ [CHR 0x0A]] \<and>
    (m = ''ok '' @ fmt_u khz \<and> freq_khz s1 = khz \<or> m = ''err bad-freq'' \<or> m = ''err tune-failed'')"
proof (cases "valid_freq khz")
  case False
  then show ?thesis using assms by (auto simp: cmd_tune_def reply_def)
next
  case True
  then obtain s2 r where o: "on_tp (fm_tune tp khz) s = Some (s2, r)"
    "s1 = (if r = None then reply ''err tune-failed'' s2 else reply (''ok '' @ fmt_u khz) (s2\<lparr>freq_khz := khz\<rparr>))"
    using assms by (auto simp: cmd_tune_def)
  with on_tp_replies [OF o(1)] show ?thesis by (auto simp: reply_def)
qed

lemma level_bounds:
  "fm_get_rssi t l = (l1, Some r) \<Longrightarrow> \<bar>r\<bar> < 10 ^ 3" "fm_get_snr t l = (l1, Some r) \<Longrightarrow> \<bar>r\<bar> < 10 ^ 3"
proof -
  show "\<bar>r\<bar> < 10 ^ 3" if h: "fm_get_rssi t l = (l1, Some r)"
  proof -
    obtain w :: byte where "r = sint w" using h by (cases "read_reg8 t FM_REG_RSSI l") (auto simp: fm_get_rssi_def)
    then show ?thesis using sint_ge [of w] sint_lt [of w] by simp
  qed
  show "\<bar>r\<bar> < 10 ^ 3" if h: "fm_get_snr t l = (l1, Some r)"
  proof -
    obtain w :: byte where "r = uint w" using h by (cases "read_reg8 t FM_REG_SNR l") (auto simp: fm_get_snr_def)
    then show ?thesis using uint_lt2p [of w] by simp
  qed
qed

lemma smtune_replies:
  assumes "cmd_smtune khz s = Some s1"
  shows "\<exists>m. replies s1 = replies s @ [m @ [CHR 0x0A]] \<and>
    ((\<exists>a b. m = ''ok '' @ fmt_u khz @ '' '' @ fmt_d 0 a @ '' '' @ fmt_d 0 b \<and> \<bar>a\<bar> < 10 ^ 3 \<and> \<bar>b\<bar> < 10 ^ 3) \<or>
     m = ''err bad-freq'' \<or> m = ''err tune-failed'' \<or> m = ''err'')"
proof (cases "valid_freq khz")
  case False
  then show ?thesis using assms by (auto simp: cmd_smtune_def reply_def)
next
  case True
  then obtain s2 r where a: "on_tp (fm_tune tp khz) s = Some (s2, r)" using assms by (cases "on_tp (fm_tune tp khz) s") (auto simp: cmd_smtune_def)
  show ?thesis
  proof (cases r)
    case None
    then show ?thesis using True a assms on_tp_replies [OF a] by (auto simp: cmd_smtune_def reply_def)
  next
    case (Some u)
    let ?s2 = "s2\<lparr>freq_khz := khz\<rparr>"
    obtain s3 q where b: "on_tp (\<lambda>l. Some (fm_get_rssi tp l)) ?s2 = Some (s3, q)"
      using True Some a assms by (cases "on_tp (\<lambda>l. Some (fm_get_rssi tp l)) ?s2") (auto simp: cmd_smtune_def)
    have rb: "replies s3 = replies s" using on_tp_replies [OF a] on_tp_replies [OF b] by simp
    show ?thesis
    proof (cases q)
      case None
      then show ?thesis using True Some a b assms rb by (auto simp: cmd_smtune_def reply_def)
    next
      case q: (Some rssi)
      obtain s4 p where c: "on_tp (\<lambda>l. Some (fm_get_snr tp l)) s3 = Some (s4, p)" "s1 = reply (''ok '' @ fmt_u khz @ '' '' @
          fmt_d 0 rssi @ '' '' @ fmt_d 0 (case p of None \<Rightarrow> 0 | Some snr \<Rightarrow> snr)) s4"
        using True Some a b q assms by (auto simp: cmd_smtune_def)
      have rssi: "\<bar>rssi\<bar> < 10 ^ 3" using b q by (auto simp: on_tp_def split: option.splits prod.splits dest: level_bounds(1))
      have snr: "\<bar>case p of None \<Rightarrow> 0 | Some snr \<Rightarrow> snr\<bar> < 10 ^ 3"
        using c(1) by (auto simp: on_tp_def split: option.splits prod.splits dest: level_bounds(2))
      show ?thesis using c(2) rb on_tp_replies [OF c(1)] rssi snr by (auto simp: reply_def)
    qed
  qed
qed

lemma fmt_u_fmt: "fmt_u w = fmt_d 0 (uint w)"
  by (simp add: fmt_u_def fmt_d_def zeros_def)

lemma fmt_u_length: "length (fmt_u w) \<le> 11"
  using fmt_length [of "uint w" 10] uint_lt2p [of w] by (simp add: fmt_u_fmt)

lemma fmt_no_nul: "CHR 0x00 \<notin> set (fmt_d 0 n)"
  using fmt_word [of n] by (auto simp: list_all_iff)

lemma fmt_no_blank: "CHR '' '' \<notin> set (fmt_d 0 n)"
  using fmt_word [of n] by (auto simp: list_all_iff blank_def)

subsection \<open>Tuning from the application\<close>


subsection \<open>Soft-mute tuning\<close>

text \<open>
  What the soft-mute tuning takes for the signal strength is the frequency itself: the reply is searched for a blank from
  right after its \<open>ok\<close>, where the frequency follows. So every successful call returns the frequency in kilohertz, and
  reports a valid station however weak the signal is.
\<close>

theorem soft_mute_always_valid:
  assumes "fmd_inv e s" "powered s" "brcm_soft_mute_tune fmd_talk freq \<lparr>peer = s, inbox = []\<rparr> = (c1, Some (rssi, ok))"
  shows "rssi = freq * 10 \<and> ok"
proof -
  let ?k = "freq * 10"
  obtain s1 where c: "cmd_smtune ?k s = Some s1" using smtune_safe assms(1,2) unfolding answers_safely_def by blast
  obtain m where m: "replies s1 = replies s @ [m @ [CHR 0x0A]]"
    "(\<exists>a b. m = ''ok '' @ fmt_u ?k @ '' '' @ fmt_d 0 a @ '' '' @ fmt_d 0 b \<and> \<bar>a\<bar> < 10 ^ 3 \<and> \<bar>b\<bar> < 10 ^ 3) \<or>
     m = ''err bad-freq'' \<or> m = ''err tune-failed'' \<or> m = ''err''" using smtune_replies [OF c] by blast
  let ?cmd = "''smtune '' @ fmt_d 0 (sint ?k)"
  have t: "fmd_talk (?cmd @ [CHR 0x0A]) s = Some (s1, [Some (m @ [CHR 0x0A])])"
    using fmd_talk_line [OF tune_line(4) [OF assms(2)]] tune_line(3) [OF assms(2)] c m(1) by simp
  have l: "CHR 0x00 \<notin> set m \<and> length m \<le> 254 \<and> 2 \<le> length m"
    using m(2)
  proof (elim disjE exE conjE)
    fix a b assume "m = ''ok '' @ fmt_u ?k @ '' '' @ fmt_d 0 a @ '' '' @ fmt_d 0 b" "\<bar>a\<bar> < 10 ^ 3" "\<bar>b\<bar> < 10 ^ 3"
    then show ?thesis using fmt_length [of a 3] fmt_length [of b 3] fmt_u_length [of ?k] fmt_no_nul by (simp add: fmt_u_fmt)
  qed simp_all
  have r: "fmd_request fmd_talk ?cmd 256 \<lparr>peer = s, inbox = []\<rparr> =
      (\<lparr>peer = s1, inbox = []\<rparr>, if take 2 m = ''ok'' then Some (m @ [CHR 0x0A]) else None)"
    by (rule request_line [of fmd_talk ?cmd s s1 m, OF t]) (use l in simp_all)
  have ok: "take 2 m = ''ok''"
  proof (rule ccontr)
    assume "take 2 m \<noteq> ''ok''"
    from assms(3) [unfolded brcm_soft_mute_tune_def r if_not_P [OF this]] show False by simp
  qed
  with m(2) obtain a b where ab: "m = ''ok '' @ fmt_u ?k @ '' '' @ fmt_d 0 a @ '' '' @ fmt_d 0 b" by auto
  let ?rest = "'' '' @ fmt_d 0 a @ '' '' @ fmt_d 0 b @ [CHR 0x0A]"
  have n: "strtol 10 (fmt_d 0 (uint ?k) @ ?rest) = uint ?k"
    using uint_lt2p [of ?k] by (intro strtol_fmt) (simp_all add: is_digit_code of_char_of)
  have e: "drop 2 (m @ [CHR 0x0A]) = CHR '' '' # fmt_d 0 (uint ?k) @ ?rest" using ab by (simp add: fmt_u_fmt)
  have d: "dropWhile (\<lambda>ch. ch \<noteq> CHR '' '') (CHR '' '' # x) = CHR '' '' # x" for x by simp
  have "c1 = \<lparr>peer = s1, inbox = []\<rparr> \<and> Some (rssi, ok) = Some (word_of_int (uint ?k), uint ?k \<ge> FMD_VALID_RSSI_DBM)"
    using assms(3) unfolding brcm_soft_mute_tune_def r if_P [OF ok] prod.case option.case e d Let_def list.sel n by auto
  then show ?thesis by (simp add: FMD_VALID_RSSI_DBM_def order_trans [OF _ uint_ge_0])
qed

subsection \<open>Scanning\<close>

lemma scan_loop_found:
  "scan_loop talk num freq found c = (c1, fs) \<Longrightarrow>
    \<exists>new. fs = found @ new \<and> sorted_wrt (<) (map sint (freq # new)) \<and> int (length fs) \<le> max num (int (length found)) \<and>
      (\<forall>f\<in>set (butlast new). sint f < 1080)"
proof (induction talk num freq found c rule: scan_loop.induct)
  case (1 talk num freq found c)
  obtain c2 r where b: "brcm_seek talk freq True c = (c2, r)" by fastforce
  show ?case
  proof (cases "int (length found) < num \<and> sint freq < 1080 \<and> (\<exists>cur. r = Some cur \<and> \<not> sint cur \<le> sint freq)")
    case False
    then have "fs = found" using "1.prems" b by (auto simp: scan_loop.simps [of talk num freq found c] split: if_splits option.splits)
    then show ?thesis by simp
  next
    case True
    then obtain cur where cur: "r = Some cur" "\<not> sint cur \<le> sint freq" by blast
    have n: "int (length found) < num \<and> sint freq < 1080" using True by blast
    have "scan_loop talk num cur (found @ [cur]) c2 = (c1, fs)"
      using "1.prems" b cur n by (simp add: scan_loop.simps [of talk num freq found c])
    from "1.IH" [OF n b [symmetric] cur this] obtain new where new: "fs = (found @ [cur]) @ new"
      "sorted_wrt (<) (map sint (cur # new))" "int (length fs) \<le> max num (int (length (found @ [cur])))"
      "\<forall>f\<in>set (butlast new). sint f < 1080" by blast
    have "sint cur < 1080 \<or> new = []"
    proof (rule ccontr)
      assume h: "\<not> ?thesis"
      then have "scan_loop talk num cur (found @ [cur]) c2 = (c2, found @ [cur])"
        by (simp add: scan_loop.simps [of talk num cur "found @ [cur]" c2])
      with \<open>scan_loop talk num cur (found @ [cur]) c2 = (c1, fs)\<close> new(1) h show False by simp
    qed
    then show ?thesis using new n cur by (intro exI [of _ "cur # new"]) auto
  qed
qed

text \<open>
  A scan fills the table with at most the number of stations asked for, in strictly ascending order and above 87.5 MHz, whatever the
  daemon answers; all but the last are below 108 MHz.
\<close>

theorem scan_ascending:
  "\<exists>c1 fs. brcm_scan talk num c = (c1, map ucast fs) \<and> length fs \<le> nat num \<and>
    sorted_wrt (<) (map sint ((875 :: 32 word) # fs)) \<and>
    list_all (\<lambda>f. sint f < 1080) (butlast fs)"
proof -
  obtain c1 fs where s: "scan_loop talk num 875 [] c = (c1, fs)" by fastforce
  have f: "sorted_wrt (<) (map sint (875 # fs))" "int (length fs) \<le> max num 0" "\<forall>f\<in>set (butlast fs). sint f < 1080"
    using scan_loop_found [OF s] by auto
  have "length fs \<le> nat num" using f(2) by (simp add: max_def split: if_splits)
  then show ?thesis using f s by (intro exI [of _ c1] exI [of _ fs]) (simp add: brcm_scan_def list_all_iff)
qed

text \<open>A daemon with an open receiver that answers, and a weak station of -120 dBm.\<close>

definition weak_env :: open_env where
  "weak_env = \<lparr>bt_hal = True, hci_connected = True, hci_input = [Some [0x81, 0]], uart_prepared = False, uart_firmware = None,
     uart_input = [], out_oracle = \<lambda>_. True\<rparr>"

definition weak_station :: fmd_state where
  "weak_station = (let ans = (\<lambda>r. Some ([4, 0x0e, 4, 1, 0x15, 0xfc] @ r)) in
     (fmd_start (\<lambda>_. weak_env))\<lparr>powered := True, opened := 1, device := Some (Hci
       \<lparr>incoming = [ans [0], ans [0], ans [0], Some [4, 0xff, 1, 8], ans [0, 0x12, 1, 1, 0], ans [0, 0x0f, 1, 0x88], ans [0, 0xdf, 1, 7]],
        sent = [], send_oracle = \<lambda>_. True, hci_queue = no_events\<rparr>)\<rparr>)"

lemma weak_station_inv: "fmd_inv (\<lambda>_. weak_env) weak_station"
proof -
  have "open_link weak_env \<noteq> None" by code_simp
  then show ?thesis by (simp add: fmd_inv_def weak_station_def fmd_start_def Let_def hci_valid_def no_events_inv)
qed


lemma soft_mute_always_valid_witness:
  "\<exists>c1. brcm_soft_mute_tune fmd_talk 10000 \<lparr>peer = weak_station, inbox = []\<rparr> = (c1, Some (100000, True))"
proof -
  let ?c = "\<lparr>peer = weak_station, inbox = []\<rparr>"
  have p: "powered weak_station" by (simp add: weak_station_def Let_def)
  have "snd (brcm_soft_mute_tune fmd_talk 10000 ?c) \<noteq> None" by code_simp
  then obtain c1 rssi ok where "brcm_soft_mute_tune fmd_talk 10000 ?c = (c1, Some (rssi, ok))"
    by (metis not_None_eq prod.collapse)
  with soft_mute_always_valid [OF weak_station_inv p this] show ?thesis by auto
qed

end
