(* ===== verification/Loc_Ni.thy ===== *)
theory Loc_Ni
  imports Prelude
begin

text \<open>
  Network-initiated requests, \<open>loc_eng_ni.cpp\<close>: the modem asks whether the device may be located, the framework shows the request
  and answers it, and a thread for each request waits for the answer or for the time-out and sends it to the modem. There are two
  sessions, one of them for emergencies. The data the modem passes with a request is allocated memory, here a number; \<open>ni_freed\<close>
  holds what was freed, in order. The handlers for the modem run on the message thread, \<open>loc_eng_ni_respond\<close> on one of
  the framework, and the part of a session's thread under its lock is one step.
\<close>

subsection \<open>Sessions\<close>

text \<open>\<open>GpsUserResponseType\<close>, with \<open>RESP_UNSET\<close> for the zero of cleared memory.\<close>

datatype ni_response = RESP_UNSET | RESP_ACCEPT | RESP_DENY | RESP_NORESP | RESP_IGNORE

datatype ni_kind = Regular | Es

record ni_session =
  respTimeLeft :: int
  respRecvd :: bool
  rawRequest :: "nat option"
  reqID :: "32 word"
  resp :: ni_response

record ni_notification =
  ni_type :: int
  privacy_override :: bool
  timeout :: int

datatype mute_session = MUTE_SESS_NONE | MUTE_SESS_WAIT | MUTE_SESS_IN_SESSION

text \<open>A thread was created, waits until a time, or left the lock with the message it will send.\<close>

datatype ni_phase = Starting | Waiting int | Leaving "(ni_response \<times> nat) option"

record ni =
  session :: ni_session
  sessionEs :: ni_session
  reqIDCounter :: "32 word"
  ni_notify_cb :: bool
  mute_session_state :: mute_session
  ni_threads :: "(ni_kind \<times> ni_phase) list"
  ni_now :: int
  ni_msgs :: "(ni_response \<times> nat) list"
  ni_notified :: "32 word list"
  ni_informed :: "(ni_response \<times> nat) list"
  ni_freed :: "nat list"

definition LOC_NI_NO_RESPONSE_TIME :: int where "LOC_NI_NO_RESPONSE_TIME = 20"
definition GPS_NI_TYPE_EMERGENCY_SUPL :: int where "GPS_NI_TYPE_EMERGENCY_SUPL = 4"

fun sess :: "ni_kind \<Rightarrow> 'a ni_scheme \<Rightarrow> ni_session" where
  "sess Regular S = session S"
| "sess Es S = sessionEs S"

fun set_sess :: "ni_kind \<Rightarrow> ni_session \<Rightarrow> 'a ni_scheme \<Rightarrow> 'a ni_scheme" where
  "set_sess Regular s S = S\<lparr>session := s\<rparr>"
| "set_sess Es s S = S\<lparr>sessionEs := s\<rparr>"

definition ni_free :: "nat option \<Rightarrow> 'a ni_scheme \<Rightarrow> 'a ni_scheme" where
  "ni_free p S = (case p of None \<Rightarrow> S | Some x \<Rightarrow> S\<lparr>ni_freed := ni_freed S @ [x]\<rparr>)"

definition loc_eng_mute_one_session :: "'a ni_scheme \<Rightarrow> 'a ni_scheme" where
  "loc_eng_mute_one_session S = S\<lparr>mute_session_state := MUTE_SESS_WAIT\<rparr>"

subsection \<open>Requests, answers and restarts\<close>

definition session_free :: "ni_kind \<Rightarrow> 'a ni_scheme \<Rightarrow> bool" where
  "session_free k S \<longleftrightarrow>
    (case k of Es \<Rightarrow> rawRequest (sessionEs S) = None
     | Regular \<Rightarrow> \<not> (rawRequest (session S) \<noteq> None \<or> rawRequest (sessionEs S) \<noteq> None))"

definition kind_of :: "ni_notification \<Rightarrow> ni_kind" where
  "kind_of n = (if ni_type n = GPS_NI_TYPE_EMERGENCY_SUPL then Es else Regular)"

text \<open>The part of the request handler for a session that is free; \<open>created\<close> says whether the thread could be created.\<close>

definition open_session :: "ni_notification \<Rightarrow> nat option \<Rightarrow> bool \<Rightarrow> 'a ni_scheme \<Rightarrow> 'a ni_scheme" where
  "open_session n passThrough created S =
    (let k = kind_of n;
         i = reqIDCounter S + 1;
         S1 = set_sess k ((sess k S)\<lparr>rawRequest := passThrough, reqID := i\<rparr>) (S\<lparr>reqIDCounter := i\<rparr>);
         S2 = (if privacy_override n then loc_eng_mute_one_session S1 else S1);
         S3 = set_sess k ((sess k S2)\<lparr>respTimeLeft := 5 + (if timeout n \<noteq> 0 then timeout n else LOC_NI_NO_RESPONSE_TIME)\<rparr>) S2;
         S4 = (if created then S3\<lparr>ni_threads := ni_threads S3 @ [(k, Starting)]\<rparr> else S3)
     in S4\<lparr>ni_notified := ni_notified S4 @ [i]\<rparr>)"

definition loc_eng_ni_request_handler :: "ni_notification \<Rightarrow> nat option \<Rightarrow> bool \<Rightarrow> 'a ni_scheme \<Rightarrow> 'a ni_scheme" where
  "loc_eng_ni_request_handler n passThrough created S =
    (if \<not> ni_notify_cb S then S
     else if session_free (kind_of n) S then open_session n passThrough created S
     else ni_free passThrough S)"

definition answer_session :: "ni_kind \<Rightarrow> ni_response \<Rightarrow> 'a ni_scheme \<Rightarrow> 'a ni_scheme" where
  "answer_session k r S = set_sess k ((sess k S)\<lparr>resp := r, respRecvd := True\<rparr>) S"

definition loc_eng_ni_respond :: "32 word \<Rightarrow> ni_response \<Rightarrow> 'a ni_scheme \<Rightarrow> 'a ni_scheme" where
  "loc_eng_ni_respond notif_id r S =
    (if \<not> ni_notify_cb S then S
     else if notif_id = reqID (sessionEs S) \<and> rawRequest (sessionEs S) \<noteq> None then
       answer_session Es r
         (if r = RESP_ACCEPT \<and> rawRequest (session S) \<noteq> None then answer_session Regular RESP_IGNORE S else S)
     else if notif_id = reqID (session S) \<and> rawRequest (session S) \<noteq> None then answer_session Regular r S
     else S)"

definition reset_session :: "ni_kind \<Rightarrow> 'a ni_scheme \<Rightarrow> 'a ni_scheme" where
  "reset_session k S =
    (if rawRequest (sess k S) \<noteq> None
     then set_sess k ((sess k S)\<lparr>rawRequest := None, respRecvd := True\<rparr>) (ni_free (rawRequest (sess k S)) S) else S)"

definition loc_eng_ni_reset_on_engine_restart :: "'a ni_scheme \<Rightarrow> 'a ni_scheme" where
  "loc_eng_ni_reset_on_engine_restart S = (if \<not> ni_notify_cb S then S else reset_session Regular (reset_session Es S))"

definition ni_session_init :: "ni_session \<Rightarrow> ni_session" where
  "ni_session_init s = s\<lparr>respTimeLeft := 0, respRecvd := False, rawRequest := None, reqID := 0\<rparr>"

text \<open>\<open>cb\<close> says whether the caller passes a callback.\<close>

definition loc_eng_ni_init :: "bool \<Rightarrow> 'a ni_scheme \<Rightarrow> 'a ni_scheme" where
  "loc_eng_ni_init cb S =
    (if \<not> cb \<or> ni_notify_cb S then S
     else S\<lparr>sessionEs := ni_session_init (sessionEs S), session := ni_session_init (session S), ni_notify_cb := True\<rparr>)"

subsection \<open>The thread of a session\<close>

text \<open>From the end of the wait to the release of the lock: the message to send, if any.\<close>

definition ni_thread_leave :: "ni_kind \<Rightarrow> 'a ni_scheme \<Rightarrow> 'a ni_scheme \<times> (ni_response \<times> nat) option" where
  "ni_thread_leave k S =
    (let s = (sess k S)\<lparr>respRecvd := False\<rparr>; S1 = set_sess k s S in
     case rawRequest s of
       None \<Rightarrow> (S1, None)
     | Some p \<Rightarrow>
         (let S2 = (if resp s \<noteq> RESP_IGNORE then S1 else ni_free (Some p) S1) in
          (set_sess k (s\<lparr>rawRequest := None\<rparr>) S2, if resp s \<noteq> RESP_IGNORE then Some (resp s, p) else None)))"

definition set_phase :: "nat \<Rightarrow> ni_phase \<Rightarrow> 'a ni_scheme \<Rightarrow> 'a ni_scheme" where
  "set_phase i ph S = S\<lparr>ni_threads := (ni_threads S)[i := (fst (ni_threads S ! i), ph)]\<rparr>"

definition leave :: "nat \<Rightarrow> ni_kind \<Rightarrow> 'a ni_scheme \<Rightarrow> 'a ni_scheme" where
  "leave i k S = (case ni_thread_leave k S of (S1, m) \<Rightarrow> set_phase i (Leaving m) S1)"

definition ni_thread_start :: "nat \<Rightarrow> ni_kind \<Rightarrow> 'a ni_scheme \<Rightarrow> 'a ni_scheme" where
  "ni_thread_start i k S =
    (if respRecvd (sess k S) then leave i k S else set_phase i (Waiting (ni_now S + respTimeLeft (sess k S))) S)"

text \<open>The wait ends with a time-out, which sets the response even if the user answered meanwhile.\<close>

definition ni_thread_timeout :: "nat \<Rightarrow> ni_kind \<Rightarrow> 'a ni_scheme \<Rightarrow> 'a ni_scheme" where
  "ni_thread_timeout i k S = leave i k (set_sess k ((sess k S)\<lparr>resp := RESP_NORESP\<rparr>) S)"

text \<open>After the lock is released.\<close>

definition ni_thread_end :: "nat \<Rightarrow> ni_kind \<Rightarrow> (ni_response \<times> nat) option \<Rightarrow> 'a ni_scheme \<Rightarrow> 'a ni_scheme" where
  "ni_thread_end i k m S =
    (let S1 = set_sess k ((sess k S)\<lparr>respTimeLeft := 0, reqID := 0\<rparr>) S in
     S1\<lparr>ni_msgs := ni_msgs S1 @ (case m of None \<Rightarrow> [] | Some x \<Rightarrow> [x]),
        ni_threads := take i (ni_threads S1) @ drop (Suc i) (ni_threads S1)\<rparr>)"

text \<open>The message thread passes the answer to the modem; the message frees the data when it is deleted.\<close>

definition LocEngInformNiResponse_proc :: "ni_response \<times> nat \<Rightarrow> 'a ni_scheme \<Rightarrow> 'a ni_scheme" where
  "LocEngInformNiResponse_proc m S = ni_free (Some (snd m)) (S\<lparr>ni_informed := ni_informed S @ [m]\<rparr>)"

subsection \<open>Runs\<close>

text \<open>
  What can happen, one step at a time. A request brings data that was allocated, so it is none of the data in use or freed before
  (addresses are not used twice here); with \<open>ok\<close>, threads can always be created.
\<close>

definition held_by :: "ni_phase \<Rightarrow> nat list" where
  "held_by ph = (case ph of Leaving (Some (r, p)) \<Rightarrow> [p] | _ \<Rightarrow> [])"

definition raw_data :: "ni_session \<Rightarrow> nat list" where
  "raw_data s = (case rawRequest s of None \<Rightarrow> [] | Some p \<Rightarrow> [p])"

definition ni_held :: "'a ni_scheme \<Rightarrow> nat list" where
  "ni_held S = raw_data (session S) @ raw_data (sessionEs S) @ concat (map (held_by \<circ> snd) (ni_threads S)) @ map snd (ni_msgs S)"

inductive ni_thread_step :: "'a ni_scheme \<Rightarrow> 'a ni_scheme \<Rightarrow> bool" where
  start: "i < length (ni_threads S) \<Longrightarrow> ni_threads S ! i = (k, Starting) \<Longrightarrow> ni_thread_step S (ni_thread_start i k S)"
| wake: "i < length (ni_threads S) \<Longrightarrow> ni_threads S ! i = (k, Waiting d) \<Longrightarrow> respRecvd (sess k S) \<Longrightarrow> ni_thread_step S (leave i k S)"
| timed_out: "i < length (ni_threads S) \<Longrightarrow> ni_threads S ! i = (k, Waiting d) \<Longrightarrow> d \<le> ni_now S \<Longrightarrow> ni_thread_step S (ni_thread_timeout i k S)"
| finish: "i < length (ni_threads S) \<Longrightarrow> ni_threads S ! i = (k, Leaving m) \<Longrightarrow> ni_thread_step S (ni_thread_end i k m S)"
| deliver: "ni_msgs S = m # ms \<Longrightarrow> ni_thread_step S (LocEngInformNiResponse_proc m (S\<lparr>ni_msgs := ms\<rparr>))"
| tick: "t \<ge> 0 \<Longrightarrow> ni_thread_step S (S\<lparr>ni_now := ni_now S + t\<rparr>)"

inductive ni_step :: "bool \<Rightarrow> 'a ni_scheme \<Rightarrow> 'a ni_scheme \<Rightarrow> bool" for ok where
  request: "p \<notin> set (ni_freed S) \<Longrightarrow> p \<notin> set (ni_held S) \<Longrightarrow> (ok \<longrightarrow> created) \<Longrightarrow>
    ni_step ok S (loc_eng_ni_request_handler n (Some p) created S)"
| respond: "ni_step ok S (loc_eng_ni_respond i r S)"
| restart: "ni_step ok S (loc_eng_ni_reset_on_engine_restart S)"
| thread: "ni_thread_step S S1 \<Longrightarrow> ni_step ok S S1"

definition blank_session :: ni_session where
  "blank_session = \<lparr>respTimeLeft = 0, respRecvd = False, rawRequest = None, reqID = 0, resp = RESP_UNSET\<rparr>"

definition ni_start :: ni where
  "ni_start = loc_eng_ni_init True \<lparr>session = blank_session, sessionEs = blank_session, reqIDCounter = 0, ni_notify_cb = False,
     mute_session_state = MUTE_SESS_NONE, ni_threads = [], ni_now = 0, ni_msgs = [], ni_notified = [], ni_informed = [], ni_freed = []\<rparr>"

end
