(* ===== verification/Loc_Ni_Props.thy ===== *)
theory Loc_Ni_Props
  imports Loc_Ni
begin

text \<open>
  Network-initiated requests: the data of a request is never used after it is freed, and never lost; every request can be
  answered; and three ways in which an answer goes wrong.
\<close>

subsection \<open>The data of the requests\<close>

definition known :: "'a ni_scheme \<Rightarrow> nat multiset" where
  "known S = mset (ni_freed S) + mset (ni_held S)"

lemma known_def2:
  "known S = mset (ni_freed S) + mset (raw_data (sess Regular S)) + mset (raw_data (sess Es S)) +
    (\<Sum>t\<leftarrow>ni_threads S. mset (held_by (snd t))) + mset (map snd (ni_msgs S))"
  by (simp add: known_def ni_held_def mset_concat comp_def ac_simps)

lemma sess_set [simp]: "sess k (set_sess j s S) = (if k = j then s else sess k S)"
  by (cases k; cases j) simp_all

lemma set_sess_frame [simp]:
  "ni_freed (set_sess k s S) = ni_freed S" "ni_threads (set_sess k s S) = ni_threads S" "ni_msgs (set_sess k s S) = ni_msgs S"
  "ni_informed (set_sess k s S) = ni_informed S" "ni_now (set_sess k s S) = ni_now S" "ni_notify_cb (set_sess k s S) = ni_notify_cb S"
  "ni_notified (set_sess k s S) = ni_notified S" "reqIDCounter (set_sess k s S) = reqIDCounter S"
  by (cases k; simp)+

lemma sess_frame [simp]:
  "sess k (S\<lparr>ni_freed := a\<rparr>) = sess k S" "sess k (S\<lparr>ni_threads := b\<rparr>) = sess k S" "sess k (S\<lparr>ni_msgs := c\<rparr>) = sess k S"
  "sess k (S\<lparr>ni_informed := d\<rparr>) = sess k S" "sess k (S\<lparr>ni_now := f\<rparr>) = sess k S" "sess k (S\<lparr>ni_notified := g\<rparr>) = sess k S"
  "sess k (S\<lparr>reqIDCounter := h\<rparr>) = sess k S" "sess k (S\<lparr>mute_session_state := m\<rparr>) = sess k S"
  by (cases k; simp)+

lemma ni_free_frame [simp]:
  "sess k (ni_free p S) = sess k S" "session (ni_free p S) = session S" "sessionEs (ni_free p S) = sessionEs S" "ni_threads (ni_free p S) = ni_threads S" "ni_msgs (ni_free p S) = ni_msgs S"
  "ni_informed (ni_free p S) = ni_informed S" "ni_now (ni_free p S) = ni_now S" "ni_notify_cb (ni_free p S) = ni_notify_cb S"
  "mset (ni_freed (ni_free p S)) = mset (ni_freed S) + (case p of None \<Rightarrow> {#} | Some x \<Rightarrow> {#x#})"
  by (cases k; simp add: ni_free_def split: option.split)+

lemma mset_raw: "mset (raw_data s) = (case rawRequest s of None \<Rightarrow> {#} | Some p \<Rightarrow> {#p#})"
  by (simp add: raw_data_def split: option.split)

lemma known_open:
  assumes "session_free (kind_of n) S"
  shows "known (open_session n (Some p) c S) = add_mset p (known S)"
proof -
  have "rawRequest (sess (kind_of n) S) = None" using assms by (cases "kind_of n") (auto simp: session_free_def)
  then show ?thesis by (cases "kind_of n") (simp_all add: known_def2 open_session_def Let_def mset_raw loc_eng_mute_one_session_def held_by_def)
qed

lemma known_request: "ni_notify_cb S \<Longrightarrow> known (loc_eng_ni_request_handler n (Some p) c S) = add_mset p (known S)"
  using known_open [of n S p c] by (auto simp: loc_eng_ni_request_handler_def known_def2)

lemma known_answer [simp]: "known (answer_session k r S) = known S"
  by (cases k) (simp_all add: answer_session_def known_def2 mset_raw)

lemma known_respond [simp]: "known (loc_eng_ni_respond i r S) = known S"
  by (simp add: loc_eng_ni_respond_def)

lemma known_reset1 [simp]: "known (reset_session k S) = known S"
  by (cases k) (auto simp: reset_session_def known_def2 mset_raw split: option.split)

lemma known_reset [simp]: "known (loc_eng_ni_reset_on_engine_restart S) = known S"
  by (simp add: loc_eng_ni_reset_on_engine_restart_def)

lemma sum_list_update_mset:
  "i < length xs \<Longrightarrow> (\<Sum>t\<leftarrow>xs[i := y]. f t) + f (xs ! i) = (\<Sum>t\<leftarrow>xs. f t) + (f y :: nat multiset)"
  by (induction xs arbitrary: i) (auto simp: ac_simps split: nat.splits)

lemma known_phase:
  assumes "i < length (ni_threads S)"
  shows "known (set_phase i ph S) + mset (held_by (snd (ni_threads S ! i))) = known S + mset (held_by ph)"
proof -
  have "(\<Sum>t\<leftarrow>(ni_threads S)[i := (fst (ni_threads S ! i), ph)]. mset (held_by (snd t))) + mset (held_by (snd (ni_threads S ! i)))
      = (\<Sum>t\<leftarrow>ni_threads S. mset (held_by (snd t))) + mset (held_by ph)"
    using sum_list_update_mset [OF assms, where y = "(fst (ni_threads S ! i), ph)" and f = "\<lambda>t. mset (held_by (snd t))"] by simp
  then show ?thesis by (simp add: known_def2 set_phase_def ac_simps)
qed

lemma known_thread_leave:
  "ni_thread_leave k S = (S1, m) \<Longrightarrow> known S1 + mset (held_by (Leaving m)) = known S \<and> ni_threads S1 = ni_threads S"
  by (cases k) (auto simp: ni_thread_leave_def Let_def known_def2 mset_raw held_by_def split: option.splits if_splits)

lemma known_leave:
  assumes "i < length (ni_threads S)" "held_by (snd (ni_threads S ! i)) = []"
  shows "known (leave i k S) = known S"
proof -
  obtain S1 m where l: "ni_thread_leave k S = (S1, m)" by fastforce
  from known_thread_leave [OF l] have t: "ni_threads S1 = ni_threads S" "known S1 + mset (held_by (Leaving m)) = known S" by simp_all
  have "known (set_phase i (Leaving m) S1) = known S1 + mset (held_by (Leaving m))"
    using known_phase [of i S1 "Leaving m"] assms t(1) by simp
  then show ?thesis using t(2) by (simp add: leave_def l)
qed

lemma known_end:
  assumes "i < length (ni_threads S)" "ni_threads S ! i = (k, Leaving m)"
  shows "known (ni_thread_end i k m S) = known S"
proof -
  have "ni_threads S = take i (ni_threads S) @ (k, Leaving m) # drop (Suc i) (ni_threads S)"
    using id_take_nth_drop [OF assms(1)] assms(2) by simp
  then have t: "(\<Sum>t\<leftarrow>ni_threads S. mset (held_by (snd t))) = (\<Sum>t\<leftarrow>take i (ni_threads S). mset (held_by (snd t))) +
      mset (held_by (Leaving m)) + (\<Sum>t\<leftarrow>drop (Suc i) (ni_threads S). mset (held_by (snd t)))"
    by (metis (no_types, lifting) add.assoc list.simps(9) map_append snd_conv sum_list.Cons sum_list.append)
  show ?thesis using t by (cases k; cases m)
      (auto simp: known_def2 ni_thread_end_def Let_def mset_raw held_by_def)
qed

lemma known_deliver: "ni_msgs S = m # ms \<Longrightarrow> known (LocEngInformNiResponse_proc m (S\<lparr>ni_msgs := ms\<rparr>)) = known S"
  by (simp add: known_def2 LocEngInformNiResponse_proc_def)

lemma known_frame [simp]: "known (S\<lparr>ni_now := t\<rparr>) = known S"
  by (simp add: known_def2)

subsection \<open>Steps\<close>

text \<open>What was freed and passed to the modem only grows, and what is passed to the modem is freed afterwards.\<close>

definition grows :: "'a ni_scheme \<Rightarrow> 'a ni_scheme \<Rightarrow> bool" where
  "grows S S1 \<longleftrightarrow> ni_notify_cb S1 = ni_notify_cb S \<and> (\<exists>q r. ni_freed S1 = ni_freed S @ q \<and> ni_informed S1 = ni_informed S @ r \<and>
     mset (map snd r) \<subseteq># mset q)"

lemma grows_same:
  "ni_notify_cb S1 = ni_notify_cb S \<Longrightarrow> ni_freed S1 = ni_freed S \<Longrightarrow> ni_informed S1 = ni_informed S \<Longrightarrow> grows S S1"
  by (simp add: grows_def)

lemma grows_trans: "grows S S1 \<Longrightarrow> grows S1 S2 \<Longrightarrow> grows S S2"
  unfolding grows_def by (elim conjE exE, intro conjI) (auto intro: subset_mset.add_mono)

lemma grows_free: "grows S (ni_free p S)"
  by (cases p) (auto simp: grows_def ni_free_def)

lemma grows_set_sess: "grows S (set_sess k s S)"
  by (rule grows_same) simp_all

lemma grows_reset: "grows S (reset_session k S)"
  unfolding reset_session_def by (simp add: grows_same grows_trans [OF grows_free grows_set_sess])

lemma grows_leave: "grows S (leave i k S)"
  by (cases "rawRequest (sess k S)") (auto simp: leave_def ni_thread_leave_def Let_def set_phase_def grows_def ni_free_def)

lemma grows_request: "grows S (loc_eng_ni_request_handler n p c S)"
proof -
  have "grows S (open_session n p c S)"
    by (rule grows_same) (simp_all add: open_session_def Let_def loc_eng_mute_one_session_def)
  then show ?thesis by (simp add: loc_eng_ni_request_handler_def grows_free grows_same)
qed

lemma grows_respond: "grows S (loc_eng_ni_respond i r S)"
  by (rule grows_same) (simp_all add: loc_eng_ni_respond_def answer_session_def)

lemma grows_deliver: "ni_msgs S = m # ms \<Longrightarrow> grows S (LocEngInformNiResponse_proc m (S\<lparr>ni_msgs := ms\<rparr>))"
  by (simp add: grows_def LocEngInformNiResponse_proc_def ni_free_def)

lemma thread_grows: "ni_thread_step S S1 \<Longrightarrow> grows S S1"
proof (induction rule: ni_thread_step.induct)
  case (start i S k)
  then show ?case by (simp add: ni_thread_start_def grows_leave grows_same set_phase_def)
next
  case (timed_out i S k d)
  then show ?case using grows_trans [OF grows_set_sess grows_leave] by (simp add: ni_thread_timeout_def)
next
  case (finish i S k m)
  then show ?case by (intro grows_same) (simp_all add: ni_thread_end_def Let_def)
qed (simp_all add: grows_leave grows_deliver grows_same)

lemma step_grows: "ni_step ok S S1 \<Longrightarrow> grows S S1"
proof (induction rule: ni_step.induct)
  case (restart S)
  have "grows S (reset_session Regular (reset_session Es S))" by (rule grows_trans [OF grows_reset grows_reset])
  then show ?case by (simp add: loc_eng_ni_reset_on_engine_restart_def grows_same)
qed (simp_all add: grows_request grows_respond thread_grows)

lemma thread_known: "ni_thread_step S S1 \<Longrightarrow> known S1 = known S"
proof (induction rule: ni_thread_step.induct)
  case (start i S k)
  then show ?case using known_leave [of i S k] known_phase [of i S "Waiting (ni_now S + respTimeLeft (sess k S))"]
    by (simp add: ni_thread_start_def held_by_def)
next
  case (wake i S k d)
  then show ?case using known_leave [of i S k] by (simp add: held_by_def)
next
  case (timed_out i S k d)
  let ?S = "set_sess k ((sess k S)\<lparr>resp := RESP_NORESP\<rparr>) S"
  have "known ?S = known S" by (cases k) (simp_all add: known_def2 mset_raw)
  then show ?case using known_leave [of i ?S k] timed_out by (simp add: ni_thread_timeout_def held_by_def)
next
  case (finish i S k m)
  then show ?case by (simp add: known_end)
qed (simp_all add: known_deliver)

lemma step_known:
  assumes "ni_step ok S S1" "ni_notify_cb S"
  shows "known S1 = known S \<or> (\<exists>p. p \<notin># known S \<and> known S1 = add_mset p (known S))"
  using assms
proof (induction rule: ni_step.induct)
  case (request p S created n)
  then show ?case using known_request [of S n p created] by (auto simp: known_def)
qed (simp_all add: thread_known)

definition ni_inv :: "'a ni_scheme \<Rightarrow> bool" where
  "ni_inv S \<longleftrightarrow> ni_notify_cb S \<and> (\<forall>p. count (known S) p \<le> 1) \<and> mset (map snd (ni_informed S)) \<subseteq># mset (ni_freed S)"

lemma ni_step_inv:
  assumes "ni_step ok S S1" "ni_inv S"
  shows "ni_inv S1 \<and> known S \<subseteq># known S1"
proof -
  have g: "grows S S1" by (rule step_grows [OF assms(1)])
  then have "mset (map snd (ni_informed S1)) \<subseteq># mset (ni_freed S1)" "ni_notify_cb S1"
    using assms(2) by (auto simp: grows_def ni_inv_def intro: subset_mset.add_mono)
  moreover have "known S1 = known S \<or> (\<exists>p. p \<notin># known S \<and> known S1 = add_mset p (known S))"
    using step_known [OF assms(1)] assms(2) by (simp add: ni_inv_def)
  ultimately show ?thesis using assms(2) by (auto simp: ni_inv_def not_in_iff)
qed

interpretation ni_data: step_relation "ni_step ok" "\<lambda>S. ni_inv S \<and> known S0 \<subseteq># known S" for ok S0
  by unfold_locales (metis ni_step_inv subset_mset.order_trans)

lemma ni_start_inv: "ni_inv ni_start" "known ni_start = {#}"
  by (simp_all add: ni_start_def loc_eng_ni_init_def ni_inv_def known_def ni_held_def raw_data_def ni_session_init_def blank_session_def)



subsection \<open>Every request can be answered\<close>

definition alive :: "ni_kind \<Rightarrow> 'a ni_scheme \<Rightarrow> bool" where
  "alive k S \<longleftrightarrow> (\<exists>ph. (k, ph) \<in> set (ni_threads S) \<and> (\<forall>m. ph \<noteq> Leaving m))"

definition served :: "'a ni_scheme \<Rightarrow> bool" where
  "served S \<longleftrightarrow> (\<forall>k. rawRequest (sess k S) \<noteq> None \<longrightarrow> alive k S)"

lemma alive_update:
  assumes "(j, ph) \<in> set xs" "fst (xs ! i) \<noteq> j \<or> i \<ge> length xs"
  shows "(j, ph) \<in> set (xs[i := y])"
proof -
  obtain l where "l < length xs" "xs ! l = (j, ph)" using assms(1) by (auto simp: in_set_conv_nth)
  then have "xs[i := y] ! l = (j, ph) \<and> l < length (xs[i := y])" using assms(2) by (cases "i = l") auto
  then show ?thesis by (metis nth_mem)
qed

lemma served_same: "ni_threads S1 = ni_threads S \<Longrightarrow> (\<And>k. rawRequest (sess k S1) \<noteq> None \<Longrightarrow> rawRequest (sess k S) \<noteq> None) \<Longrightarrow>
    served S \<Longrightarrow> served S1"
  by (auto simp: served_def alive_def)

lemma served_leave:
  assumes "served S" "i < length (ni_threads S)" "fst (ni_threads S ! i) = k"
  shows "served (leave i k S)"
proof -
  obtain S1 m where l: "ni_thread_leave k S = (S1, m)" by fastforce
  have t: "ni_threads S1 = ni_threads S" using known_thread_leave [OF l] by simp
  have r: "rawRequest (sess k S1) = None" "j \<noteq> k \<Longrightarrow> sess j S1 = sess j S" for j
    using l by (auto simp: ni_thread_leave_def Let_def split: option.splits if_splits)
  have "alive j (set_phase i (Leaving m) S1)" if "rawRequest (sess j S1) \<noteq> None" for j
  proof -
    have j: "j \<noteq> k" using that r(1) by auto
    then have "rawRequest (sess j S) \<noteq> None" using that r(2) by simp
    then have "alive j S" using assms(1) unfolding served_def by blast
    then obtain ph where "(j, ph) \<in> set (ni_threads S)" "\<forall>m. ph \<noteq> Leaving m" unfolding alive_def by blast
    with alive_update [of j ph "ni_threads S" i] j assms(3) show ?thesis by (auto simp: alive_def set_phase_def t)
  qed
  then show ?thesis by (simp add: leave_def l served_def set_phase_def)
qed

lemma served_request: "served S \<Longrightarrow> served (loc_eng_ni_request_handler n p True S)"
proof -
  assume s: "served S"
  let ?S = "open_session n p True S"
  have t: "ni_threads ?S = ni_threads S @ [(kind_of n, Starting)]"
    by (simp add: open_session_def Let_def loc_eng_mute_one_session_def)
  have o: "rawRequest (sess k ?S) = rawRequest (sess k S)" if "k \<noteq> kind_of n" for k
    using that by (simp add: open_session_def Let_def loc_eng_mute_one_session_def)
  have "served ?S" unfolding served_def
  proof (intro allI impI)
    fix k assume k: "rawRequest (sess k ?S) \<noteq> None"
    show "alive k ?S"
    proof (cases "k = kind_of n")
      case True
      then show ?thesis by (auto simp: alive_def t)
    next
      case False
      then show ?thesis using s k o by (auto simp: served_def alive_def t)
    qed
  qed
  then show ?thesis using s by (simp add: loc_eng_ni_request_handler_def served_def alive_def)
qed

lemma reset_raw: "rawRequest (sess j (reset_session k S)) \<noteq> None \<Longrightarrow> rawRequest (sess j S) \<noteq> None"
  "ni_threads (reset_session k S) = ni_threads S"
  by (auto simp: reset_session_def split: if_splits)

lemma answer_frame: "rawRequest (sess j (answer_session k r S)) = rawRequest (sess j S)"
  "ni_threads (answer_session k r S) = ni_threads S"
  by (simp_all add: answer_session_def)

lemma thread_served:
  assumes "ni_thread_step S S1" "served S"
  shows "served S1"
  using assms
proof (induction rule: ni_thread_step.induct)
  case (start i S k)
  let ?S = "set_phase i (Waiting (ni_now S + respTimeLeft (sess k S))) S"
  have k: "alive k ?S" using start set_update_memI [of i "ni_threads S"] by (auto simp: alive_def set_phase_def)
  have o: "alive j ?S" if "j \<noteq> k" "alive j S" for j
    using that start alive_update [of j _ "ni_threads S" i] by (auto simp: alive_def set_phase_def)
  have "served ?S" unfolding served_def
  proof (intro allI impI)
    fix j assume "rawRequest (sess j ?S) \<noteq> None"
    then have "alive j S" using start.prems by (simp add: served_def set_phase_def)
    then show "alive j ?S" using k o by (cases "j = k") simp_all
  qed
  then show ?case using start served_leave [of S i k] by (simp add: ni_thread_start_def)
next
  case (wake i S k d)
  then show ?case by (simp add: served_leave)
next
  case (timed_out i S k d)
  have "served (set_sess k ((sess k S)\<lparr>resp := RESP_NORESP\<rparr>) S)" by (rule served_same [OF _ _ timed_out.prems]) (auto split: if_splits)
  then show ?case using timed_out by (simp add: ni_thread_timeout_def served_leave)
next
  case (finish i S k m)
  let ?xs = "ni_threads S" and ?S = "ni_thread_end i k m S"
  have t: "ni_threads ?S = take i ?xs @ drop (Suc i) ?xs" by (simp add: ni_thread_end_def Let_def)
  have x: "?xs = take i ?xs @ (k, Leaving m) # drop (Suc i) ?xs" using id_take_nth_drop [OF finish(1)] finish(2) by simp
  have a: "alive j ?S" if al: "alive j S" for j
  proof -
    obtain ph where ph: "(j, ph) \<in> set ?xs" "\<forall>m. ph \<noteq> Leaving m" using al unfolding alive_def by blast
    then have "(j, ph) \<in> set (take i ?xs @ (k, Leaving m) # drop (Suc i) ?xs)" using x by simp
    then have "(j, ph) \<in> set (take i ?xs @ drop (Suc i) ?xs)" using ph(2) by auto
    with ph(2) show ?thesis unfolding alive_def t by blast
  qed
  have "rawRequest (sess j ?S) = rawRequest (sess j S)" for j by (simp add: ni_thread_end_def Let_def)
  with a finish.prems show ?case by (simp add: served_def)
next
  case (deliver S m ms)
  show ?case by (rule served_same [OF _ _ deliver.prems]) (simp_all add: LocEngInformNiResponse_proc_def)
next
  case (tick t S)
  show ?case by (rule served_same [OF _ _ tick.prems]) simp_all
qed

lemma step_served:
  assumes "ni_step True S S1" "served S"
  shows "served S1"
  using assms
proof (induction rule: ni_step.induct)
  case (request p S created n)
  then show ?case by (simp add: served_request)
next
  case (respond S i r)
  show ?case by (rule served_same [OF _ _ respond.prems]) (simp_all add: loc_eng_ni_respond_def answer_frame split: if_splits)
next
  case (restart S)
  have "served (reset_session Es S)" by (rule served_same [OF reset_raw(2) reset_raw(1) restart])
  from served_same [OF reset_raw(2) reset_raw(1) this] have "served (reset_session Regular (reset_session Es S))" .
  then show ?case using restart by (simp add: loc_eng_ni_reset_on_engine_restart_def)
next
  case (thread S S1)
  then show ?case by (rule thread_served)
qed

interpretation ni_served: step_relation "ni_step True" served
  by unfold_locales (rule step_served)

lemma delivered: "m \<in> set (ni_msgs S) \<Longrightarrow> \<exists>S1. (ni_step ok)\<^sup>*\<^sup>* S S1 \<and> snd m \<in> set (ni_freed S1)"
proof (induction "ni_msgs S" arbitrary: S)
  case (Cons x xs)
  let ?S = "LocEngInformNiResponse_proc x (S\<lparr>ni_msgs := xs\<rparr>)"
  have s: "ni_step ok S ?S" by (rule ni_step.thread, rule ni_thread_step.deliver) (simp add: Cons.hyps(2))
  show ?case
  proof (cases "m = x")
    case True
    then have "snd m \<in> set (ni_freed ?S)" by (simp add: LocEngInformNiResponse_proc_def ni_free_def)
    with s show ?thesis by blast
  next
    case False
    have "xs = ni_msgs ?S" by (simp add: LocEngInformNiResponse_proc_def)
    moreover have "m \<in> set (ni_msgs ?S)" using False Cons.prems Cons.hyps(2) [symmetric] by (simp add: LocEngInformNiResponse_proc_def)
    ultimately obtain S1 where "(ni_step ok)\<^sup>*\<^sup>* ?S S1" "snd m \<in> set (ni_freed S1)" using Cons.hyps(1) by blast
    with s show ?thesis by (meson converse_rtranclp_into_rtranclp)
  qed
qed simp

lemma left_delivered:
  assumes "i < length (ni_threads S)" "ni_threads S ! i = (k, Leaving (Some (r, p)))"
  shows "\<exists>S1. (ni_step ok)\<^sup>*\<^sup>* S S1 \<and> p \<in> set (ni_freed S1)"
proof -
  let ?S = "ni_thread_end i k (Some (r, p)) S"
  have "ni_step ok S ?S" by (rule ni_step.thread, rule ni_thread_step.finish [OF assms])
  moreover have "(r, p) \<in> set (ni_msgs ?S)" by (simp add: ni_thread_end_def Let_def)
  ultimately show ?thesis using delivered [of "(r, p)" ?S ok] by (auto intro: converse_rtranclp_into_rtranclp)
qed

lemma leave_data:
  assumes "i < length (ni_threads S)" "fst (ni_threads S ! i) = k" "rawRequest (sess k S) = Some p"
  shows "resp (sess k S) = RESP_IGNORE \<and> p \<in> set (ni_freed (leave i k S)) \<or>
    i < length (ni_threads (leave i k S)) \<and> ni_threads (leave i k S) ! i = (k, Leaving (Some (resp (sess k S), p)))"
  using assms by (auto simp: leave_def ni_thread_leave_def Let_def set_phase_def ni_free_def)

lemma leave_answered:
  assumes "ni_step ok S (leave i k S)" "i < length (ni_threads S)" "fst (ni_threads S ! i) = k" "rawRequest (sess k S) = Some p"
  shows "\<exists>S1. (ni_step ok)\<^sup>*\<^sup>* S S1 \<and> p \<in> set (ni_freed S1)"
  using leave_data [OF assms(2-4)]
proof (elim disjE conjE)
  assume "p \<in> set (ni_freed (leave i k S))"
  with assms(1) show ?thesis by blast
next
  assume "i < length (ni_threads (leave i k S))" "ni_threads (leave i k S) ! i = (k, Leaving (Some (resp (sess k S), p)))"
  from left_delivered [OF this, of ok] assms(1) show ?thesis by (meson converse_rtranclp_into_rtranclp)
qed

lemma waiting_answered:
  assumes "i < length (ni_threads S)" "ni_threads S ! i = (k, Waiting d)" "rawRequest (sess k S) = Some p"
  shows "\<exists>S1. (ni_step ok)\<^sup>*\<^sup>* S S1 \<and> p \<in> set (ni_freed S1)"
proof -
  define S1 where "S1 = S\<lparr>ni_now := ni_now S + max 0 (d - ni_now S)\<rparr>"
  have t: "ni_step ok S S1" unfolding S1_def by (rule ni_step.thread, rule ni_thread_step.tick) simp
  have w: "i < length (ni_threads S1)" "ni_threads S1 ! i = (k, Waiting d)" "d \<le> ni_now S1" using assms by (simp_all add: S1_def)
  note o = ni_step.thread [OF ni_thread_step.timed_out [OF w], of ok]
  let ?T = "set_sess k ((sess k S1)\<lparr>resp := RESP_NORESP\<rparr>) S1"
  have "rawRequest (sess k ?T) = Some p" "resp (sess k ?T) = RESP_NORESP" using assms(3) by (simp_all add: S1_def)
  with leave_data [of i ?T k p] w
  have "i < length (ni_threads (leave i k ?T))" "ni_threads (leave i k ?T) ! i = (k, Leaving (Some (RESP_NORESP, p)))" by auto
  from left_delivered [OF this, of ok] t o show ?thesis unfolding ni_thread_timeout_def by (meson converse_rtranclp_into_rtranclp)
qed



subsection \<open>Answers that go wrong\<close>

lemma set_phase_frame [simp]: "sess k (set_phase i ph S) = sess k S" "reqIDCounter (set_phase i ph S) = reqIDCounter S"
  "ni_notify_cb (set_phase i ph S) = ni_notify_cb S"
  by (simp_all add: set_phase_def)

lemma reset_session_raw: "rawRequest (sess j (reset_session k S)) = (if j = k then None else rawRequest (sess j S))"
  by (simp add: reset_session_def)

lemma raw_reset: "ni_notify_cb S \<Longrightarrow> rawRequest (sess k (loc_eng_ni_reset_on_engine_restart S)) = None"
  by (cases k) (simp_all add: loc_eng_ni_reset_on_engine_restart_def reset_session_raw del: sess.simps)

lemma reset_session_frame:
  "ni_notify_cb (reset_session k S) = ni_notify_cb S" "ni_threads (reset_session k S) = ni_threads S"
  "resp (sess j (reset_session k S)) = resp (sess j S)"
  "respRecvd (sess j (reset_session k S)) = (respRecvd (sess j S) \<or> j = k \<and> rawRequest (sess j S) \<noteq> None)"
  by (auto simp: reset_session_def simp del: sess.simps)

lemma reset_frame:
  assumes "ni_notify_cb S" "rawRequest (sess k S) \<noteq> None"
  shows "respRecvd (sess k (loc_eng_ni_reset_on_engine_restart S))" "resp (sess k (loc_eng_ni_reset_on_engine_restart S)) = resp (sess k S)"
    "ni_notify_cb (loc_eng_ni_reset_on_engine_restart S)" "ni_threads (loc_eng_ni_reset_on_engine_restart S) = ni_threads S"
  using assms by (cases k; simp add: loc_eng_ni_reset_on_engine_restart_def reset_session_frame reset_session_raw del: sess.simps)+

lemma request_frame:
  assumes "ni_notify_cb S" "session_free (kind_of n) S"
  shows "rawRequest (sess (kind_of n) (loc_eng_ni_request_handler n p c S)) = p"
    "respRecvd (sess (kind_of n) (loc_eng_ni_request_handler n p c S)) = respRecvd (sess (kind_of n) S)"
    "resp (sess (kind_of n) (loc_eng_ni_request_handler n p c S)) = resp (sess (kind_of n) S)"
    "ni_threads (loc_eng_ni_request_handler n p c S) = ni_threads S @ (if c then [(kind_of n, Starting)] else [])"
    "reqID (sess (kind_of n) (loc_eng_ni_request_handler n p c S)) = reqIDCounter S + 1"
    "ni_notify_cb (loc_eng_ni_request_handler n p c S)"
    "k \<noteq> kind_of n \<Longrightarrow> sess k (loc_eng_ni_request_handler n p c S) = sess k S"
  using assms by (simp_all add: loc_eng_ni_request_handler_def open_session_def Let_def loc_eng_mute_one_session_def)

text \<open>
  C37. An answer the user never gave: a request is open when the modem restarts, and a new one of the same kind comes before the
  thread of the old one runs. The thread finds the flag of the restart and the data of the new request, and leaves with the
  session's last answer for it, so a user who accepted some earlier request has accepted this one.
\<close>

theorem ni_restart_answers_unasked:
  assumes "ni_notify_cb S" "rawRequest (sess (kind_of n) S) \<noteq> None"
    and "i < length (ni_threads S)" "ni_threads S ! i = (kind_of n, Waiting d)" "resp (sess (kind_of n) S) = RESP_ACCEPT"
    and S1_def: "S1 = loc_eng_ni_request_handler n (Some p) True (loc_eng_ni_reset_on_engine_restart S)"
  shows "ni_step True S1 (leave i (kind_of n) S1) \<and>
    ni_threads (leave i (kind_of n) S1) ! i = (kind_of n, Leaving (Some (RESP_ACCEPT, p)))"
proof -
  let ?k = "kind_of n" and ?R = "loc_eng_ni_reset_on_engine_restart S"
  note r = reset_frame [OF assms(1,2)]
  have "rawRequest (sess k ?R) = None" for k using assms(1) by (rule raw_reset)
  from this [of Regular] this [of Es] have "session_free ?k ?R" by (simp add: session_free_def split: ni_kind.split)
  note q = request_frame [OF r(3) this, where p = "Some p" and c = True, folded S1_def]
  have i: "i < length (ni_threads S1)" "ni_threads S1 ! i = (?k, Waiting d)" using assms(3,4) r(4) q(4) by (simp_all add: nth_append)
  have "ni_step True S1 (leave i ?k S1)" by (rule ni_step.thread, rule ni_thread_step.wake [OF i]) (simp add: q(2) r(1))
  then show ?thesis using leave_data [of i S1 ?k p] i q(1,3) r(2) assms(5) by simp
qed

definition ni_plain :: ni_notification where
  "ni_plain = \<lparr>ni_type = 1, privacy_override = False, timeout = 0\<rparr>"

text \<open>Request 7 was accepted and answered; request 8 is open and its thread waits.\<close>

definition ni_second :: ni where
  "ni_second = ni_thread_start 0 Regular (loc_eng_ni_request_handler ni_plain (Some 8) True
     (ni_thread_end 0 Regular (Some (RESP_ACCEPT, 7)) (leave 0 Regular (loc_eng_ni_respond 1 RESP_ACCEPT
        (loc_eng_ni_request_handler ni_plain (Some 7) True ni_start)))))"

lemma ni_restart_answers_unasked_witness:
  "ni_threads (leave 0 Regular (loc_eng_ni_request_handler ni_plain (Some 9) True (loc_eng_ni_reset_on_engine_restart ni_second))) ! 0 =
     (Regular, Leaving (Some (RESP_ACCEPT, 9)))"
proof -
  have k: "kind_of ni_plain = Regular" by code_simp
  have "ni_notify_cb ni_second" "rawRequest (sess Regular ni_second) = Some 8" "length (ni_threads ni_second) = 1"
    "ni_threads ni_second ! 0 = (Regular, Waiting 25)" "resp (sess Regular ni_second) = RESP_ACCEPT"
    by code_simp+
  then show ?thesis using ni_restart_answers_unasked [where S = ni_second and n = ni_plain and i = 0 and d = 25 and p = 9, OF _ _ _ _ _ refl] by (simp add: k)
qed

text \<open>
  An answer that is lost: the thread clears the number of its request after it has released the lock, so a new request
  that comes between has no number any more, and no answer of the user to it has an effect; it ends with the time-out.
\<close>

theorem ni_reply_lost:
  assumes "ni_notify_cb S" "session_free (kind_of n) S" "rawRequest (sess Es S) = None" "rawRequest (sess Regular S) = None"
    and "reqIDCounter S + 1 \<noteq> 0"
    and S1_def: "S1 = ni_thread_end i (kind_of n) m (loc_eng_ni_request_handler n (Some p) c S)"
  shows "loc_eng_ni_respond (reqIDCounter S + 1) r S1 = S1 \<and> rawRequest (sess (kind_of n) S1) = Some p"
proof -
  note q = request_frame [OF assms(1,2), where p = "Some p" and c = c]
  have o: "rawRequest (sess k (loc_eng_ni_request_handler n (Some p) c S)) = None" if "k \<noteq> kind_of n" for k
  proof -
    have "rawRequest (sess k S) = None" using assms(3,4) by (cases k) simp_all
    then show ?thesis using q(7) [OF that] by (simp del: sess.simps)
  qed
  have s: "reqID (sess (kind_of n) S1) = 0" "rawRequest (sess (kind_of n) S1) = Some p" "ni_notify_cb S1"
    using q by (simp_all add: S1_def ni_thread_end_def Let_def)
  have "rawRequest (sess k S1) = None" if "k \<noteq> kind_of n" for k
    using that o by (simp add: S1_def ni_thread_end_def Let_def)
  then have "reqIDCounter S + 1 = reqID (sess k S1) \<Longrightarrow> rawRequest (sess k S1) = None" for k
    using s(1) assms(5) by (cases "k = kind_of n") simp_all
  from this [of Regular] this [of Es] have "loc_eng_ni_respond (reqIDCounter S + 1) r S1 = S1"
    by (auto simp: loc_eng_ni_respond_def)
  with s(2) show ?thesis by simp
qed

lemma ni_reply_lost_witness:
  "\<exists>S1 :: ni. rawRequest (sess Regular S1) = Some 8 \<and> reqID (sess Regular S1) = 0 \<and> loc_eng_ni_respond 2 RESP_DENY S1 = S1"
proof -
  let ?S = "leave 0 Regular (loc_eng_ni_respond 1 RESP_ACCEPT (loc_eng_ni_request_handler ni_plain (Some 7) True ni_start))"
  let ?T = "ni_thread_end 0 Regular (Some (RESP_ACCEPT, 7)) (loc_eng_ni_request_handler ni_plain (Some 8) True ?S)"
  have k: "kind_of ni_plain = Regular" "reqIDCounter ?S = 1" by code_simp+
  have h: "ni_notify_cb ?S" "session_free Regular ?S" "rawRequest (sess Es ?S) = None" "rawRequest (sess Regular ?S) = None" by code_simp+
  have "loc_eng_ni_respond 2 RESP_DENY ?T = ?T \<and> rawRequest (sess Regular ?T) = Some 8"
    using ni_reply_lost [where S = ?S and n = ni_plain and i = 0 and m = "Some (RESP_ACCEPT, 7)" and p = 8 and c = True and r = RESP_DENY, OF _ _ _ _ _ refl] h by (simp add: k)
  moreover have "reqID (sess Regular ?T) = 0" by code_simp
  ultimately show ?thesis by blast
qed

end
