(* ===== verification/User_Agent.thy ===== *)
theory User_Agent
  imports Nmea_Format Loc_Cfg
begin

text \<open>
  The user agent for downloads of assistance data, which \<open>LocEngAdapter::setXtraUserAgent\<close> writes to a file: properties of the system, in
  which the separators are encoded, and the serial number of the chip.
\<close>

definition PROPERTY_VALUE_MAX :: nat where "PROPERTY_VALUE_MAX = 92"
definition CHIPSET_SERIAL_NUMBER_MAX_LEN :: nat where "CHIPSET_SERIAL_NUMBER_MAX_LEN = 16"
definition USER_AGENT_MAX_LEN :: nat where "USER_AGENT_MAX_LEN = 512"

definition encodings :: "(char \<times> string) list" where
  "encodings = [(CHR ''/'', ''%2F''), (CHR ''+'', ''%2B''), (CHR ''|'', ''%7C''), (CHR ''%'', ''%25'')]"

text \<open>The loop over the text; \<open>buffer\<close> is what was written.\<close>

fun encode_loop :: "nat \<Rightarrow> string \<Rightarrow> string \<Rightarrow> string" where
  "encode_loop sz [] buffer = buffer"
| "encode_loop sz (c # cs) buffer =
    (if length buffer + 1 < sz then
       (case map_of encodings c of
          None \<Rightarrow> encode_loop sz cs (buffer @ [c])
        | Some code \<Rightarrow> if length buffer + 3 \<ge> sz then buffer else encode_loop sz cs (buffer @ code))
     else buffer)"

definition encodeInPlace :: "string \<Rightarrow> nat \<Rightarrow> string" where
  "encodeInPlace v sz = encode_loop sz v []"

text \<open>
  The serial number: at most 15 characters of a file, without the white space at the end. The index is unsigned, so the loop that removes
  it never stops at the start of the buffer: on white space only it goes on before the buffer, \<open>None\<close>.
\<close>

definition getChipsetSerialNo :: "string option \<Rightarrow> string mem" where
  "getChipsetSerialNo file =
    (case file of
       None \<Rightarrow> Some ''-''
     | Some s \<Rightarrow>
         (let b = take (CHIPSET_SERIAL_NUMBER_MAX_LEN - 1) s in
          if b = [] then Some ''-''
          else (let t = rev (dropWhile isspace (rev (takeWhile (\<lambda>c. c \<noteq> CHR 0x00) b))) in if t = [] then None else Some t)))"

text \<open>What the system says: its properties, the identity of the modem and the file with the serial number.\<close>

record device_info =
  device_property :: "string \<Rightarrow> string option"
  izat_dev_id :: int
  serial_file :: "string option"

definition ua_prop :: "device_info \<Rightarrow> string \<Rightarrow> string" where
  "ua_prop D name = encodeInPlace (take (PROPERTY_VALUE_MAX - 1) (case device_property D name of None \<Rightarrow> ''-'' | Some v \<Rightarrow> v)) PROPERTY_VALUE_MAX"

definition user_agent :: "device_info \<Rightarrow> string mem" where
  "user_agent D = map_option (\<lambda>chipsetsn.
     map (\<lambda>c. if c = CHR '' '' then CHR ''#'' else c) (take (USER_AGENT_MAX_LEN - 1)
       (''A/'' @ ua_prop D ''ro.build.version.release'' @ ''/'' @ ua_prop D ''ro.product.manufacturer'' @ ''/'' @ ua_prop D ''ro.product.model'' @ ''/'' @
        ua_prop D ''ro.product.board'' @ ''/-/QCX3/s'' @ show_nat (izat_dev_id D mod 2 ^ 32) @ ''/-/'' @ chipsetsn @ ''/-/'' @
        ua_prop D ''ro.product.brand'' @ ''/-/-/-'')))
     (getChipsetSerialNo (serial_file D))"

subsection \<open>Encoding\<close>

text \<open>The text that an encoded text stands for.\<close>

fun ua_decode :: "string \<Rightarrow> string" where
  "ua_decode (c # d # e # cs) =
    (if c = CHR ''%'' then
       (case map_of (map (\<lambda>(x, y). (y, x)) encodings) [c, d, e] of Some x \<Rightarrow> x # ua_decode cs | None \<Rightarrow> ua_decode cs)
     else c # ua_decode (d # e # cs))"
| "ua_decode cs = cs"

definition ua_code :: "char \<Rightarrow> string" where
  "ua_code c = (case map_of encodings c of None \<Rightarrow> [c] | Some s \<Rightarrow> s)"

lemma code_cases: "c \<notin> {CHR ''/'', CHR ''+'', CHR ''|'', CHR ''%''} \<and> map_of encodings c = None \<and> ua_code c = [c] \<or>
    c \<in> {CHR ''/'', CHR ''+'', CHR ''|'', CHR ''%''} \<and> map_of encodings c = Some (ua_code c) \<and> length (ua_code c) = 3"
  by (simp add: ua_code_def encodings_def)

lemma decode_code [simp]: "ua_decode (ua_code c @ s) = c # ua_decode s"
proof (cases "c \<in> {CHR ''/'', CHR ''+'', CHR ''|'', CHR ''%''}")
  case True
  then show ?thesis by (auto simp: ua_code_def encodings_def)
next
  case False
  then have "ua_code c = [c]" using code_cases by blast
  with False show ?thesis by (cases s rule: ua_decode.cases) auto
qed

lemma decode_codes: "ua_decode (concat (map ua_code cs)) = cs"
  by (induction cs) simp_all

lemma code_plain: "set (ua_code c) \<inter> {CHR ''/'', CHR ''+'', CHR ''|''} = {}"
  using code_cases [of c] by (auto simp: ua_code_def encodings_def split: if_splits)

lemma encode_loop_step:
  "encode_loop sz (c # cs) b = (if length b + length (ua_code c) < sz then encode_loop sz cs (b @ ua_code c) else b)"
proof (cases "map_of encodings c")
  case None
  then have "ua_code c = [c]" by (simp add: ua_code_def)
  then show ?thesis using None by simp
next
  case (Some s)
  have "ua_code c = s" by (simp add: ua_code_def Some)
  moreover have "length (ua_code c) = 3" using code_cases [of c] Some by auto
  ultimately have s: "ua_code c = s" "length s = 3" by simp_all
  show ?thesis using s(2) by (simp add: s(1) Some)
qed

declare encode_loop.simps(2) [simp del]

text \<open>The loop writes the codes of as many characters as there is room for.\<close>

lemma encode_loop_codes:
  assumes "length b < sz"
  shows "\<exists>k. encode_loop sz cs b = b @ concat (map ua_code (take k cs)) \<and> length (encode_loop sz cs b) < sz \<and>
    (length (b @ concat (map ua_code cs)) < sz \<longrightarrow> k = length cs)"
  using assms
proof (induction cs arbitrary: b)
  case (Cons c cs)
  show ?case
  proof (cases "length b + length (ua_code c) < sz")
    case True
    then have e: "encode_loop sz (c # cs) b = encode_loop sz cs (b @ ua_code c)" by (simp add: encode_loop_step)
    have "length (b @ ua_code c) < sz" using True by simp
    from Cons.IH [OF this] obtain k where k: "encode_loop sz cs (b @ ua_code c) = (b @ ua_code c) @ concat (map ua_code (take k cs))"
      "length (encode_loop sz cs (b @ ua_code c)) < sz"
      "length ((b @ ua_code c) @ concat (map ua_code cs)) < sz \<longrightarrow> k = length cs" by blast
    show ?thesis by (rule exI [of _ "Suc k"]) (use k in \<open>simp add: e\<close>)
  next
    case False
    then have "encode_loop sz (c # cs) b = b" by (simp add: encode_loop_step)
    then show ?thesis using False Cons.prems by (intro exI [of _ 0]) simp
  qed
qed simp

text \<open>
  C40. The encoding of a property for the user agent fits its buffer, contains no separator, stands for a prefix of the property, and for all of
  it whenever the codes fit: no code is ever cut.
\<close>

theorem encode_prefix:
  assumes "0 < sz"
  shows "length (encodeInPlace v sz) < sz \<and> set (encodeInPlace v sz) \<inter> {CHR ''/'', CHR ''+'', CHR ''|''} = {} \<and>
    (\<exists>k. ua_decode (encodeInPlace v sz) = take k v) \<and>
    (sz \<le> length (concat (map ua_code v)) \<or> ua_decode (encodeInPlace v sz) = v)"
proof -
  have "length ([] :: string) < sz" using assms by simp
  from encode_loop_codes [OF this, of v] obtain k where k: "encodeInPlace v sz = concat (map ua_code (take k v))"
    "length (encodeInPlace v sz) < sz" "length (concat (map ua_code v)) < sz \<longrightarrow> k = length v"
    unfolding encodeInPlace_def append_Nil by blast
  have p: "set (concat (map ua_code cs)) \<inter> {CHR ''/'', CHR ''+'', CHR ''|''} = {}" for cs
  proof (induction cs)
    case (Cons c cs)
    then show ?case using code_plain [of c] by (simp add: Int_Un_distrib2)
  qed simp
  have d: "ua_decode (encodeInPlace v sz) = take k v" by (simp add: k(1) decode_codes)
  have e: "sz \<le> length (concat (map ua_code v)) \<or> ua_decode (encodeInPlace v sz) = v"
  proof (cases "length (concat (map ua_code v)) < sz")
    case True
    then show ?thesis using k(3) d by simp
  qed simp
  show ?thesis
  proof (intro conjI)
    show "set (encodeInPlace v sz) \<inter> {CHR ''/'', CHR ''+'', CHR ''|''} = {}" by (simp only: k(1) p)
  qed (rule k(2), rule exI, rule d, rule e)
qed

lemma encode_prefix_witness:
  "length (encodeInPlace ''100% C++'' 12) < 12 \<and> ua_decode (encodeInPlace ''100% C++'' 12) = ''100% C+''"
proof -
  have "ua_decode (encodeInPlace ''100% C++'' 12) = ''100% C+''" by code_simp
  then show ?thesis using encode_prefix [of 12 "''100% C++''"] by simp
qed

text \<open>A serial number of white space only.\<close>

lemma serial_underflow:
  assumes "s \<noteq> []" "list_all isspace (take 15 s)"
  shows "getChipsetSerialNo (Some s) = None"
proof -
  have "dropWhile isspace (rev (takeWhile P (take 15 s))) = []" for P :: "char \<Rightarrow> bool"
    using assms(2) by (auto simp: list_all_iff dest: set_takeWhileD)
  then show ?thesis using assms(1) by (simp add: getChipsetSerialNo_def CHIPSET_SERIAL_NUMBER_MAX_LEN_def Let_def)
qed

end
