(* ===== verification/Loc_Eng_State.thy ===== *)
theory Loc_Eng_State
  imports Loc_Ni Agps Nmea Loc_Cfg User_Agent "HOL-Library.Sublist"
begin

text \<open>
  The location engine, \<open>loc_eng.cpp\<close>, with the adapter \<open>LocEngAdapter\<close> and the downloads of \<open>loc_eng_xtra.cpp\<close>. Calls of the
  framework and reports of the modem are turned into messages, which one thread handles in order. The engine's state extends that of the
  network-initiated requests; the AGPS machines, the NMEA generator and the configuration are the components modelled before. What the
  engine does to the outside (calls of the modem interface, a proprietary library, and callbacks of the framework) is the list \<open>eng_outs\<close>.
\<close>

unbundle bit_operations_syntax

subsection \<open>Configuration\<close>

text \<open>The parameters of \<open>gps.conf\<close> and \<open>sap.conf\<close>, as addresses of the store.\<close>

definition GPS_LOCK :: addr where "GPS_LOCK = 10"
definition SUPL_VER :: addr where "SUPL_VER = 11"
definition LPP_PROFILE :: addr where "LPP_PROFILE = 12"
definition A_GLONASS_POS_PROTOCOL_SELECT :: addr where "A_GLONASS_POS_PROTOCOL_SELECT = 13"
definition AGPS_CERT_WRITABLE_MASK :: addr where "AGPS_CERT_WRITABLE_MASK = 14"
definition SUPL_MODE :: addr where "SUPL_MODE = 15"
definition INTERMEDIATE_POS :: addr where "INTERMEDIATE_POS = 16"
definition ACCURACY_THRES :: addr where "ACCURACY_THRES = 17"
definition NMEA_PROVIDER :: addr where "NMEA_PROVIDER = 18"
definition CAPABILITIES :: addr where "CAPABILITIES = 19"
definition XTRA_VERSION_CHECK :: addr where "XTRA_VERSION_CHECK = 20"
definition LONGTERM_PSDS_SERVER_1 :: addr where "LONGTERM_PSDS_SERVER_1 = 21"
definition LONGTERM_PSDS_SERVER_2 :: addr where "LONGTERM_PSDS_SERVER_2 = 22"
definition LONGTERM_PSDS_SERVER_3 :: addr where "LONGTERM_PSDS_SERVER_3 = 23"
definition USE_EMERGENCY_PDN_FOR_EMERGENCY_SUPL :: addr where "USE_EMERGENCY_PDN_FOR_EMERGENCY_SUPL = 24"

definition GYRO_BIAS_RANDOM_WALK :: addr where "GYRO_BIAS_RANDOM_WALK = 40"
definition ACCEL_RANDOM_WALK_SPECTRAL_DENSITY :: addr where "ACCEL_RANDOM_WALK_SPECTRAL_DENSITY = 41"
definition ANGLE_RANDOM_WALK_SPECTRAL_DENSITY :: addr where "ANGLE_RANDOM_WALK_SPECTRAL_DENSITY = 42"
definition RATE_RANDOM_WALK_SPECTRAL_DENSITY :: addr where "RATE_RANDOM_WALK_SPECTRAL_DENSITY = 43"
definition VELOCITY_RANDOM_WALK_SPECTRAL_DENSITY :: addr where "VELOCITY_RANDOM_WALK_SPECTRAL_DENSITY = 44"
definition SENSOR_ACCEL_BATCHES_PER_SEC :: addr where "SENSOR_ACCEL_BATCHES_PER_SEC = 45"
definition SENSOR_ACCEL_SAMPLES_PER_BATCH :: addr where "SENSOR_ACCEL_SAMPLES_PER_BATCH = 46"
definition SENSOR_GYRO_BATCHES_PER_SEC :: addr where "SENSOR_GYRO_BATCHES_PER_SEC = 47"
definition SENSOR_GYRO_SAMPLES_PER_BATCH :: addr where "SENSOR_GYRO_SAMPLES_PER_BATCH = 48"
definition SENSOR_ACCEL_BATCHES_PER_SEC_HIGH :: addr where "SENSOR_ACCEL_BATCHES_PER_SEC_HIGH = 49"
definition SENSOR_ACCEL_SAMPLES_PER_BATCH_HIGH :: addr where "SENSOR_ACCEL_SAMPLES_PER_BATCH_HIGH = 50"
definition SENSOR_GYRO_BATCHES_PER_SEC_HIGH :: addr where "SENSOR_GYRO_BATCHES_PER_SEC_HIGH = 51"
definition SENSOR_GYRO_SAMPLES_PER_BATCH_HIGH :: addr where "SENSOR_GYRO_SAMPLES_PER_BATCH_HIGH = 52"
definition SENSOR_CONTROL_MODE :: addr where "SENSOR_CONTROL_MODE = 53"
definition SENSOR_USAGE :: addr where "SENSOR_USAGE = 54"
definition SENSOR_ALGORITHM_CONFIG_MASK :: addr where "SENSOR_ALGORITHM_CONFIG_MASK = 55"
definition SENSOR_PROVIDER :: addr where "SENSOR_PROVIDER = 56"

definition conf_row :: "string \<Rightarrow> addr \<Rightarrow> char \<Rightarrow> loc_param" where
  "conf_row name a t = \<lparr>param_name = name, param_ptr = Some a, param_set = None, param_type = t\<rparr>"

text \<open>A parameter of type \<open>f\<close> has a flag, at the same address as its value, that says whether it was set.\<close>

definition conf_row_valid :: "string \<Rightarrow> addr \<Rightarrow> loc_param" where
  "conf_row_valid name a = \<lparr>param_name = name, param_ptr = Some a, param_set = Some a, param_type = CHR ''f''\<rparr>"

definition gps_conf_table :: "loc_param list" where
  "gps_conf_table =
    [conf_row ''GPS_LOCK'' GPS_LOCK (CHR ''n''),
     conf_row ''SUPL_VER'' SUPL_VER (CHR ''n''),
     conf_row ''LPP_PROFILE'' LPP_PROFILE (CHR ''n''),
     conf_row ''A_GLONASS_POS_PROTOCOL_SELECT'' A_GLONASS_POS_PROTOCOL_SELECT (CHR ''n''),
     conf_row ''AGPS_CERT_WRITABLE_MASK'' AGPS_CERT_WRITABLE_MASK (CHR ''n''),
     conf_row ''SUPL_MODE'' SUPL_MODE (CHR ''n''),
     conf_row ''INTERMEDIATE_POS'' INTERMEDIATE_POS (CHR ''n''),
     conf_row ''ACCURACY_THRES'' ACCURACY_THRES (CHR ''n''),
     conf_row ''NMEA_PROVIDER'' NMEA_PROVIDER (CHR ''n''),
     conf_row ''CAPABILITIES'' CAPABILITIES (CHR ''n''),
     conf_row ''XTRA_VERSION_CHECK'' XTRA_VERSION_CHECK (CHR ''n''),
     conf_row ''LONGTERM_PSDS_SERVER_1'' LONGTERM_PSDS_SERVER_1 (CHR ''s''),
     conf_row ''LONGTERM_PSDS_SERVER_2'' LONGTERM_PSDS_SERVER_2 (CHR ''s''),
     conf_row ''LONGTERM_PSDS_SERVER_3'' LONGTERM_PSDS_SERVER_3 (CHR ''s''),
     conf_row ''USE_EMERGENCY_PDN_FOR_EMERGENCY_SUPL'' USE_EMERGENCY_PDN_FOR_EMERGENCY_SUPL (CHR ''n'')]"

definition sap_conf_table :: "loc_param list" where
  "sap_conf_table =
    [conf_row_valid ''GYRO_BIAS_RANDOM_WALK'' GYRO_BIAS_RANDOM_WALK,
     conf_row_valid ''ACCEL_RANDOM_WALK_SPECTRAL_DENSITY'' ACCEL_RANDOM_WALK_SPECTRAL_DENSITY,
     conf_row_valid ''ANGLE_RANDOM_WALK_SPECTRAL_DENSITY'' ANGLE_RANDOM_WALK_SPECTRAL_DENSITY,
     conf_row_valid ''RATE_RANDOM_WALK_SPECTRAL_DENSITY'' RATE_RANDOM_WALK_SPECTRAL_DENSITY,
     conf_row_valid ''VELOCITY_RANDOM_WALK_SPECTRAL_DENSITY'' VELOCITY_RANDOM_WALK_SPECTRAL_DENSITY,
     conf_row ''SENSOR_ACCEL_BATCHES_PER_SEC'' SENSOR_ACCEL_BATCHES_PER_SEC (CHR ''n''),
     conf_row ''SENSOR_ACCEL_SAMPLES_PER_BATCH'' SENSOR_ACCEL_SAMPLES_PER_BATCH (CHR ''n''),
     conf_row ''SENSOR_GYRO_BATCHES_PER_SEC'' SENSOR_GYRO_BATCHES_PER_SEC (CHR ''n''),
     conf_row ''SENSOR_GYRO_SAMPLES_PER_BATCH'' SENSOR_GYRO_SAMPLES_PER_BATCH (CHR ''n''),
     conf_row ''SENSOR_ACCEL_BATCHES_PER_SEC_HIGH'' SENSOR_ACCEL_BATCHES_PER_SEC_HIGH (CHR ''n''),
     conf_row ''SENSOR_ACCEL_SAMPLES_PER_BATCH_HIGH'' SENSOR_ACCEL_SAMPLES_PER_BATCH_HIGH (CHR ''n''),
     conf_row ''SENSOR_GYRO_BATCHES_PER_SEC_HIGH'' SENSOR_GYRO_BATCHES_PER_SEC_HIGH (CHR ''n''),
     conf_row ''SENSOR_GYRO_SAMPLES_PER_BATCH_HIGH'' SENSOR_GYRO_SAMPLES_PER_BATCH_HIGH (CHR ''n''),
     conf_row ''SENSOR_CONTROL_MODE'' SENSOR_CONTROL_MODE (CHR ''n''),
     conf_row ''SENSOR_USAGE'' SENSOR_USAGE (CHR ''n''),
     conf_row ''SENSOR_ALGORITHM_CONFIG_MASK'' SENSOR_ALGORITHM_CONFIG_MASK (CHR ''n''),
     conf_row ''SENSOR_PROVIDER'' SENSOR_PROVIDER (CHR ''n'')]"

text \<open>Every variable of the configuration; the texts are not set by the defaults.\<close>

definition conf_defaults :: "(addr \<times> cfg_val) list" where
  "conf_defaults =
    [(INTERMEDIATE_POS, Num 0), (ACCURACY_THRES, Num 0), (NMEA_PROVIDER, Num 0), (GPS_LOCK, Num 0), (SUPL_VER, Num 0x10000),
     (SUPL_MODE, Num 3), (CAPABILITIES, Num 7), (LPP_PROFILE, Num 0), (A_GLONASS_POS_PROTOCOL_SELECT, Num 0),
     (XTRA_VERSION_CHECK, Num 0), (USE_EMERGENCY_PDN_FOR_EMERGENCY_SUPL, Num 1), (GYRO_BIAS_RANDOM_WALK, Dbl (Fl False 0)),
     (SENSOR_ACCEL_BATCHES_PER_SEC, Num 2), (SENSOR_ACCEL_SAMPLES_PER_BATCH, Num 5), (SENSOR_GYRO_BATCHES_PER_SEC, Num 2),
     (SENSOR_GYRO_SAMPLES_PER_BATCH, Num 5), (SENSOR_ACCEL_BATCHES_PER_SEC_HIGH, Num 4), (SENSOR_ACCEL_SAMPLES_PER_BATCH_HIGH, Num 25),
     (SENSOR_GYRO_BATCHES_PER_SEC_HIGH, Num 4), (SENSOR_GYRO_SAMPLES_PER_BATCH_HIGH, Num 25), (SENSOR_CONTROL_MODE, Num 0),
     (SENSOR_USAGE, Num 0), (SENSOR_ALGORITHM_CONFIG_MASK, Num 0), (ACCEL_RANDOM_WALK_SPECTRAL_DENSITY, Dbl (Fl False 0)),
     (ANGLE_RANDOM_WALK_SPECTRAL_DENSITY, Dbl (Fl False 0)), (RATE_RANDOM_WALK_SPECTRAL_DENSITY, Dbl (Fl False 0)),
     (VELOCITY_RANDOM_WALK_SPECTRAL_DENSITY, Dbl (Fl False 0)), (SENSOR_PROVIDER, Num 1), (AGPS_CERT_WRITABLE_MASK, Num 0)]"

definition loc_default_parameters :: "cfg_store \<Rightarrow> cfg_store" where
  "loc_default_parameters M =
    M\<lparr>vars := foldl (\<lambda>v (a, x). v(a := x)) (vars M) conf_defaults,
      flags := foldl (\<lambda>f a. f(a := False)) (flags M)
        [GYRO_BIAS_RANDOM_WALK, ACCEL_RANDOM_WALK_SPECTRAL_DENSITY, ANGLE_RANDOM_WALK_SPECTRAL_DENSITY,
         RATE_RANDOM_WALK_SPECTRAL_DENSITY, VELOCITY_RANDOM_WALK_SPECTRAL_DENSITY]\<rparr>"

definition conf_num :: "cfg_store \<Rightarrow> addr \<Rightarrow> 32 word" where
  "conf_num M a = (case vars M a of Num w \<Rightarrow> w | _ \<Rightarrow> 0)"

definition conf_str :: "cfg_store \<Rightarrow> addr \<Rightarrow> string" where
  "conf_str M a = (case vars M a of Str s \<Rightarrow> s | _ \<Rightarrow> [])"

text \<open>A double that is passed on as a float.\<close>

definition conf_float :: "cfg_store \<Rightarrow> addr \<Rightarrow> fl" where
  "conf_float M a = (case vars M a of Dbl x \<Rightarrow> f_round single_prec x | _ \<Rightarrow> Fl False 0)"

definition GPS_CAPABILITY_MSB :: "32 word" where "GPS_CAPABILITY_MSB = 2"
definition GPS_CAPABILITY_MSA :: "32 word" where "GPS_CAPABILITY_MSA = 4"
definition GPS_CAPABILITY_ON_DEMAND_TIME :: "32 word" where "GPS_CAPABILITY_ON_DEMAND_TIME = 16"
definition GPS_CAPABILITY_MEASUREMENTS :: "32 word" where "GPS_CAPABILITY_MEASUREMENTS = 64"

definition carrierMSA :: "32 word" where "carrierMSA = 2"
definition carrierMSB :: "32 word" where "carrierMSB = 1"
definition gpsConfMSA :: "32 word" where "gpsConfMSA = 4"
definition gpsConfMSB :: "32 word" where "gpsConfMSB = 2"

definition getCarrierCapabilities :: "cfg_store \<Rightarrow> 32 word" where
  "getCarrierCapabilities M =
    (let c = conf_num M CAPABILITIES;
         c1 = (if conf_num M SUPL_MODE AND carrierMSA \<noteq> carrierMSA then c AND NOT gpsConfMSA else c)
     in if conf_num M SUPL_MODE AND carrierMSB \<noteq> carrierMSB then c1 AND NOT gpsConfMSB else c1)"

subsection \<open>State and messages\<close>

datatype position_mode =
    LOC_POSITION_MODE_INVALID | LOC_POSITION_MODE_STANDALONE | LOC_POSITION_MODE_MS_BASED | LOC_POSITION_MODE_MS_ASSISTED

datatype position_recurrence = GPS_POSITION_RECURRENCE_PERIODIC | GPS_POSITION_RECURRENCE_SINGLE

text \<open>The credentials and the provider are always empty.\<close>

record LocPosMode =
  mode :: position_mode
  recurrence :: position_recurrence
  min_interval :: "32 word"
  preferred_accuracy :: "32 word"
  preferred_time :: "32 word"

definition MIN_POSSIBLE_FIX_INTERVAL :: "32 word" where "MIN_POSSIBLE_FIX_INTERVAL = 1000"

definition LocPosMode_new :: "position_mode \<Rightarrow> position_recurrence \<Rightarrow> 32 word \<Rightarrow> 32 word \<Rightarrow> 32 word \<Rightarrow> LocPosMode" where
  "LocPosMode_new m recr gap accu time =
    \<lparr>mode = m, recurrence = recr, min_interval = (if gap < MIN_POSSIBLE_FIX_INTERVAL then MIN_POSSIBLE_FIX_INTERVAL else gap),
     preferred_accuracy = accu, preferred_time = time\<rparr>"

datatype gps_status =
    GPS_STATUS_NONE | GPS_STATUS_SESSION_BEGIN | GPS_STATUS_SESSION_END | GPS_STATUS_ENGINE_ON | GPS_STATUS_ENGINE_OFF

datatype sess_status = LOC_SESS_SUCCESS | LOC_SESS_INTERMEDIATE | LOC_SESS_FAILURE

datatype server_type = LOC_AGPS_CDMA_PDE_SERVER | LOC_AGPS_CUSTOM_PDE_SERVER | LOC_AGPS_MPC_SERVER | LOC_AGPS_SUPL_SERVER

datatype xtra_version_check = DISABLED | AUTO | XTRA2 | XTRA3

text \<open>A location: what the generator of NMEA reads of it, the accuracy, where it comes from, and the allocated raw data, a number.\<close>

record ulp_location =
  gpsLocation :: gps_location
  has_accuracy :: bool
  accuracy :: fl
  position_source :: "16 word"
  rawData :: "nat option"

definition LOC_POS_TECH_MASK_SATELLITE :: "32 word" where "LOC_POS_TECH_MASK_SATELLITE = 1"
definition LOC_POS_TECH_MASK_SENSORS :: "32 word" where "LOC_POS_TECH_MASK_SENSORS = 8"
definition LOC_POS_TECH_MASK_HYBRID :: "32 word" where "LOC_POS_TECH_MASK_HYBRID = 128"
definition ULP_LOCATION_IS_FROM_ZPP :: "16 word" where "ULP_LOCATION_IS_FROM_ZPP = 4"

definition AGPS_TYPE_WWAN_ANY :: int where "AGPS_TYPE_WWAN_ANY = 3"
definition AGPS_TYPE_WIFI :: int where "AGPS_TYPE_WIFI = 4"
definition AGPS_TYPE_SUPL_ES :: int where "AGPS_TYPE_SUPL_ES = 5"
definition MAX_APN_LEN :: nat where "MAX_APN_LEN = 100"
definition MAX_URL_LEN :: nat where "MAX_URL_LEN = 256"

definition LOC_API_ADAPTER_ERR_PHONE_OFFLINE :: int where "LOC_API_ADAPTER_ERR_PHONE_OFFLINE = 7"
definition LOC_API_ADAPTER_ERR_ENGINE_DOWN :: int where "LOC_API_ADAPTER_ERR_ENGINE_DOWN = LOC_API_ADAPTER_ERR_PHONE_OFFLINE"
definition LOC_API_ADAPTER_ERR_INTERNAL :: int where "LOC_API_ADAPTER_ERR_INTERNAL = 10"

text \<open>The four machines; a message of the AGPS interface has a pointer to one, which may be NULL.\<close>

datatype nif = agnss_nif | internet_nif | wifi_nif | ds_nif

text \<open>The messages, in four groups: running the engine, passing a value to the modem, reports of the modem, and data connections.\<close>

datatype control_msg =
    LocEngStartFix
  | LocEngStopFix
  | LocEngPositionMode LocPosMode
  | LocEngGetZpp
  | LocEngDelAidData "16 word"
  | LocEngDown
  | LocEngUp
  | LocEngInit
  | LocEngDataClientInit
  | LocSetXtraUserAgent
  | LocEngRequestNi ni_notification "nat option"

datatype config_msg =
    LocEngSetTime int int int
  | LocEngInjectLocation fl fl fl
  | LocEngSetServerIpv4 "32 word" int server_type
  | LocEngSetServerUrl string
  | LocEngAGlonassProtocol "32 word"
  | LocEngSuplVer "32 word"
  | LocEngSuplMode
  | LocEngLppConfig "32 word"
  | LocEngSensorControlConfig "32 word" "32 word"
  | LocEngSensorProperties "(bool \<times> fl) list"
  | LocEngSensorPerfControlConfig "32 word list"
  | LocEngExtPowerConfig int
  | LocEngEnableData "string option" int
  | LocEngSetCapabilities
  | LocEngInstallAGpsCert "string list" "32 word"
  | LocEngUpdateRegistrationMask "32 word" bool
  | LocEngGnssConstellationConfig
  | LocEngRequestXtraServer
  | LocEngInjectXtraData string
  | LocEngSetXtraVersionCheck int
  | LocEngAdapterGpsLock "32 word"

datatype report_msg =
    LocEngReportPosition ulp_location location_extended sess_status "32 word"
  | LocEngReportSv sv_status location_extended
  | LocEngReportStatus gps_status
  | LocEngReportNmea string
  | LocEngReportXtraServer "string list"
  | LocEngReportGpsMeasurement nat
  | LocEngRequestXtra
  | LocEngRequestTime

datatype agps_msg =
    LocEngReqRelBIT int "32 word" "8 word list option" bool
  | LocEngSuplEsOpened
  | LocEngSuplEsClosed
  | LocEngRequestSuplEs "32 word"
  | LocEngRequestATL "32 word" int
  | LocEngReleaseATL "32 word"
  | LocEngReqRelWifi int "32 word" "string option" "string option" bool
  | LocEngAtlOpenSuccess "nif option" string int
  | LocEngAtlClosed "nif option"
  | LocEngAtlOpenFailed "nif option"

datatype eng_msg = Control control_msg | Config config_msg | Report report_msg | Conn agps_msg

text \<open>Calls of the modem interface, those for a fix first, and callbacks of the framework.\<close>

datatype fix_call =
    StartFix LocPosMode | StopFix | SetInSession bool | SetPositionMode LocPosMode | DeleteAidingData "16 word"

datatype api_call =
    EnableData int
  | SetAPN string
  | InjectPosition fl fl fl
  | SetTime int int int
  | SetXtraData string
  | RequestXtraServer
  | ApiAtlOpenStatus "32 word" int "string option" int int
  | ApiAtlCloseStatus "32 word" int
  | SetServerUrl string
  | SetServerIp "32 word" int server_type
  | SetSUPLVersion "32 word"
  | SetLPPConfig "32 word"
  | SetSensorControlConfig "32 word" "32 word"
  | SetSensorProperties "(bool \<times> fl) list"
  | SetSensorPerfControlConfig "32 word list"
  | SetExtPowerConfig int
  | SetAGLONASSProtocol "32 word"
  | InitDataServiceClient
  | InstallAGpsCert "string list" "32 word"
  | SetXtraVersionCheck xtra_version_check
  | UpdateRegistrationMask "32 word" bool
  | GnssConstellationConfig
  | SetGpsLock "32 word"
  | ModemPowerVote bool
  | SetCapabilitiesUlp "32 word"
  | RequestUlp "32 word"
  | DmnConnLaunch
  | SaveUserAgent string
  | GetBestAvailableZppFix
  | UlpReportPosition gps_location "16 word" "32 word"

datatype eng_callback =
    CbLocation "ulp_location option"
  | CbSvStatus sv_status
  | CbStatus gps_status
  | CbNmea string
  | CbSetCapabilities "32 word"
  | CbRequestUtcTime
  | CbGpsMeasurement nat
  | CbXtraDownload
  | CbXtraServer string string string

datatype eng_out = Fix fix_call | Api api_call | Cb eng_callback

text \<open>A callback is only there or not.\<close>

record eng_callbacks =
  location_cb :: bool
  sv_status_cb :: bool
  status_cb :: bool
  set_capabilities_cb :: bool
  request_utc_time_cb :: bool
  gps_measurement_cb :: bool
  agps_status_cb :: bool
  download_request_cb :: bool
  report_xtra_server_cb :: bool

text \<open>The adapter, with the state of the proxy \<open>UlpProxyBase\<close>, whose functions never take a call over.\<close>

record LocEngAdapter =
  mEvtMask :: "32 word"
  mFixCriteria :: LocPosMode
  mNavigating :: bool
  mPowerVote :: "32 word"
  mSupportsAgpsRequests :: bool
  mSupportsPositionInjection :: bool
  mSupportsTimeInjection :: bool
  mPosMode :: LocPosMode
  mFixSet :: bool

record server_buf =
  host_set :: bool
  host_buf :: string
  port_buf :: int

text \<open>The global variables are \<open>conf\<close> and the three after it; \<open>adapter\<close> says whether there is one.\<close>

record loc_eng = ni +
  cbs :: eng_callbacks
  intermediateFix :: "8 word"
  nifs :: "nif \<Rightarrow> agps option"
  engine_status :: gps_status
  fix_session_status :: gps_status
  aiding_data_for_deletion :: "16 word"
  generateNmea :: bool
  nmea :: eng
  supl_host :: server_buf
  c2k_host :: server_buf
  adapter :: bool
  adp :: LocEngAdapter
  conf :: cfg_store
  agpsStatus :: "32 word"
  configAlreadyRead :: bool
  loc_api_handle :: bool
  eng_queue :: "eng_msg list"
  eng_outs :: "eng_out list"
  eng_freed :: "nat list"

text \<open>
  The environment: that of the AGPS machines, what a call of the modem interface returns after the outputs so far, whether a thread can be
  created, the resolution of host names, what the system says of the device, and the position that the modem knows without a fix.
\<close>

record eng_env =
  agps_E :: agps_env
  api_result :: "eng_out list \<Rightarrow> int"
  thread_ok :: "eng_out list \<Rightarrow> bool"
  gethostbyname :: "string \<Rightarrow> 32 word option"
  inet_aton :: "string \<Rightarrow> 32 word option"
  dev :: device_info
  zpp_fix :: "eng_out list \<Rightarrow> gps_location \<times> 32 word"

definition out :: "eng_out \<Rightarrow> loc_eng \<Rightarrow> loc_eng" where
  "out x S = S\<lparr>eng_outs := eng_outs S @ [x]\<rparr>"

definition sendMsg :: "eng_msg \<Rightarrow> loc_eng \<Rightarrow> loc_eng" where
  "sendMsg m S = S\<lparr>eng_queue := eng_queue S @ [m]\<rparr>"

definition set_nif :: "nif \<Rightarrow> agps \<Rightarrow> loc_eng \<Rightarrow> loc_eng" where
  "set_nif n m S = S\<lparr>nifs := (nifs S)(n := Some m)\<rparr>"

text \<open>A member function called through a pointer to a machine.\<close>

definition on_nif :: "nif option \<Rightarrow> (agps \<Rightarrow> agps mem) \<Rightarrow> loc_eng \<Rightarrow> loc_eng mem" where
  "on_nif p f S = (case p of
      None \<Rightarrow> None
    | Some n \<Rightarrow> (case nifs S n of None \<Rightarrow> None | Some m \<Rightarrow> map_option (\<lambda>m'. set_nif n m' S) (f m)))"

end
