(* ===== verification/Loc_Eng.thy ===== *)
theory Loc_Eng
  imports Loc_Eng_State
begin

text \<open>
  The operations of the location engine: the handlers of the messages, the calls of the framework (\<open>loc_eng.cpp\<close>, \<open>loc_eng_xtra.cpp\<close>) and
  the reports of the modem (\<open>LocEngAdapter.cpp\<close>). A handler is \<open>None\<close> where the code dereferences NULL.
\<close>

unbundle bit_operations_syntax

subsection \<open>The adapter\<close>

definition isInSession :: "loc_eng \<Rightarrow> bool" where
  "isInSession S = mNavigating (adp S)"

definition set_adp :: "(LocEngAdapter \<Rightarrow> LocEngAdapter) \<Rightarrow> loc_eng \<Rightarrow> loc_eng" where
  "set_adp f S = S\<lparr>adp := f (adp S)\<rparr>"

definition api :: "eng_env \<Rightarrow> eng_out \<Rightarrow> loc_eng \<Rightarrow> int \<times> loc_eng" where
  "api E x S = (let S1 = out x S in (api_result E (eng_outs S1), S1))"

definition startFix :: "eng_env \<Rightarrow> loc_eng \<Rightarrow> int \<times> loc_eng" where
  "startFix E S = api E (Fix (StartFix (mFixCriteria (adp S)))) S"

definition stopFix :: "eng_env \<Rightarrow> loc_eng \<Rightarrow> int \<times> loc_eng" where
  "stopFix E S = api E (Fix StopFix) S"

definition setInSession :: "bool \<Rightarrow> loc_eng \<Rightarrow> loc_eng" where
  "setInSession inSession S =
    (let S1 = out (Fix (SetInSession inSession)) (set_adp (\<lambda>A. A\<lparr>mNavigating := inSession\<rparr>) S) in
     if \<not> inSession then set_adp (\<lambda>A. A\<lparr>mFixCriteria := (mFixCriteria A)\<lparr>mode := LOC_POSITION_MODE_INVALID\<rparr>\<rparr>) S1 else S1)"

definition setPositionMode :: "LocPosMode \<Rightarrow> loc_eng \<Rightarrow> loc_eng" where
  "setPositionMode posMode S = out (Fix (SetPositionMode posMode)) (set_adp (\<lambda>A. A\<lparr>mFixCriteria := posMode\<rparr>) S)"

definition setTime :: "int \<Rightarrow> int \<Rightarrow> int \<Rightarrow> loc_eng \<Rightarrow> loc_eng" where
  "setTime time timeReference uncertainty S =
    (if mSupportsTimeInjection (adp S) then out (Api (SetTime time timeReference uncertainty)) S
     else set_adp (\<lambda>A. A\<lparr>mSupportsTimeInjection := True\<rparr>) S)"

definition setXtraVersionCheck :: "int \<Rightarrow> loc_eng \<Rightarrow> loc_eng" where
  "setXtraVersionCheck check S =
    out (Api (SetXtraVersionCheck (if check = 1 then AUTO else if check = 2 then XTRA2 else if check = 3 then XTRA3 else DISABLED))) S"

definition POWER_VOTE_RIGHT :: "32 word" where "POWER_VOTE_RIGHT = 0x20"
definition POWER_VOTE_VALUE :: "32 word" where "POWER_VOTE_VALUE = 0x10"

definition setPowerVoteRight :: "bool \<Rightarrow> loc_eng \<Rightarrow> loc_eng" where
  "setPowerVoteRight r S = set_adp (\<lambda>A. A\<lparr>mPowerVote :=
    (if r then mPowerVote A OR POWER_VOTE_RIGHT else mPowerVote A AND NOT POWER_VOTE_RIGHT)\<rparr>) S"

definition getPowerVoteRight :: "loc_eng \<Rightarrow> bool" where
  "getPowerVoteRight S \<longleftrightarrow> mPowerVote (adp S) AND POWER_VOTE_RIGHT \<noteq> 0"

definition getPowerVote :: "loc_eng \<Rightarrow> bool" where
  "getPowerVote S \<longleftrightarrow> mPowerVote (adp S) AND POWER_VOTE_VALUE \<noteq> 0"

definition requestPowerVote :: "loc_eng \<Rightarrow> loc_eng" where
  "requestPowerVote S =
    (if getPowerVoteRight S then out (Api (SetGpsLock (if getPowerVote S then 103 else 101))) S else S)"

definition setPowerVote :: "bool \<Rightarrow> loc_eng \<Rightarrow> loc_eng" where
  "setPowerVote powerOn S =
    out (Api (ModemPowerVote powerOn)) (requestPowerVote (set_adp (\<lambda>A. A\<lparr>mPowerVote :=
      (if powerOn then mPowerVote A OR POWER_VOTE_VALUE else mPowerVote A AND NOT POWER_VOTE_VALUE)\<rparr>) S))"

text \<open>The functions of the proxy; each says that it did not take the call over.\<close>

definition sendStartFix :: "loc_eng \<Rightarrow> loc_eng \<times> bool" where
  "sendStartFix S = (set_adp (\<lambda>A. A\<lparr>mFixSet := True\<rparr>) S, False)"

definition sendStopFix :: "loc_eng \<Rightarrow> loc_eng \<times> bool" where
  "sendStopFix S = (set_adp (\<lambda>A. A\<lparr>mFixSet := False\<rparr>) S, False)"

definition sendFixMode :: "LocPosMode \<Rightarrow> loc_eng \<Rightarrow> loc_eng \<times> bool" where
  "sendFixMode params S = (set_adp (\<lambda>A. A\<lparr>mPosMode := params\<rparr>) S, False)"

subsection \<open>Sessions, status and muting\<close>

definition loc_eng_start_handler :: "eng_env \<Rightarrow> loc_eng \<Rightarrow> int \<times> loc_eng" where
  "loc_eng_start_handler E S =
    (if \<not> isInSession S then
       (let (ret, S1) = startFix E S in
        (ret, if ret = LOC_API_ADAPTER_ERR_SUCCESS \<or> ret = LOC_API_ADAPTER_ERR_ENGINE_DOWN \<or>
                ret = LOC_API_ADAPTER_ERR_PHONE_OFFLINE \<or> ret = LOC_API_ADAPTER_ERR_INTERNAL
              then setInSession True S1 else S1))
     else (LOC_API_ADAPTER_ERR_SUCCESS, S))"

definition loc_eng_stop_handler :: "eng_env \<Rightarrow> loc_eng \<Rightarrow> int \<times> loc_eng" where
  "loc_eng_stop_handler E S =
    (if isInSession S then (let (ret, S1) = stopFix E S in (ret, setInSession False S1))
     else (LOC_API_ADAPTER_ERR_SUCCESS, S))"

definition update_aiding_data_for_deletion :: "loc_eng \<Rightarrow> loc_eng" where
  "update_aiding_data_for_deletion S =
    (if engine_status S \<noteq> GPS_STATUS_ENGINE_ON \<and> aiding_data_for_deletion S \<noteq> 0
     then (out (Fix (DeleteAidingData (aiding_data_for_deletion S))) S)\<lparr>aiding_data_for_deletion := 0\<rparr> else S)"

definition loc_inform_gps_status :: "gps_status \<Rightarrow> loc_eng \<Rightarrow> loc_eng" where
  "loc_inform_gps_status status S = (if status_cb (cbs S) then out (Cb (CbStatus status)) S else S)"

text \<open>The change of the mute state, and what is reported.\<close>

definition mute_on_status :: "gps_status \<Rightarrow> mute_session \<Rightarrow> mute_session" where
  "mute_on_status status m =
    (let m1 = (if (status = GPS_STATUS_SESSION_BEGIN \<or> status = GPS_STATUS_ENGINE_ON) \<and> m = MUTE_SESS_WAIT then MUTE_SESS_IN_SESSION else m) in
     if m1 = MUTE_SESS_IN_SESSION \<and> (status = GPS_STATUS_SESSION_END \<or> status = GPS_STATUS_ENGINE_OFF) then MUTE_SESS_NONE else m1)"

definition loc_eng_report_status :: "gps_status \<Rightarrow> loc_eng \<Rightarrow> loc_eng" where
  "loc_eng_report_status status S =
    (let S1 = S\<lparr>mute_session_state := mute_on_status status (mute_session_state S)\<rparr>;
         navigating = isInSession S1;
         S2 = (if status \<noteq> GPS_STATUS_NONE \<and> \<not> (status = GPS_STATUS_SESSION_END \<and> navigating) \<and>
                 \<not> (status = GPS_STATUS_SESSION_BEGIN \<and> \<not> navigating)
               then if mute_session_state S1 \<noteq> MUTE_SESS_IN_SESSION then loc_inform_gps_status status S1 else S1
               else S1);
         S3 = (if status = GPS_STATUS_ENGINE_ON \<or> status = GPS_STATUS_ENGINE_OFF then S2\<lparr>engine_status := status\<rparr> else S2)
     in if status = GPS_STATUS_SESSION_BEGIN \<or> status = GPS_STATUS_SESSION_END then S3\<lparr>fix_session_status := status\<rparr> else S3)"

subsection \<open>Reports of the modem\<close>

definition eng_free :: "nat option \<Rightarrow> loc_eng \<Rightarrow> loc_eng" where
  "eng_free p S = (case p of None \<Rightarrow> S | Some x \<Rightarrow> S\<lparr>eng_freed := eng_freed S @ [x]\<rparr>)"

text \<open>A final fix of a satellite, a sensor or both; and an intermediate fix that is wanted and good enough.\<close>

definition final_fix :: "sess_status \<Rightarrow> 32 word \<Rightarrow> bool" where
  "final_fix st techMask \<longleftrightarrow> st = LOC_SESS_SUCCESS \<and>
    (LOC_POS_TECH_MASK_SATELLITE OR LOC_POS_TECH_MASK_SENSORS OR LOC_POS_TECH_MASK_HYBRID) AND techMask \<noteq> 0"

definition too_inaccurate :: "ulp_location \<Rightarrow> cfg_store \<Rightarrow> bool" where
  "too_inaccurate L M \<longleftrightarrow> has_accuracy L \<and> conf_num M ACCURACY_THRES \<noteq> 0 \<and>
    fval (accuracy L) > rnd single_prec (of_int (uint (conf_num M ACCURACY_THRES)))"

definition report_wanted :: "ulp_location \<Rightarrow> sess_status \<Rightarrow> 32 word \<Rightarrow> loc_eng \<Rightarrow> bool" where
  "report_wanted L st techMask S \<longleftrightarrow> final_fix st techMask \<or> intermediateFix S = 1 \<and> \<not> too_inaccurate L (conf S)"

text \<open>The callback, with whether the position was reported.\<close>

definition report_location :: "ulp_location \<Rightarrow> sess_status \<Rightarrow> 32 word \<Rightarrow> loc_eng \<Rightarrow> loc_eng \<times> bool" where
  "report_location L st techMask S =
    (if \<not> location_cb (cbs S) then (S, False)
     else if st = LOC_SESS_FAILURE then (out (Cb (CbLocation None)) S, True)
     else if report_wanted L st techMask S then (out (Cb (CbLocation (Some L))) S, True)
     else (S, False))"

definition end_single_shot :: "eng_env \<Rightarrow> sess_status \<Rightarrow> loc_eng \<Rightarrow> loc_eng" where
  "end_single_shot E st S =
    (if recurrence (mFixCriteria (adp S)) = GPS_POSITION_RECURRENCE_SINGLE
     then setInSession False (if st = LOC_SESS_INTERMEDIATE then snd (stopFix E S) else S) else S)"

definition nmea_position :: "ulp_location \<Rightarrow> location_extended \<Rightarrow> bool \<Rightarrow> loc_eng \<Rightarrow> loc_eng" where
  "nmea_position L X generate_nmea S =
    S\<lparr>nmea := fst (generate_pos (gpsLocation L) X generate_nmea
       ((nmea S)\<lparr>standalone := (mode (mFixCriteria (adp S)) = LOC_POSITION_MODE_STANDALONE)\<rparr>))\<rparr>"

definition ReportPosition_proc :: "eng_env \<Rightarrow> ulp_location \<Rightarrow> location_extended \<Rightarrow> sess_status \<Rightarrow> 32 word \<Rightarrow> loc_eng \<Rightarrow> loc_eng" where
  "ReportPosition_proc E L X st techMask S =
    (if mute_session_state S \<noteq> MUTE_SESS_IN_SESSION then
       (let (S1, reported) = report_location L st techMask S;
            S2 = (if reported then end_single_shot E st S1 else S1);
            S3 = (if generateNmea S2 \<and> isInSession S2 then nmea_position L X (reported \<and> st \<noteq> LOC_SESS_FAILURE) S2 else S2)
        in eng_free (rawData L) S3)
     else S)"

definition ReportSv_proc :: "sv_status \<Rightarrow> location_extended \<Rightarrow> loc_eng \<Rightarrow> loc_eng mem" where
  "ReportSv_proc V X S =
    (if mute_session_state S \<noteq> MUTE_SESS_IN_SESSION then
       (let S1 = (if sv_status_cb (cbs S) then out (Cb (CbSvStatus V)) S else S) in
        if generateNmea S1 then map_option (\<lambda>(e, _). S1\<lparr>nmea := e\<rparr>) (generate_sv V X (nmea S1)) else Some S1)
     else Some S)"

definition ReportNmea_proc :: "string \<Rightarrow> loc_eng \<Rightarrow> loc_eng" where
  "ReportNmea_proc text S = (if nmea_cb (nmea S) then out (Cb (CbNmea text)) S else S)"

definition ReportGpsMeasurement_proc :: "nat \<Rightarrow> loc_eng \<Rightarrow> loc_eng" where
  "ReportGpsMeasurement_proc d S =
    (if mute_session_state S \<noteq> MUTE_SESS_IN_SESSION then if gps_measurement_cb (cbs S) then out (Cb (CbGpsMeasurement d)) S else S else S)"

text \<open>
  The servers for assistance data: those of the modem, unless the configuration names others, without the vendor's own; they fill the slots
  of the message in order, each cut to \<open>mMaxLen\<close> characters.
\<close>

definition XTRA1_GPSONEXTRA :: string where "XTRA1_GPSONEXTRA = ''xtra1.gpsonextra.net''"

definition to_lower :: "char \<Rightarrow> char" where
  "to_lower c = (let n = of_char c :: nat in if 65 \<le> n \<and> n \<le> 90 then char_of (n + 32) else c)"

definition strcasestr :: "string \<Rightarrow> string \<Rightarrow> bool" where
  "strcasestr haystack needle \<longleftrightarrow> list_ex (prefix (map to_lower needle)) (suffixes (map to_lower haystack))"

definition xtra_servers :: "cfg_store \<Rightarrow> string \<Rightarrow> string \<Rightarrow> string \<Rightarrow> nat \<Rightarrow> string list" where
  "xtra_servers M url1 url2 url3 mMaxLen =
    (let pick = (\<lambda>a url. if conf_str M a \<noteq> [] then conf_str M a else url);
         urls = [pick LONGTERM_PSDS_SERVER_1 url1, pick LONGTERM_PSDS_SERVER_2 url2, pick LONGTERM_PSDS_SERVER_3 url3]
     in map (take mMaxLen) (filter (\<lambda>u. \<not> strcasestr u XTRA1_GPSONEXTRA) urls))"

definition ReportXtraServer_proc :: "string list \<Rightarrow> loc_eng \<Rightarrow> loc_eng" where
  "ReportXtraServer_proc mServers S =
    (let slot = (\<lambda>i. if i < length mServers then mServers ! i else []) in
     if report_xtra_server_cb (cbs S) then out (Cb (CbXtraServer (slot 0) (slot 1) (slot 2))) S else S)"

definition RequestXtra_proc :: "loc_eng \<Rightarrow> loc_eng" where
  "RequestXtra_proc S = (if download_request_cb (cbs S) then out (Cb CbXtraDownload) S else S)"

definition RequestTime_proc :: "loc_eng \<Rightarrow> loc_eng" where
  "RequestTime_proc S =
    (if conf_num (conf S) CAPABILITIES AND GPS_CAPABILITY_ON_DEMAND_TIME \<noteq> 0 then
       if request_utc_time_cb (cbs S) then out (Cb CbRequestUtcTime) S else S
     else S)"

definition loc_eng_get_zpp_handler :: "eng_env \<Rightarrow> loc_eng \<Rightarrow> int \<times> loc_eng" where
  "loc_eng_get_zpp_handler E S =
    (let (ret, S1) = api E (Api GetBestAvailableZppFix) S; (L, tech) = zpp_fix E (eng_outs S1)
     in (ret, out (Api (UlpReportPosition L ULP_LOCATION_IS_FROM_ZPP tech)) S1))"

subsection \<open>Data connections\<close>

definition getAgpsStateMachine :: "loc_eng \<Rightarrow> int \<Rightarrow> nif option" where
  "getAgpsStateMachine S agpsType =
    (let n = (if agpsType = AGPS_TYPE_WIFI then wifi_nif
              else if agpsType = AGPS_TYPE_INVALID \<or> agpsType = AGPS_TYPE_SUPL then agnss_nif
              else if agpsType = AGPS_TYPE_SUPL_ES then if nifs S ds_nif \<noteq> None then ds_nif else agnss_nif
              else internet_nif)
     in if nifs S n = None then None else Some n)"

definition ReqRelBIT_proc :: "agps_env \<Rightarrow> int \<Rightarrow> 32 word \<Rightarrow> 8 word list option \<Rightarrow> bool \<Rightarrow> loc_eng \<Rightarrow> loc_eng mem" where
  "ReqRelBIT_proc E type ipv4 ipv6 isReq S =
    (let s = BITSubscriber_new ipv4 ipv6 in
     on_nif (getAgpsStateMachine S type) (if isReq then subscribeRsrc E s else (\<lambda>m. map_option snd (unsubscribeRsrc E s m))) S)"

definition SuplEs_event :: "agps_env \<Rightarrow> AgpsRsrcStatus \<Rightarrow> loc_eng \<Rightarrow> loc_eng mem" where
  "SuplEs_event E event S = (if nifs S ds_nif \<noteq> None then on_nif (Some ds_nif) (onRsrcEvent E event) S else Some S)"

definition RequestSuplEs_proc :: "agps_env \<Rightarrow> 32 word \<Rightarrow> loc_eng \<Rightarrow> loc_eng mem" where
  "RequestSuplEs_proc E i S =
    (if nifs S ds_nif \<noteq> None then on_nif (Some ds_nif) (subscribeRsrc E (DSSubscriber_new i)) S
     else if nifs S agnss_nif \<noteq> None then on_nif (Some agnss_nif) (subscribeRsrc E (ATLSubscriber_new i False)) S
     else Some (out (Api (ApiAtlOpenStatus i 0 None (-1) (-1))) S))"

definition RequestATL_proc :: "agps_env \<Rightarrow> 32 word \<Rightarrow> int \<Rightarrow> loc_eng \<Rightarrow> loc_eng mem" where
  "RequestATL_proc E i type S =
    (case getAgpsStateMachine S type of
       Some n \<Rightarrow> on_nif (Some n) (subscribeRsrc E (ATLSubscriber_new i (AGPS_TYPE_INVALID = type))) S
     | None \<Rightarrow> Some (out (Api (ApiAtlOpenStatus i 0 None (-1) type)) S))"

text \<open>Unsubscribing from one machine, if it exists: the new state and whether a subscriber was found.\<close>

definition try_unsubscribe :: "agps_env \<Rightarrow> nif \<Rightarrow> subscriber \<Rightarrow> loc_eng \<Rightarrow> (loc_eng \<times> bool) mem" where
  "try_unsubscribe E n s S =
    (case nifs S n of
       None \<Rightarrow> Some (S, False)
     | Some m \<Rightarrow> map_option (\<lambda>(b, m'). (set_nif n m' S, b)) (unsubscribeRsrc E s m))"

fun release_atl :: "agps_env \<Rightarrow> 32 word \<Rightarrow> (nif \<times> subscriber) list \<Rightarrow> loc_eng \<Rightarrow> loc_eng mem" where
  "release_atl E i [] S = Some (out (Api (ApiAtlCloseStatus i 0)) S)"
| "release_atl E i ((n, s) # ts) S =
    (case try_unsubscribe E n s S of
       None \<Rightarrow> None
     | Some (S1, found) \<Rightarrow> if found then Some S1 else release_atl E i ts S1)"

definition ReleaseATL_proc :: "agps_env \<Rightarrow> 32 word \<Rightarrow> loc_eng \<Rightarrow> loc_eng mem" where
  "ReleaseATL_proc E i S =
    release_atl E i [(agnss_nif, ATLSubscriber_new i False), (internet_nif, ATLSubscriber_new i False), (ds_nif, DSSubscriber_new i)] S"

definition ReqRelWifi_proc :: "agps_env \<Rightarrow> int \<Rightarrow> 32 word \<Rightarrow> string option \<Rightarrow> string option \<Rightarrow> bool \<Rightarrow> loc_eng \<Rightarrow> loc_eng mem" where
  "ReqRelWifi_proc E type senderId ssid password isReq S =
    (if nifs S wifi_nif \<noteq> None then
       (let s = WIFISubscriber_new ssid password senderId in
        on_nif (Some wifi_nif) (if isReq then subscribeRsrc E s else (\<lambda>m. map_option snd (unsubscribeRsrc E s m))) S)
     else Some (out (Api (ApiAtlOpenStatus senderId 0 None (-1) type)) S))"

definition AtlOpenSuccess_proc :: "agps_env \<Rightarrow> nif option \<Rightarrow> string \<Rightarrow> int \<Rightarrow> loc_eng \<Rightarrow> loc_eng mem" where
  "AtlOpenSuccess_proc E sm apn bearer S =
    on_nif sm (\<lambda>m. onRsrcEvent E RSRC_GRANTED (Agps.setAPN (Some apn) (length apn) (setBearer bearer m))) S"

fun conn_proc :: "agps_env \<Rightarrow> agps_msg \<Rightarrow> loc_eng \<Rightarrow> loc_eng mem" where
  "conn_proc E (LocEngReqRelBIT type ipv4 ipv6 isReq) S = ReqRelBIT_proc E type ipv4 ipv6 isReq S"
| "conn_proc E LocEngSuplEsOpened S = SuplEs_event E RSRC_GRANTED S"
| "conn_proc E LocEngSuplEsClosed S = SuplEs_event E RSRC_RELEASED S"
| "conn_proc E (LocEngRequestSuplEs i) S = RequestSuplEs_proc E i S"
| "conn_proc E (LocEngRequestATL i type) S = RequestATL_proc E i type S"
| "conn_proc E (LocEngReleaseATL i) S = ReleaseATL_proc E i S"
| "conn_proc E (LocEngReqRelWifi type senderId ssid password isReq) S = ReqRelWifi_proc E type senderId ssid password isReq S"
| "conn_proc E (LocEngAtlOpenSuccess sm apn bearer) S = AtlOpenSuccess_proc E sm apn bearer S"
| "conn_proc E (LocEngAtlClosed sm) S = on_nif sm (onRsrcEvent E RSRC_RELEASED) S"
| "conn_proc E (LocEngAtlOpenFailed sm) S = on_nif sm (onRsrcEvent E RSRC_DENIED) S"

subsection \<open>Values for the modem\<close>

fun config_proc :: "eng_env \<Rightarrow> config_msg \<Rightarrow> loc_eng \<Rightarrow> loc_eng" where
  "config_proc E (LocEngSetTime t tf unc) S = setTime t tf unc S"
| "config_proc E (LocEngInjectLocation lat lon acc) S = out (Api (InjectPosition lat lon acc)) S"
| "config_proc E (LocEngSetServerIpv4 ip port type) S = out (Api (SetServerIp ip port type)) S"
| "config_proc E (LocEngSetServerUrl url) S = out (Api (SetServerUrl url)) S"
| "config_proc E (LocEngAGlonassProtocol p) S = out (Api (SetAGLONASSProtocol p)) S"
| "config_proc E (LocEngSuplVer v) S = out (Api (SetSUPLVersion v)) S"
| "config_proc E LocEngSuplMode S = out (Api (SetCapabilitiesUlp (getCarrierCapabilities (conf S)))) S"
| "config_proc E (LocEngLppConfig p) S = out (Api (SetLPPConfig p)) S"
| "config_proc E (LocEngSensorControlConfig d p) S = out (Api (SetSensorControlConfig d p)) S"
| "config_proc E (LocEngSensorProperties ps) S = out (Api (SetSensorProperties ps)) S"
| "config_proc E (LocEngSensorPerfControlConfig ps) S = out (Api (SetSensorPerfControlConfig ps)) S"
| "config_proc E (LocEngExtPowerConfig c) S = out (Api (SetExtPowerConfig c)) S"
| "config_proc E (LocEngEnableData apn enable) S =
    (let S1 = out (Api (EnableData enable)) S in case apn of None \<Rightarrow> S1 | Some a \<Rightarrow> out (Api (SetAPN a)) S1)"
| "config_proc E LocEngSetCapabilities S =
    (if set_capabilities_cb (cbs S) then out (Cb (CbSetCapabilities (conf_num (conf S) CAPABILITIES))) S else S)"
| "config_proc E (LocEngInstallAGpsCert certs slots) S = out (Api (InstallAGpsCert certs slots)) S"
| "config_proc E (LocEngUpdateRegistrationMask event enabled) S = out (Api (UpdateRegistrationMask event enabled)) S"
| "config_proc E LocEngGnssConstellationConfig S =
    (let (r, S1) = api E (Api GnssConstellationConfig) S in
     if r \<noteq> 0 then S1\<lparr>conf := (conf S1)\<lparr>vars := (vars (conf S1))
       (CAPABILITIES := Num (conf_num (conf S1) CAPABILITIES OR GPS_CAPABILITY_MEASUREMENTS))\<rparr>\<rparr> else S1)"
| "config_proc E LocEngRequestXtraServer S = out (Api RequestXtraServer) S"
| "config_proc E (LocEngInjectXtraData d) S = out (Api (SetXtraData d)) S"
| "config_proc E (LocEngSetXtraVersionCheck c) S = setXtraVersionCheck c S"
| "config_proc E (LocEngAdapterGpsLock lock) S = out (Api (SetGpsLock lock)) S"

fun send_all :: "eng_msg list \<Rightarrow> loc_eng \<Rightarrow> loc_eng" where
  "send_all [] S = S"
| "send_all (m # ms) S = send_all ms (sendMsg m S)"

definition sensor_valid :: "cfg_store \<Rightarrow> bool" where
  "sensor_valid M \<longleftrightarrow> flags M GYRO_BIAS_RANDOM_WALK \<or> flags M ACCEL_RANDOM_WALK_SPECTRAL_DENSITY \<or>
    flags M ANGLE_RANDOM_WALK_SPECTRAL_DENSITY \<or> flags M RATE_RANDOM_WALK_SPECTRAL_DENSITY \<or>
    flags M VELOCITY_RANDOM_WALK_SPECTRAL_DENSITY"

definition sensor_properties :: "cfg_store \<Rightarrow> (bool \<times> fl) list" where
  "sensor_properties M = map (\<lambda>a. (flags M a, conf_float M a))
    [GYRO_BIAS_RANDOM_WALK, ACCEL_RANDOM_WALK_SPECTRAL_DENSITY, ANGLE_RANDOM_WALK_SPECTRAL_DENSITY,
     RATE_RANDOM_WALK_SPECTRAL_DENSITY, VELOCITY_RANDOM_WALK_SPECTRAL_DENSITY]"

definition sensor_performance :: "cfg_store \<Rightarrow> 32 word list" where
  "sensor_performance M = map (conf_num M)
    [SENSOR_CONTROL_MODE, SENSOR_ACCEL_SAMPLES_PER_BATCH, SENSOR_ACCEL_BATCHES_PER_SEC, SENSOR_GYRO_SAMPLES_PER_BATCH,
     SENSOR_GYRO_BATCHES_PER_SEC, SENSOR_ACCEL_SAMPLES_PER_BATCH_HIGH, SENSOR_ACCEL_BATCHES_PER_SEC_HIGH,
     SENSOR_GYRO_SAMPLES_PER_BATCH_HIGH, SENSOR_GYRO_BATCHES_PER_SEC_HIGH, SENSOR_ALGORITHM_CONFIG_MASK]"

definition loc_eng_xtra_version_check :: "int \<Rightarrow> loc_eng \<Rightarrow> loc_eng" where
  "loc_eng_xtra_version_check check S = sendMsg (Config (LocEngSetXtraVersionCheck check)) S"

definition loc_eng_reinit :: "loc_eng \<Rightarrow> loc_eng" where
  "loc_eng_reinit S =
    (let M = conf S in
     loc_eng_xtra_version_check (sint (conf_num M XTRA_VERSION_CHECK))
       (send_all (map Config
         ([LocEngGnssConstellationConfig, LocEngSuplVer (conf_num M SUPL_VER), LocEngLppConfig (conf_num M LPP_PROFILE),
           LocEngSensorControlConfig (conf_num M SENSOR_USAGE) (conf_num M SENSOR_PROVIDER),
           LocEngAGlonassProtocol (conf_num M A_GLONASS_POS_PROTOCOL_SELECT)] @
          (if sensor_valid M then [LocEngSensorProperties (sensor_properties M)] else []) @
          [LocEngSensorPerfControlConfig (sensor_performance M), LocEngEnableData None (if agpsStatus S \<noteq> 0 then 1 else 0)])) S))"

text \<open>Servers. \<open>%u\<close> prints the port as an unsigned integer.\<close>

definition server_url :: "string \<Rightarrow> int \<Rightarrow> string" where
  "server_url hostname port = hostname @ '':'' @ show_nat (port mod 2 ^ 32)"

definition resolve_in_addr :: "eng_env \<Rightarrow> string \<Rightarrow> 32 word option" where
  "resolve_in_addr E host = (case gethostbyname E host of Some a \<Rightarrow> Some a | None \<Rightarrow> inet_aton E host)"

definition htonl :: "32 word \<Rightarrow> 32 word" where
  "htonl w = push_bit 24 (w AND 0xFF) OR push_bit 8 (w AND 0xFF00) OR drop_bit 8 (w AND 0xFF0000) OR drop_bit 24 w"

definition loc_eng_set_server :: "eng_env \<Rightarrow> server_type \<Rightarrow> string option \<Rightarrow> int \<Rightarrow> loc_eng \<Rightarrow> (int \<times> loc_eng) mem" where
  "loc_eng_set_server E type hostname port S =
    (if type = LOC_AGPS_SUPL_SERVER then
       (let url = (case hostname of None \<Rightarrow> [] | Some h \<Rightarrow> if map to_lower h = ''none'' then [] else server_url h port)
        in Some (0, if MAX_URL_LEN > length url then sendMsg (Config (LocEngSetServerUrl url)) S else S))
     else (case hostname of
         None \<Rightarrow> None
       | Some h \<Rightarrow>
           (case resolve_in_addr E h of
              None \<Rightarrow> Some (-2, S)
            | Some a \<Rightarrow> Some (0, sendMsg (Config (LocEngSetServerIpv4 (htonl a) port type)) S))))"

definition HOST_BUF_SIZE :: nat where "HOST_BUF_SIZE = 101"

definition save_server :: "string \<Rightarrow> int \<Rightarrow> server_buf" where
  "save_server hostname port = \<lparr>host_set = True, host_buf = take (HOST_BUF_SIZE - 1) hostname, port_buf = port\<rparr>"

definition loc_eng_set_server_proxy :: "eng_env \<Rightarrow> server_type \<Rightarrow> string option \<Rightarrow> int \<Rightarrow> loc_eng \<Rightarrow> (int \<times> loc_eng) mem" where
  "loc_eng_set_server_proxy E type hostname port S =
    (case (case type of
             LOC_AGPS_SUPL_SERVER \<Rightarrow> map_option (\<lambda>h. S\<lparr>supl_host := save_server h port\<rparr>) hostname
           | LOC_AGPS_CDMA_PDE_SERVER \<Rightarrow> map_option (\<lambda>h. S\<lparr>c2k_host := save_server h port\<rparr>) hostname
           | _ \<Rightarrow> Some S) of
       None \<Rightarrow> None
     | Some S1 \<Rightarrow> if adapter S1 then loc_eng_set_server E type hostname port S1 else Some (0, S1))"

definition loc_eng_agps_reinit :: "eng_env \<Rightarrow> loc_eng \<Rightarrow> loc_eng mem" where
  "loc_eng_agps_reinit E S = do {
     S1 \<leftarrow> (if host_set (supl_host S)
            then map_option snd (loc_eng_set_server E LOC_AGPS_SUPL_SERVER (Some (host_buf (supl_host S))) (port_buf (supl_host S)) S) else Some S);
     if host_set (c2k_host S1)
     then map_option snd (loc_eng_set_server E LOC_AGPS_CDMA_PDE_SERVER (Some (host_buf (c2k_host S1))) (port_buf (c2k_host S1)) S1) else Some S1 }"

subsection \<open>The messages\<close>

definition DelAidData_proc :: "16 word \<Rightarrow> loc_eng \<Rightarrow> loc_eng" where
  "DelAidData_proc f S = update_aiding_data_for_deletion (S\<lparr>aiding_data_for_deletion := f\<rparr>)"

definition loc_eng_handle_engine_down :: "loc_eng \<Rightarrow> loc_eng" where
  "loc_eng_handle_engine_down S = loc_eng_report_status GPS_STATUS_ENGINE_OFF (loc_eng_ni_reset_on_engine_restart S)"

definition drop_nif :: "nif \<Rightarrow> loc_eng \<Rightarrow> loc_eng" where
  "drop_nif n S = (case nifs S n of None \<Rightarrow> S | Some m \<Rightarrow> set_nif n (dropAllSubscribers m) S)"

definition loc_eng_handle_engine_up :: "eng_env \<Rightarrow> loc_eng \<Rightarrow> loc_eng mem" where
  "loc_eng_handle_engine_up E S = do {
     let S1 = requestPowerVote (loc_eng_reinit S);
     S2 \<leftarrow> (if agps_status_cb (cbs S1) then loc_eng_agps_reinit E (drop_nif internet_nif (drop_nif agnss_nif S1)) else Some S1);
     Some (if isInSession S2 then snd (loc_eng_start_handler E (setInSession False S2)) else S2) }"

definition DataClientInit_proc :: "eng_env \<Rightarrow> loc_eng \<Rightarrow> loc_eng" where
  "DataClientInit_proc E S =
    (let (r, S1) = api E (Api InitDataServiceClient) S in if r = 0 then set_nif ds_nif (DSStateMachine_new servicerTypeExt) S1 else S1)"

fun control_proc :: "eng_env \<Rightarrow> control_msg \<Rightarrow> loc_eng \<Rightarrow> loc_eng mem" where
  "control_proc E LocEngStartFix S = Some (snd (loc_eng_start_handler E S))"
| "control_proc E LocEngStopFix S = Some (snd (loc_eng_stop_handler E S))"
| "control_proc E (LocEngPositionMode p) S = Some (setPositionMode p S)"
| "control_proc E LocEngGetZpp S = Some (snd (loc_eng_get_zpp_handler E S))"
| "control_proc E (LocEngDelAidData f) S = Some (DelAidData_proc f S)"
| "control_proc E LocEngDown S = Some (loc_eng_handle_engine_down S)"
| "control_proc E LocEngUp S = loc_eng_handle_engine_up E S"
| "control_proc E LocEngInit S = Some (sendMsg (Config LocEngSetCapabilities) (loc_eng_reinit S))"
| "control_proc E LocEngDataClientInit S = Some (DataClientInit_proc E S)"
| "control_proc E LocSetXtraUserAgent S = map_option (\<lambda>a. out (Api (SaveUserAgent a)) S) (user_agent (dev E))"
| "control_proc E (LocEngRequestNi n data) S = Some (loc_eng_ni_request_handler n data (thread_ok E (eng_outs S)) S)"

fun report_proc :: "eng_env \<Rightarrow> report_msg \<Rightarrow> loc_eng \<Rightarrow> loc_eng mem" where
  "report_proc E (LocEngReportPosition L X st tech) S = Some (ReportPosition_proc E L X st tech S)"
| "report_proc E (LocEngReportSv V X) S = ReportSv_proc V X S"
| "report_proc E (LocEngReportStatus status) S = Some (update_aiding_data_for_deletion (loc_eng_report_status status S))"
| "report_proc E (LocEngReportNmea text) S = Some (ReportNmea_proc text S)"
| "report_proc E (LocEngReportXtraServer servers) S = Some (ReportXtraServer_proc servers S)"
| "report_proc E (LocEngReportGpsMeasurement d) S = Some (ReportGpsMeasurement_proc d S)"
| "report_proc E LocEngRequestXtra S = Some (RequestXtra_proc S)"
| "report_proc E LocEngRequestTime S = Some (RequestTime_proc S)"

fun proc :: "eng_env \<Rightarrow> eng_msg \<Rightarrow> loc_eng \<Rightarrow> loc_eng mem" where
  "proc E (Control m) S = control_proc E m S"
| "proc E (Config m) S = Some (config_proc E m S)"
| "proc E (Report m) S = report_proc E m S"
| "proc E (Conn m) S = conn_proc (agps_E E) m S"

subsection \<open>Calls of the framework\<close>

text \<open>\<open>loc_eng_init\<close>: the callbacks, with that for NMEA, and the events to register for.\<close>

definition LOC_API_ADAPTER_BIT_NMEA_1HZ_REPORT :: "32 word" where "LOC_API_ADAPTER_BIT_NMEA_1HZ_REPORT = 4"
definition LOC_API_ADAPTER_BIT_GNSS_MEASUREMENT :: "32 word" where "LOC_API_ADAPTER_BIT_GNSS_MEASUREMENT = 0x1000000"
definition NMEA_PROVIDER_AP :: "32 word" where "NMEA_PROVIDER_AP = 0"

definition no_mode :: LocPosMode where
  "no_mode = \<lparr>mode = LOC_POSITION_MODE_INVALID, recurrence = GPS_POSITION_RECURRENCE_PERIODIC, min_interval = 0,
    preferred_accuracy = 0, preferred_time = 0\<rparr>"

text \<open>The mode of a new proxy.\<close>

definition ulp_mode :: LocPosMode where
  "ulp_mode = \<lparr>mode = LOC_POSITION_MODE_INVALID, recurrence = GPS_POSITION_RECURRENCE_PERIODIC,
    min_interval = MIN_POSSIBLE_FIX_INTERVAL, preferred_accuracy = 50, preferred_time = 120000\<rparr>"

definition LocEngAdapter_new :: "32 word \<Rightarrow> LocEngAdapter" where
  "LocEngAdapter_new event =
    \<lparr>mEvtMask = event, mFixCriteria = no_mode, mNavigating = False, mPowerVote = 0, mSupportsAgpsRequests = False,
     mSupportsPositionInjection = False, mSupportsTimeInjection = False, mPosMode = ulp_mode, mFixSet = False\<rparr>"

definition no_server :: server_buf where "no_server = \<lparr>host_set = False, host_buf = [], port_buf = 0\<rparr>"

definition no_eng :: eng where
  "no_eng = \<lparr>nmea_cb = False, standalone = False, gps_used_mask = 0, glo_used_mask = 0, c_pdop = Fl False 0, c_hdop = Fl False 0,
    c_vdop = Fl False 0, sent = []\<rparr>"

definition no_callbacks :: eng_callbacks where
  "no_callbacks = \<lparr>location_cb = False, sv_status_cb = False, status_cb = False, set_capabilities_cb = False, request_utc_time_cb = False,
    gps_measurement_cb = False, agps_status_cb = False, download_request_cb = False, report_xtra_server_cb = False\<rparr>"

text \<open>The \<open>memset\<close>; the threads of the requests and the logs are not part of it.\<close>

definition memset_eng :: "loc_eng \<Rightarrow> loc_eng" where
  "memset_eng S = S\<lparr>session := blank_session, sessionEs := blank_session, reqIDCounter := 0, ni_notify_cb := False,
     mute_session_state := MUTE_SESS_NONE, cbs := no_callbacks, intermediateFix := 0, nifs := (\<lambda>_. None), engine_status := GPS_STATUS_NONE,
     fix_session_status := GPS_STATUS_NONE, aiding_data_for_deletion := 0, generateNmea := False,
     nmea := no_eng\<lparr>sent := sent (nmea S)\<rparr>, supl_host := no_server, c2k_host := no_server\<rparr>"

definition loc_eng_init :: "(eng_callbacks \<times> bool) option \<Rightarrow> 32 word \<Rightarrow> loc_eng \<Rightarrow> int \<times> loc_eng" where
  "loc_eng_init callbacks event S =
    (case callbacks of
       None \<Rightarrow> (-1, S)
     | Some (c, nmea_c) \<Rightarrow>
         if event = 0 then (-1, S)
         else if adapter S then (0, S)
         else (let S1 = memset_eng S;
                   own = event AND LOC_API_ADAPTER_BIT_NMEA_1HZ_REPORT \<noteq> 0 \<and> conf_num (conf S) NMEA_PROVIDER = NMEA_PROVIDER_AP;
                   e = (if own then event XOR LOC_API_ADAPTER_BIT_NMEA_1HZ_REPORT else event);
                   S2 = S1\<lparr>cbs := no_callbacks\<lparr>location_cb := location_cb c, sv_status_cb := sv_status_cb c, status_cb := status_cb c,
                        set_capabilities_cb := set_capabilities_cb c, request_utc_time_cb := request_utc_time_cb c\<rparr>,
                        nmea := (nmea S1)\<lparr>nmea_cb := nmea_c\<rparr>,
                        intermediateFix := ucast (conf_num (conf S) INTERMEDIATE_POS),
                        generateNmea := own, adapter := True, adp := LocEngAdapter_new e\<rparr>
               in (0, sendMsg (Control LocEngInit) S2)))"

definition loc_eng_start :: "loc_eng \<Rightarrow> int \<times> loc_eng" where
  "loc_eng_start S =
    (if \<not> adapter S then (-1, S)
     else (let (S1, taken) = sendStartFix S in (0, if \<not> taken then sendMsg (Control LocEngStartFix) S1 else S1)))"

definition loc_eng_stop :: "loc_eng \<Rightarrow> int \<times> loc_eng" where
  "loc_eng_stop S =
    (if \<not> adapter S then (-1, S)
     else (let (S1, taken) = sendStopFix S in (0, if \<not> taken then sendMsg (Control LocEngStopFix) S1 else S1)))"

definition loc_eng_cleanup :: "loc_eng \<Rightarrow> loc_eng" where
  "loc_eng_cleanup S = (if \<not> adapter S then S else if isInSession S then snd (loc_eng_stop S) else S)"

definition loc_eng_set_position_mode :: "LocPosMode \<Rightarrow> loc_eng \<Rightarrow> int \<times> loc_eng" where
  "loc_eng_set_position_mode params S =
    (if \<not> adapter S then (-1, S)
     else (let p = (if conf_num (conf S) CAPABILITIES AND GPS_CAPABILITY_MSB = 0 \<and> conf_num (conf S) CAPABILITIES AND GPS_CAPABILITY_MSA = 0 \<and>
                       mode params \<noteq> LOC_POSITION_MODE_STANDALONE
                    then params\<lparr>mode := LOC_POSITION_MODE_STANDALONE\<rparr> else params);
               (S1, taken) = sendFixMode p S
           in (0, if \<not> taken then sendMsg (Control (LocEngPositionMode p)) S1 else S1)))"

definition loc_eng_inject_time :: "int \<Rightarrow> int \<Rightarrow> int \<Rightarrow> loc_eng \<Rightarrow> int \<times> loc_eng" where
  "loc_eng_inject_time time timeReference uncertainty S =
    (if \<not> adapter S then (-1, S) else (0, sendMsg (Config (LocEngSetTime time timeReference uncertainty)) S))"

definition loc_eng_inject_location :: "fl \<Rightarrow> fl \<Rightarrow> fl \<Rightarrow> loc_eng \<Rightarrow> int \<times> loc_eng" where
  "loc_eng_inject_location lat lon acc S =
    (if \<not> adapter S then (-1, S)
     else (0, if mSupportsPositionInjection (adp S) then sendMsg (Config (LocEngInjectLocation lat lon acc)) S else S))"

definition loc_eng_delete_aiding_data :: "16 word \<Rightarrow> loc_eng \<Rightarrow> loc_eng" where
  "loc_eng_delete_aiding_data f S = (if \<not> adapter S then S else sendMsg (Control (LocEngDelAidData f)) S)"

text \<open>\<open>callbacks\<close> says whether there are callbacks, and whether the one for the status is there.\<close>

definition loc_eng_agps_init :: "eng_env \<Rightarrow> bool option \<Rightarrow> loc_eng \<Rightarrow> loc_eng mem" where
  "loc_eng_agps_init E callbacks S =
    (if \<not> adapter S \<or> agps_status_cb (cbs S) then Some S
     else (case callbacks of
         None \<Rightarrow> Some S
       | Some c \<Rightarrow>
           (let S1 = S\<lparr>cbs := (cbs S)\<lparr>agps_status_cb := c\<rparr>\<rparr>;
                S2 = set_nif wifi_nif (AgpsStateMachine_new servicerTypeAgps AGPS_TYPE_WIFI True)
                       (set_nif internet_nif (AgpsStateMachine_new servicerTypeAgps AGPS_TYPE_WWAN_ANY False) S1)
            in if conf_num (conf S2) CAPABILITIES AND GPS_CAPABILITY_MSA \<noteq> 0 \<or> conf_num (conf S2) CAPABILITIES AND GPS_CAPABILITY_MSB \<noteq> 0
               then (let S3 = set_nif agnss_nif (AgpsStateMachine_new servicerTypeAgps AGPS_TYPE_SUPL False) S2;
                         S4 = (if mSupportsAgpsRequests (adp S3) then
                                 out (Api DmnConnLaunch) ((if conf_num (conf S3) USE_EMERGENCY_PDN_FOR_EMERGENCY_SUPL \<noteq> 0
                                   then sendMsg (Control LocEngDataClientInit) S3 else S3)\<lparr>loc_api_handle := True\<rparr>)
                               else S3)
                     in loc_eng_agps_reinit E S4)
               else Some S2)))"

definition loc_eng_agps_open :: "int \<Rightarrow> string option \<Rightarrow> int \<Rightarrow> loc_eng \<Rightarrow> int \<times> loc_eng" where
  "loc_eng_agps_open agpsType apn bearerType S =
    (if \<not> (adapter S \<and> agps_status_cb (cbs S)) then (-1, S)
     else (case apn of
         None \<Rightarrow> (0, S)
       | Some a \<Rightarrow> (0, sendMsg (Conn (LocEngAtlOpenSuccess (getAgpsStateMachine S agpsType) (take MAX_APN_LEN a) bearerType)) S)))"

definition loc_eng_agps_closed :: "int \<Rightarrow> loc_eng \<Rightarrow> int \<times> loc_eng" where
  "loc_eng_agps_closed agpsType S =
    (if \<not> (adapter S \<and> agps_status_cb (cbs S)) then (-1, S)
     else (0, sendMsg (Conn (LocEngAtlClosed (getAgpsStateMachine S agpsType))) S))"

definition loc_eng_agps_open_failed :: "int \<Rightarrow> loc_eng \<Rightarrow> int \<times> loc_eng" where
  "loc_eng_agps_open_failed agpsType S =
    (if \<not> (adapter S \<and> agps_status_cb (cbs S)) then (-1, S)
     else (0, sendMsg (Conn (LocEngAtlOpenFailed (getAgpsStateMachine S agpsType))) S))"

definition loc_eng_agps_ril_update_network_availability :: "int \<Rightarrow> string option \<Rightarrow> loc_eng \<Rightarrow> loc_eng" where
  "loc_eng_agps_ril_update_network_availability available apn S =
    (let S1 = S\<lparr>agpsStatus := word_of_int available\<rparr> in
     if \<not> adapter S1 then S1
     else (case apn of None \<Rightarrow> S1 | Some a \<Rightarrow> sendMsg (Config (LocEngEnableData (Some (take MAX_APN_LEN a)) available)) S1))"

text \<open>The number of slots: the lowest bit is cleared until none is left.\<close>

function slot_count :: "32 word \<Rightarrow> nat \<Rightarrow> nat" where
  "slot_count w n = (if w = 0 then n else slot_count (w AND (w - 1)) (n + 1))"
  by pat_completeness auto
termination
proof (relation "measure (\<lambda>(w, n). unat w)")
  fix w :: "32 word" and n :: nat
  assume "w \<noteq> 0"
  then have "w - 1 < w" by (simp add: word_less_nat_alt unat_minus_one unat_gt_0)
  moreover have "w AND (w - 1) \<le> w - 1" by (rule word_and_le1)
  ultimately show "((w AND (w - 1), n + 1), w, n) \<in> measure (\<lambda>(w, n). unat w)" by (simp add: word_less_nat_alt word_le_nat_alt)
qed simp

declare slot_count.simps [simp del]

definition AGPS_CERTIFICATE_MAX_LENGTH :: nat where "AGPS_CERTIFICATE_MAX_LENGTH = 2000"
definition AGPS_CERTIFICATE_OPERATION_SUCCESS :: int where "AGPS_CERTIFICATE_OPERATION_SUCCESS = 0"
definition AGPS_CERTIFICATE_ERROR_GENERIC :: int where "AGPS_CERTIFICATE_ERROR_GENERIC = -100"
definition AGPS_CERTIFICATE_ERROR_TOO_MANY_CERTIFICATES :: int where "AGPS_CERTIFICATE_ERROR_TOO_MANY_CERTIFICATES = -101"

definition loc_eng_agps_install_certificates :: "string list \<Rightarrow> loc_eng \<Rightarrow> int \<times> loc_eng" where
  "loc_eng_agps_install_certificates certificates S =
    (let slotBitMask = conf_num (conf S) AGPS_CERT_WRITABLE_MASK in
     if length certificates = 0 then (AGPS_CERTIFICATE_OPERATION_SUCCESS, S)
     else if \<not> adapter S then (AGPS_CERTIFICATE_ERROR_GENERIC, S)
     else if slot_count slotBitMask 0 < length certificates then (AGPS_CERTIFICATE_ERROR_TOO_MANY_CERTIFICATES, S)
     else if list_ex (\<lambda>c. length c > AGPS_CERTIFICATE_MAX_LENGTH) certificates then (AGPS_CERTIFICATE_ERROR_GENERIC, S)
     else (AGPS_CERTIFICATE_OPERATION_SUCCESS, sendMsg (Config (LocEngInstallAGpsCert certificates slotBitMask)) S))"

text \<open>An update of the configuration: everything but five parameters is restored afterwards.\<close>

definition updatable :: "addr list" where
  "updatable = [SUPL_VER, LPP_PROFILE, A_GLONASS_POS_PROTOCOL_SELECT, SUPL_MODE, GPS_LOCK]"

definition gps_conf_vars :: "addr list" where
  "gps_conf_vars = [GPS_LOCK, SUPL_VER, LPP_PROFILE, A_GLONASS_POS_PROTOCOL_SELECT, AGPS_CERT_WRITABLE_MASK, SUPL_MODE, INTERMEDIATE_POS,
     ACCURACY_THRES, NMEA_PROVIDER, CAPABILITIES, XTRA_VERSION_CHECK, LONGTERM_PSDS_SERVER_1, LONGTERM_PSDS_SERVER_2,
     LONGTERM_PSDS_SERVER_3, USE_EMERGENCY_PDN_FOR_EMERGENCY_SUPL]"

definition conf_changes :: "cfg_store \<Rightarrow> cfg_store \<Rightarrow> config_msg list" where
  "conf_changes old M =
    (if conf_num old SUPL_VER \<noteq> conf_num M SUPL_VER then [LocEngSuplVer (conf_num M SUPL_VER)] else []) @
    (if conf_num old LPP_PROFILE \<noteq> conf_num M LPP_PROFILE then [LocEngLppConfig (conf_num M LPP_PROFILE)] else []) @
    (if conf_num old A_GLONASS_POS_PROTOCOL_SELECT \<noteq> conf_num M A_GLONASS_POS_PROTOCOL_SELECT
     then [LocEngAGlonassProtocol (conf_num M A_GLONASS_POS_PROTOCOL_SELECT)] else []) @
    (if conf_num old SUPL_MODE \<noteq> conf_num M SUPL_MODE then [LocEngSuplMode] else [])"

definition loc_eng_configuration_update :: "string option \<Rightarrow> int \<Rightarrow> loc_eng \<Rightarrow> loc_eng mem" where
  "loc_eng_configuration_update config_data len S =
    (if config_data \<noteq> None \<and> len > 0 then
       (case loc_update_conf config_data len (Some gps_conf_table) (conf S) of
          None \<Rightarrow> None
        | Some (M, r) \<Rightarrow>
            (let S1 = S\<lparr>conf := M\<rparr>;
                 S2 = (if adapter S1 then send_all (map Config (conf_changes (conf S) M)) S1 else S1)
             in Some (S2\<lparr>conf := M\<lparr>vars := (\<lambda>a. if a \<in> set gps_conf_vars \<and> a \<notin> set updatable then vars (conf S) a else vars M a)\<rparr>\<rparr>)))
     else Some S)"

definition loc_eng_read_config :: "string option \<Rightarrow> string option \<Rightarrow> loc_eng \<Rightarrow> loc_eng mem" where
  "loc_eng_read_config gps_file sap_file S =
    (if \<not> configAlreadyRead S then do {
       M1 \<leftarrow> loc_read_conf gps_file gps_conf_table (loc_default_parameters (conf S));
       M2 \<leftarrow> loc_read_conf sap_file sap_conf_table M1;
       Some (S\<lparr>conf := M2, configAlreadyRead := True\<rparr>) }
     else Some S)"

definition GPS_MEASUREMENT_OPERATION_SUCCESS :: int where "GPS_MEASUREMENT_OPERATION_SUCCESS = 0"
definition GPS_MEASUREMENT_ERROR_ALREADY_INIT :: int where "GPS_MEASUREMENT_ERROR_ALREADY_INIT = -100"
definition GPS_MEASUREMENT_ERROR_GENERIC :: int where "GPS_MEASUREMENT_ERROR_GENERIC = -101"

definition loc_eng_gps_measurement_init :: "bool option \<Rightarrow> loc_eng \<Rightarrow> int \<times> loc_eng" where
  "loc_eng_gps_measurement_init callbacks S =
    (if gps_measurement_cb (cbs S) then (GPS_MEASUREMENT_ERROR_ALREADY_INIT, S)
     else (case callbacks of
         None \<Rightarrow> (GPS_MEASUREMENT_ERROR_GENERIC, S)
       | Some c \<Rightarrow>
           if \<not> adapter S then (GPS_MEASUREMENT_ERROR_GENERIC, S)
           else (GPS_MEASUREMENT_OPERATION_SUCCESS,
             (sendMsg (Config (LocEngUpdateRegistrationMask LOC_API_ADAPTER_BIT_GNSS_MEASUREMENT True)) S)
               \<lparr>cbs := (cbs S)\<lparr>gps_measurement_cb := c\<rparr>\<rparr>)))"

definition loc_eng_gps_measurement_close :: "loc_eng \<Rightarrow> loc_eng" where
  "loc_eng_gps_measurement_close S =
    (if \<not> adapter S then S
     else (sendMsg (Config (LocEngUpdateRegistrationMask LOC_API_ADAPTER_BIT_GNSS_MEASUREMENT False)) S)
       \<lparr>cbs := (cbs S)\<lparr>gps_measurement_cb := False\<rparr>\<rparr>)"

definition loc_eng_xtra_init :: "(bool \<times> bool) option \<Rightarrow> loc_eng \<Rightarrow> int \<times> loc_eng" where
  "loc_eng_xtra_init callbacks S =
    (case callbacks of
       None \<Rightarrow> (-1, S)
     | Some (d, r) \<Rightarrow> (0, S\<lparr>cbs := (cbs S)\<lparr>download_request_cb := d, report_xtra_server_cb := r\<rparr>\<rparr>))"

definition loc_eng_xtra_inject_data :: "string \<Rightarrow> loc_eng \<Rightarrow> loc_eng mem" where
  "loc_eng_xtra_inject_data d S = (if \<not> adapter S then None else Some (sendMsg (Config (LocEngInjectXtraData d)) S))"

definition loc_eng_xtra_request_server :: "loc_eng \<Rightarrow> loc_eng mem" where
  "loc_eng_xtra_request_server S = (if \<not> adapter S then None else Some (sendMsg (Config LocEngRequestXtraServer) S))"

subsection \<open>What the modem and the daemons report\<close>

datatype modem_event =
    reportPosition ulp_location location_extended sess_status "32 word"
  | reportSv sv_status location_extended
  | reportStatus gps_status
  | reportNmea string
  | reportGpsMeasurementData nat
  | reportXtraServer string string string nat
  | requestXtraData
  | requestTime
  | requestATL "32 word" int
  | releaseATL "32 word"
  | requestNiNotify ni_notification "nat option"
  | requestSuplES "32 word"
  | reportDataCallOpened
  | reportDataCallClosed
  | handleEngineDownEvent
  | handleEngineUpEvent

text \<open>Events that the adapter handles only if it supports AGPS requests; the result says whether it did.\<close>

definition if_agps :: "eng_msg \<Rightarrow> loc_eng \<Rightarrow> loc_eng \<times> bool" where
  "if_agps m S = (if mSupportsAgpsRequests (adp S) then (sendMsg m S, True) else (S, False))"

fun modem_report :: "modem_event \<Rightarrow> loc_eng \<Rightarrow> loc_eng \<times> bool" where
  "modem_report (reportPosition L X st tech) S = (sendMsg (Report (LocEngReportPosition L X st tech)) S, True)"
| "modem_report (reportSv V X) S = (sendMsg (Report (LocEngReportSv V X)) S, True)"
| "modem_report (reportStatus status) S = (sendMsg (Report (LocEngReportStatus status)) S, True)"
| "modem_report (reportNmea text) S = (sendMsg (Report (LocEngReportNmea text)) S, True)"
| "modem_report (reportGpsMeasurementData d) S = (sendMsg (Report (LocEngReportGpsMeasurement d)) S, True)"
| "modem_report (reportXtraServer url1 url2 url3 maxlength) S =
    if_agps (Report (LocEngReportXtraServer (xtra_servers (conf S) url1 url2 url3 maxlength))) S"
| "modem_report requestXtraData S = if_agps (Report LocEngRequestXtra) S"
| "modem_report requestTime S = if_agps (Report LocEngRequestTime) S"
| "modem_report (requestATL connHandle type) S = if_agps (Conn (LocEngRequestATL connHandle type)) S"
| "modem_report (releaseATL connHandle) S = if_agps (Conn (LocEngReleaseATL connHandle)) S"
| "modem_report (requestNiNotify n data) S = if_agps (Control (LocEngRequestNi (n\<lparr>timeout := LOC_NI_NO_RESPONSE_TIME\<rparr>) data)) S"
| "modem_report (requestSuplES connHandle) S = if_agps (Conn (LocEngRequestSuplEs connHandle)) S"
| "modem_report reportDataCallOpened S = if_agps (Conn LocEngSuplEsOpened) S"
| "modem_report reportDataCallClosed S = if_agps (Conn LocEngSuplEsClosed) S"
| "modem_report handleEngineDownEvent S = (sendMsg (Control LocEngDown) S, True)"
| "modem_report handleEngineUpEvent S = (sendMsg (Control LocEngUp) S, True)"

text \<open>
  A message of a daemon, \<open>loc_eng_dmn_conn_handler.cpp\<close>: the type of the interface, the sender, addresses, and a network with its
  password. A request needs the handle of the engine; a release uses it in any case.
\<close>

record if_request =
  if_type :: int
  sender_id :: int
  ipv4_addr :: "32 word"
  ipv6_addr :: "8 word list"
  if_ssid :: string
  if_password :: string

definition AGPS_TYPE_ANY :: int where "AGPS_TYPE_ANY = 0"

definition if_request_type :: "if_request \<Rightarrow> int option" where
  "if_request_type r = (if if_type r = 0 then Some AGPS_TYPE_SUPL else if if_type r = 1 then Some AGPS_TYPE_WIFI
    else if if_type r = 2 then Some AGPS_TYPE_ANY else None)"

definition if_message :: "if_request \<Rightarrow> int \<Rightarrow> bool \<Rightarrow> agps_msg option" where
  "if_message r type isReq =
    (if 0 \<le> sender_id r \<and> sender_id r \<le> 2
     then Some (LocEngReqRelWifi type (word_of_int (sender_id r)) (Some (strlcpy_ssid (if_ssid r))) (Some (strlcpy_ssid (if_password r))) isReq)
     else if sender_id r = 3 then Some (LocEngReqRelBIT type (ipv4_addr r) (Some (ipv6_addr r)) isReq) else None)"

definition if_request_handler :: "if_request \<Rightarrow> loc_eng \<Rightarrow> int \<times> loc_eng" where
  "if_request_handler r S =
    (if \<not> loc_api_handle S then (1, S)
     else (case if_request_type r of
         None \<Rightarrow> (-1, S)
       | Some type \<Rightarrow> (case if_message r type True of None \<Rightarrow> (-1, S) | Some m \<Rightarrow> (0, sendMsg (Conn m) S))))"

definition if_release_handler :: "if_request \<Rightarrow> loc_eng \<Rightarrow> (int \<times> loc_eng) mem" where
  "if_release_handler r S =
    (case if_request_type r of
       None \<Rightarrow> Some (-1, S)
     | Some type \<Rightarrow>
         (case if_message r type False of
            None \<Rightarrow> Some (-1, S)
          | Some m \<Rightarrow> if loc_api_handle S then Some (0, sendMsg (Conn m) S) else None))"

end
