(* ===== verification/Loc_Hal.thy ===== *)
theory Loc_Hal
  imports Loc_Eng
begin

text \<open>
  The GPS interface of the device, \<open>loc.cpp\<close>: each function of its tables as a call of the engine, the callbacks it passes on, and the
  detection of the target in \<open>loc_target.cpp\<close>. The system is the engine together with the calls of the framework, the reports of the
  modem, the messages of the daemons, and the threads of the network-initiated requests, in any order.
\<close>

unbundle bit_operations_syntax

subsection \<open>The target\<close>

definition GNSS_NONE :: "32 word" where "GNSS_NONE = 0"
definition GNSS_MSM :: "32 word" where "GNSS_MSM = 1"
definition GNSS_GSS :: "32 word" where "GNSS_GSS = 2"
definition GNSS_MDM :: "32 word" where "GNSS_MDM = 3"
definition GNSS_QCA1530 :: "32 word" where "GNSS_QCA1530 = 4"
definition GNSS_AUTO :: "32 word" where "GNSS_AUTO = 5"
definition GNSS_UNKNOWN :: "32 word" where "GNSS_UNKNOWN = 6"

definition TARGET_SET :: "32 word \<Rightarrow> 32 word \<Rightarrow> 32 word" where
  "TARGET_SET gnss ssc = push_bit 1 gnss OR ssc"

definition getTargetGnssType :: "32 word \<Rightarrow> 32 word" where
  "getTargetGnssType target = drop_bit 1 target"

text \<open>The value of the property at each attempt, or that it cannot be read.\<close>

definition QCA1530_DETECT_TIMEOUT :: nat where "QCA1530_DETECT_TIMEOUT = 15"

fun qca1530_loop :: "(nat \<Rightarrow> string option) \<Rightarrow> nat \<Rightarrow> nat \<Rightarrow> bool" where
  "qca1530_loop property_get i 0 = False"
| "qca1530_loop property_get i (Suc n) =
    (case property_get i of
       None \<Rightarrow> False
     | Some v \<Rightarrow> if v = ''yes'' then True else if v = ''detect'' then qca1530_loop property_get (i + 1) n else False)"

definition is_qca1530 :: "(nat \<Rightarrow> string option) \<Rightarrow> bool" where
  "is_qca1530 property_get = qca1530_loop property_get 0 QCA1530_DETECT_TIMEOUT"

text \<open>A line that is an identifier, up to its end.\<close>

definition is_line :: "string \<Rightarrow> string \<Rightarrow> bool" where
  "is_line s line \<longleftrightarrow> take (length s) line = s \<and>
    (drop (length s) line = [] \<or> hd (drop (length s) line) = CHR 0x0A \<or> hd (drop (length s) line) = CHR 0x0D)"

text \<open>What is read of the system; \<open>mdm_opens\<close> says whether the device of an external modem can be opened.\<close>

record target_files =
  qca_property :: "nat \<Rightarrow> string option"
  baseband :: string
  hw_platform :: string
  soc_id :: string
  mdm_opens :: bool

definition loc_get_target :: "target_files \<Rightarrow> 32 word" where
  "loc_get_target F =
    (if is_qca1530 (qca_property F) then TARGET_SET GNSS_QCA1530 0
     else if take 4 (baseband F) = ''auto'' then TARGET_SET GNSS_AUTO 0
     else if take 3 (baseband F) = ''apq'' then if is_line ''130'' (soc_id F) then TARGET_SET GNSS_NONE 0 else TARGET_SET GNSS_GSS 0
     else if is_line ''Liquid'' (hw_platform F) \<or> is_line ''Surf'' (hw_platform F) \<or> is_line ''MTP'' (hw_platform F)
     then if mdm_opens F then TARGET_SET GNSS_MDM 1 else - 1
     else if is_line ''142'' (soc_id F) \<or> is_line ''116'' (soc_id F) then TARGET_SET GNSS_MSM 0
     else TARGET_SET GNSS_UNKNOWN 0)"

subsection \<open>The interface\<close>

text \<open>\<open>eng\<close> is the engine; the two callbacks are global variables, which the cleanup clears.\<close>

record loc_hal =
  loc_afw_data :: loc_eng
  gps_loc_cb :: bool
  gps_sv_cb :: bool
  sGnssType :: "32 word"

text \<open>The proxy of the location services, a proprietary library, and the target.\<close>

record hal_env =
  eng_E :: eng_env
  hasAgpsExtendedCapabilities :: bool
  hasCPIExtendedCapabilities :: bool
  target :: "32 word"
  gps_conf_file :: "string option"
  sap_conf_file :: "string option"

definition on_eng :: "(loc_eng \<Rightarrow> loc_eng) \<Rightarrow> loc_hal \<Rightarrow> loc_hal" where
  "on_eng f H = H\<lparr>loc_afw_data := f (loc_afw_data H)\<rparr>"

definition on_eng_mem :: "(loc_eng \<Rightarrow> loc_eng mem) \<Rightarrow> loc_hal \<Rightarrow> loc_hal mem" where
  "on_eng_mem f H = map_option (\<lambda>S. H\<lparr>loc_afw_data := S\<rparr>) (f (loc_afw_data H))"

definition without_ms :: "loc_eng \<Rightarrow> loc_eng" where
  "without_ms S = S\<lparr>conf := (conf S)\<lparr>vars := (vars (conf S))
     (CAPABILITIES := Num (conf_num (conf S) CAPABILITIES AND NOT (GPS_CAPABILITY_MSA OR GPS_CAPABILITY_MSB)))\<rparr>\<rparr>"

text \<open>The interface, or NULL on a target without a receiver.\<close>

definition get_gps_interface :: "hal_env \<Rightarrow> loc_hal \<Rightarrow> (loc_hal \<times> bool) mem" where
  "get_gps_interface E H = do {
     H1 \<leftarrow> on_eng_mem (loc_eng_read_config (gps_conf_file E) (sap_conf_file E)) H;
     let H2 = H1\<lparr>sGnssType := getTargetGnssType (target E)\<rparr>;
     Some (if sGnssType H2 \<in> {GNSS_GSS, GNSS_AUTO, GNSS_QCA1530} then (on_eng without_ms H2, True)
           else if sGnssType H2 = GNSS_NONE then (H2, False) else (H2, True)) }"

record gps_callbacks =
  cb_location :: bool
  cb_status :: bool
  cb_sv_status :: bool
  cb_nmea :: bool
  cb_set_capabilities :: bool
  cb_request_utc_time :: bool

text \<open>Positions, satellites, servers, assistance data, calls of the interface, status, NMEA and network-initiated requests.\<close>

definition loc_init_events :: "32 word" where
  "loc_init_events = 0x1 OR 0x2 OR 0x40 OR 0x20 OR 0x80 OR 0x100 OR LOC_API_ADAPTER_BIT_NMEA_1HZ_REPORT OR 0x10"

definition set_supports :: "hal_env \<Rightarrow> loc_eng \<Rightarrow> loc_eng" where
  "set_supports E S = set_adp (\<lambda>A. A\<lparr>mSupportsAgpsRequests := \<not> hasAgpsExtendedCapabilities E,
     mSupportsPositionInjection := \<not> hasCPIExtendedCapabilities E, mSupportsTimeInjection := \<not> hasCPIExtendedCapabilities E\<rparr>) S"

definition loc_init :: "hal_env \<Rightarrow> gps_callbacks option \<Rightarrow> loc_hal \<Rightarrow> int \<times> loc_hal" where
  "loc_init E callbacks H =
    (case callbacks of
       None \<Rightarrow> (-1, H)
     | Some c \<Rightarrow>
         (let clientCallbacks = no_callbacks\<lparr>location_cb := True, sv_status_cb := True, status_cb := cb_status c,
                set_capabilities_cb := cb_set_capabilities c, request_utc_time_cb := cb_request_utc_time c\<rparr>;
              (retVal, S1) = loc_eng_init (Some (clientCallbacks, cb_nmea c)) loc_init_events (loc_afw_data H);
              S2 = sendMsg (Config (LocEngAdapterGpsLock 0)) (set_supports E S1);
              S3 = sendMsg (Control LocSetXtraUserAgent) (out (Api (RequestUlp (getCarrierCapabilities (conf S2)))) S2);
              S4 = (if retVal \<noteq> 0 then S3 else setPowerVote True (setPowerVoteRight (target E = TARGET_SET GNSS_QCA1530 0) S3))
          in (retVal, H\<lparr>loc_afw_data := S4, gps_loc_cb := cb_location c, gps_sv_cb := cb_sv_status c\<rparr>)))"

definition loc_cleanup :: "loc_hal \<Rightarrow> loc_hal mem" where
  "loc_cleanup H =
    (if \<not> adapter (loc_afw_data H) then None
     else Some ((on_eng (\<lambda>S. loc_eng_cleanup (sendMsg (Config (LocEngAdapterGpsLock (conf_num (conf S) GPS_LOCK))) S)) H)
       \<lparr>gps_loc_cb := False, gps_sv_cb := False\<rparr>))"

datatype gps_position_mode = GPS_POSITION_MODE_STANDALONE | GPS_POSITION_MODE_MS_BASED | GPS_POSITION_MODE_MS_ASSISTED

definition loc_set_position_mode ::
  "gps_position_mode \<Rightarrow> position_recurrence \<Rightarrow> 32 word \<Rightarrow> 32 word \<Rightarrow> 32 word \<Rightarrow> loc_hal \<Rightarrow> int \<times> loc_hal" where
  "loc_set_position_mode m recr min_int acc time H =
    (let locMode = (case m of GPS_POSITION_MODE_MS_BASED \<Rightarrow> LOC_POSITION_MODE_MS_BASED
           | GPS_POSITION_MODE_MS_ASSISTED \<Rightarrow> LOC_POSITION_MODE_MS_ASSISTED | _ \<Rightarrow> LOC_POSITION_MODE_STANDALONE);
         (ret_val, S) = loc_eng_set_position_mode (LocPosMode_new locMode recr min_int acc time) (loc_afw_data H)
     in (ret_val, H\<lparr>loc_afw_data := S\<rparr>))"

definition AGPS_APN_BEARER_IPV4 :: int where "AGPS_APN_BEARER_IPV4 = 0"
definition AGPS_APN_BEARER_IPV6 :: int where "AGPS_APN_BEARER_IPV6 = 1"
definition AGPS_APN_BEARER_IPV4V6 :: int where "AGPS_APN_BEARER_IPV4V6 = 2"

definition loc_agps_open :: "string option \<Rightarrow> loc_eng \<Rightarrow> int \<times> loc_eng" where
  "loc_agps_open apn = loc_eng_agps_open AGPS_TYPE_SUPL apn AGPS_APN_BEARER_IPV4"

datatype apn_ip_type = APN_IP_INVALID | APN_IP_IPV4 | APN_IP_IPV6 | APN_IP_IPV4V6

definition loc_agps_open_with_apniptype :: "string option \<Rightarrow> apn_ip_type \<Rightarrow> loc_eng \<Rightarrow> int \<times> loc_eng" where
  "loc_agps_open_with_apniptype apn apnIpType =
    loc_eng_agps_open AGPS_TYPE_SUPL apn (case apnIpType of APN_IP_IPV6 \<Rightarrow> AGPS_APN_BEARER_IPV6
      | APN_IP_IPV4V6 \<Rightarrow> AGPS_APN_BEARER_IPV4V6 | _ \<Rightarrow> AGPS_APN_BEARER_IPV4)"

definition loc_agps_closed :: "loc_eng \<Rightarrow> int \<times> loc_eng" where
  "loc_agps_closed = loc_eng_agps_closed AGPS_TYPE_SUPL"

definition loc_agps_open_failed :: "loc_eng \<Rightarrow> int \<times> loc_eng" where
  "loc_agps_open_failed = loc_eng_agps_open_failed AGPS_TYPE_SUPL"

definition AGPS_TYPE_C2K :: int where "AGPS_TYPE_C2K = 2"

definition loc_agps_set_server :: "eng_env \<Rightarrow> int \<Rightarrow> string option \<Rightarrow> int \<Rightarrow> loc_eng \<Rightarrow> (int \<times> loc_eng) mem" where
  "loc_agps_set_server E type =
    loc_eng_set_server_proxy E (if type = AGPS_TYPE_C2K then LOC_AGPS_CDMA_PDE_SERVER else LOC_AGPS_SUPL_SERVER)"

definition XTRA_DATA_MAX_SIZE :: int where "XTRA_DATA_MAX_SIZE = 100000"

text \<open>The length is compared as an unsigned number; reading beyond the data is undefined.\<close>

definition loc_xtra_inject_data :: "string option \<Rightarrow> int \<Rightarrow> loc_eng \<Rightarrow> (int \<times> loc_eng) mem" where
  "loc_xtra_inject_data d len S =
    (case d of
       None \<Rightarrow> Some (-1, S)
     | Some x \<Rightarrow>
         if len mod 2 ^ 32 > XTRA_DATA_MAX_SIZE then Some (-1, S)
         else if int (length x) < len then None
         else map_option (\<lambda>S1. (0, S1)) (loc_eng_xtra_inject_data (take (nat len) x) S))"

definition loc_xtra_init :: "bool \<Rightarrow> loc_eng \<Rightarrow> int \<times> loc_eng" where
  "loc_xtra_init download_cb = loc_eng_xtra_init (Some (download_cb, False))"

definition loc_configuration_update :: "string option \<Rightarrow> int \<Rightarrow> loc_hal \<Rightarrow> loc_hal mem" where
  "loc_configuration_update config_data len H = do {
     H1 \<leftarrow> on_eng_mem (loc_eng_configuration_update config_data len) H;
     Some (if sGnssType H1 \<in> {GNSS_GSS, GNSS_AUTO, GNSS_QCA1530} then on_eng without_ms H1 else H1) }"

text \<open>The callbacks given to the engine pass a position or satellites on, unless the cleanup cleared the framework's.\<close>

definition local_loc_cb :: "loc_hal \<Rightarrow> ulp_location option \<Rightarrow> gps_location option" where
  "local_loc_cb H L = (case L of None \<Rightarrow> None | Some l \<Rightarrow> if gps_loc_cb H then Some (gpsLocation l) else None)"

definition local_sv_cb :: "loc_hal \<Rightarrow> sv_status \<Rightarrow> sv_status option" where
  "local_sv_cb H V = (if gps_sv_cb H then Some V else None)"

subsection \<open>The system\<close>

datatype hal_call =
    HInterface
  | HInit gps_callbacks
  | HCleanup
  | HStart
  | HStop
  | HSetPositionMode gps_position_mode position_recurrence "32 word" "32 word" "32 word"
  | HInjectTime int int int
  | HInjectLocation fl fl fl
  | HDeleteAidingData "16 word"
  | HAgpsInit "bool option"
  | HAgpsOpen "string option"
  | HAgpsOpenWithApniptype "string option" apn_ip_type
  | HAgpsClosed
  | HAgpsOpenFailed
  | HSetServer int "string option" int
  | HXtraInit bool
  | HXtraInjectData "string option" int
  | HMeasurementInit "bool option"
  | HMeasurementClose
  | HNiInit bool
  | HNiRespond "32 word" ni_response
  | HNetworkAvailability int "string option"
  | HInstallCertificates "string list"
  | HConfigurationUpdate "string option" int

fun hal_do :: "hal_env \<Rightarrow> hal_call \<Rightarrow> loc_hal \<Rightarrow> loc_hal mem" where
  "hal_do E HInterface H = map_option fst (get_gps_interface E H)"
| "hal_do E (HInit c) H = Some (snd (loc_init E (Some c) H))"
| "hal_do E HCleanup H = loc_cleanup H"
| "hal_do E HStart H = Some (on_eng (snd \<circ> loc_eng_start) H)"
| "hal_do E HStop H = Some (on_eng (snd \<circ> loc_eng_stop) H)"
| "hal_do E (HSetPositionMode m r i a t) H = Some (snd (loc_set_position_mode m r i a t H))"
| "hal_do E (HInjectTime t tf unc) H = Some (on_eng (snd \<circ> loc_eng_inject_time t tf unc) H)"
| "hal_do E (HInjectLocation lat lon acc) H = Some (on_eng (snd \<circ> loc_eng_inject_location lat lon acc) H)"
| "hal_do E (HDeleteAidingData f) H = Some (on_eng (loc_eng_delete_aiding_data f) H)"
| "hal_do E (HAgpsInit c) H = on_eng_mem (loc_eng_agps_init (eng_E E) c) H"
| "hal_do E (HAgpsOpen apn) H = Some (on_eng (snd \<circ> loc_agps_open apn) H)"
| "hal_do E (HAgpsOpenWithApniptype apn t) H = Some (on_eng (snd \<circ> loc_agps_open_with_apniptype apn t) H)"
| "hal_do E HAgpsClosed H = Some (on_eng (snd \<circ> loc_agps_closed) H)"
| "hal_do E HAgpsOpenFailed H = Some (on_eng (snd \<circ> loc_agps_open_failed) H)"
| "hal_do E (HSetServer type h port) H = on_eng_mem (map_option snd \<circ> loc_agps_set_server (eng_E E) type h port) H"
| "hal_do E (HXtraInit d) H = Some (on_eng (snd \<circ> loc_xtra_init d) H)"
| "hal_do E (HXtraInjectData d len) H = on_eng_mem (map_option snd \<circ> loc_xtra_inject_data d len) H"
| "hal_do E (HMeasurementInit c) H = Some (on_eng (snd \<circ> loc_eng_gps_measurement_init c) H)"
| "hal_do E HMeasurementClose H = Some (on_eng loc_eng_gps_measurement_close H)"
| "hal_do E (HNiInit c) H = Some (on_eng (loc_eng_ni_init c) H)"
| "hal_do E (HNiRespond i r) H = Some (on_eng (loc_eng_ni_respond i r) H)"
| "hal_do E (HNetworkAvailability available apn) H = Some (on_eng (loc_eng_agps_ril_update_network_availability available apn) H)"
| "hal_do E (HInstallCertificates cs) H = Some (on_eng (snd \<circ> loc_eng_agps_install_certificates cs) H)"
| "hal_do E (HConfigurationUpdate d len) H = loc_configuration_update d len H"

text \<open>The data of requests in messages that are not handled yet.\<close>

definition queued_data :: "eng_msg \<Rightarrow> nat list" where
  "queued_data m = (case m of Control (LocEngRequestNi n (Some p)) \<Rightarrow> [p] | _ \<Rightarrow> [])"

definition in_queue :: "loc_eng \<Rightarrow> nat list" where
  "in_queue S = concat (map queued_data (eng_queue S))"

text \<open>What a report brings: data is allocated, so it is not in use, and there is a slot for each satellite reported.\<close>

fun event_ok :: "loc_eng \<Rightarrow> modem_event \<Rightarrow> bool" where
  "event_ok S (requestNiNotify n (Some p)) \<longleftrightarrow> p \<notin> set (ni_freed S) \<and> p \<notin> set (ni_held S) \<and> p \<notin> set (in_queue S)"
| "event_ok S (reportSv V X) \<longleftrightarrow> num_svs V \<le> int (length (sv_list V))"
| "event_ok S e \<longleftrightarrow> True"

definition dispatch_msg :: "eng_env \<Rightarrow> eng_msg \<Rightarrow> loc_eng \<Rightarrow> loc_eng mem" where
  "dispatch_msg E m S = proc E m (S\<lparr>eng_queue := tl (eng_queue S)\<rparr>)"

text \<open>A step; a crash of the thread that handles messages is the state \<open>None\<close>.\<close>

inductive hal_step :: "hal_env \<Rightarrow> loc_hal \<Rightarrow> loc_hal option \<Rightarrow> bool" for E where
  call: "hal_do E c H = Some H1 \<Longrightarrow> hal_step E H (Some H1)"
| event: "adapter (loc_afw_data H) \<Longrightarrow> event_ok (loc_afw_data H) e \<Longrightarrow> hal_step E H (Some (on_eng (fst \<circ> modem_report e) H))"
| request: "hal_step E H (Some (on_eng (snd \<circ> if_request_handler r) H))"
| release: "loc_api_handle (loc_afw_data H) \<Longrightarrow> hal_step E H (on_eng_mem (map_option snd \<circ> if_release_handler r) H)"
| dispatch: "eng_queue (loc_afw_data H) = m # ms \<Longrightarrow> hal_step E H (on_eng_mem (dispatch_msg (eng_E E) m) H)"
| thread: "ni_thread_step (loc_afw_data H) S1 \<Longrightarrow> hal_step E H (Some (H\<lparr>loc_afw_data := S1\<rparr>))"

inductive hal_run :: "hal_env \<Rightarrow> loc_hal \<Rightarrow> loc_hal \<Rightarrow> bool" for E where
  run_none: "hal_run E H H"
| run_step: "hal_run E H H1 \<Longrightarrow> hal_step E H1 (Some H2) \<Longrightarrow> hal_run E H H2"

text \<open>The process before its first call: cleared memory.\<close>

definition eng_zero :: loc_eng where
  "eng_zero = \<lparr>session = blank_session, sessionEs = blank_session, reqIDCounter = 0, ni_notify_cb = False,
     mute_session_state = MUTE_SESS_NONE, ni_threads = [], ni_now = 0, ni_msgs = [], ni_notified = [], ni_informed = [], ni_freed = [],
     cbs = no_callbacks, intermediateFix = 0, nifs = (\<lambda>_. None), engine_status = GPS_STATUS_NONE, fix_session_status = GPS_STATUS_NONE,
     aiding_data_for_deletion = 0, generateNmea = False, nmea = no_eng, supl_host = no_server, c2k_host = no_server,
     adapter = False, adp = LocEngAdapter_new 0, conf = \<lparr>vars = (\<lambda>_. Num 0), flags = (\<lambda>_. False)\<rparr>, agpsStatus = 0,
     configAlreadyRead = False, loc_api_handle = False, eng_queue = [], eng_outs = [], eng_freed = []\<rparr>"

definition hal_start :: loc_hal where
  "hal_start = \<lparr>loc_afw_data = eng_zero, gps_loc_cb = False, gps_sv_cb = False, sGnssType = GNSS_UNKNOWN\<rparr>"

end
