(* ===== verification/Loc_Eng_Props.thy ===== *)
theory Loc_Eng_Props
  imports Loc_Hal Agps_Props Loc_Ni_Props
begin

text \<open>
  The invariant of the location engine, and that every handler of a message keeps it and never dereferences NULL.
\<close>

subsection \<open>What the handlers keep\<close>

definition ready :: "loc_eng \<Rightarrow> bool" where
  "ready S \<longleftrightarrow> nifs S agnss_nif \<noteq> None \<and> nifs S internet_nif \<noteq> None \<and> nifs S wifi_nif \<noteq> None"

definition good_machines :: "loc_eng \<Rightarrow> bool" where
  "good_machines S \<longleftrightarrow> (\<forall>m. nifs S wifi_nif = Some m \<longrightarrow> agps_inv m) \<and> (\<forall>m. nifs S ds_nif = Some m \<longrightarrow> agps_inv m)"

definition capable :: "cfg_store \<Rightarrow> bool" where
  "capable M \<longleftrightarrow> conf_num M CAPABILITIES AND GPS_CAPABILITY_MSA \<noteq> 0 \<or> conf_num M CAPABILITIES AND GPS_CAPABILITY_MSB \<noteq> 0"

text \<open>A message that refers to nothing; a message that can be handled once the machines are there.\<close>

fun plain :: "eng_msg \<Rightarrow> bool" where
  "plain (Control (LocEngRequestNi n p)) = False"
| "plain (Control c) = True"
| "plain (Config c) = True"
| "plain _ = False"

fun msg_ok :: "bool \<Rightarrow> eng_msg \<Rightarrow> bool" where
  "msg_ok r (Conn (LocEngReqRelBIT _ _ _ _)) = r"
| "msg_ok r (Conn (LocEngAtlOpenSuccess p _ _)) = (r \<and> p = Some agnss_nif)"
| "msg_ok r (Conn (LocEngAtlClosed p)) = (r \<and> p = Some agnss_nif)"
| "msg_ok r (Conn (LocEngAtlOpenFailed p)) = (r \<and> p = Some agnss_nif)"
| "msg_ok r (Report (LocEngReportSv V _)) = (num_svs V \<le> int (length (sv_list V)))"
| "msg_ok r _ = True"

lemma plain_ok: "plain m \<Longrightarrow> msg_ok r m" "plain m \<Longrightarrow> queued_data m = []"
  by (cases m rule: plain.cases; simp add: queued_data_def)+

definition kept :: "loc_eng \<Rightarrow> loc_eng \<Rightarrow> bool" where
  "kept S S1 \<longleftrightarrow> (ready S \<longrightarrow> ready S1) \<and> (good_machines S \<longrightarrow> good_machines S1) \<and> (capable (conf S) \<longrightarrow> capable (conf S1)) \<and>
    agps_status_cb (cbs S1) = agps_status_cb (cbs S) \<and> adapter S1 = adapter S \<and> loc_api_handle S1 = loc_api_handle S \<and>
    configAlreadyRead S1 = configAlreadyRead S \<and> ni_freed S1 = ni_freed S \<and> ni_held S1 = ni_held S \<and> ni_informed S1 = ni_informed S \<and>
    (\<exists>ms. eng_queue S1 = eng_queue S @ ms \<and> list_all plain ms)"

lemma eng_kept_refl [simp]: "kept S S"
  by (simp add: kept_def)

lemma eng_kept_trans [trans]: "kept S S1 \<Longrightarrow> kept S1 S2 \<Longrightarrow> kept S S2"
  unfolding kept_def by (elim conjE exE, intro conjI) auto

text \<open>A handler that changes none of this.\<close>

lemma eng_kept_same:
  assumes "nifs S1 = nifs S" "cbs S1 = cbs S" "adapter S1 = adapter S" "loc_api_handle S1 = loc_api_handle S" "conf S1 = conf S"
    "configAlreadyRead S1 = configAlreadyRead S" "ni_freed S1 = ni_freed S" "ni_held S1 = ni_held S" "ni_informed S1 = ni_informed S"
    "eng_queue S1 = eng_queue S"
  shows "kept S S1"
  using assms by (simp add: kept_def ready_def good_machines_def)

lemma ni_held_frame [simp]:
  "ni_held (S\<lparr>eng_outs := a\<rparr>) = ni_held S" "ni_held (S\<lparr>eng_queue := b\<rparr>) = ni_held S" "ni_held (S\<lparr>adp := c\<rparr>) = ni_held S"
  "ni_held (S\<lparr>nmea := d\<rparr>) = ni_held S" "ni_held (S\<lparr>nifs := e\<rparr>) = ni_held S" "ni_held (S\<lparr>engine_status := f\<rparr>) = ni_held S"
  "ni_held (S\<lparr>fix_session_status := g\<rparr>) = ni_held S" "ni_held (S\<lparr>aiding_data_for_deletion := h\<rparr>) = ni_held S"
  "ni_held (S\<lparr>eng_freed := i\<rparr>) = ni_held S" "ni_held (S\<lparr>conf := j\<rparr>) = ni_held S" "ni_held (S\<lparr>mute_session_state := k\<rparr>) = ni_held S"
  "ni_held (S\<lparr>cbs := l\<rparr>) = ni_held S" "ni_held (S\<lparr>supl_host := m\<rparr>) = ni_held S" "ni_held (S\<lparr>c2k_host := m\<rparr>) = ni_held S"
  "ni_held (S\<lparr>agpsStatus := n\<rparr>) = ni_held S" "ni_held (S\<lparr>configAlreadyRead := p\<rparr>) = ni_held S" "ni_held (S\<lparr>loc_api_handle := q\<rparr>) = ni_held S"
  by (simp_all add: ni_held_def)

lemma kept_out [simp]: "kept S (out x S)"
  by (rule eng_kept_same) (simp_all add: out_def)

lemma kept_adp [simp]: "kept S (set_adp f S)"
  by (rule eng_kept_same) (simp_all add: set_adp_def)

lemma kept_api [simp]: "kept S (snd (api E x S))"
  by (simp add: api_def Let_def)

lemma kept_api_eq: "api E x S = (r, S1) \<Longrightarrow> kept S S1"
  using kept_api [of S E x] by simp

lemma kept_send: "plain m \<Longrightarrow> kept S (sendMsg m S)"
  by (auto simp: kept_def sendMsg_def ready_def good_machines_def)

lemma send_all_eq: "send_all ms S = S\<lparr>eng_queue := eng_queue S @ ms\<rparr>"
  by (induction ms arbitrary: S) (simp_all add: sendMsg_def)

lemma kept_send_all: "list_all plain ms \<Longrightarrow> kept S (send_all ms S)"
  by (auto simp: kept_def send_all_eq ready_def good_machines_def)

lemma kept_map_config [simp]: "list_all plain (map Config ms)"
  by (simp add: list_all_iff)

lemma kept_nif:
  assumes "nifs S n = Some m" "n \<in> {wifi_nif, ds_nif} \<and> agps_inv m \<longrightarrow> agps_inv m1"
  shows "kept S (set_nif n m1 S)"
  using assms by (auto simp: kept_def set_nif_def ready_def good_machines_def)

subsection \<open>Sessions and reports\<close>

lemma kept_startFix: "startFix E S = (r, S1) \<Longrightarrow> kept S S1"
  unfolding startFix_def by (rule kept_api_eq)

lemma kept_stopFix: "stopFix E S = (r, S1) \<Longrightarrow> kept S S1"
  unfolding stopFix_def by (rule kept_api_eq)

lemma kept_setInSession [simp]: "kept S (setInSession b S)"
proof -
  have "kept S (out (Fix (SetInSession b)) (set_adp (\<lambda>A. A\<lparr>mNavigating := b\<rparr>) S))" (is "kept S ?S1")
    by (rule eng_kept_trans [OF kept_adp kept_out])
  then show ?thesis using eng_kept_trans [OF _ kept_adp, of S ?S1] by (cases b) (simp_all add: setInSession_def Let_def)
qed

lemma kept_start [simp]: "kept S (snd (loc_eng_start_handler E S))"
  by (auto simp: loc_eng_start_handler_def split: prod.split dest: kept_startFix intro: eng_kept_trans [OF _ kept_setInSession])

lemma kept_stop [simp]: "kept S (snd (loc_eng_stop_handler E S))"
  by (auto simp: loc_eng_stop_handler_def split: prod.split dest: kept_stopFix intro: eng_kept_trans [OF _ kept_setInSession])

lemma kept_setPositionMode [simp]: "kept S (setPositionMode p S)"
  unfolding setPositionMode_def by (rule eng_kept_trans [OF kept_adp kept_out])

lemma kept_aiding [simp]: "kept S (update_aiding_data_for_deletion S)"
  by (rule eng_kept_same) (simp_all add: update_aiding_data_for_deletion_def out_def)

lemma kept_DelAidData [simp]: "kept S (DelAidData_proc f S)"
proof -
  have "kept S (S\<lparr>aiding_data_for_deletion := f\<rparr>)" by (rule eng_kept_same) simp_all
  then show ?thesis unfolding DelAidData_proc_def by (rule eng_kept_trans) simp
qed

lemma kept_status [simp]: "kept S (loc_eng_report_status st S)"
  by (rule eng_kept_same) (simp_all add: loc_eng_report_status_def loc_inform_gps_status_def out_def Let_def)

lemma kept_zpp [simp]: "kept S (snd (loc_eng_get_zpp_handler E S))"
  by (auto simp: loc_eng_get_zpp_handler_def split: prod.split dest: kept_api_eq intro: eng_kept_trans [OF _ kept_out])

lemma kept_position [simp]: "kept S (ReportPosition_proc E L X st tech S)"
proof -
  have r: "report_location L st tech S = (S1, b) \<Longrightarrow> kept S S1" for S1 b
    by (auto simp: report_location_def split: if_splits)
  have s: "kept S (snd (stopFix E S))" for S using kept_stopFix [of E S] by (cases "stopFix E S") simp
  have e: "kept S (end_single_shot E st S)" for S
    unfolding end_single_shot_def using eng_kept_trans [OF s kept_setInSession] by simp
  have n: "kept S (nmea_position L X b S)" for b S by (rule eng_kept_same) (simp_all add: nmea_position_def)
  have f: "kept S (eng_free p S)" for p S by (rule eng_kept_same) (simp_all add: eng_free_def split: option.split)
  obtain S1 b where R: "report_location L st tech S = (S1, b)" by fastforce
  have "kept S (if b then end_single_shot E st S1 else S1)" (is "kept S ?S2")
    using r [OF R] eng_kept_trans [OF r [OF R] e] by simp
  then have "kept S (if generateNmea ?S2 \<and> isInSession ?S2 then nmea_position L X (b \<and> st \<noteq> LOC_SESS_FAILURE) ?S2 else ?S2)" (is "kept S ?S3")
    using eng_kept_trans [OF _ n] by simp
  then have "kept S (eng_free (rawData L) ?S3)" by (rule eng_kept_trans [OF _ f])
  then show ?thesis by (simp add: ReportPosition_proc_def R Let_def)
qed

lemma sv_handled:
  assumes "num_svs V \<le> int (length (sv_list V))"
  shows "\<exists>S1. ReportSv_proc V X S = Some S1 \<and> kept S S1"
proof -
  have g: "generate_sv V X E \<noteq> None" for E using assms by (auto simp: generate_sv_def Let_def)
  have k: "kept S (S\<lparr>nmea := e\<rparr>)" for S e by (rule eng_kept_same) simp_all
  let ?S = "if sv_status_cb (cbs S) then out (Cb (CbSvStatus V)) S else S"
  have "kept S ?S" by simp
  then show ?thesis using g [of "nmea ?S"] eng_kept_trans [OF _ k]
    by (auto simp: ReportSv_proc_def Let_def split: prod.split if_splits)
qed

lemma kept_report: "msg_ok r (Report m) \<Longrightarrow> \<exists>S1. report_proc E m S = Some S1 \<and> kept S S1"
  using sv_handled eng_kept_trans [OF kept_status kept_aiding]
  by (cases m) (auto simp: ReportNmea_proc_def ReportXtraServer_proc_def ReportGpsMeasurement_proc_def RequestXtra_proc_def RequestTime_proc_def Let_def)

subsection \<open>Data connections\<close>

lemma state_event:
  "data \<noteq> None \<or> event \<in> {RSRC_GRANTED, RSRC_RELEASED, RSRC_DENIED} \<Longrightarrow> state_onRsrcEvent E event data m \<noteq> None"
  by (cases data; cases event; cases "mStatePtr m")
    (simp_all add: state_onRsrcEvent_def Released_onRsrcEvent_def Pending_onRsrcEvent_def Acquired_onRsrcEvent_def
      Releasing_onRsrcEvent_def Let_def split_beta)

text \<open>No call of a machine fails, whatever its subscribers; and a machine in order stays so.\<close>

lemma machine_acts: "\<exists>m1. agps_act E a m = Some m1 \<and> (agps_inv m \<longrightarrow> agps_inv m1)"
proof -
  have "agps_act E a m \<noteq> None"
  proof (cases a)
    case (RsrcEvent e)
    have s: "\<exists>m2. state_onRsrcEvent E e1 None m1 = Some m2" if "e1 \<in> {RSRC_GRANTED, RSRC_RELEASED, RSRC_DENIED}" for e1 m1
      using state_event [of None e1 E m1] that by auto
    obtain m1 where m1: "state_onRsrcEvent E RSRC_RELEASED None m = Some m1" using s by blast
    obtain m2 where "state_onRsrcEvent E RSRC_DENIED None m1 = Some m2" using s by blast
    then have "DS_onRsrcEvent E e m \<noteq> None"
      using s [of RSRC_GRANTED m] s [of RSRC_DENIED m] m1 by (auto simp: DS_onRsrcEvent_def split: AgpsRsrcStatus.split)
    then show ?thesis using s RsrcEvent by (simp add: onRsrcEvent_def Agps_onRsrcEvent_def)
  next
    case (Unsubscribe s)
    have u: "\<exists>m1. state_onRsrcEvent E RSRC_UNSUBSCRIBE (Some x) m = Some m1" for x
      using state_event [of "Some x" RSRC_UNSUBSCRIBE E m] by auto
    show ?thesis
    proof (cases "List.find (\<lambda>x. equals x s) (mSubscribers m)")
      case (Some x)
      obtain m1 where "state_onRsrcEvent E RSRC_UNSUBSCRIBE (Some x) m = Some m1" using u by blast
      with Some Unsubscribe show ?thesis by (simp add: unsubscribeRsrc_def)
    qed (simp add: Unsubscribe unsubscribeRsrc_def)
  qed (use state_event in \<open>auto simp: subscribeRsrc_def split: option.split\<close>)
  then show ?thesis using agps_act_inv [of m E a] by auto
qed

text \<open>A function on a machine that only acts on it.\<close>

definition acts :: "agps_env \<Rightarrow> (agps \<Rightarrow> agps mem) \<Rightarrow> bool" where
  "acts E f \<longleftrightarrow> (\<forall>m. \<exists>m1. f m = Some m1 \<and> (agps_inv m \<longrightarrow> agps_inv m1))"

lemma acts_simps [simp]:
  "acts E (subscribeRsrc E s)" "acts E (\<lambda>m. map_option snd (unsubscribeRsrc E s m))" "acts E (onRsrcEvent E e)"
  using machine_acts [of E "Subscribe s"] machine_acts [of E "Unsubscribe s"] machine_acts [of E "RsrcEvent e"]
  by (simp_all add: acts_def)

lemma acts_granted: "acts E (\<lambda>m. onRsrcEvent E RSRC_GRANTED (Agps.setAPN (Some apn) l (setBearer b m)))"
proof -
  have "\<exists>m1. onRsrcEvent E RSRC_GRANTED (Agps.setAPN (Some apn) l (setBearer b m)) = Some m1 \<and> (agps_inv m \<longrightarrow> agps_inv m1)" for m
    using machine_acts [of E "SetBearer b" m] machine_acts [of E "agps_action.SetAPN (Some apn) l" "setBearer b m"]
      machine_acts [of E "RsrcEvent RSRC_GRANTED" "Agps.setAPN (Some apn) l (setBearer b m)"] by auto
  then show ?thesis by (simp add: acts_def)
qed

lemma kept_on_nif:
  assumes "acts E f" "nifs S n \<noteq> None"
  shows "\<exists>S1. on_nif (Some n) f S = Some S1 \<and> kept S S1"
proof -
  obtain m where m: "nifs S n = Some m" using assms(2) by blast
  obtain m1 where "f m = Some m1" "agps_inv m \<longrightarrow> agps_inv m1" using assms(1) by (auto simp: acts_def)
  then show ?thesis using kept_nif [OF m, of m1] m by (auto simp: on_nif_def)
qed

lemma kept_unsubscribe: "\<exists>S1 b. try_unsubscribe E n s S = Some (S1, b) \<and> kept S S1"
proof (cases "nifs S n")
  case (Some m)
  obtain m1 b where "unsubscribeRsrc E s m = Some (b, m1)" "agps_inv m \<longrightarrow> agps_inv m1"
    using machine_acts [of E "Unsubscribe s" m] by auto
  then show ?thesis using kept_nif [OF Some, of m1] Some by (simp add: try_unsubscribe_def)
qed (auto simp: try_unsubscribe_def)

lemma kept_release: "\<exists>S1. release_atl E i ts S = Some S1 \<and> kept S S1"
proof (induction ts arbitrary: S)
  case (Cons t ts)
  obtain n s where t: "t = (n, s)" by fastforce
  obtain S1 b where u: "try_unsubscribe E n s S = Some (S1, b)" "kept S S1" using kept_unsubscribe by blast
  obtain S2 where "release_atl E i ts S1 = Some S2" "kept S1 S2" using Cons.IH by blast
  then show ?case using u eng_kept_trans [OF u(2)] by (auto simp: t)
qed simp

lemma kept_conn:
  assumes "msg_ok (ready S) (Conn m)"
  shows "\<exists>S1. conn_proc E m S = Some S1 \<and> kept S S1"
proof -
  have n: "nifs S agnss_nif \<noteq> None" "nifs S internet_nif \<noteq> None" "nifs S wifi_nif \<noteq> None" if "ready S"
    using that by (simp_all add: ready_def)
  have g: "getAgpsStateMachine S t = Some n \<Longrightarrow> nifs S n \<noteq> None" for t n
    unfolding getAgpsStateMachine_def Let_def by (metis option.distinct(1) option.inject)
  show ?thesis
  proof (cases m)
    case (LocEngReqRelBIT type ipv4 ipv6 isReq)
    then have "getAgpsStateMachine S type \<noteq> None" using assms n by (simp add: getAgpsStateMachine_def Let_def)
    then obtain n where "getAgpsStateMachine S type = Some n" "nifs S n \<noteq> None" using g by blast
    then show ?thesis using LocEngReqRelBIT kept_on_nif [of E] by (simp add: ReqRelBIT_proc_def Let_def)
  next
    case (LocEngRequestATL i type)
    then show ?thesis using kept_on_nif [of E _ S, OF _ g] by (cases "getAgpsStateMachine S type") (simp_all add: RequestATL_proc_def)
  next
    case (LocEngReleaseATL i)
    then show ?thesis using kept_release by (simp add: ReleaseATL_proc_def del: release_atl.simps)
  next
    case (LocEngAtlOpenSuccess sm apn bearer)
    then show ?thesis using assms n kept_on_nif [OF acts_granted] by (simp add: AtlOpenSuccess_proc_def)
  qed (use assms n kept_on_nif [of E _ S] in \<open>simp_all add: SuplEs_event_def RequestSuplEs_proc_def ReqRelWifi_proc_def Let_def\<close>)
qed

subsection \<open>Values, restarts and requests\<close>

lemma capable_or: "capable M \<Longrightarrow> capable (M\<lparr>vars := (vars M)(CAPABILITIES := Num (conf_num M CAPABILITIES OR w))\<rparr>)"
  by (auto simp: capable_def conf_num_def word_ao_dist or_eq_0_iff)

lemma kept_config [simp]: "kept S (config_proc E m S)"
proof (cases m)
  case LocEngGnssConstellationConfig
  have c: "kept S (S\<lparr>conf := (conf S)\<lparr>vars := (vars (conf S))(CAPABILITIES := Num (conf_num (conf S) CAPABILITIES OR w))\<rparr>\<rparr>)" for S w
    using capable_or [of "conf S" w] by (simp add: kept_def ready_def good_machines_def)
  show ?thesis using LocEngGnssConstellationConfig eng_kept_trans [OF kept_api_eq c] kept_api_eq by (auto split: prod.split)
next
  case (LocEngEnableData apn enable)
  then show ?thesis using eng_kept_trans [OF kept_out kept_out] by (simp add: Let_def split: option.split)
qed (simp_all add: setTime_def setXtraVersionCheck_def)

lemma kept_power [simp]: "kept S (requestPowerVote S)"
  by (simp add: requestPowerVote_def)

lemma kept_reinit [simp]: "kept S (loc_eng_reinit S)"
  unfolding loc_eng_reinit_def loc_eng_xtra_version_check_def Let_def
  by (rule eng_kept_trans [OF kept_send_all kept_send]) (simp_all add: list_all_iff)

lemma kept_set_server: "loc_eng_set_server E type h port S = Some (r, S1) \<Longrightarrow> kept S S1"
  by (auto simp: loc_eng_set_server_def Let_def kept_send split: if_splits option.splits)

lemma kept_agps_reinit: "\<exists>S1. loc_eng_agps_reinit E S = Some S1 \<and> kept S S1"
proof -
  have s: "\<exists>r S1. loc_eng_set_server E type (Some h) port S = Some (r, S1)" for type h port S
    by (auto simp: loc_eng_set_server_def Let_def split: option.split)
  have one: "\<exists>S1. (if b then map_option snd (loc_eng_set_server E type (Some h) port S) else Some S) = Some S1 \<and> kept S S1" for b type h port S
    using s [of type h port S] kept_set_server [of E type "Some h" port S] by auto
  obtain S1 where S1: "(if host_set (supl_host S) then map_option snd (loc_eng_set_server E LOC_AGPS_SUPL_SERVER
      (Some (host_buf (supl_host S))) (port_buf (supl_host S)) S) else Some S) = Some S1" "kept S S1" using one by blast
  obtain S2 where S2: "(if host_set (c2k_host S1) then map_option snd (loc_eng_set_server E LOC_AGPS_CDMA_PDE_SERVER
      (Some (host_buf (c2k_host S1))) (port_buf (c2k_host S1)) S1) else Some S1) = Some S2" "kept S1 S2" using one by blast
  have "loc_eng_agps_reinit E S = Some S2" unfolding loc_eng_agps_reinit_def S1(1) by (simp add: S2(1))
  then show ?thesis using eng_kept_trans [OF S1(2) S2(2)] by blast
qed

lemma kept_drop: "n \<notin> {wifi_nif, ds_nif} \<Longrightarrow> kept S (drop_nif n S)"
  by (cases "nifs S n") (simp_all add: drop_nif_def kept_nif)

lemma kept_up: "\<exists>S1. loc_eng_handle_engine_up E S = Some S1 \<and> kept S S1"
proof -
  let ?S1 = "requestPowerVote (loc_eng_reinit S)"
  have 1: "kept S ?S1" by (rule eng_kept_trans [OF kept_reinit kept_power])
  have d: "kept ?S1 (drop_nif internet_nif (drop_nif agnss_nif ?S1))" by (rule eng_kept_trans [OF kept_drop kept_drop]) simp_all
  obtain S3 where S3: "loc_eng_agps_reinit E (drop_nif internet_nif (drop_nif agnss_nif ?S1)) = Some S3" "kept ?S1 S3"
    using kept_agps_reinit eng_kept_trans [OF d] by blast
  define S2 where "S2 = (if agps_status_cb (cbs ?S1) then S3 else ?S1)"
  have S2: "(if agps_status_cb (cbs ?S1) then loc_eng_agps_reinit E (drop_nif internet_nif (drop_nif agnss_nif ?S1)) else Some ?S1) = Some S2"
    "kept ?S1 S2" using S3 by (simp_all add: S2_def)
  have "kept S2 (if isInSession S2 then snd (loc_eng_start_handler E (setInSession False S2)) else S2)" (is "kept S2 ?S3")
    by (simp add: eng_kept_trans [OF kept_setInSession kept_start])
  then have "kept S ?S3" by (rule eng_kept_trans [OF eng_kept_trans [OF 1 S2(2)]])
  then show ?thesis unfolding loc_eng_handle_engine_up_def Let_def S2(1) by simp
qed

text \<open>The record of the requests is the first part of the engine's; their operations keep the rest.\<close>

lemma more_frame:
  assumes "ni.more S1 = ni.more S"
  shows "nifs S1 = nifs S" "cbs S1 = cbs S" "adapter S1 = adapter S" "loc_api_handle S1 = loc_api_handle S" "conf S1 = conf S"
    "configAlreadyRead S1 = configAlreadyRead S" "eng_queue S1 = eng_queue S" "eng_outs S1 = eng_outs S" "adp S1 = adp S" "nmea S1 = nmea S"
    "engine_status S1 = engine_status S"
  using assms by (cases S, cases S1, simp)+

lemma ni_ops_frame:
  "ni.more (set_sess k x S) = ni.more S" "ni.more (ni_free p S) = ni.more S" "ni.more (set_phase i ph S) = ni.more S"
  by (cases k; simp) (simp_all add: ni_free_def set_phase_def split: option.split)

lemma ni_more [simp]:
  "ni.more (loc_eng_ni_request_handler n p c S) = ni.more S" "ni.more (loc_eng_ni_respond i r S) = ni.more S"
  "ni.more (loc_eng_ni_reset_on_engine_restart S) = ni.more S" "ni.more (loc_eng_ni_init b S) = ni.more S"
  by (simp_all add: loc_eng_ni_request_handler_def open_session_def loc_eng_mute_one_session_def loc_eng_ni_respond_def answer_session_def
      loc_eng_ni_reset_on_engine_restart_def reset_session_def loc_eng_ni_init_def Let_def ni_ops_frame)

lemma leave_more: "ni.more (leave i k S) = ni.more S"
  by (simp add: leave_def ni_thread_leave_def Let_def ni_ops_frame split: prod.split option.split)

lemma thread_more: "ni_thread_step S S1 \<Longrightarrow> ni.more S1 = ni.more S"
  by (induction rule: ni_thread_step.induct)
    (simp_all add: ni_thread_start_def ni_thread_timeout_def ni_thread_end_def LocEngInformNiResponse_proc_def Let_def leave_more ni_ops_frame)

lemma known_request_le: "known (loc_eng_ni_request_handler n p c S) \<subseteq># known S + mset (queued_data (Control (LocEngRequestNi n p)))"
proof (cases p)
  case None
  have "known (open_session n None c S) = known S" if "session_free (kind_of n) S"
  proof -
    have "rawRequest (sess (kind_of n) S) = None" using that by (cases "kind_of n") (auto simp: session_free_def)
    then show ?thesis by (cases "kind_of n") (simp_all add: known_def2 open_session_def Let_def mset_raw loc_eng_mute_one_session_def held_by_def)
  qed
  then show ?thesis by (simp add: None loc_eng_ni_request_handler_def queued_data_def ni_free_def)
next
  case (Some x)
  then show ?thesis using known_request [of S n x c]
    by (cases "ni_notify_cb S") (simp_all add: queued_data_def loc_eng_ni_request_handler_def)
qed

subsection \<open>The invariant of the engine\<close>

definition data_inv :: "loc_eng \<Rightarrow> bool" where
  "data_inv S \<longleftrightarrow> (\<forall>p. count (known S + mset (in_queue S)) p \<le> 1) \<and> mset (map snd (ni_informed S)) \<subseteq># mset (ni_freed S)"

definition idle :: "loc_eng \<Rightarrow> bool" where
  "idle S \<longleftrightarrow> eng_queue S = [] \<and> ni_held S = [] \<and> \<not> agps_status_cb (cbs S) \<and> \<not> loc_api_handle S"

definition eng_inv :: "loc_eng \<Rightarrow> bool" where
  "eng_inv S \<longleftrightarrow> capable (conf S) \<and> configAlreadyRead S \<and> (agps_status_cb (cbs S) \<or> loc_api_handle S \<longrightarrow> ready S) \<and>
    list_all (msg_ok (ready S)) (eng_queue S) \<and> (\<not> adapter S \<longrightarrow> idle S) \<and> good_machines S \<and> data_inv S"

lemma msg_ok_mono: "msg_ok r m \<Longrightarrow> (r \<longrightarrow> r') \<Longrightarrow> msg_ok r' m"
  by (cases "(r, m)" rule: msg_ok.cases) auto

lemma in_queue_append: "in_queue S1 = in_queue S" if "eng_queue S1 = eng_queue S @ ms" "list_all plain ms"
proof -
  have "concat (map queued_data ms) = []" using that(2) plain_ok(2) by (auto simp: list_all_iff)
  then show ?thesis by (simp add: in_queue_def that(1))
qed

lemma kept_inv:
  assumes k: "kept S S1" and i: "eng_inv S" and a: "adapter S \<or> eng_queue S1 = eng_queue S"
  shows "eng_inv S1"
proof -
  obtain ms where ms: "eng_queue S1 = eng_queue S @ ms" "list_all plain ms" using k by (auto simp: kept_def)
  have r: "ready S \<longrightarrow> ready S1" using k by (simp add: kept_def)
  have "list_all (msg_ok (ready S1)) (eng_queue S1)"
    using i r ms plain_ok(1) by (auto simp: eng_inv_def list_all_iff intro: msg_ok_mono)
  moreover have "data_inv S1"
    using i k in_queue_append [OF ms] by (simp add: eng_inv_def data_inv_def kept_def known_def)
  moreover have "\<not> adapter S1 \<longrightarrow> idle S1" using i k a ms by (auto simp: eng_inv_def idle_def kept_def)
  ultimately show ?thesis using i k by (simp add: eng_inv_def kept_def)
qed

text \<open>Operations of the requests.\<close>

lemma more_inv:
  assumes "ni.more S1 = ni.more S" "eng_inv S" "data_inv S1" "adapter S \<or> ni_held S1 = []"
  shows "eng_inv S1"
  using assms(2-4) more_frame [OF assms(1)] by (auto simp: eng_inv_def ready_def good_machines_def idle_def)

lemma grows_data:
  assumes "grows S S1" "data_inv S" "known S1 + mset (in_queue S1) \<subseteq># known S + mset (in_queue S)"
  shows "data_inv S1"
proof -
  have "count (known S1 + mset (in_queue S1)) p \<le> 1" for p
    using mset_subset_eq_count [OF assms(3), of p] assms(2) by (auto simp: data_inv_def intro: order_trans)
  then show ?thesis using assms(1,2) by (auto simp: data_inv_def grows_def intro: subset_mset.add_mono)
qed

text \<open>Taking a message off the queue.\<close>

lemma tl_inv:
  assumes "eng_queue S = m # ms" "eng_inv S"
  shows "eng_inv (S\<lparr>eng_queue := ms\<rparr>)"
proof -
  have "mset (in_queue (S\<lparr>eng_queue := ms\<rparr>)) \<subseteq># mset (in_queue S)" by (simp add: in_queue_def assms(1))
  then have "known (S\<lparr>eng_queue := ms\<rparr>) + mset (in_queue (S\<lparr>eng_queue := ms\<rparr>)) \<subseteq># known S + mset (in_queue S)"
    by (simp add: known_def)
  then have "data_inv (S\<lparr>eng_queue := ms\<rparr>)"
    by (rule grows_data [rotated 2]) (use assms(2) in \<open>simp_all add: grows_def eng_inv_def\<close>)
  then show ?thesis using assms by (auto simp: eng_inv_def ready_def good_machines_def idle_def)
qed

lemma ni_control:
  assumes q: "eng_queue S = Control (LocEngRequestNi n p) # ms" and i: "eng_inv S"
  shows "eng_inv (loc_eng_ni_request_handler n p c (S\<lparr>eng_queue := ms\<rparr>))"
proof -
  let ?S = "S\<lparr>eng_queue := ms\<rparr>"
  let ?S1 = "loc_eng_ni_request_handler n p c ?S"
  have e: "in_queue ?S1 = in_queue ?S" by (simp add: in_queue_def more_frame(7) [OF ni_more(1)])
  have "known ?S1 + mset (in_queue ?S1) \<subseteq># known ?S + mset (queued_data (Control (LocEngRequestNi n p))) + mset (in_queue ?S)"
    unfolding e by (rule subset_mset.add_mono [OF known_request_le]) simp
  also have "\<dots> = known S + mset (in_queue S)" by (simp add: in_queue_def q known_def)
  finally have l: "known ?S1 + mset (in_queue ?S1) \<subseteq># known S + mset (in_queue S)" .
  have "grows S ?S" by (rule grows_same) simp_all
  then have "grows S ?S1" by (rule grows_trans [OF _ grows_request])
  then have "data_inv ?S1" by (rule grows_data [OF _ _ l]) (use i in \<open>simp add: eng_inv_def\<close>)
  then show ?thesis using i q by (intro more_inv [OF ni_more(1) tl_inv [OF q i]]) (auto simp: eng_inv_def idle_def)
qed

lemma down_inv:
  assumes i: "eng_inv S" and a: "adapter S"
  shows "eng_inv (loc_eng_handle_engine_down S)"
proof -
  let ?S1 = "loc_eng_ni_reset_on_engine_restart S"
  have g: "grows S ?S1" by (rule step_grows [OF ni_step.restart])
  have e: "in_queue ?S1 = in_queue S" by (simp add: in_queue_def more_frame(7) [OF ni_more(3)])
  have "data_inv ?S1" using i e by (intro grows_data [OF g]) (simp_all add: eng_inv_def)
  then have "eng_inv ?S1" by (rule more_inv [OF ni_more(3) i]) (simp add: a)
  moreover have "adapter ?S1" using a by (simp add: more_frame(3) [OF ni_more(3)])
  ultimately show ?thesis unfolding loc_eng_handle_engine_down_def by (intro kept_inv [OF kept_status]) simp_all
qed

lemma client_kept: "kept S (DataClientInit_proc E S)"
proof -
  have k: "kept S1 (set_nif ds_nif (DSStateMachine_new servicerTypeExt) S1)" for S1
    using new_inv by (auto simp: kept_def set_nif_def ready_def good_machines_def)
  show ?thesis by (auto simp: DataClientInit_proc_def split: prod.split dest: kept_api_eq intro: eng_kept_trans [OF _ k])
qed

lemma kept_control:
  assumes "\<And>n p. m \<noteq> LocEngRequestNi n p" "m \<noteq> LocEngDown" "user_agent (dev E) \<noteq> None"
  shows "\<exists>S1. control_proc E m S = Some S1 \<and> kept S S1"
  using assms kept_up [of E S] eng_kept_trans [OF kept_reinit kept_send] client_kept by (cases m) auto

text \<open>Every message that is ready is handled, and the invariant kept.\<close>

lemma dispatch_inv:
  assumes i: "eng_inv S" and q: "eng_queue S = m # ms" and u: "user_agent (dev E) \<noteq> None"
  shows "\<exists>S1. dispatch_msg E m S = Some S1 \<and> eng_inv S1"
proof -
  let ?S = "S\<lparr>eng_queue := ms\<rparr>"
  have i1: "eng_inv ?S" by (rule tl_inv [OF q i])
  have a: "adapter ?S" using i q by (auto simp: eng_inv_def idle_def)
  have o: "msg_ok (ready ?S) m" using i q by (simp add: eng_inv_def ready_def)
  have k: "eng_inv S1" if "kept ?S S1" for S1 using kept_inv [OF that i1] a by blast
  have "\<exists>S1. proc E m ?S = Some S1 \<and> eng_inv S1"
  proof (cases m)
    case (Control c)
    show ?thesis
    proof (cases "(\<exists>n p. c = LocEngRequestNi n p) \<or> c = LocEngDown")
      case True
      then show ?thesis using down_inv [OF i1 a] Control ni_control [of S _ _ ms] q i by auto
    next
      case False
      then show ?thesis using kept_control [of c E ?S] k Control u by auto
    qed
  next
    case (Config c)
    then show ?thesis using k [OF kept_config] by simp
  next
    case (Report c)
    then show ?thesis using kept_report [of "ready ?S" c E ?S] o k by auto
  next
    case (Conn c)
    then show ?thesis using kept_conn [of ?S c "agps_E E"] o k by auto
  qed
  then show ?thesis by (simp add: dispatch_msg_def q)
qed

end
