(* ===== verification/Loc_Hal_Props.thy ===== *)
theory Loc_Hal_Props
  imports Loc_Eng_Props
begin

text \<open>
  The system of the location engine: its invariant in every order of calls of the framework, reports of the modem, messages of the daemons,
  handled messages and threads.
\<close>

unbundle bit_operations_syntax


subsection \<open>Calls, reports and threads\<close>

lemma send_inv:
  assumes i: "eng_inv S" and a: "adapter S" and o: "msg_ok (ready S) m"
    and d: "\<And>p. p \<in> set (queued_data m) \<Longrightarrow> p \<notin> set (ni_freed S) \<and> p \<notin> set (ni_held S) \<and> p \<notin> set (in_queue S)"
  shows "eng_inv (sendMsg m S)"
proof -
  have q: "in_queue (sendMsg m S) = in_queue S @ queued_data m" by (simp add: in_queue_def sendMsg_def)
  have k: "known (sendMsg m S) = known S" by (simp add: known_def sendMsg_def)
  have "count (known S + mset (in_queue S) + mset (queued_data m)) p \<le> 1" for p
  proof -
    have "length (queued_data m) \<le> 1" by (simp add: queued_data_def split: eng_msg.split control_msg.split option.split)
    then consider "queued_data m = []" | x where "queued_data m = [x]" by (cases "queued_data m") auto
    then show ?thesis
    proof cases
      case 1
      then show ?thesis using i by (simp add: eng_inv_def data_inv_def)
    next
      case (2 x)
      then have "count (known S + mset (in_queue S)) x = 0" using d [of x] by (simp add: known_def count_mset_0_iff)
      then show ?thesis using 2 i by (auto simp: eng_inv_def data_inv_def)
    qed
  qed
  then have "data_inv (sendMsg m S)" using i by (simp add: data_inv_def q k eng_inv_def add.assoc) (simp add: sendMsg_def)
  then show ?thesis using i a o by (auto simp: eng_inv_def sendMsg_def ready_def good_machines_def idle_def)
qed

lemma send_plain: "eng_inv S \<Longrightarrow> adapter S \<Longrightarrow> plain m \<Longrightarrow> eng_inv (sendMsg m S)"
  using plain_ok by (intro send_inv) auto

lemma same_inv:
  assumes "eng_inv S" "kept S S1" "eng_queue S1 = eng_queue S"
  shows "eng_inv S1"
  using kept_inv [OF assms(2,1)] assms(3) by blast

lemma on_eng_inv [simp]: "loc_afw_data (on_eng f H) = f (loc_afw_data H)" "sGnssType (on_eng f H) = sGnssType H"
  by (simp_all add: on_eng_def)

lemma start_stop_inv:
  assumes "eng_inv S"
  shows "eng_inv (snd (loc_eng_start S))" "eng_inv (snd (loc_eng_stop S))" "eng_inv (loc_eng_cleanup S)"
    "eng_inv (snd (loc_eng_set_position_mode p S))"
proof -
  have k: "eng_inv (set_adp f S)" "adapter (set_adp f S) = adapter S" for f
    using same_inv [OF assms kept_adp] by (simp_all add: set_adp_def)
  show s: "eng_inv (snd (loc_eng_start S))" "eng_inv (snd (loc_eng_stop S))" "eng_inv (snd (loc_eng_set_position_mode p S))"
    using assms k by (simp_all add: loc_eng_start_def sendStartFix_def loc_eng_stop_def sendStopFix_def loc_eng_set_position_mode_def
        sendFixMode_def Let_def send_plain)
  show "eng_inv (loc_eng_cleanup S)" using assms s by (simp add: loc_eng_cleanup_def)
qed

lemma machine_msgs_inv:
  assumes "eng_inv S"
  shows "eng_inv (snd (loc_eng_agps_open AGPS_TYPE_SUPL apn b S))" "eng_inv (snd (loc_eng_agps_closed AGPS_TYPE_SUPL S))"
    "eng_inv (snd (loc_eng_agps_open_failed AGPS_TYPE_SUPL S))"
proof -
  have g: "getAgpsStateMachine S AGPS_TYPE_SUPL = Some agnss_nif" if "ready S"
    using that by (simp add: getAgpsStateMachine_def ready_def AGPS_TYPE_SUPL_def AGPS_TYPE_WIFI_def Let_def)
  have r: "ready S" if "agps_status_cb (cbs S)" using that assms by (simp add: eng_inv_def)
  show "eng_inv (snd (loc_eng_agps_open AGPS_TYPE_SUPL apn b S))" "eng_inv (snd (loc_eng_agps_closed AGPS_TYPE_SUPL S))"
    "eng_inv (snd (loc_eng_agps_open_failed AGPS_TYPE_SUPL S))"
    using assms r g by (auto simp: loc_eng_agps_open_def loc_eng_agps_closed_def loc_eng_agps_open_failed_def queued_data_def
        split: option.split intro: send_inv)
qed

lemma set_server_inv:
  assumes i: "eng_inv S" and r: "loc_eng_set_server_proxy E type h port S = Some (x, S1)"
  shows "eng_inv S1"
proof -
  have "eng_inv (S\<lparr>supl_host := v\<rparr>)" "eng_inv (S\<lparr>c2k_host := v\<rparr>)" for v by (rule same_inv [OF i eng_kept_same]; simp)+
  then obtain S2 where "eng_inv S2" "S1 = S2 \<or> adapter S2 \<and> loc_eng_set_server E type h port S2 = Some (x, S1)"
    using i r by (auto simp: loc_eng_set_server_proxy_def split: option.splits server_type.splits if_splits)
  then show ?thesis using kept_inv [OF kept_set_server] by blast
qed

lemma agps_init_inv:
  assumes i: "eng_inv S" and r: "loc_eng_agps_init E c S = Some S1"
  shows "eng_inv S1"
proof (cases "adapter S \<and> \<not> agps_status_cb (cbs S) \<and> c \<noteq> None")
  case True
  then obtain cb where c: "c = Some cb" by blast
  define S3 where "S3 = set_nif agnss_nif (AgpsStateMachine_new servicerTypeAgps AGPS_TYPE_SUPL False)
    (set_nif wifi_nif (AgpsStateMachine_new servicerTypeAgps AGPS_TYPE_WIFI True)
      (set_nif internet_nif (AgpsStateMachine_new servicerTypeAgps AGPS_TYPE_WWAN_ANY False) (S\<lparr>cbs := (cbs S)\<lparr>agps_status_cb := cb\<rparr>\<rparr>)))"
  have f: "ready S3" "adapter S3" "conf S3 = conf S" "adp S3 = adp S" using True by (simp_all add: S3_def set_nif_def ready_def)
  have "data_inv S3" using i by (simp add: eng_inv_def data_inv_def known_def in_queue_def S3_def set_nif_def)
  moreover have "good_machines S3" using i new_inv(1) by (auto simp: S3_def eng_inv_def good_machines_def set_nif_def)
  moreover have "list_all (msg_ok (ready S3)) (eng_queue S3)"
    using i f(1) by (auto simp: eng_inv_def list_all_iff S3_def set_nif_def intro: msg_ok_mono)
  ultimately have i3: "eng_inv S3" using i f by (simp add: eng_inv_def) (simp add: S3_def set_nif_def)
  define S4 where "S4 = (if mSupportsAgpsRequests (adp S3) then
      out (Api DmnConnLaunch) ((if conf_num (conf S3) USE_EMERGENCY_PDN_FOR_EMERGENCY_SUPL \<noteq> 0
        then sendMsg (Control LocEngDataClientInit) S3 else S3)\<lparr>loc_api_handle := True\<rparr>) else S3)"
  have h: "eng_inv (S'\<lparr>loc_api_handle := True\<rparr>)" if "eng_inv S'" "ready S'" "adapter S'" for S'
    using that by (simp add: eng_inv_def ready_def good_machines_def data_inv_def known_def in_queue_def)
  have "eng_inv (sendMsg (Control LocEngDataClientInit) S3)" using send_plain [OF i3 f(2)] by simp
  then have "eng_inv ((if conf_num (conf S3) USE_EMERGENCY_PDN_FOR_EMERGENCY_SUPL \<noteq> 0
      then sendMsg (Control LocEngDataClientInit) S3 else S3)\<lparr>loc_api_handle := True\<rparr>)" (is "eng_inv ?S")
    using f i3 by (intro h) (simp_all add: sendMsg_def ready_def)
  then have "eng_inv (out x ?S)" for x by (rule same_inv [OF _ kept_out]) (simp add: out_def)
  then have i4: "eng_inv S4" using i3 by (simp add: S4_def)
  have a4: "adapter S4" using f(2) by (simp add: S4_def out_def sendMsg_def)
  have "capable (conf S)" using i by (simp add: eng_inv_def)
  then have "loc_eng_agps_reinit E S4 = Some S1"
    using r True unfolding loc_eng_agps_init_def c S4_def S3_def Let_def by (simp add: capable_def set_nif_def split: if_splits)
  then show ?thesis using kept_agps_reinit [of E S4] kept_inv [OF _ i4] a4 by auto
qed (use i r in \<open>auto simp: loc_eng_agps_init_def split: if_splits option.splits\<close>)


text \<open>The network-initiated requests of the framework, and the threads.\<close>

lemma ni_calls_inv:
  assumes i: "eng_inv S"
  shows "eng_inv (loc_eng_ni_init b S)" "eng_inv (loc_eng_ni_respond n r S)"
proof -
  have a: "mset (raw_data (ni_session_init s)) \<subseteq># mset (raw_data s)" for s by (simp add: ni_session_init_def raw_data_def)
  have k: "known (loc_eng_ni_init b S) \<subseteq># known S"
    by (auto simp: loc_eng_ni_init_def known_def2 held_by_def a intro!: subset_mset.add_mono)
  have q: "in_queue (loc_eng_ni_init b S) = in_queue S" "in_queue (loc_eng_ni_respond n r S) = in_queue S"
    by (simp_all add: in_queue_def more_frame(7) [OF ni_more(4)] more_frame(7) [OF ni_more(2)])
  have f: "ni_freed (loc_eng_ni_init b S) = ni_freed S" "ni_informed (loc_eng_ni_init b S) = ni_informed S"
    by (simp_all add: loc_eng_ni_init_def)
  have d: "data_inv S" using i by (simp add: eng_inv_def)
  have "count (known (loc_eng_ni_init b S) + mset (in_queue S)) p \<le> 1" for p
  proof -
    have "count (known S + mset (in_queue S)) p \<le> 1" using i by (simp add: eng_inv_def data_inv_def)
    then show ?thesis using mset_subset_eq_count [OF k, of p] by simp
  qed
  then have "data_inv (loc_eng_ni_init b S)" using d unfolding data_inv_def q f by simp
  moreover have "ni_held (loc_eng_ni_init b S) = []" if "ni_held S = []"
    using that by (auto simp: loc_eng_ni_init_def ni_held_def raw_data_def ni_session_init_def)
  ultimately show "eng_inv (loc_eng_ni_init b S)"
    using i by (intro more_inv [OF ni_more(4)]) (auto simp: eng_inv_def idle_def)
  have "data_inv (loc_eng_ni_respond n r S)"
    by (rule grows_data [OF grows_respond d]) (simp add: q)
  moreover have "mset (ni_held (loc_eng_ni_respond n r S)) = mset (ni_held S)"
  proof -
    have "ni_freed (loc_eng_ni_respond n r S) = ni_freed S" by (simp add: loc_eng_ni_respond_def answer_session_def)
    then show ?thesis using known_respond [of n r S] by (simp add: known_def)
  qed
  ultimately show "eng_inv (loc_eng_ni_respond n r S)"
    using i by (intro more_inv [OF ni_more(2)]) (auto simp: eng_inv_def idle_def)
qed

lemma thread_inv:
  assumes i: "eng_inv S" and t: "ni_thread_step S S1"
  shows "eng_inv S1"
proof -
  have g: "grows S S1" and k: "known S1 = known S" using thread_grows [OF t] thread_known [OF t] .
  have "in_queue S1 = in_queue S" by (simp add: in_queue_def more_frame(7) [OF thread_more [OF t]])
  then have "data_inv S1" using i k by (intro grows_data [OF g]) (simp_all add: eng_inv_def)
  moreover have "ni_held S1 = []" if "ni_held S = []"
    using g k that by (auto simp: grows_def known_def)
  ultimately show ?thesis using i by (intro more_inv [OF thread_more [OF t]]) (auto simp: eng_inv_def idle_def)
qed

lemma init_inv:
  assumes i: "eng_inv S"
  shows "eng_inv (snd (loc_eng_init c e S))" "fst (loc_eng_init (Some (c', b)) loc_init_events S) = 0"
    "adapter (snd (loc_eng_init (Some (c', b)) loc_init_events S))"
proof -
  have e: "loc_init_events \<noteq> 0" by code_simp
  show "fst (loc_eng_init (Some (c', b)) loc_init_events S) = 0" "adapter (snd (loc_eng_init (Some (c', b)) loc_init_events S))"
    using e by (simp_all add: loc_eng_init_def Let_def sendMsg_def)
  have "eng_inv (snd (loc_eng_init (Some (c', b)) e S))" if "\<not> adapter S" "e \<noteq> 0" for c' b
  proof -
    let ?S = "snd (loc_eng_init (Some (c', b)) e S)"
    have d: "idle S" using i that by (simp add: eng_inv_def)
    then have h: "ni_held ?S = []" by (auto simp: idle_def ni_held_def loc_eng_init_def that sendMsg_def memset_eng_def Let_def raw_data_def blank_session_def)
    have f: "ni_freed ?S = ni_freed S" "ni_informed ?S = ni_informed S" "eng_queue ?S = [Control LocEngInit]" "conf ?S = conf S"
      "configAlreadyRead ?S = configAlreadyRead S" "nifs ?S = (\<lambda>_. None)" "\<not> agps_status_cb (cbs ?S)" "loc_api_handle ?S = loc_api_handle S"
      using d that by (simp_all add: loc_eng_init_def sendMsg_def memset_eng_def Let_def idle_def no_callbacks_def)
    have "data_inv ?S" using i h d by (simp add: data_inv_def known_def f in_queue_def queued_data_def eng_inv_def idle_def)
    then show ?thesis using i d by (simp add: eng_inv_def f good_machines_def idle_def) (simp add: loc_eng_init_def that Let_def sendMsg_def)
  qed
  then show "eng_inv (snd (loc_eng_init c e S))" using i by (auto simp: loc_eng_init_def Let_def split: option.split)
qed

lemma loc_init_inv:
  assumes i: "eng_inv (loc_afw_data H)"
  shows "eng_inv (loc_afw_data (snd (loc_init E c H)))" "sGnssType (snd (loc_init E c H)) = sGnssType H"
proof -
  show "sGnssType (snd (loc_init E c H)) = sGnssType H" by (simp add: loc_init_def Let_def split: option.split prod.split)
  have "eng_inv (loc_afw_data (snd (loc_init E (Some c) H)))" for c
  proof -
    let ?cc = "no_callbacks\<lparr>location_cb := True, sv_status_cb := True, status_cb := cb_status c,
      set_capabilities_cb := cb_set_capabilities c, request_utc_time_cb := cb_request_utc_time c\<rparr>"
    obtain r S1 where R: "loc_eng_init (Some (?cc, cb_nmea c)) loc_init_events (loc_afw_data H) = (r, S1)" by fastforce
    have S1: "eng_inv S1" "r = 0" "adapter S1"
      using init_inv(1) [OF i, of "Some (?cc, cb_nmea c)" loc_init_events] init_inv(2,3) [OF i, of ?cc "cb_nmea c"] by (simp_all add: R)
    let ?S2 = "set_supports E S1"
    have k2: "kept S1 ?S2" by (simp add: set_supports_def)
    let ?S3 = "sendMsg (Config (LocEngAdapterGpsLock 0)) ?S2"
    have k3: "kept S1 ?S3" by (rule eng_kept_trans [OF k2 kept_send]) simp
    let ?S4 = "out (Api (RequestUlp (getCarrierCapabilities (conf ?S3)))) ?S3"
    have k4: "kept S1 ?S4" by (rule eng_kept_trans [OF k3 kept_out])
    let ?S5 = "sendMsg (Control LocSetXtraUserAgent) ?S4"
    have k5: "kept S1 ?S5" by (rule eng_kept_trans [OF k4 kept_send]) simp
    let ?S6 = "setPowerVote True (setPowerVoteRight (target E = TARGET_SET GNSS_QCA1530 0) ?S5)"
    have "kept S (setPowerVote b S)" "kept S (setPowerVoteRight b S)" for b S
      unfolding setPowerVote_def setPowerVoteRight_def by (rule eng_kept_trans [OF eng_kept_trans [OF kept_adp kept_power] kept_out], rule kept_adp)
    then have "kept S1 ?S6" using k5 eng_kept_trans by blast
    then have "eng_inv ?S6" using kept_inv [OF _ S1(1)] S1(3) by blast
    then show ?thesis using S1(2) by (simp add: loc_init_def R Let_def)
  qed
  then show "eng_inv (loc_afw_data (snd (loc_init E c H)))" using i by (cases c) (simp_all add: loc_init_def)
qed


subsection \<open>The system\<close>

definition hal_inv :: "hal_env \<Rightarrow> loc_hal \<Rightarrow> bool" where
  "hal_inv E H \<longleftrightarrow> eng_inv (loc_afw_data H) \<and> user_agent (dev (eng_E E)) \<noteq> None \<and>
    getTargetGnssType (target E) \<notin> {GNSS_GSS, GNSS_AUTO, GNSS_QCA1530} \<and>
    sGnssType H \<notin> {GNSS_GSS, GNSS_AUTO, GNSS_QCA1530}"

lemma on_eng_memD: "on_eng_mem f H = Some H1 \<Longrightarrow> \<exists>S1. f (loc_afw_data H) = Some S1 \<and> H1 = H\<lparr>loc_afw_data := S1\<rparr>"
  by (auto simp: on_eng_mem_def)

lemma config_update_inv:
  assumes i: "eng_inv S" and r: "loc_eng_configuration_update d len S = Some S1"
  shows "eng_inv S1"
proof (cases "d \<noteq> None \<and> len > 0")
  case True
  obtain M x where M: "loc_update_conf d len (Some gps_conf_table) (conf S) = Some (M, x)"
    using r True by (cases "loc_update_conf d len (Some gps_conf_table) (conf S)") (auto simp: loc_eng_configuration_update_def)
  let ?c = "M\<lparr>vars := (\<lambda>a. if a \<in> set gps_conf_vars \<and> a \<notin> set updatable then vars (conf S) a else vars M a)\<rparr>"
  let ?S2 = "if adapter S then send_all (map Config (conf_changes (conf S) M)) (S\<lparr>conf := M\<rparr>) else S\<lparr>conf := M\<rparr>"
  have S1: "S1 = ?S2\<lparr>conf := ?c\<rparr>" using r True M by (simp add: loc_eng_configuration_update_def Let_def)
  have "CAPABILITIES \<in> set gps_conf_vars \<and> CAPABILITIES \<notin> set updatable" by code_simp
  then have "capable ?c = capable (conf S)" by (simp add: capable_def conf_num_def)
  then have "kept S S1" by (auto simp: S1 kept_def send_all_eq ready_def good_machines_def list_all_iff)
  then show ?thesis using kept_inv [OF _ i] by (auto simp: S1)
qed (use i r in \<open>auto simp: loc_eng_configuration_update_def split: if_splits\<close>)

lemma more_calls_inv:
  assumes i: "eng_inv S"
  shows "eng_inv (snd (loc_eng_inject_time t tf u S))" "eng_inv (snd (loc_eng_inject_location lat lon acc S))"
    "eng_inv (loc_eng_delete_aiding_data f S)" "eng_inv (snd (loc_xtra_init b S))" "eng_inv (snd (loc_eng_gps_measurement_init c S))"
    "eng_inv (loc_eng_gps_measurement_close S)" "eng_inv (loc_eng_agps_ril_update_network_availability av apn S)"
    "eng_inv (snd (loc_eng_agps_install_certificates cs S))"
proof -
  have c: "eng_inv (S1\<lparr>cbs := (cbs S1)\<lparr>gps_measurement_cb := b\<rparr>\<rparr>)"
    "eng_inv (S1\<lparr>cbs := (cbs S1)\<lparr>download_request_cb := b, report_xtra_server_cb := d\<rparr>\<rparr>)" "eng_inv (S1\<lparr>agpsStatus := w\<rparr>)"
    if "eng_inv S1" for S1 b d w
    by (rule same_inv [OF that]; simp add: kept_def ready_def good_machines_def)+
  show "eng_inv (snd (loc_eng_inject_time t tf u S))" "eng_inv (snd (loc_eng_inject_location lat lon acc S))"
    "eng_inv (loc_eng_delete_aiding_data f S)" "eng_inv (snd (loc_eng_agps_install_certificates cs S))"
    using i by (simp_all add: loc_eng_inject_time_def loc_eng_inject_location_def loc_eng_delete_aiding_data_def
        loc_eng_agps_install_certificates_def send_plain Let_def)
  show "eng_inv (snd (loc_xtra_init b S))" using c(2) [OF i] by (simp add: loc_xtra_init_def loc_eng_xtra_init_def)
  have s: "(sendMsg m S)\<lparr>cbs := (cbs S)\<lparr>gps_measurement_cb := b\<rparr>\<rparr> = (sendMsg m S)\<lparr>cbs := (cbs (sendMsg m S))\<lparr>gps_measurement_cb := b\<rparr>\<rparr>" for m b
    by (simp add: sendMsg_def)
  show "eng_inv (snd (loc_eng_gps_measurement_init c S))" "eng_inv (loc_eng_gps_measurement_close S)"
    using i c(1) [OF send_plain [OF i]] unfolding loc_eng_gps_measurement_init_def loc_eng_gps_measurement_close_def s
    by (auto split: option.split)
  show "eng_inv (loc_eng_agps_ril_update_network_availability av apn S)"
    using c(3) [OF i] by (auto simp: loc_eng_agps_ril_update_network_availability_def Let_def split: option.split intro!: send_plain)
qed

lemma xtra_inject_inv: "eng_inv S \<Longrightarrow> loc_xtra_inject_data d len S = Some (x, S1) \<Longrightarrow> eng_inv S1"
  by (auto simp: loc_xtra_inject_data_def loc_eng_xtra_inject_data_def send_plain split: option.splits if_splits)

lemma interface_inv:
  assumes "hal_inv E H" "get_gps_interface E H = Some (H1, b)"
  shows "hal_inv E H1"
proof -
  have "configAlreadyRead (loc_afw_data H)" using assms(1) by (simp add: hal_inv_def eng_inv_def)
  then have "on_eng_mem (loc_eng_read_config f g) H = Some H" for f g by (simp add: on_eng_mem_def loc_eng_read_config_def)
  then show ?thesis using assms by (auto simp: get_gps_interface_def hal_inv_def Let_def split: if_splits)
qed

lemma call_inv:
  assumes h: "hal_inv E H" and r: "hal_do E c H = Some H1"
  shows "hal_inv E H1"
proof -
  have i: "eng_inv (loc_afw_data H)" using h by (simp add: hal_inv_def)
  have e: "hal_inv E (on_eng f H)" if "eng_inv (f (loc_afw_data H))" for f using that h by (simp add: hal_inv_def)
  have m: "hal_inv E H1" if "on_eng_mem f H = Some H1" "\<And>S1. f (loc_afw_data H) = Some S1 \<Longrightarrow> eng_inv S1" for f
    using on_eng_memD [OF that(1)] that(2) h by (auto simp: hal_inv_def)
  show ?thesis
  proof (cases c)
    case HInterface
    then show ?thesis using r interface_inv [OF h] by auto
  next
    case (HInit k)
    then show ?thesis using r loc_init_inv [OF i] h by (auto simp: hal_inv_def)
  next
    case HCleanup
    have "eng_inv (loc_eng_cleanup (sendMsg m (loc_afw_data H)))" if "adapter (loc_afw_data H)" "plain m" for m
      using start_stop_inv(3) send_plain [OF i that] by blast
    then show ?thesis using r HCleanup h by (auto simp: loc_cleanup_def hal_inv_def split: if_splits)
  next
    case (HSetPositionMode a1 a2 a3 a4 a5)
    obtain x S where "loc_eng_set_position_mode (LocPosMode_new (case a1 of GPS_POSITION_MODE_MS_BASED \<Rightarrow> LOC_POSITION_MODE_MS_BASED
           | GPS_POSITION_MODE_MS_ASSISTED \<Rightarrow> LOC_POSITION_MODE_MS_ASSISTED | _ \<Rightarrow> LOC_POSITION_MODE_STANDALONE) a2 a3 a4 a5) (loc_afw_data H) = (x, S)"
      by fastforce
    moreover from this have "eng_inv S" using start_stop_inv(4) [OF i] by (metis snd_conv)
    ultimately show ?thesis using r HSetPositionMode h by (auto simp: loc_set_position_mode_def hal_inv_def)
  next
    case (HAgpsInit k)
    then show ?thesis using r m agps_init_inv [OF i] by simp
  next
    case (HSetServer t k p)
    have "eng_inv S1" if "(map_option snd \<circ> loc_agps_set_server (eng_E E) t k p) (loc_afw_data H) = Some S1" for S1
      using that set_server_inv [OF i] by (auto simp: loc_agps_set_server_def)
    then show ?thesis using r HSetServer m [of "map_option snd \<circ> loc_agps_set_server (eng_E E) t k p"] by simp
  next
    case (HXtraInjectData d l)
    have "eng_inv S1" if "(map_option snd \<circ> loc_xtra_inject_data d l) (loc_afw_data H) = Some S1" for S1
      using that xtra_inject_inv [OF i] by auto
    then show ?thesis using r HXtraInjectData m [of "map_option snd \<circ> loc_xtra_inject_data d l"] by simp
  next
    case (HConfigurationUpdate d l)
    obtain H2 where H2: "on_eng_mem (loc_eng_configuration_update d l) H = Some H2" "H1 = H2"
      using r HConfigurationUpdate h
      by (cases "on_eng_mem (loc_eng_configuration_update d l) H") (auto simp: loc_configuration_update_def hal_inv_def dest!: on_eng_memD split: if_splits)
    then show ?thesis using m [OF _ config_update_inv [OF i]] by simp
  qed (use r e start_stop_inv [OF i] more_calls_inv [OF i] ni_calls_inv [OF i] machine_msgs_inv [OF i] in
      \<open>auto simp: loc_agps_open_def loc_agps_open_with_apniptype_def loc_agps_closed_def loc_agps_open_failed_def\<close>)
qed


lemma event_inv:
  assumes i: "eng_inv S" and a: "adapter S" and o: "event_ok S e"
  shows "eng_inv (fst (modem_report e S))"
proof -
  have s: "eng_inv (sendMsg m S)" if "\<And>r. msg_ok r m" "queued_data m = []" for m
    by (rule send_inv [OF i a]) (simp_all add: that)
  have n: "eng_inv (sendMsg (Control (LocEngRequestNi x p)) S)" if "event_ok S (requestNiNotify y p)" for x y p
    using that by (intro send_inv [OF i a]) (auto simp: queued_data_def split: option.splits)
  show ?thesis using o s n i by (cases e) (auto simp: if_agps_def queued_data_def)
qed

lemma if_message_ok: "if_message r t b = Some m \<Longrightarrow> msg_ok True (Conn m) \<and> queued_data (Conn m) = []"
  by (auto simp: if_message_def queued_data_def split: if_splits)

lemma daemon_inv:
  assumes i: "eng_inv S"
  shows "eng_inv (snd (if_request_handler r S))" "loc_api_handle S \<Longrightarrow> \<exists>x S1. if_release_handler r S = Some (x, S1) \<and> eng_inv S1"
proof -
  have ra: "loc_api_handle S \<Longrightarrow> ready S \<and> adapter S" using i by (auto simp: eng_inv_def idle_def)
  have s: "eng_inv (sendMsg (Conn m) S)" if "loc_api_handle S" "if_message r t b = Some m" for t b m
    by (rule send_inv [OF i]) (use if_message_ok [OF that(2)] that(1) ra in simp_all)
  show "eng_inv (snd (if_request_handler r S))" using i s by (auto simp: if_request_handler_def split: option.split)
  show "\<exists>x S1. if_release_handler r S = Some (x, S1) \<and> eng_inv S1" if "loc_api_handle S"
    using i s that by (auto simp: if_release_handler_def split: option.split)
qed

lemma hal_step_inv: "hal_step E H x \<Longrightarrow> hal_inv E H \<Longrightarrow> \<exists>H1. x = Some H1 \<and> hal_inv E H1"
proof (induction rule: hal_step.induct)
  case (call c H H1)
  then show ?case using call_inv by blast
next
  case (event H e)
  then show ?case using event_inv by (simp add: hal_inv_def)
next
  case (request H r)
  then show ?case using daemon_inv by (simp add: hal_inv_def)
next
  case (release H r)
  then obtain x S1 where "if_release_handler r (loc_afw_data H) = Some (x, S1)" "eng_inv S1"
    using daemon_inv(2) unfolding hal_inv_def by blast
  then show ?case using release.prems by (simp add: hal_inv_def on_eng_mem_def)
next
  case (dispatch H m ms)
  then obtain S1 where "dispatch_msg (eng_E E) m (loc_afw_data H) = Some S1" "eng_inv S1"
    using dispatch_inv [where E = "eng_E E"] unfolding hal_inv_def by blast
  then show ?case using dispatch.prems by (simp add: hal_inv_def on_eng_mem_def)
next
  case (thread H S1)
  then have "eng_inv S1" using thread_inv [of "loc_afw_data H" S1] by (simp add: hal_inv_def)
  then show ?case using thread.prems by (simp add: hal_inv_def)
qed

interpretation hal: step_relation "\<lambda>H H1. hal_step E H (Some H1)" "hal_inv E" for E
  using hal_step_inv by unfold_locales blast

lemma run_rtranclp: "hal_run E H H1 \<longleftrightarrow> (\<lambda>H H1. hal_step E H (Some H1))\<^sup>*\<^sup>* H H1"
proof
  show "hal_run E H H1 \<Longrightarrow> (\<lambda>H H1. hal_step E H (Some H1))\<^sup>*\<^sup>* H H1"
    by (induction rule: hal_run.induct) (auto intro: rtranclp.rtrancl_into_rtrancl)
  show "(\<lambda>H H1. hal_step E H (Some H1))\<^sup>*\<^sup>* H H1 \<Longrightarrow> hal_run E H H1"
    by (induction rule: rtranclp_induct) (auto intro: hal_run.intros)
qed

lemma interface_start:
  assumes "get_gps_interface E hal_start = Some (H, b)" "capable (conf (loc_afw_data H))"
    "getTargetGnssType (target E) \<notin> {GNSS_GSS, GNSS_AUTO, GNSS_QCA1530}" "user_agent (dev (eng_E E)) \<noteq> None"
  shows "hal_inv E H"
proof -
  obtain M where "loc_afw_data H = eng_zero\<lparr>conf := M, configAlreadyRead := True\<rparr>" "sGnssType H = getTargetGnssType (target E)"
    using assms(1,3) by (auto simp: get_gps_interface_def on_eng_mem_def loc_eng_read_config_def hal_start_def eng_zero_def Let_def
        split: bind_splits if_splits)
  moreover have "known eng_zero = {#}" "ni_held eng_zero = []"
    by (simp_all add: known_def ni_held_def eng_zero_def raw_data_def blank_session_def)
  ultimately show ?thesis using assms(2-4)
    by (simp add: hal_inv_def eng_inv_def good_machines_def data_inv_def idle_def known_def in_queue_def)
      (simp add: eng_zero_def no_callbacks_def)
qed



text \<open>A device whose proxies have no extended capabilities and whose configuration files are missing.\<close>

definition plain_env :: hal_env where
  "plain_env = \<lparr>eng_E = \<lparr>agps_E = calm, api_result = (\<lambda>_. 0), thread_ok = (\<lambda>_. True), gethostbyname = (\<lambda>_. None), inet_aton = (\<lambda>_. None),
     dev = \<lparr>device_property = (\<lambda>_. None), izat_dev_id = 7, serial_file = Some (''12345'' @ [CHR 0x0A])\<rparr>,
     zpp_fix = (\<lambda>_. (\<lparr>has_lat_long = False, has_altitude = False, has_speed = False, has_bearing = False, latitude = Fl False 0, longitude = Fl False 0, altitude = Fl False 0, speed = Fl False 0, bearing = Fl False 0,
       timestamp = 0\<rparr>, 0))\<rparr>,
     hasAgpsExtendedCapabilities = False, hasCPIExtendedCapabilities = False, target = TARGET_SET GNSS_MSM 0,
     gps_conf_file = None, sap_conf_file = None\<rparr>"


lemma calls_run: "run_steps (hal_do E) cs H = Some H1 \<Longrightarrow> hal_run E H H1"
proof (induction cs arbitrary: H)
  case Nil
  then show ?case by (simp add: run_rtranclp)
next
  case (Cons c cs)
  obtain H2 where H2: "hal_do E c H = Some H2" "run_steps (hal_do E) cs H2 = Some H1"
    using Cons.prems by (cases "hal_do E c H") simp_all
  then show ?case using Cons.IH [OF H2(2)] hal_step.call [OF H2(1)]
      converse_rtranclp_into_rtranclp [of "\<lambda>H H1. hal_step E H (Some H1)" H H2 H1]
    unfolding run_rtranclp by blast
qed

definition all_cbs :: gps_callbacks where
  "all_cbs = \<lparr>cb_location = True, cb_status = True, cb_sv_status = True, cb_nmea = True, cb_set_capabilities = True, cb_request_utc_time = True\<rparr>"


end
