(* ===== verification/Loc_Mute_Props.thy ===== *)
theory Loc_Mute_Props
  imports Loc_Hal_Props
begin

text \<open>
  A session that a network-initiated request muted: what is reported while it lasts, and how the next request ends it.
\<close>

subsection \<open>Nothing of the position is reported\<close>

text \<open>A callback that tells where the device is or that it is being located.\<close>

fun shows_position :: "eng_out \<Rightarrow> bool" where
  "shows_position (Cb (CbLocation L)) = True"
| "shows_position (Cb (CbSvStatus V)) = True"
| "shows_position (Cb (CbGpsMeasurement d)) = True"
| "shows_position (Cb (CbStatus st)) = True"
| "shows_position _ = False"

text \<open>A message that can end the muted session: its end, the end of the engine, or a request that mutes another.\<close>

fun ends_mute :: "eng_msg \<Rightarrow> bool" where
  "ends_mute (Control LocEngDown) = True"
| "ends_mute (Control (LocEngRequestNi n p)) = privacy_override n"
| "ends_mute (Report (LocEngReportStatus st)) = (st = GPS_STATUS_SESSION_END \<or> st = GPS_STATUS_ENGINE_OFF)"
| "ends_mute _ = False"

definition quiet :: "loc_eng \<Rightarrow> loc_eng \<Rightarrow> bool" where
  "quiet S S1 \<longleftrightarrow> mute_session_state S1 = mute_session_state S \<and> adapter S1 = adapter S \<and>
    (\<exists>xs. eng_outs S1 = eng_outs S @ xs \<and> list_all (\<lambda>x. \<not> shows_position x) xs)"

lemma quiet_refl [simp]: "quiet S S"
  by (simp add: quiet_def)

lemma quiet_trans: "quiet S S1 \<Longrightarrow> quiet S1 S2 \<Longrightarrow> quiet S S2"
  by (auto simp: quiet_def)

lemma quiet_same: "mute_session_state S1 = mute_session_state S \<Longrightarrow> adapter S1 = adapter S \<Longrightarrow> eng_outs S1 = eng_outs S \<Longrightarrow> quiet S S1"
  by (simp add: quiet_def)

lemma quiet_out: "\<not> shows_position x \<Longrightarrow> quiet S (out x S)"
  by (simp add: quiet_def out_def)

lemma quiet_basic [simp]: "quiet S (sendMsg m S)" "quiet S (set_adp f S)" "quiet S (set_nif n m' S)" "quiet S (send_all ms S)"
  by (rule quiet_same; simp add: sendMsg_def set_adp_def set_nif_def send_all_eq)+

lemma quiet_api: "\<not> shows_position x \<Longrightarrow> quiet S (snd (api E x S))"
  by (simp add: api_def Let_def quiet_out)

lemma quiet_fix: "startFix E S = (r, S1) \<Longrightarrow> quiet S S1" "stopFix E S = (r, S1) \<Longrightarrow> quiet S S1"
  using quiet_api [of _ S E] unfolding startFix_def stopFix_def by (metis snd_conv shows_position.simps(5))+

lemma quiet_setInSession [simp]: "quiet S (setInSession b S)"
  by (auto simp: quiet_def setInSession_def set_adp_def out_def Let_def)

lemma quiet_handlers [simp]: "quiet S (snd (loc_eng_start_handler E S))" "quiet S (snd (loc_eng_stop_handler E S))"
  by (auto simp: loc_eng_start_handler_def loc_eng_stop_handler_def split: prod.split dest: quiet_fix intro: quiet_trans [OF _ quiet_setInSession])

lemma quiet_power [simp]: "quiet S (requestPowerVote S)"
  by (simp add: requestPowerVote_def quiet_out)

lemma quiet_aiding [simp]: "quiet S (update_aiding_data_for_deletion S)"
  by (auto simp: update_aiding_data_for_deletion_def quiet_def out_def)

lemma quiet_reinit [simp]: "quiet S (loc_eng_reinit S)"
  unfolding loc_eng_reinit_def loc_eng_xtra_version_check_def Let_def by (rule quiet_trans [OF quiet_basic(4) quiet_basic(1)])

lemma quiet_set_server: "loc_eng_set_server E type h port S = Some (r, S1) \<Longrightarrow> quiet S S1"
  by (auto simp: loc_eng_set_server_def Let_def split: if_splits option.splits)

lemma quiet_agps_reinit: "loc_eng_agps_reinit E S = Some S1 \<Longrightarrow> quiet S S1"
  by (auto simp: loc_eng_agps_reinit_def split: if_splits bind_splits dest!: quiet_set_server intro: quiet_trans)

lemma quiet_drop [simp]: "quiet S (drop_nif n S)"
  by (simp add: drop_nif_def split: option.split)

lemma quiet_up:
  assumes "loc_eng_handle_engine_up E S = Some S1"
  shows "quiet S S1"
proof -
  let ?S1 = "requestPowerVote (loc_eng_reinit S)"
  have 1: "quiet S ?S1" by (rule quiet_trans [OF quiet_reinit quiet_power])
  have d: "quiet S (drop_nif internet_nif (drop_nif agnss_nif ?S1))" by (intro quiet_trans [OF 1] quiet_trans [OF quiet_drop quiet_drop])
  obtain S2 where S2: "(if agps_status_cb (cbs ?S1) then loc_eng_agps_reinit E (drop_nif internet_nif (drop_nif agnss_nif ?S1)) else Some ?S1) = Some S2"
    "S1 = (if isInSession S2 then snd (loc_eng_start_handler E (setInSession False S2)) else S2)"
    using assms by (auto simp: loc_eng_handle_engine_up_def Let_def split: bind_splits)
  have "quiet S S2" using S2(1) 1 quiet_trans [OF d quiet_agps_reinit] by (auto split: if_splits)
  moreover have "quiet S2 S1" unfolding S2(2) by (simp add: quiet_trans [OF quiet_setInSession quiet_handlers(1)])
  ultimately show ?thesis by (rule quiet_trans)
qed

lemma quiet_nif: "on_nif p f S = Some S1 \<Longrightarrow> quiet S S1"
  by (auto simp: on_nif_def split: option.splits)

lemma quiet_release: "release_atl E i ts S = Some S1 \<Longrightarrow> quiet S S1"
proof (induction ts arbitrary: S)
  case Nil
  then show ?case using quiet_out by auto
next
  case (Cons t ts)
  obtain n s where t: "t = (n, s)" by fastforce
  obtain S2 b where u: "try_unsubscribe E n s S = Some (S2, b)" using Cons.prems by (auto simp: t split: option.splits)
  then have "quiet S S2" by (auto simp: try_unsubscribe_def split: option.splits)
  then show ?case using Cons u quiet_trans [of S S2 S1] by (auto simp: t split: if_splits)
qed

lemma quiet_conn: "conn_proc E m S = Some S1 \<Longrightarrow> quiet S S1"
  by (cases m) (auto simp: ReqRelBIT_proc_def SuplEs_event_def RequestSuplEs_proc_def RequestATL_proc_def ReleaseATL_proc_def
      ReqRelWifi_proc_def AtlOpenSuccess_proc_def Let_def quiet_out split: if_splits option.splits dest: quiet_nif quiet_release
      simp del: release_atl.simps)

lemma quiet_config [simp]: "quiet S (config_proc E m S)"
proof (cases m)
  case LocEngGnssConstellationConfig
  have "quiet S1 (S1\<lparr>conf := c\<rparr>)" for S1 c by (rule quiet_same) simp_all
  then show ?thesis using LocEngGnssConstellationConfig quiet_api [of "Api GnssConstellationConfig" S E] quiet_trans
    by (auto split: prod.split)
next
  case (LocEngEnableData apn enable)
  then show ?thesis using quiet_trans [OF quiet_out quiet_out] by (simp add: Let_def quiet_out split: option.split)
qed (simp_all add: setTime_def setXtraVersionCheck_def quiet_out)

text \<open>Reports while the session is muted.\<close>

lemma quiet_report:
  assumes "mute_session_state S = MUTE_SESS_IN_SESSION" "report_proc E m S = Some S1" "\<not> ends_mute (Report m)"
  shows "quiet S S1"
proof (cases m)
  case (LocEngReportStatus st)
  have "quiet S (loc_eng_report_status st S)"
    using assms(1,3) LocEngReportStatus by (intro quiet_same) (simp_all add: loc_eng_report_status_def mute_on_status_def Let_def)
  then show ?thesis using LocEngReportStatus assms(2) quiet_trans [OF _ quiet_aiding] by auto
qed (use assms in \<open>auto simp: ReportPosition_proc_def ReportSv_proc_def ReportNmea_proc_def ReportXtraServer_proc_def RequestXtra_proc_def
    RequestTime_proc_def ReportGpsMeasurement_proc_def quiet_out Let_def\<close>)

lemma quiet_control:
  assumes "control_proc E m S = Some S1" "\<not> ends_mute (Control m)"
  shows "quiet S S1"
proof (cases m)
  case (LocEngRequestNi n p)
  have "mute_session_state (loc_eng_ni_request_handler n p c S) = mute_session_state S" for c
    using assms(2) LocEngRequestNi
    by (cases "kind_of n") (auto simp: loc_eng_ni_request_handler_def open_session_def ni_free_def Let_def split: option.split)
  then show ?thesis using LocEngRequestNi assms(1)
    by (auto intro!: quiet_same simp: more_frame(3,8) [OF ni_more(1)])
next
  case (LocEngPositionMode p)
  then show ?thesis using assms(1) quiet_trans [OF quiet_basic(2) quiet_out] by (auto simp: setPositionMode_def)
next
  case LocEngGetZpp
  then show ?thesis using assms(1) quiet_trans [OF quiet_api quiet_out]
    by (auto simp: loc_eng_get_zpp_handler_def split: prod.splits) (metis snd_conv shows_position.simps)
next
  case (LocEngDelAidData f)
  have "quiet S (S\<lparr>aiding_data_for_deletion := f\<rparr>)" by (rule quiet_same) simp_all
  then show ?thesis using assms(1) LocEngDelAidData quiet_trans [OF _ quiet_aiding] by (auto simp: DelAidData_proc_def)
next
  case LocEngDataClientInit
  then show ?thesis using assms(1) quiet_api [of "Api InitDataServiceClient" S E] quiet_trans [OF _ quiet_basic(3)]
    by (auto simp: DataClientInit_proc_def split: prod.splits)
qed (use assms quiet_up quiet_trans [OF quiet_reinit quiet_basic(1)] in \<open>auto simp: quiet_out\<close>)


lemma quiet_dispatch:
  assumes m: "mute_session_state S = MUTE_SESS_IN_SESSION" and d: "dispatch_msg E m S = Some S1" "\<not> ends_mute m"
  shows "quiet S S1"
proof -
  let ?S = "S\<lparr>eng_queue := tl (eng_queue S)\<rparr>"
  have p: "proc E m ?S = Some S1" using d(1) by (simp add: dispatch_msg_def)
  have "quiet ?S S1"
  proof (cases m)
    case (Control c)
    then show ?thesis using p d(2) quiet_control by simp
  next
    case (Config c)
    then show ?thesis using p quiet_config [of ?S E c] by simp
  next
    case (Report c)
    then show ?thesis using p d(2) m quiet_report [of ?S E c S1] by simp
  next
    case (Conn c)
    then show ?thesis using p quiet_conn by simp
  qed
  moreover have "quiet S ?S" by (rule quiet_same) simp_all
  ultimately show ?thesis using quiet_trans by blast
qed

subsection \<open>Calls and threads\<close>

lemma thread_mute: "ni_thread_step S S1 \<Longrightarrow> mute_session_state S1 = mute_session_state S"
proof (induction rule: ni_thread_step.induct)
  case (start i S k)
  then show ?case by (cases k) (auto simp: ni_thread_start_def leave_def ni_thread_leave_def set_phase_def ni_free_def Let_def split: option.split)
next
  case (wake i S k d)
  then show ?case by (cases k) (auto simp: leave_def ni_thread_leave_def set_phase_def ni_free_def Let_def split: option.split)
next
  case (timed_out i S k d)
  then show ?case by (cases k) (auto simp: ni_thread_timeout_def leave_def ni_thread_leave_def set_phase_def ni_free_def Let_def split: option.split)
next
  case (finish i S k m)
  then show ?case by (cases k) (auto simp: ni_thread_end_def Let_def)
qed (simp_all add: LocEngInformNiResponse_proc_def ni_free_def)

lemma quiet_ni: "quiet S (loc_eng_ni_init b S)" "quiet S (loc_eng_ni_respond n r S)"
proof -
  have "mute_session_state (loc_eng_ni_init b S) = mute_session_state S" "mute_session_state (loc_eng_ni_respond n r S) = mute_session_state S"
    by (simp_all add: loc_eng_ni_init_def loc_eng_ni_respond_def answer_session_def)
  then show "quiet S (loc_eng_ni_init b S)" "quiet S (loc_eng_ni_respond n r S)"
    by (simp_all add: quiet_same more_frame(3,8) [OF ni_more(4)] more_frame(3,8) [OF ni_more(2)])
qed

lemma quiet_start_stop [simp]: "quiet S (snd (loc_eng_start S))" "quiet S (snd (loc_eng_stop S))" "quiet S (loc_eng_cleanup S)"
  "quiet S (snd (loc_eng_set_position_mode p S))"
  by (auto simp: loc_eng_start_def sendStartFix_def loc_eng_stop_def sendStopFix_def loc_eng_cleanup_def loc_eng_set_position_mode_def
      sendFixMode_def Let_def intro: quiet_trans [OF quiet_basic(2) quiet_basic(1)])

lemma quiet_agps_init:
  assumes "loc_eng_agps_init E c S = Some S1"
  shows "quiet S S1"
proof -
  have r: "quiet S X \<Longrightarrow> loc_eng_agps_reinit E X = Some S1 \<Longrightarrow> quiet S S1" for X
    using quiet_agps_reinit quiet_trans by blast
  show ?thesis using assms unfolding loc_eng_agps_init_def Let_def
    by (auto split: if_splits option.splits elim!: r [rotated]) (auto simp: quiet_def out_def sendMsg_def set_nif_def)
qed

lemma init_inv_nonzero: "loc_init_events \<noteq> 0"
  by code_simp

lemma quiet_loc_init:
  assumes a: "adapter (loc_afw_data H)"
  shows "quiet (loc_afw_data H) (loc_afw_data (snd (loc_init E c H)))"
proof -
  have v: "quiet S (setPowerVote b S)" "quiet S (setPowerVoteRight b S)" for b S
    unfolding setPowerVote_def setPowerVoteRight_def
    by (intro quiet_trans [OF _ quiet_out] quiet_trans [OF _ quiet_power]) simp_all
  have s: "quiet S (sendMsg m (set_supports E S))" for m S
    unfolding set_supports_def by (rule quiet_trans [OF quiet_basic(2) quiet_basic(1)])
  have f: "quiet S (setPowerVote True (setPowerVoteRight b (sendMsg n (out (Api x) (sendMsg m (set_supports E S))))))" for b x m n S
    by (rule quiet_trans [OF _ v(1)], rule quiet_trans [OF _ v(2)], rule quiet_trans [OF _ quiet_basic(1)], rule quiet_trans [OF s], rule quiet_out) simp
  have e: "loc_eng_init (Some x) loc_init_events (loc_afw_data H) = (0, loc_afw_data H)" for x
    using init_inv_nonzero a by (cases x) (simp add: loc_eng_init_def)
  show ?thesis
  proof (cases c)
    case (Some k)
    show ?thesis unfolding Some loc_init_def by (simp only: e option.case prod.case Let_def HOL.simp_thms if_False) (simp add: f)
  qed (simp add: loc_init_def)
qed


lemma quiet_xtra: "loc_xtra_inject_data d len S = Some (x, S1) \<Longrightarrow> quiet S S1"
  by (auto simp: loc_xtra_inject_data_def loc_eng_xtra_inject_data_def split: option.splits if_splits)

lemma quiet_update: "loc_eng_configuration_update d len S = Some S1 \<Longrightarrow> quiet S S1"
  by (auto simp: loc_eng_configuration_update_def Let_def quiet_def send_all_eq split: if_splits option.splits)

lemma quiet_server: "loc_eng_set_server_proxy E type h port S = Some (x, S1) \<Longrightarrow> quiet S S1"
proof -
  assume r: "loc_eng_set_server_proxy E type h port S = Some (x, S1)"
  have "quiet S (S\<lparr>supl_host := v\<rparr>)" "quiet S (S\<lparr>c2k_host := v\<rparr>)" for v by (rule quiet_same; simp)+
  then show ?thesis using r
    by (auto simp: loc_eng_set_server_proxy_def split: option.splits server_type.splits if_splits dest!: quiet_set_server intro: quiet_trans)
qed

lemma quiet_more [simp]:
  "quiet S (snd (loc_eng_inject_time t tf u S))" "quiet S (snd (loc_eng_inject_location lat lon acc S))"
  "quiet S (loc_eng_delete_aiding_data f S)" "quiet S (snd (loc_xtra_init b S))" "quiet S (snd (loc_eng_gps_measurement_init c S))"
  "quiet S (loc_eng_gps_measurement_close S)" "quiet S (loc_eng_agps_ril_update_network_availability av apn S)"
  "quiet S (snd (loc_eng_agps_install_certificates cs S))" "quiet S (snd (loc_eng_agps_open y apn x S))"
  "quiet S (snd (loc_eng_agps_closed y S))" "quiet S (snd (loc_eng_agps_open_failed y S))"
  by (auto simp: loc_eng_agps_open_def loc_eng_agps_closed_def loc_eng_agps_open_failed_def loc_eng_inject_time_def loc_eng_inject_location_def
      loc_eng_delete_aiding_data_def loc_xtra_init_def loc_eng_xtra_init_def loc_eng_gps_measurement_init_def loc_eng_gps_measurement_close_def
      loc_eng_agps_ril_update_network_availability_def loc_eng_agps_install_certificates_def quiet_def sendMsg_def Let_def split: option.splits)

lemma quiet_call:
  assumes r: "hal_do E c H = Some H1" and a: "adapter (loc_afw_data H)"
  shows "quiet (loc_afw_data H) (loc_afw_data H1)"
proof -
  have w: "quiet S (without_ms S)" for S by (rule quiet_same) (simp_all add: without_ms_def)
  have m: "quiet (loc_afw_data H) (loc_afw_data H2)" if "on_eng_mem f H = Some H2" "\<And>S1. f (loc_afw_data H) = Some S1 \<Longrightarrow> quiet (loc_afw_data H) S1" for f H2
    using on_eng_memD [OF that(1)] that(2) by auto
  show ?thesis
  proof (cases c)
    case HInterface
    have c: "quiet S S1" if "loc_eng_read_config f g S = Some S1" for f g S S1
      using that by (auto simp: loc_eng_read_config_def quiet_def split: if_splits bind_splits)
    obtain H2 where "on_eng_mem (loc_eng_read_config (gps_conf_file E) (sap_conf_file E)) H = Some H2"
      "loc_afw_data H1 = loc_afw_data H2 \<or> loc_afw_data H1 = without_ms (loc_afw_data H2)"
      using r HInterface by (auto simp: get_gps_interface_def Let_def split: bind_splits if_splits)
    then show ?thesis using m c quiet_trans [OF _ w] by auto
  next
    case (HInit k)
    then show ?thesis using r quiet_loc_init [OF a] by auto
  next
    case HCleanup
    then show ?thesis using r quiet_trans [OF quiet_basic(1) quiet_start_stop(3)] by (auto simp: loc_cleanup_def split: if_splits)
  next
    case (HSetPositionMode a1 a2 a3 a4 a5)
    have "quiet (loc_afw_data H) (loc_afw_data (snd (loc_set_position_mode a1 a2 a3 a4 a5 H)))"
      using quiet_start_stop(4) by (simp add: loc_set_position_mode_def split_beta Let_def)
    then show ?thesis using r HSetPositionMode by auto
  next
    case (HAgpsInit k)
    then show ?thesis using r m quiet_agps_init by simp
  next
    case (HSetServer t k p)
    have "quiet (loc_afw_data H) S1" if "(map_option snd \<circ> loc_agps_set_server (eng_E E) t k p) (loc_afw_data H) = Some S1" for S1
      using that quiet_server by (auto simp: loc_agps_set_server_def)
    then show ?thesis using r HSetServer m [of "map_option snd \<circ> loc_agps_set_server (eng_E E) t k p"] by simp
  next
    case (HXtraInjectData d l)
    have "quiet (loc_afw_data H) S1" if "(map_option snd \<circ> loc_xtra_inject_data d l) (loc_afw_data H) = Some S1" for S1
      using that quiet_xtra by auto
    then show ?thesis using r HXtraInjectData m [of "map_option snd \<circ> loc_xtra_inject_data d l"] by simp
  next
    case (HConfigurationUpdate d l)
    obtain H2 where H2: "on_eng_mem (loc_eng_configuration_update d l) H = Some H2" "H1 = H2 \<or> H1 = on_eng without_ms H2"
      using r HConfigurationUpdate by (cases "on_eng_mem (loc_eng_configuration_update d l) H") (auto simp: loc_configuration_update_def split: if_splits)
    then show ?thesis using m [OF H2(1) quiet_update] quiet_trans [OF _ w] by auto
  qed (use r in \<open>auto simp: quiet_ni loc_agps_open_def loc_agps_open_with_apniptype_def loc_agps_closed_def loc_agps_open_failed_def\<close>)
qed

text \<open>Every step but the handling of a message that can end the muted session.\<close>

definition muted_step :: "hal_env \<Rightarrow> loc_hal \<Rightarrow> loc_hal \<Rightarrow> bool" where
  "muted_step E H H1 \<longleftrightarrow> hal_step E H (Some H1) \<and>
    (case eng_queue (loc_afw_data H) of
       m # ms \<Rightarrow> \<not> (ends_mute m \<and> on_eng_mem (dispatch_msg (eng_E E) m) H = Some H1)
     | [] \<Rightarrow> True)"

definition muted :: "loc_eng \<Rightarrow> loc_eng \<Rightarrow> bool" where
  "muted S0 S \<longleftrightarrow> adapter S \<and> mute_session_state S = MUTE_SESS_IN_SESSION \<and> quiet S0 S"

lemma muted_quiet: "muted S0 S \<Longrightarrow> quiet S S1 \<Longrightarrow> muted S0 S1"
  using quiet_trans [of S0 S S1] by (simp add: muted_def) (simp add: quiet_def)

lemma quiet_event: "quiet S (fst (modem_report e S))"
  by (cases e) (auto simp: if_agps_def)

lemma quiet_daemon: "quiet S (snd (if_request_handler r S))" "if_release_handler r S = Some (x, S1) \<Longrightarrow> quiet S S1"
  by (auto simp: if_request_handler_def if_release_handler_def split: option.splits if_splits)

lemma muted_kept:
  assumes "muted_step E H H1" "muted S0 (loc_afw_data H)"
  shows "muted S0 (loc_afw_data H1)"
proof -
  have s: "hal_step E H (Some H1)" using assms(1) by (simp add: muted_step_def)
  have m: "mute_session_state (loc_afw_data H) = MUTE_SESS_IN_SESSION" "adapter (loc_afw_data H)" using assms(2) by (simp_all add: muted_def)
  from s have "quiet (loc_afw_data H) (loc_afw_data H1)"
  proof cases
    case (call c)
    then show ?thesis using quiet_call m(2) by blast
  next
    case (event e)
    then show ?thesis by (simp add: quiet_event)
  next
    case (request r)
    then show ?thesis by (simp add: quiet_daemon)
  next
    case (release r)
    then show ?thesis using quiet_daemon(2) by (auto dest!: on_eng_memD [OF sym])
  next
    case (dispatch m ms)
    then have "\<not> ends_mute m" using assms(1) by (simp add: muted_step_def)
    moreover obtain S1 where "dispatch_msg (eng_E E) m (loc_afw_data H) = Some S1" "H1 = H\<lparr>loc_afw_data := S1\<rparr>"
      using on_eng_memD [OF dispatch(1) [symmetric]] by blast
    ultimately show ?thesis using quiet_dispatch [OF m(1)] by simp
  next
    case (thread S1)
    then show ?thesis using thread_mute [OF thread(2)] more_frame(3,8) [OF thread_more [OF thread(2)]] by (simp add: quiet_same)
  qed
  then show ?thesis by (rule muted_quiet [OF assms(2)])
qed

interpretation muting: step_relation "muted_step E" "\<lambda>H. muted S0 (loc_afw_data H)" for E S0
  by unfold_locales (rule muted_kept)

text \<open>
  C5. While a session is muted, until a message that ends it is handled: in every order of calls, reports, messages and threads, no callback
  with a position, satellites, a raw measurement or a status is called, and the session stays muted. (The code does not mute sentences of
  NMEA that come from the modem; they are not part of the statement.)
\<close>

theorem muted_session_silent:
  assumes "(muted_step E)\<^sup>*\<^sup>* H H1" "adapter (loc_afw_data H)" "mute_session_state (loc_afw_data H) = MUTE_SESS_IN_SESSION"
  shows "mute_session_state (loc_afw_data H1) = MUTE_SESS_IN_SESSION \<and>
    (\<exists>xs. eng_outs (loc_afw_data H1) = eng_outs (loc_afw_data H) @ xs \<and> filter shows_position xs = [])"
proof -
  have "muted (loc_afw_data H) (loc_afw_data H)" using assms(2,3) by (simp add: muted_def)
  from muting.reachable_keeps [OF assms(1) this] show ?thesis by (auto simp: muted_def quiet_def filter_empty_conv list_all_iff)
qed


text \<open>A raw measurement that comes while a session is muted.\<close>

definition muted_eng :: loc_hal where
  "muted_eng = hal_start\<lparr>loc_afw_data := eng_zero\<lparr>adapter := True, mute_session_state := MUTE_SESS_IN_SESSION,
     cbs := no_callbacks\<lparr>gps_measurement_cb := True\<rparr>, eng_queue := [Report (LocEngReportGpsMeasurement 5)]\<rparr>\<rparr>"

lemma muted_session_silent_witness:
  "\<exists>H1. on_eng_mem (dispatch_msg (eng_E plain_env) (Report (LocEngReportGpsMeasurement 5))) muted_eng = Some H1 \<and>
     eng_queue (loc_afw_data H1) = [] \<and> mute_session_state (loc_afw_data H1) = MUTE_SESS_IN_SESSION \<and>
     (\<exists>xs. eng_outs (loc_afw_data H1) = eng_outs (loc_afw_data muted_eng) @ xs \<and> filter shows_position xs = [])"
proof -
  obtain H1 where H1: "on_eng_mem (dispatch_msg (eng_E plain_env) (Report (LocEngReportGpsMeasurement 5))) muted_eng = Some H1"
    "eng_queue (loc_afw_data H1) = []"
    by (simp add: on_eng_mem_def dispatch_msg_def muted_eng_def hal_start_def ReportGpsMeasurement_proc_def)
  have q: "eng_queue (loc_afw_data muted_eng) = [Report (LocEngReportGpsMeasurement 5)]" by (simp add: muted_eng_def)
  then have "hal_step plain_env muted_eng (Some H1)" using hal_step.dispatch [OF q, where E = plain_env] H1(1) by simp
  then have "(muted_step plain_env)\<^sup>*\<^sup>* muted_eng H1" by (intro r_into_rtranclp) (simp add: muted_step_def q)
  from muted_session_silent [OF this] H1 show ?thesis by (simp add: muted_eng_def)
qed

subsection \<open>How the next request ends the muting\<close>

lemma position_quiet:
  assumes "mute_session_state S \<noteq> MUTE_SESS_IN_SESSION" "report_location L st tech S = (S1, b)"
  shows "quiet S1 (ReportPosition_proc E L X st tech S)"
proof -
  have "quiet S (snd (stopFix E S))" for S using quiet_fix(2) [of E S] by (cases "stopFix E S") simp
  then have e: "quiet S (end_single_shot E st S)" for S
    unfolding end_single_shot_def by (simp add: quiet_trans [OF _ quiet_setInSession])
  have n: "quiet S (nmea_position L X c S)" for S c by (rule quiet_same) (simp_all add: nmea_position_def)
  have g: "quiet S (eng_free q S)" for q S by (rule quiet_same) (simp_all add: eng_free_def split: option.split)
  define S2 where "S2 = (if b then end_single_shot E st S1 else S1)"
  define S3 where "S3 = (if generateNmea S2 \<and> isInSession S2 then nmea_position L X (b \<and> st \<noteq> LOC_SESS_FAILURE) S2 else S2)"
  have "quiet S1 S2" "quiet S2 S3" using e n by (simp_all add: S2_def S3_def)
  then have "quiet S1 (eng_free (rawData L) S3)" using g quiet_trans by blast
  moreover have "ReportPosition_proc E L X st tech S = eng_free (rawData L) S3"
    unfolding ReportPosition_proc_def S3_def S2_def using assms by (simp only: if_True Let_def prod.case not_False_eq_True)
  ultimately show ?thesis by simp
qed

text \<open>
  C23. A request that overrides privacy and comes while a session is muted makes the engine wait for another session to mute: the session
  that is still running is muted no more, and its next fix is reported.
\<close>

theorem muting_lost:
  assumes "mute_session_state S = MUTE_SESS_IN_SESSION" "privacy_override n" "ni_notify_cb S" "session_free (kind_of n) S"
    and "location_cb (cbs S)" "final_fix st tech"
  shows "\<exists>S1. run_steps (proc E) [Control (LocEngRequestNi n p), Report (LocEngReportPosition L X st tech)] S = Some S1 \<and>
    Cb (CbLocation (Some L)) \<in> set (drop (length (eng_outs S)) (eng_outs S1))"
proof -
  let ?S1 = "loc_eng_ni_request_handler n p (thread_ok E (eng_outs S)) S"
  have m: "mute_session_state ?S1 = MUTE_SESS_WAIT"
    using assms(2-4) by (cases "kind_of n") (simp_all add: loc_eng_ni_request_handler_def open_session_def loc_eng_mute_one_session_def Let_def)
  have f: "cbs ?S1 = cbs S" "eng_outs ?S1 = eng_outs S" by (simp_all add: more_frame [OF ni_more(1)])
  have st: "st \<noteq> LOC_SESS_FAILURE" using assms(6) by (auto simp: final_fix_def)
  let ?S2 = "out (Cb (CbLocation (Some L))) ?S1"
  have "report_location L st tech ?S1 = (?S2, True)"
    using assms(5,6) f st by (simp add: report_location_def report_wanted_def)
  then have S2: "quiet ?S2 (ReportPosition_proc E L X st tech ?S1)" (is "quiet _ ?S3") by (rule position_quiet [rotated]) (simp add: m)
  have "eng_outs ?S2 = eng_outs S @ [Cb (CbLocation (Some L))]" by (simp add: out_def f)
  then have "\<exists>xs. eng_outs ?S3 = eng_outs S @ Cb (CbLocation (Some L)) # xs" using S2 by (auto simp: quiet_def)
  then show ?thesis by auto
qed


definition asked :: ni_notification where
  "asked = \<lparr>ni_type = 1, privacy_override = True, timeout = 0\<rparr>"

definition muted_nav :: loc_eng where
  "muted_nav = (loc_afw_data muted_eng)\<lparr>ni_notify_cb := True, cbs := no_callbacks\<lparr>location_cb := True\<rparr>\<rparr>"

definition some_fix :: ulp_location where
  "some_fix = \<lparr>gpsLocation = fst (zpp_fix (eng_E plain_env) []), has_accuracy = False, accuracy = Fl False 0, position_source = 0, rawData = None\<rparr>"

definition some_ext :: location_extended where
  "some_ext = \<lparr>has_dop = False, has_altitude_msl = False, has_mag_dev = False, altitudeMeanSeaLevel = Fl False 0, pdop = Fl False 0,
     hdop = Fl False 0, vdop = Fl False 0, magneticDeviation = Fl False 0\<rparr>"

lemma muting_lost_witness:
  "\<exists>S1. run_steps (proc (eng_E plain_env)) [Control (LocEngRequestNi asked (Some 9)),
      Report (LocEngReportPosition some_fix some_ext LOC_SESS_SUCCESS 1)] muted_nav = Some S1 \<and>
    Cb (CbLocation (Some some_fix)) \<in> set (drop (length (eng_outs muted_nav)) (eng_outs S1))"
proof (rule muting_lost)
  show "final_fix LOC_SESS_SUCCESS 1" by code_simp
qed (simp_all add: muted_nav_def muted_eng_def asked_def eng_zero_def session_free_def kind_of_def GPS_NI_TYPE_EMERGENCY_SUPL_def blank_session_def)

end
