(* ===== verification/Loc_Eng_Behaviour.thy ===== *)
theory Loc_Eng_Behaviour
  imports Loc_Mute_Props
begin

text \<open>
  Single operations of the location engine: what is deleted of the assistance data, an update of the configuration, the certificates, the
  restart of the modem, a single fix, and data connections without the assisted modes.
\<close>

unbundle bit_operations_syntax

subsection \<open>Assistance data\<close>

definition deletes :: "eng_out list \<Rightarrow> 16 word list" where
  "deletes xs = concat (map (\<lambda>x. case x of Fix (DeleteAidingData f) \<Rightarrow> [f] | _ \<Rightarrow> []) xs)"

lemma delete_while_on:
  assumes "engine_status S = GPS_STATUS_ENGINE_ON" "fs \<noteq> []"
  shows "run_steps (proc E) (map (\<lambda>f. Control (LocEngDelAidData f)) fs) S = Some (S\<lparr>aiding_data_for_deletion := last fs\<rparr>)"
  using assms
proof (induction fs arbitrary: S)
  case (Cons f fs)
  have d: "proc E (Control (LocEngDelAidData f)) S = Some (S\<lparr>aiding_data_for_deletion := f\<rparr>)"
    using Cons.prems(1) by (simp add: DelAidData_proc_def update_aiding_data_for_deletion_def)
  show ?case
  proof (cases "fs = []")
    case True
    with d show ?thesis by simp
  next
    case False
    then show ?thesis using d Cons.IH [of "S\<lparr>aiding_data_for_deletion := f\<rparr>"] Cons.prems(1) by simp
  qed
qed simp

text \<open>
  C38. Requests to delete assistance data that come while the engine is on wait until it is off, and the last of them replaces the others:
  only its data is deleted, and what only earlier requests named is kept.
\<close>

theorem aiding_data_last_wins:
  assumes "engine_status S = GPS_STATUS_ENGINE_ON" "fs \<noteq> []"
    and "run_steps (proc E) (map (\<lambda>f. Control (LocEngDelAidData f)) fs @ [Report (LocEngReportStatus GPS_STATUS_ENGINE_OFF)]) S = Some S1"
  shows "deletes (drop (length (eng_outs S)) (eng_outs S1)) = (if last fs = 0 then [] else [last fs]) \<and> aiding_data_for_deletion S1 = 0"
proof -
  let ?S = "S\<lparr>aiding_data_for_deletion := last fs\<rparr>"
  define S2 where "S2 = loc_eng_report_status GPS_STATUS_ENGINE_OFF ?S"
  have S1: "S1 = update_aiding_data_for_deletion S2" using assms(3) delete_while_on [OF assms(1,2)] by (simp add: run_steps_append S2_def)
  have f: "engine_status S2 = GPS_STATUS_ENGINE_OFF" "aiding_data_for_deletion S2 = last fs"
    by (simp_all add: S2_def loc_eng_report_status_def Let_def loc_inform_gps_status_def out_def)
  have "\<exists>xs. eng_outs S2 = eng_outs S @ xs \<and> deletes xs = []"
    by (auto simp: S2_def loc_eng_report_status_def Let_def loc_inform_gps_status_def out_def deletes_def)
  then show ?thesis by (auto simp: S1 update_aiding_data_for_deletion_def f out_def deletes_def)
qed

lemma aiding_data_last_wins_witness:
  "\<exists>S1. run_steps (proc (eng_E plain_env)) [Control (LocEngDelAidData 1), Control (LocEngDelAidData 2), Report (LocEngReportStatus GPS_STATUS_ENGINE_OFF)]
      (eng_zero\<lparr>engine_status := GPS_STATUS_ENGINE_ON\<rparr>) = Some S1 \<and> deletes (eng_outs S1) = [2]"
proof -
  let ?S = "eng_zero\<lparr>engine_status := GPS_STATUS_ENGINE_ON\<rparr>"
  obtain S1 where "run_steps (proc (eng_E plain_env)) (map (\<lambda>f. Control (LocEngDelAidData f)) [1, 2] @ [Report (LocEngReportStatus GPS_STATUS_ENGINE_OFF)]) ?S = Some S1"
    using delete_while_on [of ?S "[1, 2]" "eng_E plain_env"] by (simp add: run_steps_append del: list.map)
  from aiding_data_last_wins [OF _ _ this] this show ?thesis by (simp add: eng_zero_def)
qed

subsection \<open>Updates of the configuration\<close>



subsection \<open>Certificates\<close>

lemma pop_lowest: "x \<noteq> 0 \<Longrightarrow> card {i. bit (x AND (x - 1)) i} + 1 = card {i. bit (x :: nat) i}"
proof (induction x rule: less_induct)
  case (less x)
  have dbl: "card {i. bit (2 * y) i} = card {i. bit y i}" for y :: nat
  proof -
    have "{i. bit (2 * y) i} = Suc ` {i. bit y i}" by (auto simp: bit_double_iff image_iff) (metis Suc_pred not_gr_zero)
    then show ?thesis by (simp add: card_image)
  qed
  have fin: "finite {i. bit y i}" for y :: nat
  proof (rule finite_subset)
    show "{i. bit y i} \<subseteq> {..<y}"
    proof
      fix i assume "i \<in> {i. bit y i}"
      then have "2 ^ i \<le> y" by (simp add: bit_iff_odd) (metis div_less even_zero linorder_not_less)
      moreover have "i < 2 ^ i" by (rule less_exp)
      ultimately show "i \<in> {..<y}" by (simp only: lessThan_iff)
    qed
  qed simp
  have odd: "card {i. bit (2 * y + 1) i} = card {i. bit y i} + 1" for y :: nat
  proof -
    have "bit (2 * y + 1) i \<longleftrightarrow> i = 0 \<or> bit (2 * y) i" for i by (cases i) (simp_all add: bit_Suc bit_0)
    then have "{i. bit (2 * y + 1) i} = insert 0 {i. bit (2 * y) i}" by blast
    then show ?thesis using fin [of "2 * y"] dbl [of y] by (simp add: bit_double_iff)
  qed
  show ?case
  proof (cases "even x")
    case True
    then obtain y where y: "x = 2 * y" by (auto elim: evenE)
    have "2 * y AND (2 * y - 1) = 2 * (y AND (y - 1))" using less.prems y
      by (subst and_nat_rec) (cases y; simp)
    then show ?thesis using less.IH [of y] less.prems y dbl [of y] dbl [of "y AND (y - 1)"] by simp
  next
    case False
    then obtain y where y: "x = 2 * y + 1" by (auto elim: oddE)
    have "(2 * y + 1) AND (2 * y) = 2 * y" by (subst and_nat_rec) simp
    then show ?thesis using y odd [of y] dbl [of y] by simp
  qed
qed


lemma slot_count_nat: "slot_count w n = n + card {i. bit (unat w) i}"
proof (induction w n rule: slot_count.induct)
  case (1 w n)
  show ?case
  proof (cases "w = 0")
    case False
    then have u: "unat (w AND (w - 1)) = unat w AND (unat w - 1)" "unat w \<noteq> 0" by (simp_all add: unsigned_and_eq unat_minus_one unat_eq_0)
    have "card {i. bit (unat w AND (unat w - 1)) i} + 1 = card {i. bit (unat w) i}" by (rule pop_lowest [OF u(2)])
    then show ?thesis using False 1 u by (subst slot_count.simps) simp
  qed (simp add: slot_count.simps)
qed

text \<open>
  C39. The loop that clears the lowest bit of the mask counts its bits, for every mask; so certificates are accepted if, and only if, there is an
  adapter, there are no more of them than writable slots, and none is longer than 2000 bytes, and every refusal has its code.
\<close>

theorem certificates_accepted:
  "loc_eng_agps_install_certificates certificates S =
    (if certificates = [] then (0, S)
     else if \<not> adapter S then (-100, S)
     else if card {i. bit (conf_num (conf S) AGPS_CERT_WRITABLE_MASK) i} < length certificates then (-101, S)
     else if filter (\<lambda>c. length c > 2000) certificates \<noteq> [] then (-100, S)
     else (0, S\<lparr>eng_queue := eng_queue S @ [Config (LocEngInstallAGpsCert certificates (conf_num (conf S) AGPS_CERT_WRITABLE_MASK))]\<rparr>))"
proof -
  have b: "{i. bit (unat w) i} = {i. bit w i}" for w :: "32 word" by (auto simp: bit_unsigned_iff dest: bit_imp_le_length)
  have "slot_count w 0 = card {i. bit w i}" for w by (simp add: slot_count_nat b)
  then show ?thesis
    by (auto simp: loc_eng_agps_install_certificates_def sendMsg_def list_ex_iff filter_empty_conv AGPS_CERTIFICATE_MAX_LENGTH_def
        AGPS_CERTIFICATE_OPERATION_SUCCESS_def AGPS_CERTIFICATE_ERROR_GENERIC_def AGPS_CERTIFICATE_ERROR_TOO_MANY_CERTIFICATES_def Let_def)
qed


subsection \<open>Restart of the modem\<close>

lemma agps_reinit_frame:
  assumes "loc_eng_agps_reinit E S = Some S1"
  shows "eng_outs S1 = eng_outs S \<and> adp S1 = adp S \<and> supl_host S1 = supl_host S"
proof -
  have s: "eng_outs S2 = eng_outs S0 \<and> adp S2 = adp S0 \<and> supl_host S2 = supl_host S0 \<and> c2k_host S2 = c2k_host S0"
    if "loc_eng_set_server E t h p S0 = Some (r, S2)" for t h p r S0 S2
    using that by (auto simp: loc_eng_set_server_def sendMsg_def Let_def split: if_splits option.splits)
  show ?thesis using assms by (auto simp: loc_eng_agps_reinit_def split: if_splits bind_splits dest!: s)
qed

lemma restart_prefix:
  assumes "loc_eng_handle_engine_up E S = Some S1"
  obtains S2 xs where "S1 = (if isInSession S2 then snd (loc_eng_start_handler E (setInSession False S2)) else S2)"
    "eng_outs S2 = eng_outs S @ map Api xs" "adp S2 = adp S"
proof -
  let ?S0 = "requestPowerVote (loc_eng_reinit S)"
  obtain S2 where S2: "(if agps_status_cb (cbs ?S0) then loc_eng_agps_reinit E (drop_nif internet_nif (drop_nif agnss_nif ?S0)) else Some ?S0) = Some S2"
    "S1 = (if isInSession S2 then snd (loc_eng_start_handler E (setInSession False S2)) else S2)"
    using assms by (auto simp: loc_eng_handle_engine_up_def Let_def split: bind_splits)
  have r: "eng_outs (loc_eng_reinit S) = eng_outs S" "adp (loc_eng_reinit S) = adp S"
    by (simp_all add: loc_eng_reinit_def loc_eng_xtra_version_check_def sendMsg_def send_all_eq Let_def)
  have p: "\<exists>xs. eng_outs (requestPowerVote S) = eng_outs S @ map Api xs" "adp (requestPowerVote S) = adp S" for S
    by (auto simp: requestPowerVote_def out_def intro: exI [of _ "[]"] exI [of _ "[_]"])
  have d: "eng_outs (drop_nif n S) = eng_outs S" "adp (drop_nif n S) = adp S" for n S by (simp_all add: drop_nif_def set_nif_def split: option.split)
  have "eng_outs S2 = eng_outs ?S0" "adp S2 = adp ?S0" using S2(1) agps_reinit_frame [of E _ S2] by (auto simp: d split: if_splits)
  with that S2(2) r p [of "loc_eng_reinit S"] show ?thesis by auto
qed

definition fix_calls :: "eng_out list \<Rightarrow> fix_call list" where
  "fix_calls xs = concat (map (\<lambda>x. case x of Fix f \<Rightarrow> [f] | _ \<Rightarrow> []) xs)"

lemma fix_calls_simps [simp]:
  "fix_calls (xs @ ys) = fix_calls xs @ fix_calls ys" "fix_calls (map Api as) = []" "fix_calls [] = []" "fix_calls (Fix f # xs) = f # fix_calls xs"
  by (simp_all add: fix_calls_def comp_def)

text \<open>
  C22. When the modem comes back during a session, the engine first ends the session, which clears the position mode, and then starts a fix:
  the fix of the new session is asked for in the invalid mode, with the intervals of the old one, and the mode is not set again.
\<close>

theorem restart_mode_invalid:
  assumes "isInSession S" "loc_eng_handle_engine_up E S = Some S1"
  shows "\<exists>xs ok. eng_outs S1 = eng_outs S @ xs \<and>
    fix_calls xs = [SetInSession False, StartFix ((mFixCriteria (adp S))\<lparr>mode := LOC_POSITION_MODE_INVALID\<rparr>)] @ (if ok then [SetInSession True] else [])"
proof -
  obtain S2 ys where S2: "S1 = (if isInSession S2 then snd (loc_eng_start_handler E (setInSession False S2)) else S2)"
    "eng_outs S2 = eng_outs S @ map Api ys" "adp S2 = adp S" using restart_prefix [OF assms(2)] .
  let ?S3 = "setInSession False S2"
  have n: "\<not> isInSession ?S3" "mFixCriteria (adp ?S3) = (mFixCriteria (adp S))\<lparr>mode := LOC_POSITION_MODE_INVALID\<rparr>"
    "eng_outs ?S3 = eng_outs S @ map Api ys @ [Fix (SetInSession False)]"
    by (simp_all add: setInSession_def set_adp_def out_def isInSession_def S2(2,3))
  obtain r S4 where S4: "startFix E ?S3 = (r, S4)" by fastforce
  then have o: "eng_outs S4 = eng_outs S @ map Api ys @ [Fix (SetInSession False), Fix (StartFix ((mFixCriteria (adp S))\<lparr>mode := LOC_POSITION_MODE_INVALID\<rparr>))]"
    using n by (auto simp: startFix_def api_def out_def Let_def)
  have t: "eng_outs (setInSession True S4) = eng_outs S4 @ [Fix (SetInSession True)]" by (simp add: setInSession_def out_def set_adp_def)
  define ok where "ok = (r = LOC_API_ADAPTER_ERR_SUCCESS \<or> r = LOC_API_ADAPTER_ERR_ENGINE_DOWN \<or> r = LOC_API_ADAPTER_ERR_PHONE_OFFLINE \<or>
    r = LOC_API_ADAPTER_ERR_INTERNAL)"
  have "S1 = (if ok then setInSession True S4 else S4)"
    using S2(1) assms(1) n(1) S4 by (simp add: loc_eng_start_handler_def isInSession_def S2(3) ok_def)
  then show ?thesis using o t by (intro exI [of _ "drop (length (eng_outs S)) (eng_outs S1)"] exI [of _ ok]) auto
qed


text \<open>A device that navigates.\<close>

definition navigating :: loc_eng where
  "navigating = eng_zero\<lparr>adapter := True, adp := (LocEngAdapter_new 0)\<lparr>mNavigating := True,
     mFixCriteria := \<lparr>mode = LOC_POSITION_MODE_STANDALONE, recurrence = GPS_POSITION_RECURRENCE_SINGLE, min_interval = 1000,
       preferred_accuracy = 0, preferred_time = 0\<rparr>\<rparr>\<rparr>"

lemma restart_mode_invalid_witness:
  "\<exists>S1 xs ok. loc_eng_handle_engine_up (eng_E plain_env) navigating = Some S1 \<and> eng_outs S1 = eng_outs navigating @ xs \<and>
    fix_calls xs = [SetInSession False, StartFix ((mFixCriteria (adp navigating))\<lparr>mode := LOC_POSITION_MODE_INVALID\<rparr>)] @ (if ok then [SetInSession True] else [])"
proof -
  obtain S1 where S1: "loc_eng_handle_engine_up (eng_E plain_env) navigating = Some S1" using kept_up by blast
  from restart_mode_invalid [OF _ S1] S1 show ?thesis by (simp add: isInSession_def navigating_def)
qed

text \<open>
  The name of the SUPL server is kept for the restarts of the modem in a buffer that is too short: a longer one is sent in full when it is
  set, and cut to 100 characters when the modem comes back, so that the device then asks another server.
\<close>

theorem server_cut_on_restart:
  assumes "adapter S" "agps_status_cb (cbs S)" "\<not> host_set (c2k_host S)"
    and "100 < length h" "length (server_url h port) < MAX_URL_LEN"
    and "loc_eng_set_server_proxy E LOC_AGPS_SUPL_SERVER (Some h) port S = Some (r, S1)" "loc_eng_handle_engine_up E' S1 = Some S2"
  shows "eng_queue S1 = eng_queue S @ [Config (LocEngSetServerUrl (server_url h port))] \<and>
    last (eng_queue S2) = Config (LocEngSetServerUrl (server_url (take 100 h) port)) \<and> server_url (take 100 h) port \<noteq> server_url h port"
proof -
  let ?b = "save_server h port"
  have none: "map to_lower h \<noteq> ''none''" "map to_lower (take 100 h) \<noteq> ''none''"
    using assms(4) by (auto dest!: arg_cong [of _ _ length])
  have l: "length (server_url (take 100 h) port) < MAX_URL_LEN" using assms(4,5) by (simp add: server_url_def)
  have S1: "S1 = sendMsg (Config (LocEngSetServerUrl (server_url h port))) (S\<lparr>supl_host := ?b\<rparr>)"
    using assms(1,5,6) none(1) by (simp add: loc_eng_set_server_proxy_def loc_eng_set_server_def)
  let ?S0 = "requestPowerVote (loc_eng_reinit S1)"
  have f: "agps_status_cb (cbs ?S0)" "host_set (supl_host ?S0)" "host_buf (supl_host ?S0) = take 100 h" "port_buf (supl_host ?S0) = port"
    "\<not> host_set (c2k_host ?S0)"
    using assms(2,3) by (simp_all add: S1 requestPowerVote_def loc_eng_reinit_def loc_eng_xtra_version_check_def send_all_eq sendMsg_def out_def
        save_server_def HOST_BUF_SIZE_def Let_def)
  have d: "supl_host (drop_nif n S) = supl_host S" "c2k_host (drop_nif n S) = c2k_host S" for n S
    by (simp_all add: drop_nif_def set_nif_def split: option.split)
  let ?S4 = "sendMsg (Config (LocEngSetServerUrl (server_url (take 100 h) port))) (drop_nif internet_nif (drop_nif agnss_nif ?S0))"
  have c: "c2k_host (sendMsg m S) = c2k_host S" for m S by (simp add: sendMsg_def)
  have "loc_eng_agps_reinit E' (drop_nif internet_nif (drop_nif agnss_nif ?S0)) = Some ?S4"
    unfolding loc_eng_agps_reinit_def by (simp add: d f c loc_eng_set_server_def none(2) l)
  then have S2: "S2 = (if isInSession ?S4 then snd (loc_eng_start_handler E' (setInSession False ?S4)) else ?S4)"
    using assms(7) f(1) by (simp add: loc_eng_handle_engine_up_def Let_def)
  have q: "eng_queue (snd (loc_eng_start_handler E' (setInSession False S))) = eng_queue S" for S
    by (simp add: loc_eng_start_handler_def setInSession_def startFix_def api_def set_adp_def out_def Let_def)
  have "last (eng_queue S2) = Config (LocEngSetServerUrl (server_url (take 100 h) port))" by (simp add: S2 q) (simp add: sendMsg_def)
  moreover have "server_url (take 100 h) port \<noteq> server_url h port" using assms(4) by (auto simp: server_url_def dest: arg_cong [of _ _ length])
  ultimately show ?thesis by (simp add: S1) (simp add: sendMsg_def)
qed

definition long_host :: string where "long_host = replicate 101 (CHR ''a'')"

definition with_agps :: loc_eng where
  "with_agps = eng_zero\<lparr>adapter := True, cbs := no_callbacks\<lparr>agps_status_cb := True\<rparr>\<rparr>"

lemma server_cut_on_restart_witness:
  "\<exists>r S1 S2. loc_eng_set_server_proxy (eng_E plain_env) LOC_AGPS_SUPL_SERVER (Some long_host) 7275 with_agps = Some (r, S1) \<and>
    loc_eng_handle_engine_up (eng_E plain_env) S1 = Some S2 \<and>
    eng_queue S1 = [Config (LocEngSetServerUrl (server_url long_host 7275))] \<and>
    last (eng_queue S2) = Config (LocEngSetServerUrl (server_url (take 100 long_host) 7275))"
proof -
  have l: "length (server_url long_host 7275) < MAX_URL_LEN" "100 < length long_host" by code_simp+
  obtain r S1 where S1: "loc_eng_set_server_proxy (eng_E plain_env) LOC_AGPS_SUPL_SERVER (Some long_host) 7275 with_agps = Some (r, S1)"
    by (auto simp: loc_eng_set_server_proxy_def loc_eng_set_server_def with_agps_def Let_def)
  obtain S2 where S2: "loc_eng_handle_engine_up (eng_E plain_env) S1 = Some S2" using kept_up by blast
  have a: "adapter with_agps" "agps_status_cb (cbs with_agps)" "\<not> host_set (c2k_host with_agps)" "eng_queue with_agps = []"
    by (simp_all add: with_agps_def eng_zero_def no_server_def)
  from server_cut_on_restart [OF a(1-3) l(2,1) S1 S2] S1 S2 a(4) show ?thesis by simp
qed

subsection \<open>A single fix\<close>

text \<open>
  The final fix of a single session is passed to the framework and ends the session before NMEA is generated, so that no NMEA sentence
  of it is ever sent, whether or not the engine generates NMEA.
\<close>

theorem single_fix_without_nmea:
  assumes "mute_session_state S \<noteq> MUTE_SESS_IN_SESSION" "location_cb (cbs S)" "final_fix st techMask"
    and "recurrence (mFixCriteria (adp S)) = GPS_POSITION_RECURRENCE_SINGLE"
  shows "Cb (CbLocation (Some L)) \<in> set (eng_outs (ReportPosition_proc E L X st techMask S)) \<and>
    \<not> isInSession (ReportPosition_proc E L X st techMask S) \<and> nmea (ReportPosition_proc E L X st techMask S) = nmea S"
proof -
  have st: "st = LOC_SESS_SUCCESS" using assms(3) by (simp add: final_fix_def)
  let ?S1 = "out (Cb (CbLocation (Some L))) S"
  have r: "report_location L st techMask S = (?S1, True)" using assms(2,3) st by (simp add: report_location_def report_wanted_def)
  have e: "end_single_shot E st ?S1 = setInSession False ?S1" using assms(4) st by (simp add: end_single_shot_def out_def)
  have n: "\<not> isInSession (setInSession False ?S1)" by (simp add: isInSession_def setInSession_def set_adp_def out_def)
  have p: "ReportPosition_proc E L X st techMask S = eng_free (rawData L) (setInSession False ?S1)"
    using assms(1) n by (simp add: ReportPosition_proc_def r e)
  show ?thesis unfolding p by (simp add: eng_free_def isInSession_def setInSession_def set_adp_def out_def split: option.split)
qed


definition with_nmea :: loc_eng where
  "with_nmea = navigating\<lparr>generateNmea := True, cbs := no_callbacks\<lparr>location_cb := True\<rparr>\<rparr>"

lemma single_fix_without_nmea_witness:
  "Cb (CbLocation (Some some_fix)) \<in> set (eng_outs (ReportPosition_proc (eng_E plain_env) some_fix some_ext LOC_SESS_SUCCESS 1 with_nmea)) \<and>
    generateNmea with_nmea \<and> isInSession with_nmea \<and>
    nmea (ReportPosition_proc (eng_E plain_env) some_fix some_ext LOC_SESS_SUCCESS 1 with_nmea) = nmea with_nmea"
proof -
  have f: "final_fix LOC_SESS_SUCCESS 1" by code_simp
  show ?thesis using single_fix_without_nmea [OF _ _ f, of with_nmea some_fix "eng_E plain_env" some_ext]
    by (simp add: with_nmea_def navigating_def eng_zero_def isInSession_def)
qed

subsection \<open>Without the assisted modes\<close>

text \<open>
  C24. Without the assisted modes in the configuration the machine for SUPL is never made, but the interface still accepts an open data connection:
  the call returns success and queues a message that dereferences NULL when the thread handles it, in whatever state it does.
\<close>

theorem agps_open_crashes:
  assumes "adapter S" "\<not> agps_status_cb (cbs S)" "\<not> capable (conf S)" "nifs S agnss_nif = None"
  shows "\<exists>S1 m. loc_eng_agps_init E (Some True) S = Some S1 \<and> loc_agps_open (Some apn) S1 = (0, sendMsg m S1) \<and>
    (\<lambda>S2. proc E m S2) = (\<lambda>S2. None)"
proof -
  let ?S1 = "set_nif wifi_nif (AgpsStateMachine_new servicerTypeAgps AGPS_TYPE_WIFI True)
    (set_nif internet_nif (AgpsStateMachine_new servicerTypeAgps AGPS_TYPE_WWAN_ANY False) (S\<lparr>cbs := (cbs S)\<lparr>agps_status_cb := True\<rparr>\<rparr>))"
  have i: "loc_eng_agps_init E (Some True) S = Some ?S1"
    using assms by (simp add: loc_eng_agps_init_def capable_def set_nif_def)
  have g: "getAgpsStateMachine ?S1 AGPS_TYPE_SUPL = None"
    using assms(4) by (simp add: getAgpsStateMachine_def set_nif_def AGPS_TYPE_SUPL_def AGPS_TYPE_WIFI_def)
  have "loc_agps_open (Some apn) ?S1 = (0, sendMsg (Conn (LocEngAtlOpenSuccess None (take MAX_APN_LEN apn) AGPS_APN_BEARER_IPV4)) ?S1)"
    using assms(1) g by (simp add: loc_agps_open_def loc_eng_agps_open_def set_nif_def)
  moreover have "(\<lambda>S2. proc E (Conn (LocEngAtlOpenSuccess None (take MAX_APN_LEN apn) AGPS_APN_BEARER_IPV4)) S2) = (\<lambda>S2. None)"
    by (simp add: AtlOpenSuccess_proc_def on_nif_def)
  ultimately show ?thesis using i by blast
qed

lemma agps_open_crashes_witness:
  "\<exists>S1 m. loc_eng_agps_init (eng_E plain_env) (Some True) (eng_zero\<lparr>adapter := True\<rparr>) = Some S1 \<and>
    loc_agps_open (Some ''net'') S1 = (0, sendMsg m S1) \<and> (\<lambda>S2. proc (eng_E plain_env) m S2) = (\<lambda>S2. None)"
  by (rule agps_open_crashes) (simp_all add: eng_zero_def no_callbacks_def capable_def conf_num_def)

end
