(* ===== verification/Spec2Isabelle.thy ===== *)
theory Spec2Isabelle
  imports Linked_List Msg_Queue Loc_Heap Loc_Timer Agps Agps_Machine Agps_Props Ril_Event Nmea_Format Nmea Nmea_Props Loc_Cfg
    Loc_Cfg_Props Ril_Radio_Props Fmr_Props Loc_Ni_Props Loc_Eng_Behaviour
begin

text \<open>
  A verification development of the native code of the Kitakami device tree: the location stack (\<open>gps/\<close>), the radio interface
  layer (\<open>libril/\<close>) and the FM radio (\<open>fmradio/\<close>). Each theory models one part of the code and opens with the correspondence of
  its definitions to the functions of the source; definitions have the names of the functions they translate. The three programs are
  independent of each other.

  \<^bold>\<open>The location stack.\<close> The framework calls the tables of functions in \<open>loc.cpp\<close> (theory \<open>Loc_Hal\<close>), which call the engine
  \<open>loc_eng.cpp\<close> (\<open>Loc_Eng_State\<close>, \<open>Loc_Eng\<close>). The engine and the reports of the modem (\<open>LocEngAdapter.cpp\<close>) put messages in a queue
  (\<open>Msg_Queue\<close>, over the list of \<open>Linked_List\<close>), which one thread handles in order. A handler calls the modem interface or the
  framework; these calls are the list \<open>eng_outs\<close> of the state. The engine holds the machines for data connections
  (\<open>Agps\<close>), the state of network-initiated requests (\<open>Loc_Ni\<close>), the generator of NMEA sentences (\<open>Nmea\<close>, \<open>Nmea_Format\<close>), the
  configuration (\<open>Loc_Cfg\<close>) and the user agent for downloads (\<open>User_Agent\<close>). Timers (\<open>Loc_Timer\<close>) are kept in a heap (\<open>Loc_Heap\<close>).

  \<^bold>\<open>The radio interface layer.\<close> A method of the client's interface (\<open>Ril_Radio\<close>, \<open>Ril_Struct\<close>) builds a request, registers it
  (\<open>Ril_Request\<close>), and a dispatch function (\<open>Ril_Dispatch\<close>) hands it to the vendor's library; the vendor completes it, and the
  response function of the table of commands (\<open>Ril_Commands\<close>) answers the client. Timers and descriptors are served by the
  event loop (\<open>Ril_Event\<close>).

  \<^bold>\<open>The FM radio.\<close> The application's functions (\<open>Fmr\<close>) write lines to a daemon (\<open>Fmd\<close>), which drives the receiver through
  registers (\<open>Fm_Proto\<close>) over one of two transports (\<open>Fm_Hci\<close>, \<open>Fm_Uart\<close>), both with the queue of \<open>Fm_Queue\<close>.

  \<^bold>\<open>Interfaces.\<close> What one part relies on in another is a locale, interpreted on the model of the provider: \<open>safe_system\<close> (runs of
  operations, total under an invariant) and \<open>step_relation\<close> (reachability under a preserved property) in \<open>Prelude\<close>, \<open>list_container\<close>
  (the list, for the queue), \<open>rankable\<close> (the order of a heap, for the timers), \<open>command_table\<close> (request numbers and their
  response functions), \<open>lossy_queue\<close> (the ring of pending events) and \<open>fm_link\<close> (a transport, for the register protocol).

  \<^bold>\<open>Conventions.\<close> Memory that is freed, a NULL pointer that is dereferenced and a read outside a buffer are the value \<open>None\<close>; a theorem
  that a function returns a value says that none of them happens. Machine integers are words where their width matters. Floating
  point numbers are rationals with a sign, rounded as the type requires. Threads are interleaved at the locks of the code; what a
  lock protects is one step.

  \<^bold>\<open>What the lemmas show.\<close>
  \<^item> Utilities: the pointer list simulates a list and is memory safe; the queue is first in, first out until it is unblocked; the
    heap is balanced; no freed timer is used, the kernel's timer is armed with the soonest time, and an expiry calls back in order.
  \<^item> Data connections: the invariant of both machines in every run, requests to and releases from the servicer in turn, what an
    event and an unsubscription do, and the use of freed memory in an unsubscription.
  \<^item> NMEA: every sentence has a right checksum and lists the satellites completely. Configuration: reading ends, and reads back what
    was written.
  \<^item> Network-initiated requests (\<open>Loc_Ni_Props\<close>): the data of a request is freed once and passed on at most once in every order of the
    threads; every request can be answered; and how an answer goes to the wrong request.
  \<^item> The engine (\<open>Loc_Eng_Props\<close>, \<open>Loc_Hal_Props\<close>): an invariant of the whole system, from which it follows that no order of
    calls, reports, messages and threads crashes the message thread on a target with an assisting modem. \<open>Loc_Mute_Props\<close>: while a
    session is muted, no callback with a position is called, and how the muting is lost. \<open>Loc_Eng_Behaviour\<close>: what updates of the
    configuration change, which certificates are accepted, and four defects (deletions that are lost, a restart with an invalid mode,
    a cut name of a server, a crash without the assisted modes).
  \<^item> Radio interface layer: every request is answered at most once and its memory used correctly, whatever the vendor and the allocator do;
    requests reach the vendor with their data; the table is well typed; the event loop.
  \<^item> FM radio: the daemon closes what it opens, the pieces in which its input comes make no difference, the
    firmware is sent in order, and tuning by the application reaches the receiver.

  \<^bold>\<open>Parameters and bounds.\<close> The modem interface and the resolution of names return what the functions of \<open>eng_env\<close> say, as a
  function of the outputs so far. The proxy for location services is the base class. The allocator of the radio
  interface layer may fail at any call, by an oracle; addresses are not used again, except where a theorem is about their reuse. The conversion of the vendor's
  structures to the values of the client's interface is the parameter \<open>C\<close>. Sentences have at most 200 characters, the event loop
  watches 8 descriptors, the ring of the FM radio has 8 places, as in the code; the structure of the card status has 408 bytes, as on a
  64-bit system. What peers send on a socket or a line is a finite list; a loop that reads ends with it, so no fuel is
  needed there. The detection of a receiver tries 15 times, as in the code. The serial number of the chip is assumed to be readable in the safety of the engine:
  \<open>getChipsetSerialNo\<close> reads before its buffer if it is only white space.

  \<^bold>\<open>Not modelled.\<close> The engine: external parsers of a location, \<open>LocInternalAdapter\<close> and \<open>setUlpProxy\<close> (called by a proprietary library
  only), the base classes of the modem interface and its proxies (\<open>LocApiBase\<close>, \<open>ContextBase\<close>: virtual defaults and loops that forward a
  report), the pipes to the daemons (input and output only), log functions. The interface: \<open>loc_get_extension\<close> and
  \<open>gps_get_hardware_interface\<close> return tables, \<open>loc_agps_revoke_certificates\<close> a constant. The radio interface layer: unsolicited indications and
  the conversions of the vendor's structures; the SIM access profile, whose messages are generated by the build; \<open>ril-wrapper\<close>.
  The camera, light, display, shim, dump, health and sensor services forward calls to proprietary libraries or files of the kernel.
\<close>

end
